(* ===== verification/Prelude.thy ===== *)
theory Prelude
  imports Main "HOL-Library.AList" "HOL-Library.Word"
begin

text \<open>
  Shared vocabulary of the development. A Go function that returns \<open>(T, error)\<close> or may
  panic is a function into \<open>'e + 'a\<close> (\<open>Inl\<close> the error); \<open>bindR\<close> is the
  early return after a failed call and \<open>foldR\<close> a \<open>for ... range\<close> loop whose body may
  return early. A Go map is an association list with distinct keys (\<open>gm_ok\<close>): the list
  order stands for the iteration order that Go leaves open, reading is \<open>map_of\<close>, assignment
  is \<open>AList.update\<close> and \<open>delete\<close> is \<open>AList.delete\<close>. The lemmas below are the
  generic facts the components use, collected in \<open>gomap\<close> and \<open>resR\<close>.
\<close>

named_theorems gomap \<open>facts about Go maps as association lists\<close>
named_theorems resR \<open>facts about fallible results\<close>

section \<open>Fallible results\<close>

type_synonym ('e, 'a) res = "'e + 'a"

definition bindR :: "('e, 'a) res \<Rightarrow> ('a \<Rightarrow> ('e, 'b) res) \<Rightarrow> ('e, 'b) res" where
  "bindR r f = (case r of Inl e \<Rightarrow> Inl e | Inr x \<Rightarrow> f x)"

lemma bindR_simps [simp]:
  "bindR (Inl e) f = Inl e"
  "bindR (Inr x) f = f x"
  by (simp_all add: bindR_def)

lemma bindR_eq_Inr [resR]: "bindR r f = Inr y \<longleftrightarrow> (\<exists>x. r = Inr x \<and> f x = Inr y)"
  by (cases r) auto

lemma bindR_eq_Inl [resR]: "bindR r f = Inl e \<longleftrightarrow> r = Inl e \<or> (\<exists>x. r = Inr x \<and> f x = Inl e)"
  by (cases r) auto

lemma bindR_cong [fundef_cong]:
  "r = r' \<Longrightarrow> (\<And>x. r' = Inr x \<Longrightarrow> f x = f' x) \<Longrightarrow> bindR r f = bindR r' f'"
  by (cases r') auto

lemma bindR_assoc: "bindR (bindR r f) g = bindR r (\<lambda>x. bindR (f x) g)"
  by (cases r) auto

definition isOk :: "('e, 'a) res \<Rightarrow> bool" where
  "isOk r = (case r of Inl _ \<Rightarrow> False | Inr _ \<Rightarrow> True)"

lemma isOk_simps [simp]: "isOk (Inr x)" "\<not> isOk (Inl e)"
  by (simp_all add: isOk_def)

lemma isOk_iff [resR]: "isOk r \<longleftrightarrow> (\<exists>x. r = Inr x)"
  by (cases r) auto

lemma isOk_bindR [resR]: "isOk (bindR r f) \<longleftrightarrow> (\<exists>x. r = Inr x \<and> isOk (f x))"
  by (cases r) auto

primrec foldR :: "('s \<Rightarrow> 'a \<Rightarrow> ('e, 's) res) \<Rightarrow> 's \<Rightarrow> 'a list \<Rightarrow> ('e, 's) res" where
  "foldR f s [] = Inr s"
| "foldR f s (x # xs) = bindR (f s x) (\<lambda>s'. foldR f s' xs)"

lemma foldR_append: "foldR f s (xs @ ys) = bindR (foldR f s xs) (\<lambda>s'. foldR f s' ys)"
  by (induction xs arbitrary: s) (simp_all add: bindR_assoc)

lemma foldR_cong [fundef_cong]:
  "s = s' \<Longrightarrow> xs = ys \<Longrightarrow> (\<And>t x. x \<in> set ys \<Longrightarrow> f t x = g t x) \<Longrightarrow> foldR f s xs = foldR g s' ys"
proof (induction xs arbitrary: s s' ys)
  case (Cons x xs)
  then show ?case by (cases "g s' x") auto
qed simp

text \<open>The loop rule: an invariant that each iteration keeps holds of the final state.\<close>

lemma foldR_invariant:
  assumes "foldR f s xs = Inr t" and "I s"
    and "\<And>s x s'. x \<in> set xs \<Longrightarrow> I s \<Longrightarrow> f s x = Inr s' \<Longrightarrow> I s'"
  shows "I t"
  using assms
proof (induction xs arbitrary: s)
  case Nil
  then show ?case by simp
next
  case (Cons x xs)
  then obtain s' where s': "f s x = Inr s'" "foldR f s' xs = Inr t"
    by (auto simp: bindR_eq_Inr)
  moreover have "I s'"
    using Cons.prems(2,3) s'(1) by (meson list.set_intros(1))
  ultimately show ?case
    using Cons.IH [of s'] Cons.prems(3) by (meson list.set_intros(2))
qed

lemma foldR_total:
  assumes "I s" and "\<And>s x. x \<in> set xs \<Longrightarrow> I s \<Longrightarrow> \<exists>s'. f s x = Inr s' \<and> I s'"
  shows "\<exists>t. foldR f s xs = Inr t \<and> I t"
  using assms
proof (induction xs arbitrary: s)
  case (Cons x xs)
  from Cons.prems obtain s' where "f s x = Inr s'" "I s'" by fastforce
  with Cons show ?case by simp
qed simp

text \<open>
  A loop over a state that keeps the changes made before an error: the body returns the new state and, when it
  failed, the error that ends the loop.
\<close>

primrec foldS :: "('s \<Rightarrow> 'a \<Rightarrow> 's \<times> 'e option) \<Rightarrow> 's \<Rightarrow> 'a list \<Rightarrow> 's \<times> 'e option" where
  "foldS f s [] = (s, None)"
| "foldS f s (x # xs) = (case f s x of (s', Some e) \<Rightarrow> (s', Some e) | (s', None) \<Rightarrow> foldS f s' xs)"

lemma foldS_cong [fundef_cong]:
  "s = s' \<Longrightarrow> xs = ys \<Longrightarrow> (\<And>t x. x \<in> set ys \<Longrightarrow> f t x = g t x) \<Longrightarrow> foldS f s xs = foldS g s' ys"
  by (induction xs arbitrary: s s' ys) (auto split: prod.splits option.splits)

lemma foldS_invariant:
  assumes "I s" and "\<And>s x. x \<in> set xs \<Longrightarrow> I s \<Longrightarrow> I (fst (f s x))"
  shows "I (fst (foldS f s xs))"
  using assms
proof (induction xs arbitrary: s)
  case (Cons x xs)
  obtain s' e where f: "f s x = (s', e)" by fastforce
  have "I s'" using Cons.prems(2) [of x s] Cons.prems(1) f by simp
  then have "I (fst (foldS f s' xs))" using Cons.IH Cons.prems(2) by simp
  then show ?case using \<open>I s'\<close> f by (cases e) auto
qed simp

lemma foldS_ok_Cons: "foldS f s (x # xs) = (t, None) \<longleftrightarrow> (\<exists>s'. f s x = (s', None) \<and> foldS f s' xs = (t, None))"
  by (auto split: prod.splits option.splits)

lemma foldS_append: "foldS f s (xs @ ys) = (case foldS f s xs of (t, Some e) \<Rightarrow> (t, Some e) | (t, None) \<Rightarrow> foldS f t ys)"
  by (induction xs arbitrary: s) (auto split: prod.splits option.splits)

text \<open>A callback whose effects are dropped on failure, inside such a loop.\<close>

definition toS :: "'s \<Rightarrow> ('e, 's) res \<Rightarrow> 's \<times> 'e option" where
  "toS s r = (case r of Inl e \<Rightarrow> (s, Some e) | Inr s' \<Rightarrow> (s', None))"

definition ofS :: "'s \<times> 'e option \<Rightarrow> ('e, 's) res" where
  "ofS p = (case snd p of None \<Rightarrow> Inr (fst p) | Some e \<Rightarrow> Inl e)"

lemma ofS_simps [simp]: "ofS (s, None) = Inr s" "ofS (s, Some e) = Inl e"
  by (simp_all add: ofS_def)

lemma ofS_foldS [simp]: "ofS (foldS (\<lambda>s x. toS s (f s x)) s xs) = foldR f s xs"
proof (induction xs arbitrary: s)
  case (Cons x xs)
  then show ?case by (cases "f s x") (simp_all add: toS_def)
qed simp

primrec mapR :: "('a \<Rightarrow> ('e, 'b) res) \<Rightarrow> 'a list \<Rightarrow> ('e, 'b list) res" where
  "mapR f [] = Inr []"
| "mapR f (x # xs) = bindR (f x) (\<lambda>y. bindR (mapR f xs) (\<lambda>ys. Inr (y # ys)))"

lemma mapR_cong [fundef_cong]:
  "xs = ys \<Longrightarrow> (\<And>x. x \<in> set ys \<Longrightarrow> f x = g x) \<Longrightarrow> mapR f xs = mapR g ys"
  by (induction xs arbitrary: ys) auto

lemma mapR_eq_Inr: "mapR f xs = Inr ys \<longleftrightarrow> list_all2 (\<lambda>x y. f x = Inr y) xs ys"
  by (induction xs arbitrary: ys) (auto simp: bindR_eq_Inr list_all2_Cons1)

lemma mapR_Inr_map: "(\<And>x. x \<in> set xs \<Longrightarrow> f x = Inr (g x)) \<Longrightarrow> mapR f xs = Inr (map g xs)"
  by (induction xs) auto

lemma mapR_total: "(\<And>x. x \<in> set xs \<Longrightarrow> isOk (f x)) \<Longrightarrow> \<exists>ys. mapR f xs = Inr ys"
  by (induction xs) (auto simp: bindR_eq_Inr isOk_iff)

lemma mapR_length: "mapR f xs = Inr ys \<Longrightarrow> length ys = length xs"
  by (induction xs arbitrary: ys) (auto simp: bindR_eq_Inr)

section \<open>Go maps\<close>

type_synonym ('k, 'v) gomap = "('k \<times> 'v) list"

abbreviation keys :: "('k, 'v) gomap \<Rightarrow> 'k list" where
  "keys m \<equiv> map fst m"

abbreviation gm_ok :: "('k, 'v) gomap \<Rightarrow> bool" where
  "gm_ok m \<equiv> distinct (keys m)"

text \<open>Equality of two maps, as \<open>reflect.DeepEqual\<close> decides it: the order plays no part.\<close>

definition gm_eq :: "('k, 'v) gomap \<Rightarrow> ('k, 'v) gomap \<Rightarrow> bool" where
  "gm_eq m n = (length m = length n \<and> list_all (\<lambda>(k, v). map_of n k = Some v) m)"

lemma map_of_update [simp, gomap]: "map_of (AList.update k v m) = (map_of m)(k \<mapsto> v)"
  by (rule AList.update_conv')

lemma map_of_delete' [simp, gomap]: "map_of (AList.delete k m) = (map_of m)(k := None)"
  by (rule AList.delete_conv')

lemma gm_ok_update [simp, intro, gomap]: "gm_ok m \<Longrightarrow> gm_ok (AList.update k v m)"
  by (rule AList.distinct_update)

lemma gm_ok_delete [simp, intro, gomap]: "gm_ok m \<Longrightarrow> gm_ok (AList.delete k m)"
  by (rule AList.distinct_delete)

lemma set_keys_update [simp, gomap]: "set (keys (AList.update k v m)) = insert k (set (keys m))"
  by (simp add: AList.dom_update)

lemma set_keys_delete [simp, gomap]: "set (keys (AList.delete k m)) = set (keys m) - {k}"
  by (auto simp: AList.delete_keys)

lemma map_of_SomeD_key [dest]: "map_of m k = Some v \<Longrightarrow> k \<in> set (keys m)"
  by (force dest: map_of_SomeD)

lemma map_of_key_iff: "k \<in> set (keys m) \<longleftrightarrow> (\<exists>v. map_of m k = Some v)"
  by (metis map_of_eq_None_iff not_None_eq list.set_map)

lemma map_of_in_iff: "gm_ok m \<Longrightarrow> map_of m k = Some v \<longleftrightarrow> (k, v) \<in> set m"
  by (rule map_of_eq_Some_iff)

lemma map_of_empty_iff: "map_of m = Map.empty \<longleftrightarrow> m = []"
  by (cases m) (auto simp: fun_eq_iff)

lemma delete_not_key [simp]: "k \<notin> set (keys m) \<Longrightarrow> AList.delete k m = m"
  by (rule AList.delete_id) simp

lemma update_append_new: "k \<notin> set (keys m) \<Longrightarrow> AList.update k v m = m @ [(k, v)]"
  by (induction m) auto

lemma length_update: "length (AList.update k v m) = (if k \<in> set (keys m) then length m else Suc (length m))"
  by (induction m) auto

lemma gm_eqD:
  assumes "gm_eq m n" and "gm_ok m" and "gm_ok n"
  shows "map_of m = map_of n"
proof
  fix k
  have sub: "set (keys m) \<subseteq> set (keys n)"
    using assms(1) unfolding gm_eq_def list_all_iff by fastforce
  have "card (set (keys m)) = card (set (keys n))"
    using assms unfolding gm_eq_def by (simp only: distinct_card length_map)
  then have same: "set (keys m) = set (keys n)"
    using sub by (intro card_subset_eq) auto
  show "map_of m k = map_of n k"
  proof (cases "map_of m k")
    case (Some v)
    then have "(k, v) \<in> set m" by (rule map_of_SomeD)
    then show ?thesis using assms(1) Some unfolding gm_eq_def list_all_iff by fastforce
  next
    case None
    then show ?thesis using same by (metis map_of_eq_None_iff list.set_map)
  qed
qed

lemma gm_eqI:
  assumes "map_of m = map_of n" and "gm_ok m" and "gm_ok n"
  shows "gm_eq m n"
proof -
  have same: "set (keys m) = set (keys n)"
    using assms(1) by (metis dom_map_of_conv_image_fst list.set_map)
  then have "length m = length n"
    using assms(2,3) by (metis distinct_card length_map)
  moreover have "list_all (\<lambda>(k, v). map_of n k = Some v) m"
    using assms(1,2) by (auto simp: list_all_iff simp flip: map_of_in_iff)
  ultimately show ?thesis by (simp add: gm_eq_def)
qed

lemma gm_eq_iff: "gm_ok m \<Longrightarrow> gm_ok n \<Longrightarrow> gm_eq m n \<longleftrightarrow> map_of m = map_of n"
  using gm_eqD gm_eqI by blast

lemma gm_eq_refl [simp]: "gm_ok m \<Longrightarrow> gm_eq m m"
  by (simp add: gm_eqI)

text \<open>Writing every entry of one map into another.\<close>

definition gm_writeAll :: "('k, 'v) gomap \<Rightarrow> ('k, 'v) gomap \<Rightarrow> ('k, 'v) gomap" where
  "gm_writeAll m n = fold (\<lambda>(k, v) acc. AList.update k v acc) n m"

lemma gm_ok_writeAll [simp, gomap]: "gm_ok m \<Longrightarrow> gm_ok (gm_writeAll m n)"
  unfolding gm_writeAll_def by (induction n arbitrary: m) (auto split: prod.splits)

lemma map_of_writeAll [gomap]: "gm_ok n \<Longrightarrow> map_of (gm_writeAll m n) = map_of m ++ map_of n"
proof (induction n arbitrary: m)
  case (Cons p n)
  obtain k v where p: "p = (k, v)" by fastforce
  have "map_of (gm_writeAll m (p # n)) = map_of (gm_writeAll (AList.update k v m) n)"
    by (simp add: gm_writeAll_def p)
  also have "\<dots> = (map_of m)(k \<mapsto> v) ++ map_of n"
    using Cons by (simp add: p)
  also have "\<dots> = map_of m ++ map_of (p # n)"
    using Cons.prems p by (auto simp: fun_eq_iff map_add_def split: option.splits dest: map_of_SomeD intro: rev_image_eqI)
  finally show ?case .
qed (simp add: gm_writeAll_def)

section \<open>Decimal texts\<close>

text \<open>The text of an integer under the verbs \<open>%d\<close> and \<open>%v\<close>.\<close>

fun showNat :: "nat \<Rightarrow> string" where
  "showNat n = (if n < 10 then [char_of (48 + n)] else showNat (n div 10) @ [char_of (48 + n mod 10)])"

declare showNat.simps [simp del]

definition showInt :: "int \<Rightarrow> string" where
  "showInt i = (if i < 0 then ''-'' @ showNat (nat (- i)) else showNat (nat i))"

end
