(* ===== verification/Values.thy ===== *)
theory Values
  imports Prelude "HOL-Library.Log_Nat"
begin

unbundle bit_operations_syntax

text \<open>
  The Go values the library handles behind \<open>any\<close>. \<open>atom\<close> has the comparable atomic
  values: \<open>int\<close> as a 64-bit word, \<open>float64\<close> as its IEEE-754 bit pattern with
  round-to-nearest-even arithmetic, \<open>bool\<close>, \<open>string\<close> and the struct \<open>ovsdb.UUID\<close>.
  \<open>any\<close> is an interface value: nil, an atom, an optional (\<open>*T\<close>), a slice or a map
  of the native notation, or an \<open>OvsSet\<close> or \<open>OvsMap\<close> of the wire notation; \<open>None\<close> inside
  a slice or map constructor is Go's nil slice or nil map, which \<open>reflect.DeepEqual\<close>
  distinguishes from an empty one. Go's \<open>==\<close> on atoms is equality of the atoms; float NaN and
  the negative zero, on which the two differ, are outside the model. \<open>err\<close> has the library's
  error values, with \<open>Panic\<close> for a run-time panic.
\<close>

section \<open>float64\<close>

type_synonym f64 = "64 word"

definition f64_neg :: "f64 \<Rightarrow> bool" where "f64_neg w = bit w 63"
definition f64_exp :: "f64 \<Rightarrow> nat" where "f64_exp w = unat (drop_bit 52 w AND 2047)"
definition f64_frac :: "f64 \<Rightarrow> nat" where "f64_frac w = unat (w AND mask 52)"

definition f64_nan :: "f64 \<Rightarrow> bool" where
  "f64_nan w = (f64_exp w = 2047 \<and> f64_frac w \<noteq> 0)"

definition f64_inf :: "f64 \<Rightarrow> bool" where
  "f64_inf w = (f64_exp w = 2047 \<and> f64_frac w = 0)"

definition f64_NaN :: f64 where "f64_NaN = 0x7FF8000000000001"

definition f64_Inf :: "bool \<Rightarrow> f64" where
  "f64_Inf s = (if s then 0xFFF0000000000000 else 0x7FF0000000000000)"

text \<open>A finite float64 is an integer multiple of \<open>2 ^ -1074\<close>; this is the multiplier.\<close>

definition f64_mag :: "f64 \<Rightarrow> nat" where
  "f64_mag w = (if f64_exp w = 0 then f64_frac w
                else (2 ^ 52 + f64_frac w) * 2 ^ (f64_exp w - 1))"

definition f64_num :: "f64 \<Rightarrow> int" where
  "f64_num w = (if f64_neg w then - int (f64_mag w) else int (f64_mag w))"

text \<open>\<open>f64_round s n d\<close> is the float64 nearest to \<open>n / d\<close>, ties to even, with sign \<open>s\<close>.\<close>

definition f64_round :: "bool \<Rightarrow> nat \<Rightarrow> nat \<Rightarrow> f64" where
  "f64_round s n d =
     (let e0 = int (floorlog 2 n) - int (floorlog 2 d) - 53;
          scale = (\<lambda>e. if 0 \<le> e then (n, d * 2 ^ nat e) else (n * 2 ^ nat (- e), d));
          e1 = (case scale e0 of (n', d') \<Rightarrow> if 2 ^ 53 \<le> n' div d' then e0 + 1 else e0);
          e = max (-1074) e1;
          (n', d') = scale e;
          q = n' div d'; r = n' mod d';
          q' = (if d' < 2 * r \<or> (d' = 2 * r \<and> odd q) then q + 1 else q);
          bits = nat (e + 1074) * 2 ^ 52 + q'
      in (if s then push_bit 63 1 else 0) OR
         (if n = 0 then 0 else if 2047 * 2 ^ 52 \<le> bits then f64_Inf False else of_nat bits))"

definition f64_negate :: "f64 \<Rightarrow> f64" where "f64_negate w = w XOR push_bit 63 1"

definition f64_add :: "f64 \<Rightarrow> f64 \<Rightarrow> f64" where
  "f64_add a b =
     (if f64_nan a \<or> f64_nan b then f64_NaN
      else if f64_inf a \<and> f64_inf b \<and> f64_neg a \<noteq> f64_neg b then f64_NaN
      else if f64_inf a then a else if f64_inf b then b
      else let n = f64_num a + f64_num b
           in f64_round (n < 0 \<or> (n = 0 \<and> f64_neg a \<and> f64_neg b)) (nat \<bar>n\<bar>) (2 ^ 1074))"

definition f64_sub :: "f64 \<Rightarrow> f64 \<Rightarrow> f64" where "f64_sub a b = f64_add a (f64_negate b)"

definition f64_mul :: "f64 \<Rightarrow> f64 \<Rightarrow> f64" where
  "f64_mul a b =
     (let s = (f64_neg a \<noteq> f64_neg b) in
      if f64_nan a \<or> f64_nan b then f64_NaN
      else if f64_inf a \<or> f64_inf b then (if f64_mag a = 0 \<or> f64_mag b = 0 then f64_NaN else f64_Inf s)
      else f64_round s (f64_mag a * f64_mag b) (2 ^ 2148))"

definition f64_div :: "f64 \<Rightarrow> f64 \<Rightarrow> f64" where
  "f64_div a b =
     (let s = (f64_neg a \<noteq> f64_neg b) in
      if f64_nan a \<or> f64_nan b \<or> (f64_inf a \<and> f64_inf b) then f64_NaN
      else if f64_inf a then f64_Inf s
      else if f64_inf b then f64_round s 0 1
      else if f64_mag b = 0 then (if f64_mag a = 0 then f64_NaN else f64_Inf s)
      else f64_round s (f64_mag a) (f64_mag b))"

definition f64_lt :: "f64 \<Rightarrow> f64 \<Rightarrow> bool" where
  "f64_lt a b = (\<not> f64_nan a \<and> \<not> f64_nan b \<and> f64_num a < f64_num b)"

definition f64_le :: "f64 \<Rightarrow> f64 \<Rightarrow> bool" where
  "f64_le a b = (\<not> f64_nan a \<and> \<not> f64_nan b \<and> f64_num a \<le> f64_num b)"

text \<open>
  Conversion to \<open>int\<close> truncates towards zero. Out of range, where the language leaves the result
  to the implementation, the model has the value the amd64 instruction gives.
\<close>

definition f64_to_int :: "f64 \<Rightarrow> 64 word" where
  "f64_to_int w =
     (let t = (if f64_neg w then - 1 else 1) * int (f64_mag w div 2 ^ 1074)
      in if f64_exp w = 2047 \<or> t < - (2 ^ 63) \<or> 2 ^ 63 \<le> t then push_bit 63 1 else word_of_int t)"

section \<open>Types and values\<close>

text \<open>The Go types of atoms, and the \<open>reflect.Type\<close>s of the values built from them.\<close>

datatype gotype = GInt | GFloat64 | GBool | GString | GUUID

datatype rtype = RAtom gotype | RPtr gotype | RSlice gotype | RMap gotype gotype | ROvsSet | ROvsMap

datatype rkind = KInvalid | KInt | KFloat64 | KBool | KString | KStruct | KPointer | KSlice | KMap

datatype atom = AInt "64 word" | AReal f64 | ABool bool | AStr string | AUUID string

datatype any =
    VNil
  | VAtom atom
  | VPtr gotype "atom option"
  | VSlice gotype "atom list option"
  | VMap gotype gotype "(atom, atom) gomap option"
  | VOvsSet "atom list option"
  | VOvsMap "(atom, atom) gomap option"

primrec atomType :: "atom \<Rightarrow> gotype" where
  "atomType (AInt _) = GInt"
| "atomType (AReal _) = GFloat64"
| "atomType (ABool _) = GBool"
| "atomType (AStr _) = GString"
| "atomType (AUUID _) = GUUID"

primrec zeroAtom :: "gotype \<Rightarrow> atom" where
  "zeroAtom GInt = AInt 0"
| "zeroAtom GFloat64 = AReal 0"
| "zeroAtom GBool = ABool False"
| "zeroAtom GString = AStr []"
| "zeroAtom GUUID = AUUID []"

text \<open>\<open>reflect.TypeOf\<close>, \<open>Kind\<close>, \<open>reflect.Zero\<close>, \<open>Len\<close> and \<open>DeepEqual\<close>.\<close>

primrec typeOf :: "any \<Rightarrow> rtype option" where
  "typeOf VNil = None"
| "typeOf (VAtom a) = Some (RAtom (atomType a))"
| "typeOf (VPtr t _) = Some (RPtr t)"
| "typeOf (VSlice t _) = Some (RSlice t)"
| "typeOf (VMap k v _) = Some (RMap k v)"
| "typeOf (VOvsSet _) = Some ROvsSet"
| "typeOf (VOvsMap _) = Some ROvsMap"

primrec atomKind :: "gotype \<Rightarrow> rkind" where
  "atomKind GInt = KInt"
| "atomKind GFloat64 = KFloat64"
| "atomKind GBool = KBool"
| "atomKind GString = KString"
| "atomKind GUUID = KStruct"

primrec typeKind :: "rtype \<Rightarrow> rkind" where
  "typeKind (RAtom t) = atomKind t"
| "typeKind (RPtr _) = KPointer"
| "typeKind (RSlice _) = KSlice"
| "typeKind (RMap _ _) = KMap"
| "typeKind ROvsSet = KStruct"
| "typeKind ROvsMap = KStruct"

definition kindOf :: "any \<Rightarrow> rkind" where
  "kindOf v = (case typeOf v of None \<Rightarrow> KInvalid | Some t \<Rightarrow> typeKind t)"

primrec zeroOf :: "rtype \<Rightarrow> any" where
  "zeroOf (RAtom t) = VAtom (zeroAtom t)"
| "zeroOf (RPtr t) = VPtr t None"
| "zeroOf (RSlice t) = VSlice t None"
| "zeroOf (RMap k v) = VMap k v None"
| "zeroOf ROvsSet = VOvsSet None"
| "zeroOf ROvsMap = VOvsMap None"

definition elems :: "'a list option \<Rightarrow> 'a list" where
  "elems x = (case x of None \<Rightarrow> [] | Some l \<Rightarrow> l)"

lemma elems_simps [simp]: "elems None = []" "elems (Some l) = l"
  by (simp_all add: elems_def)

fun mapEq :: "('k, 'v) gomap option \<Rightarrow> ('k, 'v) gomap option \<Rightarrow> bool" where
  "mapEq None None = True"
| "mapEq (Some m) (Some n) = gm_eq m n"
| "mapEq _ _ = False"

fun deepEqual :: "any \<Rightarrow> any \<Rightarrow> bool" where
  "deepEqual VNil VNil = True"
| "deepEqual (VAtom a) (VAtom b) = (a = b)"
| "deepEqual (VPtr s a) (VPtr t b) = (s = t \<and> a = b)"
| "deepEqual (VSlice s a) (VSlice t b) = (s = t \<and> a = b)"
| "deepEqual (VMap k v a) (VMap k' v' b) = (k = k' \<and> v = v' \<and> mapEq a b)"
| "deepEqual (VOvsSet a) (VOvsSet b) = (a = b)"
| "deepEqual (VOvsMap a) (VOvsMap b) = mapEq a b"
| "deepEqual _ _ = False"

text \<open>A value is well formed when its atoms have the declared type and its maps distinct keys.\<close>

fun wfVal :: "any \<Rightarrow> bool" where
  "wfVal VNil = True"
| "wfVal (VAtom a) = True"
| "wfVal (VPtr t x) = (case x of None \<Rightarrow> True | Some a \<Rightarrow> atomType a = t)"
| "wfVal (VSlice t xs) = list_all (\<lambda>a. atomType a = t) (elems xs)"
| "wfVal (VMap k v m) = (gm_ok (elems m) \<and> list_all (\<lambda>(x, y). atomType x = k \<and> atomType y = v) (elems m))"
| "wfVal (VOvsSet xs) = True"
| "wfVal (VOvsMap m) = gm_ok (elems m)"

lemma mapEq_refl: "gm_ok (elems m) \<Longrightarrow> mapEq m m"
  by (cases m) auto

lemma mapEq_sym: "gm_ok (elems m) \<Longrightarrow> gm_ok (elems n) \<Longrightarrow> mapEq m n \<Longrightarrow> mapEq n m"
  by (cases m; cases n) (auto simp: gm_eq_iff)

lemma deepEqual_refl: "wfVal v \<Longrightarrow> deepEqual v v"
  by (cases v) (auto simp: mapEq_refl)

lemma deepEqual_sym: "wfVal a \<Longrightarrow> wfVal b \<Longrightarrow> deepEqual a b \<Longrightarrow> deepEqual b a"
  by (cases a; cases b) (auto simp: mapEq_sym)

lemma deepEqual_typeOf: "deepEqual a b \<Longrightarrow> typeOf a = typeOf b"
  by (cases a; cases b) auto

lemma wfVal_zeroOf [simp]: "wfVal (zeroOf t)"
  by (cases t) auto

lemma typeOf_zeroOf [simp]: "typeOf (zeroOf t) = Some t"
proof (cases t)
  case (RAtom g)
  then show ?thesis by (cases g) auto
qed auto

lemma typeOf_RAtomD: "typeOf v = Some (RAtom t) \<Longrightarrow> \<exists>a. v = VAtom a \<and> atomType a = t"
  by (cases v) auto

lemma typeOf_RPtrD: "typeOf v = Some (RPtr t) \<Longrightarrow> \<exists>x. v = VPtr t x"
  by (cases v) auto

lemma typeOf_RSliceD: "typeOf v = Some (RSlice t) \<Longrightarrow> \<exists>x. v = VSlice t x"
  by (cases v) auto

lemma typeOf_RMapD: "typeOf v = Some (RMap k w) \<Longrightarrow> \<exists>x. v = VMap k w x"
  by (cases v) auto

lemmas typeOfD = typeOf_RAtomD typeOf_RPtrD typeOf_RSliceD typeOf_RMapD

section \<open>Errors\<close>

datatype err =
    ErrWrongType string
  | ErrColumnNotFound string string
  | ErrCacheInconsistent string string
  | ErrIndexExists string any string string "string list"
  | ReferentialIntegrityViolation string
  | ConstraintViolation string
  | ResourcesExhausted string
  | IOError string
  | DuplicateUUIDName string
  | DomainError string
  | RangeError string
  | TimedOut string
  | NotSupported string
  | Aborted string
  | NotOwner string
  | ErrNotFound
  | ErrNotConnected
  | ErrAlreadyConnected
  | Errorf string
  | Panic string

type_synonym 'a result = "(err, 'a) res"

end
