(* ===== verification/Schema.thy ===== *)
theory Schema
  imports Values
begin

text \<open>
  The database schema (\<open>ovsdb/schema.go\<close>) and the operation notation (\<open>ovsdb/notation.go\<close>,
  \<open>condition.go\<close>, \<open>mutation.go\<close>, \<open>row.go\<close>, \<open>updates*.go\<close>): base types, column types
  with their accessors, the extended type a decoded column gets, table lookup, the root-set
  rule, operation validation, and the records of rows, conditions, mutations, operations and row
  updates. A pointer field is an \<open>option\<close>; dereferencing nil is \<open>Panic\<close>.
\<close>

datatype ExtendedType = TypeInteger | TypeReal | TypeBoolean | TypeString | TypeUUID
  | TypeEnum | TypeMap | TypeSet | TypeOther string

datatype RefType = Strong | Weak | RefOther string

record BaseType =
  bType :: ExtendedType
  bEnum :: "atom list option"
  minReal :: "f64 option"
  maxReal :: "f64 option"
  minInteger :: "64 word option"
  maxInteger :: "64 word option"
  minLength :: "64 word option"
  maxLength :: "64 word option"
  refTableP :: "string option"
  refTypeP :: "RefType option"

record ColumnType =
  Key :: "BaseType option"
  Value :: "BaseType option"
  minP :: "int option"
  maxP :: "int option"

record ColumnSchema =
  cType :: ExtendedType
  TypeObj :: "ColumnType option"
  ephemeral :: "bool option"
  mutable :: "bool option"

record TableSchema =
  Columns :: "(string, ColumnSchema) gomap"
  Indexes :: "string list list"
  IsRootF :: bool

record DatabaseSchema =
  Name :: string
  Version :: string
  Tables :: "(string, TableSchema) gomap"
  allTablesRoot :: "bool option"

definition UUIDColumn :: ColumnSchema where
  "UUIDColumn = \<lparr>cType = TypeUUID, TypeObj = None, ephemeral = None, mutable = None\<rparr>"

definition Unlimited :: int where "Unlimited = -1"

section \<open>Base types\<close>

definition isAtomicType :: "ExtendedType \<Rightarrow> bool" where
  "isAtomicType t = (t = TypeInteger \<or> t = TypeReal \<or> t = TypeBoolean \<or> t = TypeString \<or> t = TypeUUID)"

definition simpleAtomic :: "BaseType \<Rightarrow> bool" where
  "simpleAtomic b = (isAtomicType (bType b) \<and> bEnum b = None \<and> minReal b = None \<and> maxReal b = None
     \<and> minInteger b = None \<and> maxInteger b = None \<and> minLength b = None \<and> maxLength b = None
     \<and> refTableP b = None \<and> refTypeP b = None)"

definition MinReal :: "BaseType \<Rightarrow> f64 result" where
  "MinReal b = (if bType b \<noteq> TypeReal then Inl (Errorf ''is not a real'')
                else case minReal b of Some x \<Rightarrow> Inr x | None \<Rightarrow> Inr 1)"

definition MaxReal :: "BaseType \<Rightarrow> f64 result" where
  "MaxReal b = (if bType b \<noteq> TypeReal then Inl (Errorf ''is not a real'')
                else case maxReal b of Some x \<Rightarrow> Inr x | None \<Rightarrow> Inr 0x7FEFFFFFFFFFFFFF)"

definition MinInteger :: "BaseType \<Rightarrow> 64 word result" where
  "MinInteger b = (if bType b \<noteq> TypeInteger then Inl (Errorf ''is not an integer'')
                   else case minInteger b of Some x \<Rightarrow> Inr x | None \<Rightarrow> Inr 0x8000000000000000)"

definition MaxInteger :: "BaseType \<Rightarrow> 64 word result" where
  "MaxInteger b = (if bType b \<noteq> TypeInteger then Inl (Errorf ''is not an integer'')
                   else case maxInteger b of Some x \<Rightarrow> Inr x | None \<Rightarrow> Inr 0x7FFFFFFFFFFFFFFF)"

definition MinLength :: "BaseType \<Rightarrow> 64 word result" where
  "MinLength b = (if bType b \<noteq> TypeString then Inl (Errorf ''is not an string'')
                  else case minLength b of Some x \<Rightarrow> Inr x | None \<Rightarrow> Inr 0)"

definition MaxLength :: "BaseType \<Rightarrow> 64 word result" where
  "MaxLength b = (if bType b \<noteq> TypeString then Inl (Errorf ''is not a string'')
                  else case maxLength b of Some x \<Rightarrow> Inr x | None \<Rightarrow> Inr 0x7FFFFFFFFFFFFFFF)"

definition RefTable :: "BaseType \<Rightarrow> string result" where
  "RefTable b = (if bType b \<noteq> TypeUUID then Inl (Errorf ''is not a uuid'')
                 else case refTableP b of Some t \<Rightarrow> Inr t | None \<Rightarrow> Inr [])"

definition BaseRefType :: "BaseType \<Rightarrow> RefType result" where
  "BaseRefType b = (if bType b \<noteq> TypeUUID then Inl (Errorf ''is not a uuid'')
                    else case refTypeP b of Some t \<Rightarrow> Inr t | None \<Rightarrow> Inr Strong)"

section \<open>Column types and columns\<close>

definition Max :: "ColumnType \<Rightarrow> int" where
  "Max c = (case maxP c of None \<Rightarrow> 1 | Some n \<Rightarrow> n)"

definition Min :: "ColumnType \<Rightarrow> int" where
  "Min c = (case minP c of None \<Rightarrow> 1 | Some n \<Rightarrow> n)"

definition Mutable :: "ColumnSchema \<Rightarrow> bool" where
  "Mutable c = (case mutable c of Some b \<Rightarrow> b | None \<Rightarrow> True)"

definition Ephemeral :: "ColumnSchema \<Rightarrow> bool" where
  "Ephemeral c = (case ephemeral c of Some b \<Rightarrow> b | None \<Rightarrow> False)"

text \<open>\<open>column.TypeObj\<close>, \<open>column.TypeObj.Key.Type\<close> and \<open>column.TypeObj.Value.Type\<close>.\<close>

definition typeObj :: "ColumnSchema \<Rightarrow> ColumnType result" where
  "typeObj c = (case TypeObj c of None \<Rightarrow> Inl (Panic ''nil TypeObj'') | Some t \<Rightarrow> Inr t)"

definition keyType :: "ColumnSchema \<Rightarrow> ExtendedType result" where
  "keyType c = bindR (typeObj c) (\<lambda>t. case Key t of None \<Rightarrow> Inl (Panic ''nil Key'') | Some b \<Rightarrow> Inr (bType b))"

definition valueType :: "ColumnSchema \<Rightarrow> ExtendedType result" where
  "valueType c = bindR (typeObj c) (\<lambda>t. case Value t of None \<Rightarrow> Inl (Panic ''nil Value'') | Some b \<Rightarrow> Inr (bType b))"

text \<open>The end of \<open>ColumnSchema.UnmarshalJSON\<close>: the extended type of a decoded type object.\<close>

definition inferType :: "ColumnType \<Rightarrow> ExtendedType result" where
  "inferType t =
     (if Value t \<noteq> None then Inr TypeMap
      else if Min t \<noteq> 1 \<or> Max t \<noteq> 1 then Inr TypeSet
      else case Key t of
             None \<Rightarrow> Inl (Panic ''nil Key'')
           | Some k \<Rightarrow> if elems (bEnum k) \<noteq> [] then Inr TypeEnum else Inr (bType k))"

definition newColumn :: "ColumnType \<Rightarrow> bool option \<Rightarrow> bool option \<Rightarrow> ColumnSchema result" where
  "newColumn t eph mut =
     bindR (inferType t) (\<lambda>ty. Inr \<lparr>cType = ty, TypeObj = Some t, ephemeral = eph, mutable = mut\<rparr>)"

section \<open>Tables\<close>

definition Table :: "DatabaseSchema \<Rightarrow> string \<Rightarrow> TableSchema option" where
  "Table schema t = map_of (Tables schema) t"

definition Column :: "TableSchema \<Rightarrow> string \<Rightarrow> ColumnSchema option" where
  "Column t c = (if c = ''_uuid'' then Some UUIDColumn else map_of (Columns t) c)"

fun noRootTable :: "(string, TableSchema) gomap \<Rightarrow> bool" where
  "noRootTable [] = True"
| "noRootTable ((_, t) # ts) = (if IsRootF t then False else noRootTable ts)"

definition IsRoot :: "DatabaseSchema \<Rightarrow> string \<Rightarrow> bool result" where
  "IsRoot schema t =
     (case Table schema t of
        None \<Rightarrow> Inl (Errorf ''Table not in schema'')
      | Some ts \<Rightarrow>
          if IsRootF ts then Inr True
          else case allTablesRoot schema of
                 None \<Rightarrow> Inr (noRootTable (Tables schema))
               | Some b \<Rightarrow> Inr b)"

section \<open>Notation\<close>

type_synonym Row = "(string, any) gomap"

datatype ConditionFunction = ConditionLessThan | ConditionLessThanOrEqual | ConditionEqual
  | ConditionNotEqual | ConditionGreaterThan | ConditionGreaterThanOrEqual
  | ConditionIncludes | ConditionExcludes | ConditionOther string

record Condition =
  cColumn :: string
  cFunction :: ConditionFunction
  cValue :: any

datatype Mutator = MutateOperationDelete | MutateOperationInsert | MutateOperationAdd
  | MutateOperationSubtract | MutateOperationMultiply | MutateOperationDivide
  | MutateOperationModulo | MutatorOther string

record Mutation =
  mColumn :: string
  mMutator :: Mutator
  mValue :: any

datatype OpKind = OperationInsert | OperationSelect | OperationUpdate | OperationMutate
  | OperationDelete | OperationWait | OperationCommit | OperationAbort | OperationComment
  | OperationAssert | OperationOther string

record Operation =
  Op :: OpKind
  opTable :: string
  opRow :: Row
  opRows :: "Row list"
  opColumns :: "string list"
  Mutations :: "Mutation list"
  Timeout :: "int option"
  Where :: "Condition list"
  Until :: string
  Durable :: "bool option"
  Comment :: "string option"
  Lock :: "string option"
  opUUID :: string
  UUIDName :: string

record OperationResult =
  rCount :: nat
  rError :: string
  rDetails :: string
  rUUID :: string
  rRows :: "Row list"

record RowUpdate =
  ruNew :: "Row option"
  ruOld :: "Row option"

record RowUpdate2 =
  Initial :: "Row option"
  Insert :: "Row option"
  Modify :: "Row option"
  Delete :: "Row option"
  Old :: "Row option"
  New :: "Row option"

definition emptyOp :: Operation where
  "emptyOp = \<lparr>Op = OperationOther [], opTable = [], opRow = [], opRows = [], opColumns = [],
     Mutations = [], Timeout = None, Where = [], Until = [], Durable = None, Comment = None,
     Lock = None, opUUID = [], UUIDName = []\<rparr>"

definition emptyRU2 :: RowUpdate2 where
  "emptyRU2 = \<lparr>Initial = None, Insert = None, Modify = None, Delete = None, Old = None, New = None\<rparr>"

definition emptyResult :: OperationResult where
  "emptyResult = \<lparr>rCount = 0, rError = [], rDetails = [], rUUID = [], rRows = []\<rparr>"

definition ruInsert :: "RowUpdate \<Rightarrow> bool" where
  "ruInsert r = (ruNew r \<noteq> None \<and> ruOld r = None)"

definition ruModify :: "RowUpdate \<Rightarrow> bool" where
  "ruModify r = (ruNew r \<noteq> None \<and> ruOld r \<noteq> None)"

definition ruDelete :: "RowUpdate \<Rightarrow> bool" where
  "ruDelete r = (ruNew r = None \<and> ruOld r \<noteq> None)"

definition FromRowUpdate2 :: "RowUpdate2 \<Rightarrow> RowUpdate" where
  "FromRowUpdate2 ru2 = \<lparr>ruNew = New ru2, ruOld = Old ru2\<rparr>"

text \<open>\<open>DatabaseSchema.ValidateOperations\<close>.\<close>

definition knownColumn :: "TableSchema \<Rightarrow> string \<Rightarrow> bool" where
  "knownColumn t c = (map_of (Columns t) c \<noteq> None \<or> c = ''_uuid'' \<or> c = ''_version'')"

definition validTableOp :: "DatabaseSchema \<Rightarrow> Operation \<Rightarrow> bool" where
  "validTableOp schema op =
     (case map_of (Tables schema) (opTable op) of
        None \<Rightarrow> False
      | Some t \<Rightarrow> list_all (knownColumn t) (keys (opRow op))
                   \<and> list_all (\<lambda>row. list_all (knownColumn t) (keys row)) (opRows op)
                   \<and> list_all (knownColumn t) (opColumns op))"

fun ValidateOperations :: "DatabaseSchema \<Rightarrow> Operation list \<Rightarrow> bool" where
  "ValidateOperations schema [] = True"
| "ValidateOperations schema (op # ops) =
     (if Op op \<in> {OperationInsert, OperationSelect, OperationUpdate, OperationMutate, OperationDelete}
         \<and> \<not> validTableOp schema op
      then False
      else ValidateOperations schema ops)"

section \<open>Well-formed schemas\<close>

text \<open>
  A column of a decoded schema: its base types are atomic, and its extended type is the one
  \<open>inferType\<close> gives. \<open>UUIDColumn\<close> is the one column without a type object.
\<close>

definition wfBase :: "BaseType \<Rightarrow> bool" where
  "wfBase b = isAtomicType (bType b)"

definition wfColumn :: "ColumnSchema \<Rightarrow> bool" where
  "wfColumn c = (c = UUIDColumn \<or>
     (\<exists>t k. TypeObj c = Some t \<and> Key t = Some k \<and> wfBase k \<and> pred_option wfBase (Value t)
        \<and> inferType t = Inr (cType c)))"

definition wfTable :: "TableSchema \<Rightarrow> bool" where
  "wfTable t = (gm_ok (Columns t) \<and> list_all (\<lambda>(_, c). wfColumn c) (Columns t))"

definition wfSchema :: "DatabaseSchema \<Rightarrow> bool" where
  "wfSchema s = (gm_ok (Tables s) \<and> list_all (\<lambda>(_, t). wfTable t) (Tables s)
     \<and> (allTablesRoot s = None \<or> allTablesRoot s = Some (noRootTable (Tables s))))"

lemma noRootTable_iff: "noRootTable ts \<longleftrightarrow> (\<forall>(_, t) \<in> set ts. \<not> IsRootF t)"
  by (induction ts rule: noRootTable.induct) auto

lemma wfColumn_Column: "wfTable t \<Longrightarrow> Column t c = Some col \<Longrightarrow> wfColumn col"
  by (auto simp: Column_def wfTable_def list_all_iff wfColumn_def dest!: map_of_SomeD split: if_splits)

lemma wfTable_Table: "wfSchema s \<Longrightarrow> Table s t = Some ts \<Longrightarrow> wfTable ts"
  by (auto simp: Table_def wfSchema_def list_all_iff dest!: map_of_SomeD)

end
