(* ===== verification/Bindings.thy ===== *)
theory Bindings
  imports Schema
begin

text \<open>
  The conversions between the wire notation and native Go values (\<open>ovsdb/bindings.go\<close>,
  \<open>NewOvsSet\<close> of \<open>ovsdb/set.go\<close>): native types of columns, \<open>OvsToNative\<close>, \<open>NativeToOvs\<close>,
  default values, and the validation of mutations and conditions. The lemmas show
  that a decoded value always has the native type of its column and that encoding a native value and
  decoding it gives the value back, up to the difference between a nil and an empty container.
\<close>

section \<open>Native types\<close>

fun NativeTypeFromAtomic :: "ExtendedType \<Rightarrow> gotype result" where
  "NativeTypeFromAtomic TypeInteger = Inr GInt"
| "NativeTypeFromAtomic TypeReal = Inr GFloat64"
| "NativeTypeFromAtomic TypeBoolean = Inr GBool"
| "NativeTypeFromAtomic TypeString = Inr GString"
| "NativeTypeFromAtomic TypeUUID = Inr GString"
| "NativeTypeFromAtomic _ = Inl (Panic ''Unknown basic type'')"

definition NativeType :: "ColumnSchema \<Rightarrow> rtype result" where
  "NativeType c =
     (case cType c of
        TypeEnum \<Rightarrow> bindR (keyType c) (\<lambda>kt. bindR (NativeTypeFromAtomic kt) (\<lambda>t. Inr (RAtom t)))
      | TypeMap \<Rightarrow>
          bindR (keyType c) (\<lambda>kt. bindR (NativeTypeFromAtomic kt) (\<lambda>k.
          bindR (valueType c) (\<lambda>vt. bindR (NativeTypeFromAtomic vt) (\<lambda>v. Inr (RMap k v)))))
      | TypeSet \<Rightarrow>
          bindR (keyType c) (\<lambda>kt. bindR (NativeTypeFromAtomic kt) (\<lambda>k.
          bindR (typeObj c) (\<lambda>o'.
            if Min o' = 0 \<and> Max o' = 1 then Inr (RPtr k)
            else if Min o' = 1 \<and> Max o' = 1 then Inr (RAtom k)
            else Inr (RSlice k))))
      | TypeOther _ \<Rightarrow> Inl (Panic ''unknown extended type'')
      | t \<Rightarrow> bindR (NativeTypeFromAtomic t) (\<lambda>g. Inr (RAtom g)))"

section \<open>From the wire notation\<close>

fun ovsToNativeAtom :: "ExtendedType \<Rightarrow> atom \<Rightarrow> atom result" where
  "ovsToNativeAtom TypeReal a = (if atomType a = GFloat64 then Inr a else Inl (ErrWrongType ''OvsToNativeAtomic''))"
| "ovsToNativeAtom TypeString a = (if atomType a = GString then Inr a else Inl (ErrWrongType ''OvsToNativeAtomic''))"
| "ovsToNativeAtom TypeBoolean a = (if atomType a = GBool then Inr a else Inl (ErrWrongType ''OvsToNativeAtomic''))"
| "ovsToNativeAtom TypeInteger (AInt i) = Inr (AInt i)"
| "ovsToNativeAtom TypeInteger (AReal r) = Inr (AInt (f64_to_int r))"
| "ovsToNativeAtom TypeInteger _ = Inl (ErrWrongType ''OvsToNativeAtomic'')"
| "ovsToNativeAtom TypeUUID (AUUID u) = Inr (AStr u)"
| "ovsToNativeAtom TypeUUID _ = Inl (ErrWrongType ''OvsToNativeAtomic'')"
| "ovsToNativeAtom _ _ = Inl (Panic ''unknown atomic type'')"

fun OvsToNativeAtomic :: "ExtendedType \<Rightarrow> any \<Rightarrow> any result" where
  "OvsToNativeAtomic t (VAtom a) = bindR (ovsToNativeAtom t a) (\<lambda>b. Inr (VAtom b))"
| "OvsToNativeAtomic TypeInteger VNil = Inl (Panic ''nil pointer dereference'')"
| "OvsToNativeAtomic t v = (if isAtomicType t then Inl (ErrWrongType ''OvsToNativeAtomic'')
                            else Inl (Panic ''unknown atomic type''))"

fun OvsToNativeSlice :: "ExtendedType \<Rightarrow> any \<Rightarrow> any result" where
  "OvsToNativeSlice t (VOvsSet xs) =
     bindR (NativeTypeFromAtomic t) (\<lambda>na.
     bindR (mapR (ovsToNativeAtom t) (elems xs)) (\<lambda>ys. Inr (VSlice na (Some ys))))"
| "OvsToNativeSlice t (VAtom a) =
     bindR (NativeTypeFromAtomic t) (\<lambda>na.
     bindR (ovsToNativeAtom t a) (\<lambda>b. Inr (VSlice na (Some [b]))))"
| "OvsToNativeSlice t v =
     bindR (NativeTypeFromAtomic t) (\<lambda>na. bindR (OvsToNativeAtomic t v) (\<lambda>_. Inl (ErrWrongType ''OvsToNativeAtomic'')))"

text \<open>The loop that converts a map entry by entry.\<close>

definition convMap ::
  "(atom \<Rightarrow> atom result) \<Rightarrow> (atom \<Rightarrow> atom result) \<Rightarrow> (atom, atom) gomap \<Rightarrow> (atom, atom) gomap result" where
  "convMap f g m =
     foldR (\<lambda>acc (k, v). bindR (f k) (\<lambda>k'. bindR (g v) (\<lambda>v'. Inr (AList.update k' v' acc)))) [] m"

definition ovsToNativePtr :: "ExtendedType \<Rightarrow> gotype \<Rightarrow> any \<Rightarrow> any result" where
  "ovsToNativePtr kt g v =
     (case v of
        VOvsSet xs \<Rightarrow>
          if length (elems xs) > 1 then Inl (Errorf ''expected a slice of len =< 1'')
          else (case elems xs of
                  [] \<Rightarrow> Inr (VPtr g None)
                | a # _ \<Rightarrow> bindR (ovsToNativeAtom kt a) (\<lambda>b. Inr (VPtr g (Some b))))
      | _ \<Rightarrow> bindR (OvsToNativeAtomic kt v)
               (\<lambda>n. case n of VAtom b \<Rightarrow> Inr (VPtr g (Some b)) | _ \<Rightarrow> Inl (Panic ''reflect: Set'')))"

definition OvsToNative :: "ColumnSchema \<Rightarrow> any \<Rightarrow> any result" where
  "OvsToNative c v =
     (case cType c of
        TypeEnum \<Rightarrow> bindR (keyType c) (\<lambda>kt. OvsToNativeAtomic kt v)
      | TypeSet \<Rightarrow>
          bindR (NativeType c) (\<lambda>na. bindR (keyType c) (\<lambda>kt.
            case na of
              RPtr g \<Rightarrow> ovsToNativePtr kt g v
            | RSlice g \<Rightarrow> OvsToNativeSlice kt v
            | _ \<Rightarrow> Inl (Errorf ''native type was not slice or pointer'')))
      | TypeMap \<Rightarrow>
          bindR (NativeType c) (\<lambda>na.
            case v of
              VOvsMap m \<Rightarrow>
                bindR (keyType c) (\<lambda>kt. bindR (valueType c) (\<lambda>vt.
                bindR (convMap (ovsToNativeAtom kt) (ovsToNativeAtom vt) (elems m)) (\<lambda>m'.
                  case na of RMap k w \<Rightarrow> Inr (VMap k w (Some m')) | _ \<Rightarrow> Inl (Panic ''reflect.MakeMapWithSize of non-map type''))))
            | _ \<Rightarrow> Inl (ErrWrongType ''OvsToNative''))
      | TypeOther _ \<Rightarrow> Inl (Panic ''Unknown Type'')
      | t \<Rightarrow> OvsToNativeAtomic t v)"

section \<open>To the wire notation\<close>

definition NativeToOvsAtomic :: "ExtendedType \<Rightarrow> atom \<Rightarrow> atom result" where
  "NativeToOvsAtomic t a =
     bindR (NativeTypeFromAtomic t) (\<lambda>na.
       if atomType a \<noteq> na then Inl (ErrWrongType ''NativeToOvsAtomic'')
       else case (t, a) of (TypeUUID, AStr u) \<Rightarrow> Inr (AUUID u) | _ \<Rightarrow> Inr a)"

fun NewOvsSet :: "any \<Rightarrow> any result" where
  "NewOvsSet VNil = Inl (Panic ''nil pointer dereference'')"
| "NewOvsSet (VPtr _ None) = Inr (VOvsSet (Some []))"
| "NewOvsSet (VPtr _ (Some a)) = Inr (VOvsSet (Some [a]))"
| "NewOvsSet (VSlice _ xs) = Inr (VOvsSet (Some (elems xs)))"
| "NewOvsSet (VAtom a) = Inr (VOvsSet (Some [a]))"
| "NewOvsSet _ = Inl (Errorf ''ovsset supports only go slice/string/numbers/uuid or pointers to those types'')"

fun uuidOf :: "atom \<Rightarrow> atom" where
  "uuidOf (AStr u) = AUUID u"
| "uuidOf a = a"

definition nativeSetToOvs :: "ExtendedType \<Rightarrow> any \<Rightarrow> any result" where
  "nativeSetToOvs kt v =
     (if kt = TypeUUID then
        (case v of
           VSlice GString xs \<Rightarrow> Inr (VOvsSet (Some (map uuidOf (elems xs))))
         | VPtr GString x \<Rightarrow> Inr (VOvsSet (Some (case x of None \<Rightarrow> [] | Some a \<Rightarrow> [uuidOf a])))
         | _ \<Rightarrow> Inl (Errorf ''uuid slice was neither []string or *string''))
      else NewOvsSet v)"

definition NativeToOvs :: "ColumnSchema \<Rightarrow> any \<Rightarrow> any result" where
  "NativeToOvs c v =
     bindR (NativeType c) (\<lambda>na.
       if typeOf v \<noteq> Some na then Inl (ErrWrongType ''NativeToOvs'')
       else case cType c of
              TypeEnum \<Rightarrow> bindR (keyType c) (\<lambda>kt.
                if kt \<noteq> TypeUUID then Inr v
                else case v of VAtom a \<Rightarrow> Inr (VAtom (uuidOf a)) | _ \<Rightarrow> Inl (Panic ''interface conversion''))
            | TypeUUID \<Rightarrow> (case v of VAtom a \<Rightarrow> Inr (VAtom (uuidOf a)) | _ \<Rightarrow> Inl (Panic ''interface conversion''))
            | TypeSet \<Rightarrow> bindR (keyType c) (\<lambda>kt. nativeSetToOvs kt v)
            | TypeMap \<Rightarrow>
                (case v of
                   VMap _ _ m \<Rightarrow>
                     bindR (keyType c) (\<lambda>kt. bindR (valueType c) (\<lambda>vt.
                     bindR (convMap (NativeToOvsAtomic kt) (NativeToOvsAtomic vt) (elems m)) (\<lambda>m'.
                     Inr (VOvsMap (Some m')))))
                 | _ \<Rightarrow> Inl (Panic ''reflect: MapKeys''))
            | TypeOther _ \<Rightarrow> Inl (Panic ''Unknown Type'')
            | _ \<Rightarrow> Inr v)"

section \<open>Default values\<close>

definition isDefaultBaseValue :: "any \<Rightarrow> ExtendedType \<Rightarrow> bool result" where
  "isDefaultBaseValue v t =
     (case v of
        VNil \<Rightarrow> Inr True
      | VPtr _ x \<Rightarrow> Inr (x = None)
      | _ \<Rightarrow>
         (case t of
            TypeUUID \<Rightarrow> (case v of VAtom (AStr s) \<Rightarrow> Inr (s = ''00000000-0000-0000-0000-000000000000'' \<or> s = [])
                                  | _ \<Rightarrow> Inl (Panic ''interface conversion''))
          | TypeMap \<Rightarrow> (case v of VMap _ _ m \<Rightarrow> Inr (elems m = []) | VSlice _ xs \<Rightarrow> Inr (elems xs = [])
                                 | _ \<Rightarrow> Inl (Panic ''reflect: IsNil''))
          | TypeSet \<Rightarrow> (case v of VMap _ _ m \<Rightarrow> Inr (elems m = []) | VSlice _ xs \<Rightarrow> Inr (elems xs = [])
                                 | _ \<Rightarrow> Inl (Panic ''reflect: IsNil''))
          | TypeString \<Rightarrow> (case v of VAtom (AStr s) \<Rightarrow> Inr (s = []) | _ \<Rightarrow> Inl (Panic ''interface conversion''))
          | TypeInteger \<Rightarrow> (case v of VAtom (AInt i) \<Rightarrow> Inr (i = 0) | _ \<Rightarrow> Inl (Panic ''interface conversion''))
          | TypeReal \<Rightarrow> (case v of VAtom (AReal r) \<Rightarrow> Inr (f64_num r = 0 \<and> \<not> f64_nan r) | _ \<Rightarrow> Inl (Panic ''interface conversion''))
          | _ \<Rightarrow> Inr False))"

definition IsDefaultValue :: "ColumnSchema \<Rightarrow> any \<Rightarrow> bool result" where
  "IsDefaultValue c v =
     (case cType c of
        TypeEnum \<Rightarrow> bindR (keyType c) (\<lambda>kt. isDefaultBaseValue v kt)
      | t \<Rightarrow> isDefaultBaseValue v t)"

section \<open>Validation\<close>

definition validateMutationAtomic :: "ExtendedType \<Rightarrow> Mutator \<Rightarrow> any \<Rightarrow> unit result" where
  "validateMutationAtomic t mutator v =
     bindR (NativeTypeFromAtomic t) (\<lambda>na.
       if typeOf v \<noteq> Some (RAtom na) then Inl (ErrWrongType ''Mutation of atomic type'')
       else case t of
              TypeReal \<Rightarrow> (if mutator \<in> {MutateOperationAdd, MutateOperationSubtract, MutateOperationMultiply, MutateOperationDivide}
                            then Inr () else Inl (Errorf ''wrong mutator for real type''))
            | TypeInteger \<Rightarrow> (if mutator \<in> {MutateOperationAdd, MutateOperationSubtract, MutateOperationMultiply,
                                               MutateOperationDivide, MutateOperationModulo}
                               then Inr () else Inl (Errorf ''wrong mutator for integer type''))
            | TypeUUID \<Rightarrow> Inl (Errorf ''atomictype does not support mutation'')
            | TypeString \<Rightarrow> Inl (Errorf ''atomictype does not support mutation'')
            | TypeBoolean \<Rightarrow> Inl (Errorf ''atomictype does not support mutation'')
            | _ \<Rightarrow> Inl (Panic ''Unsupported Atomic Type''))"

text \<open>\<open>NativeType(column) == reflect.SliceOf(reflect.TypeOf(value))\<close> for a value that is no slice.\<close>

definition isSliceOf :: "rtype \<Rightarrow> rtype \<Rightarrow> bool" where
  "isSliceOf s t = (case t of RAtom g \<Rightarrow> s = RSlice g | _ \<Rightarrow> False)"

definition ValidateMutation :: "ColumnSchema \<Rightarrow> Mutator \<Rightarrow> any \<Rightarrow> unit result" where
  "ValidateMutation c mutator v =
     (if \<not> Mutable c then Inl (Errorf ''column is not mutable'')
      else case cType c of
        TypeSet \<Rightarrow>
          if mutator \<in> {MutateOperationInsert, MutateOperationDelete} then
            (case typeOf v of
               None \<Rightarrow> Inl (Panic ''nil pointer dereference'')
             | Some vt \<Rightarrow> bindR (NativeType c) (\<lambda>na.
                 if typeKind vt \<noteq> KSlice then
                   (if \<not> isSliceOf na vt then Inl (ErrWrongType ''Mutation of single value'') else Inr ())
                 else if na \<noteq> vt then Inl (ErrWrongType ''Mutation of column'') else Inr ()))
          else bindR (keyType c) (\<lambda>kt. validateMutationAtomic kt mutator v)
      | TypeMap \<Rightarrow>
          (case mutator of
             MutateOperationInsert \<Rightarrow> bindR (NativeType c) (\<lambda>na.
               if typeOf v \<noteq> Some na then Inl (ErrWrongType ''Mutation of column'') else Inr ())
           | MutateOperationDelete \<Rightarrow> bindR (NativeType c) (\<lambda>na. bindR (keyType c) (\<lambda>kt. bindR (NativeTypeFromAtomic kt) (\<lambda>k.
               if typeOf v \<noteq> Some na \<and> typeOf v \<noteq> Some (RSlice k) then Inl (ErrWrongType ''Mutation of column'')
               else Inr ())))
           | _ \<Rightarrow> Inl (Errorf ''wrong mutator for map type''))
      | TypeEnum \<Rightarrow> Inl (Errorf ''enums do not support mutation'')
      | t \<Rightarrow> validateMutationAtomic t mutator v)"

definition ValidateCondition :: "ColumnSchema \<Rightarrow> ConditionFunction \<Rightarrow> any \<Rightarrow> unit result" where
  "ValidateCondition c f v =
     bindR (NativeType c) (\<lambda>na.
       if typeOf v \<noteq> Some na then Inl (ErrWrongType ''Condition for column'')
       else case cType c of
              TypeInteger \<Rightarrow> Inr ()
            | TypeReal \<Rightarrow> Inr ()
            | TypeOther _ \<Rightarrow> Inl (Panic ''Unsupported Type'')
            | _ \<Rightarrow> if f \<in> {ConditionEqual, ConditionNotEqual, ConditionIncludes, ConditionExcludes}
                   then Inr () else Inl (Errorf ''wrong condition function''))"

section \<open>Type soundness and round trips\<close>

lemma set_update_subset: "set (AList.update k v m) \<subseteq> insert (k, v) (set m)"
  by (induction m) auto

lemma isAtomicTypeE:
  assumes "isAtomicType t"
  obtains "t = TypeInteger" | "t = TypeReal" | "t = TypeBoolean" | "t = TypeString" | "t = TypeUUID"
  using assms by (auto simp: isAtomicType_def)

lemma NativeTypeFromAtomic_ok: "isAtomicType t \<Longrightarrow> \<exists>g. NativeTypeFromAtomic t = Inr g"
  by (auto elim: isAtomicTypeE)

lemma NativeTypeFromAtomic_isAtomic: "NativeTypeFromAtomic t = Inr g \<Longrightarrow> isAtomicType t"
  by (cases t) (auto simp: isAtomicType_def)

text \<open>The five shapes of a well-formed column.\<close>

lemma wfColumn_cases [consumes 1, case_names Atomic Enum Optional Slice Map]:
  assumes "wfColumn c"
  obtains (Atomic) g where "isAtomicType (cType c)" "NativeTypeFromAtomic (cType c) = Inr g" "NativeType c = Inr (RAtom g)"
  | (Enum) kt g where "cType c = TypeEnum" "keyType c = Inr kt" "isAtomicType kt"
      "NativeTypeFromAtomic kt = Inr g" "NativeType c = Inr (RAtom g)"
  | (Optional) kt g where "cType c = TypeSet" "keyType c = Inr kt" "isAtomicType kt"
      "NativeTypeFromAtomic kt = Inr g" "NativeType c = Inr (RPtr g)"
  | (Slice) kt g where "cType c = TypeSet" "keyType c = Inr kt" "isAtomicType kt"
      "NativeTypeFromAtomic kt = Inr g" "NativeType c = Inr (RSlice g)"
  | (Map) kt vt g h where "cType c = TypeMap" "keyType c = Inr kt" "valueType c = Inr vt"
      "isAtomicType kt" "isAtomicType vt"
      "NativeTypeFromAtomic kt = Inr g" "NativeTypeFromAtomic vt = Inr h" "NativeType c = Inr (RMap g h)"
proof (cases "c = UUIDColumn")
  case True
  then show ?thesis
    by (intro Atomic [of GString]) (simp_all add: UUIDColumn_def isAtomicType_def NativeType_def)
next
  case False
  with assms obtain t k where obj: "TypeObj c = Some t" "Key t = Some k" "wfBase k"
      "pred_option wfBase (Value t)" "inferType t = Inr (cType c)"
    by (auto simp: wfColumn_def)
  obtain g where g: "NativeTypeFromAtomic (bType k) = Inr g"
    using obj(3) NativeTypeFromAtomic_ok by (auto simp: wfBase_def)
  have key: "keyType c = Inr (bType k)" "typeObj c = Inr t" "isAtomicType (bType k)"
    using obj by (auto simp: keyType_def typeObj_def wfBase_def)
  show ?thesis
  proof (cases "Value t")
    case (Some v)
    obtain h where h: "NativeTypeFromAtomic (bType v) = Inr h"
      using obj(4) Some NativeTypeFromAtomic_ok by (auto simp: wfBase_def)
    have "valueType c = Inr (bType v)" "cType c = TypeMap"
      using obj Some by (auto simp: valueType_def typeObj_def inferType_def)
    then show ?thesis
      using key g h obj(4) Some by (intro Map) (auto simp: NativeType_def wfBase_def)
  next
    case None
    consider (set) "Min t \<noteq> 1 \<or> Max t \<noteq> 1" "cType c = TypeSet"
      | (enum) "cType c = TypeEnum" | (atomic) "cType c = bType k"
      using obj None by (auto simp: inferType_def split: if_splits)
    then show ?thesis
    proof cases
      case set
      show ?thesis
      proof (cases "Min t = 0 \<and> Max t = 1")
        case True
        then show ?thesis using set key g by (intro Optional) (auto simp: NativeType_def)
      next
        case False
        then show ?thesis using set key g by (intro Slice) (auto simp: NativeType_def)
      qed
    next
      case enum
      then show ?thesis using key g by (intro Enum) (auto simp: NativeType_def)
    next
      case atomic
      then show ?thesis using key g
        by (intro Atomic [of g]) (auto simp: NativeType_def isAtomicType_def elim!: isAtomicTypeE)
    qed
  qed
qed

lemma NativeType_ok: "wfColumn c \<Longrightarrow> \<exists>t. NativeType c = Inr t"
  by (cases rule: wfColumn_cases) auto

lemma ovsToNativeAtom_type: "ovsToNativeAtom t a = Inr b \<Longrightarrow> NativeTypeFromAtomic t = Inr (atomType b)"
  by (cases "(t, a)" rule: ovsToNativeAtom.cases) (auto split: if_splits)

lemma OvsToNativeAtomic_type:
  "OvsToNativeAtomic t v = Inr n \<Longrightarrow> \<exists>a b. v = VAtom a \<and> n = VAtom b \<and> ovsToNativeAtom t a = Inr b"
  by (cases "(t, v)" rule: OvsToNativeAtomic.cases) (auto simp: resR split: if_splits)

lemma convMap_invariant:
  assumes "convMap f g m = Inr m'"
  shows "gm_ok m' \<and> (\<forall>(k, v) \<in> set m'. \<exists>(k0, v0) \<in> set m. f k0 = Inr k \<and> g v0 = Inr v)"
  using assms unfolding convMap_def
proof (rule foldR_invariant)
  fix s p s'
  assume mem: "p \<in> set m" and inv: "gm_ok s \<and> (\<forall>(k, v)\<in>set s. \<exists>(k0, v0)\<in>set m. f k0 = Inr k \<and> g v0 = Inr v)"
    and step: "(case p of (k, v) \<Rightarrow> bindR (f k) (\<lambda>k'. bindR (g v) (\<lambda>v'. Inr (AList.update k' v' s)))) = Inr s'"
  obtain k v where p: "p = (k, v)" by fastforce
  from step p obtain k' v' where "f k = Inr k'" "g v = Inr v'" "s' = AList.update k' v' s"
    by (auto simp: bindR_eq_Inr)
  then show "gm_ok s' \<and> (\<forall>(k, v)\<in>set s'. \<exists>(k0, v0)\<in>set m. f k0 = Inr k \<and> g v0 = Inr v)"
    using inv mem p set_update_subset [of k' v' s] by fastforce
qed simp

lemma convMap_acc:
  assumes "\<And>k v. (k, v) \<in> set m \<Longrightarrow> f k = Inr (F k) \<and> g v = Inr (G v)"
    and "inj_on F (set (keys m))" and "gm_ok m" and "F ` set (keys m) \<inter> set (keys acc) = {}"
  shows "foldR (\<lambda>acc (k, v). bindR (f k) (\<lambda>k'. bindR (g v) (\<lambda>v'. Inr (AList.update k' v' acc)))) acc m
         = Inr (acc @ map (\<lambda>(k, v). (F k, G v)) m)"
  using assms
proof (induction m arbitrary: acc)
  case (Cons p m)
  obtain k v where p: "p = (k, v)" by fastforce
  have upd: "AList.update (F k) (G v) acc = acc @ [(F k, G v)]"
    using Cons.prems(4) p by (intro update_append_new) auto
  have "F ` set (keys m) \<inter> set (keys (acc @ [(F k, G v)])) = {}"
    using Cons.prems(2,3,4) p by (auto simp: inj_on_def image_iff)
  then have "foldR (\<lambda>acc (k, v). bindR (f k) (\<lambda>k'. bindR (g v) (\<lambda>v'. Inr (AList.update k' v' acc)))) (acc @ [(F k, G v)]) m
       = Inr ((acc @ [(F k, G v)]) @ map (\<lambda>(k, v). (F k, G v)) m)"
    using Cons.prems p by (intro Cons.IH) (auto simp: inj_on_def)
  then show ?case using Cons.prems(1) [of k v] p upd by simp
qed simp

lemma convMap_map:
  assumes "\<And>k v. (k, v) \<in> set m \<Longrightarrow> f k = Inr (F k) \<and> g v = Inr (G v)"
    and "inj_on F (set (keys m))" and "gm_ok m"
  shows "convMap f g m = Inr (map (\<lambda>(k, v). (F k, G v)) m)"
  unfolding convMap_def using convMap_acc [of m f F g G "[]"] assms by simp

definition toOvs :: "ExtendedType \<Rightarrow> atom \<Rightarrow> atom" where
  "toOvs t a = (if t = TypeUUID then uuidOf a else a)"

lemma atomType_cases:
  "atomType a = GInt \<longleftrightarrow> (\<exists>i. a = AInt i)" "atomType a = GFloat64 \<longleftrightarrow> (\<exists>r. a = AReal r)"
  "atomType a = GBool \<longleftrightarrow> (\<exists>b. a = ABool b)" "atomType a = GString \<longleftrightarrow> (\<exists>s. a = AStr s)"
  "atomType a = GUUID \<longleftrightarrow> (\<exists>s. a = AUUID s)"
  by (cases a; simp)+

lemma NativeToOvsAtomic_toOvs:
  assumes "NativeTypeFromAtomic t = Inr (atomType a)"
  shows "NativeToOvsAtomic t a = Inr (toOvs t a)" and "ovsToNativeAtom t (toOvs t a) = Inr a"
  using NativeTypeFromAtomic_isAtomic [OF assms] assms
  by (cases a; auto simp: NativeToOvsAtomic_def toOvs_def elim!: isAtomicTypeE)+

lemma toOvs_inj: "inj_on (toOvs t) {a. NativeTypeFromAtomic t = Inr (atomType a)}"
  by (rule inj_on_inverseI [of _ "\<lambda>b. projr (ovsToNativeAtom t b)"])
     (auto simp: NativeToOvsAtomic_toOvs)

text \<open>A nil slice or map decodes as an empty one.\<close>

fun nonNil :: "any \<Rightarrow> any" where
  "nonNil (VSlice t xs) = VSlice t (Some (elems xs))"
| "nonNil (VMap k v m) = VMap k v (Some (elems m))"
| "nonNil v = v"

lemma nativeSet_roundtrip:
  assumes "NativeTypeFromAtomic kt = Inr g" and "list_all (\<lambda>a. atomType a = g) xs"
  shows "mapR (ovsToNativeAtom kt) (map (toOvs kt) xs) = Inr xs"
  using assms by (induction xs) (auto simp: NativeToOvsAtomic_toOvs)

lemma nativeSetToOvs_slice:
  assumes "NativeTypeFromAtomic kt = Inr g"
  shows "nativeSetToOvs kt (VSlice g xs) = Inr (VOvsSet (Some (map (toOvs kt) (elems xs))))"
  using assms NativeTypeFromAtomic_isAtomic [OF assms]
  by (auto simp: nativeSetToOvs_def toOvs_def [abs_def] elim: isAtomicTypeE)

lemma nativeSetToOvs_ptr:
  assumes "NativeTypeFromAtomic kt = Inr g"
  shows "nativeSetToOvs kt (VPtr g x) = Inr (VOvsSet (Some (case x of None \<Rightarrow> [] | Some a \<Rightarrow> [toOvs kt a])))"
  using assms NativeTypeFromAtomic_isAtomic [OF assms]
  by (cases x) (auto simp: nativeSetToOvs_def toOvs_def elim: isAtomicTypeE)

lemma atomColumn_roundtrip:
  assumes "isAtomicType (cType c)" "NativeTypeFromAtomic (cType c) = Inr (atomType a)" "NativeType c = Inr (RAtom (atomType a))"
  shows "NativeToOvs c (VAtom a) = Inr (VAtom (toOvs (cType c) a)) \<and> OvsToNative c (VAtom (toOvs (cType c) a)) = Inr (VAtom a)"
  using assms NativeToOvsAtomic_toOvs(2) [OF assms(2)]
  by (cases a) (auto simp: NativeToOvs_def OvsToNative_def toOvs_def elim!: isAtomicTypeE)

lemma OvsToNativeSlice_type:
  assumes "OvsToNativeSlice t v = Inr n"
  shows "\<exists>g ys. NativeTypeFromAtomic t = Inr g \<and> n = VSlice g (Some ys) \<and> list_all (\<lambda>b. atomType b = g) ys"
  using assms
  by (cases "(t, v)" rule: OvsToNativeSlice.cases)
     (fastforce simp: resR mapR_eq_Inr list_all2_conv_all_nth list_all_length dest: ovsToNativeAtom_type)+

lemma ovsToNativePtr_type:
  assumes "ovsToNativePtr kt g v = Inr n" and "NativeTypeFromAtomic kt = Inr g"
  shows "typeOf n = Some (RPtr g) \<and> wfVal n"
proof (cases "\<exists>xs. v = VOvsSet xs")
  case True
  then show ?thesis using assms
    by (auto simp: ovsToNativePtr_def resR split: if_splits list.splits dest!: ovsToNativeAtom_type)
next
  case False
  then have "ovsToNativePtr kt g v = bindR (OvsToNativeAtomic kt v)
      (\<lambda>n. case n of VAtom b \<Rightarrow> Inr (VPtr g (Some b)) | _ \<Rightarrow> Inl (Panic ''reflect: Set''))"
    by (cases v) (auto simp: ovsToNativePtr_def)
  with assms(1) have "bindR (OvsToNativeAtomic kt v)
      (\<lambda>n. case n of VAtom b \<Rightarrow> Inr (VPtr g (Some b)) | _ \<Rightarrow> Inl (Panic ''reflect: Set'')) = Inr n"
    by simp
  then show ?thesis using assms(2)
    by (auto simp: resR dest!: OvsToNativeAtomic_type ovsToNativeAtom_type)
qed

lemma OvsToNative_typed:
  assumes "wfColumn c" and "OvsToNative c v = Inr n"
  shows "NativeType c = Inr (the (typeOf n)) \<and> typeOf n \<noteq> None \<and> wfVal n"
  using assms(1)
proof (cases rule: wfColumn_cases)
  case (Atomic g)
  have "OvsToNativeAtomic (cType c) v = Inr n"
    using assms(2) Atomic(1) by (auto simp: OvsToNative_def elim!: isAtomicTypeE)
  then show ?thesis using Atomic by (auto dest!: OvsToNativeAtomic_type ovsToNativeAtom_type)
next
  case (Enum kt g)
  then have "OvsToNativeAtomic kt v = Inr n"
    using assms(2) by (auto simp: OvsToNative_def)
  then show ?thesis using Enum by (auto dest!: OvsToNativeAtomic_type ovsToNativeAtom_type)
next
  case (Optional kt g)
  then show ?thesis using assms(2) by (auto simp: OvsToNative_def dest!: ovsToNativePtr_type)
next
  case (Slice kt g)
  then show ?thesis using assms(2) by (auto simp: OvsToNative_def dest!: OvsToNativeSlice_type)
next
  case (Map kt vt g h)
  then obtain m m' where m: "v = VOvsMap m" "n = VMap g h (Some m')"
      "convMap (ovsToNativeAtom kt) (ovsToNativeAtom vt) (elems m) = Inr m'"
    using assms(2) by (auto simp: OvsToNative_def resR split: any.splits)
  then show ?thesis
    using Map convMap_invariant [OF m(3)] by (fastforce simp: list_all_iff dest: ovsToNativeAtom_type)
qed

text \<open>
  A value that \<open>OvsToNative\<close> decodes for a column of a well-formed schema has
  exactly the Go type \<open>NativeType\<close> promises for that column, and its elements have the element type,
  so that the later \<open>SetField\<close> never sees a value of another type.
\<close>

theorem OvsToNative_type:
  assumes "wfColumn c" and "OvsToNative c v = Inr n"
  shows "NativeType c = Inr (the (typeOf n)) \<and> typeOf n \<noteq> None \<and> wfVal n"
  by (rule OvsToNative_typed [OF assms])

text \<open>A column declared as an unlimited set of integers, and one declared as a map from strings to uuids.\<close>

definition exBase :: "ExtendedType \<Rightarrow> BaseType" where
  "exBase t = \<lparr>bType = t, bEnum = None, minReal = None, maxReal = None, minInteger = None, maxInteger = None,
     minLength = None, maxLength = None, refTableP = None, refTypeP = None\<rparr>"

definition exSetColumn :: ColumnSchema where
  "exSetColumn = \<lparr>cType = TypeSet, TypeObj = Some \<lparr>Key = Some (exBase TypeInteger), Value = None, minP = Some 0, maxP = Some Unlimited\<rparr>,
     ephemeral = None, mutable = None\<rparr>"

definition exMapColumn :: ColumnSchema where
  "exMapColumn = \<lparr>cType = TypeMap, TypeObj = Some \<lparr>Key = Some (exBase TypeString), Value = Some (exBase TypeUUID), minP = Some 0, maxP = Some Unlimited\<rparr>,
     ephemeral = None, mutable = None\<rparr>"

lemmas exColumn_defs = exSetColumn_def exMapColumn_def exBase_def inferType_def Min_def Max_def Unlimited_def
  keyType_def valueType_def typeObj_def NativeType_def

lemma wfColumn_examples: "wfColumn exSetColumn" "wfColumn exMapColumn"
  by (simp_all add: wfColumn_def wfBase_def isAtomicType_def exColumn_defs)

theorem OvsToNative_type_witness:
  "OvsToNative exSetColumn (VOvsSet (Some [AInt 3, AInt 5])) = Inr (VSlice GInt (Some [AInt 3, AInt 5]))
   \<and> NativeType exSetColumn = Inr (RSlice GInt)"
proof -
  have h: "OvsToNative exSetColumn (VOvsSet (Some [AInt 3, AInt 5])) = Inr (VSlice GInt (Some [AInt 3, AInt 5]))"
    by (simp add: OvsToNative_def exColumn_defs)
  show ?thesis using h OvsToNative_type [OF wfColumn_examples(1) h] by simp
qed

lemma NativeToOvs_inverse:
  assumes "wfColumn c" and "NativeType c = Inr t" and "typeOf v = Some t" and "wfVal v"
  shows "\<exists>e. NativeToOvs c v = Inr e \<and> OvsToNative c e = Inr (nonNil v)"
  using assms(1)
proof (cases rule: wfColumn_cases)
  case (Atomic g)
  then obtain a where "v = VAtom a" "atomType a = g" using assms(2,3) by (auto dest: typeOf_RAtomD)
  then show ?thesis using Atomic atomColumn_roundtrip [of c a] by auto
next
  case (Enum kt g)
  then obtain a where a: "v = VAtom a" "atomType a = g" using assms(2,3) by (auto dest: typeOf_RAtomD)
  have "OvsToNativeAtomic kt (VAtom (toOvs kt a)) = Inr (VAtom a)"
    using Enum a by (simp add: NativeToOvsAtomic_toOvs)
  moreover have "NativeToOvs c v = Inr (VAtom (toOvs kt a))"
    using Enum a by (auto simp: NativeToOvs_def toOvs_def)
  ultimately show ?thesis using Enum a by (auto simp: OvsToNative_def)
next
  case (Optional kt g)
  then obtain x where x: "v = VPtr g x" using assms(2,3) by (auto dest: typeOf_RPtrD)
  have "NativeToOvs c v = nativeSetToOvs kt v"
    using Optional x by (simp add: NativeToOvs_def)
  then show ?thesis using Optional x assms(4)
    by (cases x) (auto simp: OvsToNative_def ovsToNativePtr_def nativeSetToOvs_ptr NativeToOvsAtomic_toOvs)
next
  case (Slice kt g)
  then obtain x where x: "v = VSlice g x" using assms(2,3) by (auto dest: typeOf_RSliceD)
  have "NativeToOvs c v = nativeSetToOvs kt v"
    using Slice x by (simp add: NativeToOvs_def)
  then show ?thesis using Slice x assms(4)
    by (auto simp: OvsToNative_def nativeSetToOvs_slice nativeSet_roundtrip)
next
  case (Map kt vt g h)
  then obtain x where x: "v = VMap g h x" using assms(2,3) by (auto dest: typeOf_RMapD)
  have ok: "gm_ok (elems x)" and ty: "\<And>k w. (k, w) \<in> set (elems x) \<Longrightarrow> atomType k = g \<and> atomType w = h"
    using assms(4) x by (auto simp: list_all_iff)
  let ?m = "map (\<lambda>(k, w). (toOvs kt k, toOvs vt w)) (elems x)"
  have sub: "set (keys (elems x)) \<subseteq> {a. NativeTypeFromAtomic kt = Inr (atomType a)}"
    using Map(6) ty by auto
  have inj: "inj_on (toOvs kt) (set (keys (elems x)))"
    by (rule inj_on_subset [OF toOvs_inj sub])
  have enc: "convMap (NativeToOvsAtomic kt) (NativeToOvsAtomic vt) (elems x) = Inr ?m"
    using Map ty inj ok by (intro convMap_map) (auto simp: NativeToOvsAtomic_toOvs)
  let ?F = "\<lambda>b. projr (ovsToNativeAtom kt b)" and ?G = "\<lambda>b. projr (ovsToNativeAtom vt b)"
  have ks: "keys ?m = map (toOvs kt) (keys (elems x))"
    by (simp add: split_def)
  have "convMap (ovsToNativeAtom kt) (ovsToNativeAtom vt) ?m = Inr (map (\<lambda>(k, w). (?F k, ?G w)) ?m)"
  proof (rule convMap_map)
    show "inj_on ?F (set (keys ?m))"
      using Map(6) ty unfolding ks by (auto simp: inj_on_def NativeToOvsAtomic_toOvs)
    show "gm_ok ?m"
      using ok inj unfolding ks distinct_map [of "toOvs kt"] by blast
  qed (use Map(6,7) ty in \<open>auto simp: NativeToOvsAtomic_toOvs\<close>)
  also have "map (\<lambda>(k, w). (?F k, ?G w)) ?m = elems x"
    using Map(6,7) ty by (intro map_idI [of "elems x", THEN trans [rotated]]) (auto simp: NativeToOvsAtomic_toOvs)
  finally have dec: "convMap (ovsToNativeAtom kt) (ovsToNativeAtom vt) ?m = Inr (elems x)" .
  show ?thesis using Map x enc dec by (auto simp: NativeToOvs_def OvsToNative_def)
qed

text \<open>
  Round trip of the bindings: a native value of a column's type is encoded by
  \<open>NativeToOvs\<close> without error, and \<open>OvsToNative\<close> decodes the result to the value itself, a
  nil slice or map becoming an empty one.
\<close>

theorem NativeToOvs_roundtrip:
  assumes "wfColumn c" and "NativeType c = Inr t" and "typeOf v = Some t" and "wfVal v"
  shows "\<exists>e. NativeToOvs c v = Inr e \<and> OvsToNative c e = Inr (nonNil v)"
  by (rule NativeToOvs_inverse [OF assms])

theorem NativeToOvs_roundtrip_witness:
  "\<exists>e. NativeToOvs exMapColumn (VMap GString GString (Some [(AStr ''a'', AStr ''u1''), (AStr ''b'', AStr ''u2'')])) = Inr e
     \<and> OvsToNative exMapColumn e = Inr (VMap GString GString (Some [(AStr ''a'', AStr ''u1''), (AStr ''b'', AStr ''u2'')]))"
proof -
  have t: "NativeType exMapColumn = Inr (RMap GString GString)" by (simp add: exColumn_defs)
  show ?thesis
    using NativeToOvs_roundtrip [OF wfColumn_examples(2) t,
        of "VMap GString GString (Some [(AStr ''a'', AStr ''u1''), (AStr ''b'', AStr ''u2'')])"] by simp
qed

end
