(* ===== verification/Mapper.thy ===== *)
theory Mapper
  imports Bindings
begin

text \<open>
  The object mapper (\<open>mapper/info.go\<close>, \<open>mapper/mapper.go\<close>): a user struct is a list of
  fields, each with a name, an \<open>ovsdb\<close> tag and a type; a model is a value of such a struct.
  \<open>NewInfo\<close> checks a struct against a table schema, \<open>FieldByColumn\<close> and \<open>SetField\<close> read and
  write through the column name, \<open>getRowData\<close> and \<open>NewRow\<close> translate between rows and models, and the
  remaining operations build conditions and mutations and compare models by their indexes. The locale
  \<open>fields\<close> states what the clients of \<open>Info\<close> rely on. A pointer passed to name a field is
  a \<open>FieldPtr\<close>: the address of a field of the object, another address, or no pointer.
\<close>

section \<open>Structs and models\<close>

record StructField =
  fName :: string
  fTag :: string
  fType :: rtype

record StructType =
  sName :: string
  sFields :: "StructField list"

record Model =
  mType :: StructType
  mObj :: "(string, any) gomap"

record Metadata =
  Fields :: "(string, string) gomap"
  mTableSchema :: TableSchema
  TableName :: string

record Info =
  Obj :: Model
  iMeta :: Metadata

datatype FieldPtr = NotPointer | FieldAddr string | OtherAddr

definition fieldType :: "StructType \<Rightarrow> string \<Rightarrow> rtype option" where
  "fieldType st f = map_option fType (find (\<lambda>x. fName x = f) (sFields st))"

text \<open>\<open>reflect.New\<close>: every field has the zero value of its type.\<close>

definition zeroModel :: "StructType \<Rightarrow> Model" where
  "zeroModel st = \<lparr>mType = st, mObj = map (\<lambda>f. (fName f, zeroOf (fType f))) (sFields st)\<rparr>"

section \<open>Info\<close>

definition FieldByColumn :: "Info \<Rightarrow> string \<Rightarrow> any result" where
  "FieldByColumn i column =
     (case map_of (Fields (iMeta i)) column of
        None \<Rightarrow> Inl (ErrColumnNotFound column (TableName (iMeta i)))
      | Some f \<Rightarrow> (case map_of (mObj (Obj i)) f of
                     None \<Rightarrow> Inl (Panic ''reflect: Interface on zero Value'')
                   | Some v \<Rightarrow> Inr v))"

definition hasColumn :: "Info \<Rightarrow> string \<Rightarrow> bool" where
  "hasColumn i column = (map_of (Fields (iMeta i)) column \<noteq> None)"

definition SetField :: "Info \<Rightarrow> string \<Rightarrow> any \<Rightarrow> Info result" where
  "SetField i column v =
     (case map_of (Fields (iMeta i)) column of
        None \<Rightarrow> Inl (Errorf ''SetField: column not found in orm info'')
      | Some f \<Rightarrow>
          (case fieldType (mType (Obj i)) f of
             None \<Rightarrow> Inl (Panic ''reflect: Type on zero Value'')
           | Some t \<Rightarrow>
               if typeOf v = None then Inl (Panic ''reflect: nil type passed to Type.AssignableTo'')
               else if typeOf v \<noteq> Some t then Inl (Errorf ''native value is not assignable to field'')
               else Inr (i\<lparr>Obj := (Obj i)\<lparr>mObj := AList.update f v (mObj (Obj i))\<rparr>\<rparr>)))"

definition ColumnByPtr :: "Info \<Rightarrow> FieldPtr \<Rightarrow> string result" where
  "ColumnByPtr i p =
     (case p of
        NotPointer \<Rightarrow> Inl (ErrWrongType ''ColumnByPointer'')
      | OtherAddr \<Rightarrow> Inl (Errorf ''field pointer does not correspond to orm struct'')
      | FieldAddr f \<Rightarrow>
          (case find (\<lambda>x. fName x = f) (sFields (mType (Obj i))) of
             None \<Rightarrow> Inl (Errorf ''field pointer does not correspond to orm struct'')
           | Some x \<Rightarrow> if map_of (Fields (iMeta i)) (fTag x) = None
                       then Inl (Errorf ''field does not have orm column information'')
                       else Inr (fTag x)))"

definition isValidColumn :: "Info \<Rightarrow> string \<Rightarrow> bool result" where
  "isValidColumn i col =
     (if \<not> hasColumn i col then Inr False
      else case Column (mTableSchema (iMeta i)) col of
             None \<Rightarrow> Inr False
           | Some cs \<Rightarrow>
               bindR (FieldByColumn i col) (\<lambda>field.
                 if field = VNil then Inr False
                 else bindR (IsDefaultValue cs field) (\<lambda>d. Inr (\<not> d))))"

primrec validIndex :: "Info \<Rightarrow> string list \<Rightarrow> bool result" where
  "validIndex i [] = Inr True"
| "validIndex i (col # cols) =
     bindR (isValidColumn i col) (\<lambda>ok. if ok then validIndex i cols else Inr False)"

definition getValidIndexes :: "Info \<Rightarrow> string list list result" where
  "getValidIndexes i =
     foldR (\<lambda>acc idx. bindR (validIndex i idx) (\<lambda>ok. Inr (if ok then acc @ [idx] else acc)))
       [] ([''_uuid''] # Indexes (mTableSchema (iMeta i)))"

definition fieldEntry :: "TableSchema \<Rightarrow> StructField \<Rightarrow> (string, string) gomap \<Rightarrow> (string, string) gomap result" where
  "fieldEntry table field fs =
     (if fTag field = [] then Inr fs
      else case Column table (fTag field) of
             None \<Rightarrow> Inl (Errorf ''Column does not exist in schema'')
           | Some column \<Rightarrow>
               bindR (NativeType column) (\<lambda>expType.
                 if expType \<noteq> fType field then Inl (Errorf ''Wrong type'')
                 else Inr (AList.update (fTag field) (fName field) fs)))"

definition NewInfo :: "string \<Rightarrow> TableSchema \<Rightarrow> Model \<Rightarrow> Info result" where
  "NewInfo tableName table obj =
     bindR (foldR (\<lambda>fs field. fieldEntry table field fs) [] (sFields (mType obj)))
       (\<lambda>fs. Inr \<lparr>Obj = obj, iMeta = \<lparr>Fields = fs, mTableSchema = table, TableName = tableName\<rparr>\<rparr>)"

definition ColumnsByPtr :: "Info \<Rightarrow> FieldPtr list \<Rightarrow> string list result" where
  "ColumnsByPtr i fs =
     foldR (\<lambda>columns f. bindR (ColumnByPtr i f) (\<lambda>c. Inr (if c \<in> set columns then columns else columns @ [c]))) [] fs"

definition ColumnsByPtrWithUUID :: "Info \<Rightarrow> FieldPtr list \<Rightarrow> string list result" where
  "ColumnsByPtrWithUUID i fs =
     bindR (ColumnsByPtr i fs) (\<lambda>columns.
       Inr (if ''_uuid'' \<in> set columns then columns else columns @ [''_uuid'']))"

section \<open>Mapper\<close>

definition getRowColumn :: "Row \<Rightarrow> Info \<Rightarrow> string \<times> ColumnSchema \<Rightarrow> Info result" where
  "getRowColumn ovsData result = (\<lambda>(name, column).
     if \<not> hasColumn result name then Inr result
     else case map_of ovsData name of
            None \<Rightarrow> Inr result
          | Some ovsElem \<Rightarrow>
              (case OvsToNative column ovsElem of
                 Inl (Panic s) \<Rightarrow> Inl (Panic s)
               | Inl _ \<Rightarrow> Inl (Errorf ''failed to extract native element'')
               | Inr nativeElem \<Rightarrow> SetField result name nativeElem))"

definition getRowData :: "Row \<Rightarrow> Info \<Rightarrow> Info result" where
  "getRowData ovsData result = foldR (getRowColumn ovsData) result (Columns (mTableSchema (iMeta result)))"

definition GetRowData :: "Row option \<Rightarrow> Info \<Rightarrow> Info result" where
  "GetRowData row result = (case row of None \<Rightarrow> Inr result | Some r \<Rightarrow> getRowData r result)"

definition getRowDataWithUUID :: "Row \<Rightarrow> Info \<Rightarrow> Info result" where
  "getRowDataWithUUID ovsData result =
     bindR (getRowData ovsData result) (\<lambda>r.
       case map_of ovsData ''_uuid'' of
         Some (VAtom (AUUID u)) \<Rightarrow> if hasColumn r ''_uuid'' then SetField r ''_uuid'' (VAtom (AStr u)) else Inr r
       | _ \<Rightarrow> Inr r)"

definition GetRowDataWithUUID :: "Row option \<Rightarrow> Info \<Rightarrow> Info result" where
  "GetRowDataWithUUID row result = (case row of None \<Rightarrow> Inr result | Some r \<Rightarrow> getRowDataWithUUID r result)"

text \<open>The search for \<open>name\<close> among the given field pointers stops at the first match or error.\<close>

primrec selected :: "Info \<Rightarrow> string \<Rightarrow> FieldPtr list \<Rightarrow> bool result" where
  "selected i name [] = Inr False"
| "selected i name (f # fs) = bindR (ColumnByPtr i f) (\<lambda>col. if col = name then Inr True else selected i name fs)"

definition newRowColumn :: "Info \<Rightarrow> FieldPtr list \<Rightarrow> Row \<Rightarrow> string \<times> ColumnSchema \<Rightarrow> Row result" where
  "newRowColumn i fs row = (\<lambda>(name, column).
     case FieldByColumn i name of
       Inl (Panic s) \<Rightarrow> Inl (Panic s)
     | Inl _ \<Rightarrow> Inr row
     | Inr nativeElem \<Rightarrow>
         bindR (if fs \<noteq> [] then selected i name fs
                else bindR (IsDefaultValue column nativeElem) (\<lambda>d. Inr (\<not> d))) (\<lambda>keep.
           if \<not> keep then Inr row
           else case NativeToOvs column nativeElem of
                  Inl (Panic s) \<Rightarrow> Inl (Panic s)
                | Inl _ \<Rightarrow> Inl (Errorf ''failed to generate ovs element'')
                | Inr ovsElem \<Rightarrow> Inr (AList.update name ovsElem row)))"

definition NewRowF :: "Info \<Rightarrow> FieldPtr list \<Rightarrow> Row result" where
  "NewRowF i fs =
     foldR (newRowColumn i fs) [] (AList.update ''_uuid'' UUIDColumn (Columns (mTableSchema (iMeta i))))"

definition NewRow :: "Info \<Rightarrow> Row result" where
  "NewRow i = NewRowF i []"

definition NewCondition :: "string \<Rightarrow> ConditionFunction \<Rightarrow> any \<Rightarrow> Condition" where
  "NewCondition column function v = \<lparr>cColumn = column, cFunction = function, cValue = v\<rparr>"

definition equalityCondition :: "Info \<Rightarrow> string \<Rightarrow> Condition result" where
  "equalityCondition i col =
     bindR (FieldByColumn i col) (\<lambda>field.
       case Column (mTableSchema (iMeta i)) col of
         None \<Rightarrow> Inl (Errorf ''column not found'')
       | Some column \<Rightarrow> bindR (NativeToOvs column field) (\<lambda>v. Inr (NewCondition col ConditionEqual v)))"

definition NewEqualityCondition :: "Info \<Rightarrow> FieldPtr list \<Rightarrow> Condition list result" where
  "NewEqualityCondition i fs =
     bindR (if fs \<noteq> [] then bindR (mapR (ColumnByPtr i) fs) (\<lambda>idx. Inr [idx]) else getValidIndexes i) (\<lambda>condIndex.
       case condIndex of
         [] \<Rightarrow> Inl (Errorf ''failed to find a valid index'')
       | idx # _ \<Rightarrow> mapR (equalityCondition i) idx)"

definition mapperNewCondition :: "Info \<Rightarrow> FieldPtr \<Rightarrow> ConditionFunction \<Rightarrow> any \<Rightarrow> Condition result" where
  "mapperNewCondition i field function v =
     bindR (ColumnByPtr i field) (\<lambda>column.
       case Column (mTableSchema (iMeta i)) column of
         None \<Rightarrow> Inl (Errorf ''column not found'')
       | Some cs \<Rightarrow>
           bindR (ValidateCondition cs function v) (\<lambda>_.
           bindR (NativeToOvs cs v) (\<lambda>ov. Inr (NewCondition column function ov))))"

definition NewMutation :: "Info \<Rightarrow> string \<Rightarrow> Mutator \<Rightarrow> any \<Rightarrow> Mutation result" where
  "NewMutation i column mutator v =
     (if \<not> hasColumn i column then Inl (Errorf ''mutation contains column that does not exist in object'')
      else case Column (mTableSchema (iMeta i)) column of
        None \<Rightarrow> Inl (Errorf ''column not found'')
      | Some cs \<Rightarrow>
          bindR (ValidateMutation cs mutator v) (\<lambda>_.
          bindR (if mutator = MutateOperationDelete \<and> cType cs = TypeMap \<and> kindOf v \<noteq> KMap
                 then NewOvsSet v else NativeToOvs cs v) (\<lambda>ov.
          Inr \<lparr>mColumn = column, mMutator = mutator, mValue = ov\<rparr>)))"

text \<open>
  \<open>equalIndexes\<close>: for each pair of equal indexes the columns are compared until one
  differs or is not a field of both; the match flag is carried over from pair to pair.
\<close>

primrec indexMatch :: "Info \<Rightarrow> Info \<Rightarrow> bool \<Rightarrow> string list \<Rightarrow> bool result" where
  "indexMatch one other match [] = Inr match"
| "indexMatch one other match (col # cols) =
     (if \<not> hasColumn one col \<or> \<not> hasColumn other col then Inr match
      else bindR (FieldByColumn one col) (\<lambda>l. bindR (FieldByColumn other col) (\<lambda>r.
             if deepEqual l r then indexMatch one other True cols else Inr False)))"

fun equalPairs :: "Info \<Rightarrow> Info \<Rightarrow> bool \<Rightarrow> (string list \<times> string list) list \<Rightarrow> bool result" where
  "equalPairs one other match [] = Inr False"
| "equalPairs one other match ((l, r) # ps) =
     (if r = l
      then bindR (indexMatch one other match l) (\<lambda>m. if m then Inr True else equalPairs one other m ps)
      else equalPairs one other match ps)"

definition equalIndexes :: "Info \<Rightarrow> Info \<Rightarrow> string list \<Rightarrow> bool result" where
  "equalIndexes one other indexes =
     bindR (getValidIndexes one) (\<lambda>oneIndexes. bindR (getValidIndexes other) (\<lambda>otherIndexes.
       equalPairs one other False (List.product (oneIndexes @ [indexes]) (otherIndexes @ [indexes]))))"

definition EqualFields :: "Info \<Rightarrow> Info \<Rightarrow> FieldPtr list \<Rightarrow> bool result" where
  "EqualFields one other fs =
     bindR (mapR (ColumnByPtr one) fs) (\<lambda>indexes. equalIndexes one other indexes)"

section \<open>Fields by column\<close>

definition colType :: "Info \<Rightarrow> string \<Rightarrow> rtype option" where
  "colType i c = (case map_of (Fields (iMeta i)) c of None \<Rightarrow> None | Some f \<Rightarrow> fieldType (mType (Obj i)) f)"

definition wfField :: "Info \<Rightarrow> string \<times> string \<Rightarrow> bool" where
  "wfField i = (\<lambda>(c, f).
     case (fieldType (mType (Obj i)) f, Column (mTableSchema (iMeta i)) c, map_of (mObj (Obj i)) f) of
       (Some t, Some col, Some v) \<Rightarrow> NativeType col = Inr t \<and> typeOf v = Some t \<and> wfVal v
     | _ \<Rightarrow> False)"

definition wfInfo :: "Info \<Rightarrow> bool" where
  "wfInfo i = (wfTable (mTableSchema (iMeta i)) \<and> gm_ok (Fields (iMeta i)) \<and> distinct (map snd (Fields (iMeta i)))
     \<and> list_all (wfField i) (Fields (iMeta i)))"

text \<open>What the users of a wrapped object rely on: reads are typed, a write is seen by the reads of its column only.\<close>

locale fields =
  fixes ok :: "'i \<Rightarrow> bool"
    and ty :: "'i \<Rightarrow> string \<Rightarrow> rtype option"
    and get :: "'i \<Rightarrow> string \<Rightarrow> any result"
    and put :: "'i \<Rightarrow> string \<Rightarrow> any \<Rightarrow> 'i result"
  assumes get_typed: "ok i \<Longrightarrow> ty i c = Some t \<Longrightarrow> \<exists>v. get i c = Inr v \<and> typeOf v = Some t \<and> wfVal v"
    and put_ok: "ok i \<Longrightarrow> ty i c = Some t \<Longrightarrow> typeOf v = Some t \<Longrightarrow> wfVal v
      \<Longrightarrow> \<exists>i'. put i c v = Inr i' \<and> ok i' \<and> ty i' = ty i \<and> (\<forall>c'. get i' c' = (if c' = c then Inr v else get i c'))"
    and put_typed: "ok i \<Longrightarrow> put i c v = Inr i' \<Longrightarrow> ty i c = typeOf v \<and> typeOf v \<noteq> None"
begin

text \<open>A sequence of writes, and its effect: the last write of each column.\<close>

definition putAll :: "'i \<Rightarrow> (string \<times> any) list \<Rightarrow> 'i result" where
  "putAll i cvs = foldR (\<lambda>i (c, v). put i c v) i cvs"

lemma putAll_ok:
  assumes "ok i" and "gm_ok cvs" and "\<And>c v. (c, v) \<in> set cvs \<Longrightarrow> ty i c \<noteq> None \<and> ty i c = typeOf v \<and> wfVal v"
  shows "\<exists>i'. putAll i cvs = Inr i' \<and> ok i' \<and> ty i' = ty i
    \<and> (\<forall>c. get i' c = (case map_of cvs c of None \<Rightarrow> get i c | Some v \<Rightarrow> Inr v))"
  using assms
proof (induction cvs arbitrary: i)
  case Nil
  then show ?case by (simp add: putAll_def)
next
  case (Cons p cvs)
  obtain c v where p: "p = (c, v)" by fastforce
  obtain t where t: "ty i c = Some t" "typeOf v = Some t" "wfVal v"
    using Cons.prems(3) [of c v] p by auto
  obtain i1 where i1: "put i c v = Inr i1" "ok i1" "ty i1 = ty i"
      "\<And>c'. get i1 c' = (if c' = c then Inr v else get i c')"
    using put_ok [OF Cons.prems(1) t] by blast
  have ex: "\<exists>i'. putAll i1 cvs = Inr i' \<and> ok i' \<and> ty i' = ty i1
    \<and> (\<forall>c. get i' c = (case map_of cvs c of None \<Rightarrow> get i1 c | Some v \<Rightarrow> Inr v))"
  proof (rule Cons.IH [OF i1(2)])
    show "gm_ok cvs" using Cons.prems(2) by simp
    show "ty i1 a \<noteq> None \<and> ty i1 a = typeOf b \<and> wfVal b" if "(a, b) \<in> set cvs" for a b
      using Cons.prems(3) [of a b] that i1(3) by auto
  qed
  obtain i' where i': "putAll i1 cvs = Inr i'" "ok i'" "ty i' = ty i1"
      "\<And>c. get i' c = (case map_of cvs c of None \<Rightarrow> get i1 c | Some v \<Rightarrow> Inr v)"
    using ex by blast
  have "map_of cvs c = None"
    using Cons.prems(2) p by (simp add: map_of_eq_None_iff)
  then have "get i' c' = (case map_of (p # cvs) c' of None \<Rightarrow> get i c' | Some v \<Rightarrow> Inr v)" for c'
    using i'(4) [of c'] i1(4) [of c'] p by (cases "c' = c"; cases "map_of cvs c'") auto
  then show ?case
    using i1(1,3) i'(1-3) p by (intro exI [of _ i']) (simp add: putAll_def)
qed

end

lemma fieldType_fst: "distinct (map fName fs) \<Longrightarrow> x \<in> set fs \<Longrightarrow> find (\<lambda>y. fName y = fName x) fs = Some x"
  by (induction fs) auto

lemma snd_inj:
  assumes "distinct (map snd m)" "map_of m c = Some f" "map_of m c' = Some f"
  shows "c = c'"
  using assms by (induction m) (auto split: if_splits dest!: map_of_SomeD intro: rev_image_eqI)

lemma wfInfo_field:
  assumes "wfInfo i" "map_of (Fields (iMeta i)) c = Some f"
  obtains t col v where "fieldType (mType (Obj i)) f = Some t" "Column (mTableSchema (iMeta i)) c = Some col"
    "NativeType col = Inr t" "map_of (mObj (Obj i)) f = Some v" "typeOf v = Some t" "wfVal v" "wfColumn col"
proof -
  have "wfField i (c, f)"
    using assms by (auto simp: wfInfo_def list_all_iff dest: map_of_SomeD)
  then obtain t col v where "fieldType (mType (Obj i)) f = Some t" "Column (mTableSchema (iMeta i)) c = Some col"
    "NativeType col = Inr t" "map_of (mObj (Obj i)) f = Some v" "typeOf v = Some t" "wfVal v"
    by (auto simp: wfField_def split: option.splits)
  moreover from this have "wfColumn col" using assms(1) wfColumn_Column by (auto simp: wfInfo_def)
  ultimately show thesis by (rule that)
qed

lemma wfInfo_column:
  assumes "wfInfo i" "map_of (Fields (iMeta i)) c = Some f" "Column (mTableSchema (iMeta i)) c = Some col"
  obtains t v where "fieldType (mType (Obj i)) f = Some t" "NativeType col = Inr t"
    "map_of (mObj (Obj i)) f = Some v" "typeOf v = Some t" "wfVal v" "wfColumn col"
  by (rule wfInfo_field [OF assms(1,2)]) (use assms(3) that in simp)

lemma colType_cong: "iMeta i' = iMeta i \<Longrightarrow> mType (Obj i') = mType (Obj i) \<Longrightarrow> colType i' = colType i"
  by (simp add: colType_def fun_eq_iff split: option.split)

lemma hasColumn_colType: "wfInfo i \<Longrightarrow> hasColumn i c \<Longrightarrow> \<exists>t. colType i c = Some t"
  by (auto simp: hasColumn_def colType_def elim: wfInfo_field)

lemma colType_native:
  assumes "wfInfo i" "Column (mTableSchema (iMeta i)) c = Some col" "hasColumn i c"
  shows "\<exists>t. colType i c = Some t \<and> NativeType col = Inr t"
proof -
  obtain f where f: "map_of (Fields (iMeta i)) c = Some f" using assms(3) by (auto simp: hasColumn_def)
  show ?thesis by (rule wfInfo_column [OF assms(1) f assms(2)]) (simp add: colType_def f)
qed

lemma SetField_wf:
  assumes i: "wfInfo i" and f: "map_of (Fields (iMeta i)) c = Some f" "fieldType (mType (Obj i)) f = Some t"
    and v: "typeOf v = Some t" "wfVal v"
  defines "i' \<equiv> i\<lparr>Obj := (Obj i)\<lparr>mObj := AList.update f v (mObj (Obj i))\<rparr>\<rparr>"
  shows "SetField i c v = Inr i'" "wfInfo i'" "FieldByColumn i' c' = (if c' = c then Inr v else FieldByColumn i c')"
proof -
  show "SetField i c v = Inr i'" using f v by (simp add: SetField_def i'_def)
  have "wfField i' p" if "wfField i p" for p
    using that f v by (auto simp: wfField_def i'_def split: option.splits prod.splits)
  then show "wfInfo i'" using i by (auto simp: wfInfo_def i'_def list_all_iff)
  show "FieldByColumn i' c' = (if c' = c then Inr v else FieldByColumn i c')"
  proof (cases "map_of (Fields (iMeta i)) c'")
    case None
    then show ?thesis using f by (auto simp: FieldByColumn_def i'_def)
  next
    case (Some f')
    have "f' \<noteq> f" if "c' \<noteq> c"
      using that snd_inj [of "Fields (iMeta i)" c' f c] i f(1) Some unfolding wfInfo_def by metis
    then show ?thesis using Some f(1) by (cases "c' = c") (simp_all add: FieldByColumn_def i'_def)
  qed
qed

interpretation info: fields wfInfo colType FieldByColumn SetField
proof
  fix i c t v i'
  assume i: "wfInfo i"
  show "\<exists>v. FieldByColumn i c = Inr v \<and> typeOf v = Some t \<and> wfVal v" if "colType i c = Some t"
    using that by (auto simp: colType_def FieldByColumn_def split: option.splits elim: wfInfo_field [OF i])
  show "\<exists>i'. SetField i c v = Inr i' \<and> wfInfo i' \<and> colType i' = colType i
      \<and> (\<forall>c'. FieldByColumn i' c' = (if c' = c then Inr v else FieldByColumn i c'))"
    if a: "colType i c = Some t" "typeOf v = Some t" "wfVal v"
  proof -
    obtain f where f: "map_of (Fields (iMeta i)) c = Some f" "fieldType (mType (Obj i)) f = Some t"
      using a(1) by (auto simp: colType_def split: option.splits)
    note r = SetField_wf [OF i f a(2,3)]
    show ?thesis
      using r by (intro exI conjI allI) (assumption | simp add: colType_def fun_eq_iff split: option.split)+
  qed
  show "colType i c = typeOf v \<and> typeOf v \<noteq> None" if "SetField i c v = Inr i'"
    using that by (auto simp: SetField_def colType_def split: option.splits if_splits)
qed

section \<open>Objects of a table\<close>

text \<open>\<open>NewInfo\<close> succeeds only for a struct whose tagged fields have the native types of their columns.\<close>

definition wfModel :: "Model \<Rightarrow> bool" where
  "wfModel m = (distinct (map fName (sFields (mType m)))
     \<and> list_all (\<lambda>f. case map_of (mObj m) (fName f) of None \<Rightarrow> False | Some v \<Rightarrow> typeOf v = Some (fType f) \<and> wfVal v)
         (sFields (mType m)))"

lemma wfModel_zeroModel: "distinct (map fName (sFields st)) \<Longrightarrow> wfModel (zeroModel st)"
proof -
  assume d: "distinct (map fName (sFields st))"
  have "map_of (map (\<lambda>f. (fName f, zeroOf (fType f))) fs) (fName x) = Some (zeroOf (fType x))"
    if "distinct (map fName fs)" "x \<in> set fs" for fs :: "StructField list" and x
    using that by (induction fs) (auto intro: rev_image_eqI)
  then show ?thesis using d by (auto simp: wfModel_def zeroModel_def list_all_iff)
qed

lemma NewInfo_fields:
  assumes "NewInfo tn ts m = Inr i"
  shows "Obj i = m" "mTableSchema (iMeta i) = ts" "TableName (iMeta i) = tn" "gm_ok (Fields (iMeta i))"
    "\<And>c f. (c, f) \<in> set (Fields (iMeta i)) \<Longrightarrow> \<exists>x \<in> set (sFields (mType m)). fName x = f \<and> fTag x = c
        \<and> (\<exists>col. Column ts c = Some col \<and> NativeType col = Inr (fType x))"
proof -
  let ?P = "\<lambda>c f. \<exists>x \<in> set (sFields (mType m)). fName x = f \<and> fTag x = c
        \<and> (\<exists>col. Column ts c = Some col \<and> NativeType col = Inr (fType x))"
  obtain fs where fs: "foldR (\<lambda>fs field. fieldEntry ts field fs) [] (sFields (mType m)) = Inr fs"
      "i = \<lparr>Obj = m, iMeta = \<lparr>Fields = fs, mTableSchema = ts, TableName = tn\<rparr>\<rparr>"
    using assms by (auto simp: NewInfo_def resR)
  have "gm_ok fs \<and> (\<forall>(c, f) \<in> set fs. ?P c f)"
    using fs(1)
  proof (rule foldR_invariant)
    fix s x s'
    assume x: "x \<in> set (sFields (mType m))" and s: "gm_ok s \<and> (\<forall>(c, f) \<in> set s. ?P c f)" and "fieldEntry ts x s = Inr s'"
    then consider "s' = s" | col where "Column ts (fTag x) = Some col" "NativeType col = Inr (fType x)"
        "s' = AList.update (fTag x) (fName x) s"
      by (auto simp: fieldEntry_def resR split: if_splits option.splits)
    then show "gm_ok s' \<and> (\<forall>(c, f) \<in> set s'. ?P c f)"
    proof cases
      case 2
      then have "?P c f" if "(c, f) \<in> set s'" for c f
        using that set_update_subset [of "fTag x" "fName x" s] s x by fastforce
      then show ?thesis using s 2(3) by auto
    qed (use s in simp)
  qed simp
  then show "gm_ok (Fields (iMeta i))" "\<And>c f. (c, f) \<in> set (Fields (iMeta i)) \<Longrightarrow> ?P c f"
    using fs(2) by auto
  show "Obj i = m" "mTableSchema (iMeta i) = ts" "TableName (iMeta i) = tn" using fs(2) by auto
qed

lemma NewInfo_wf:
  assumes "NewInfo tn ts m = Inr i" "wfModel m" "wfTable ts"
  shows "wfInfo i"
proof -
  note f = NewInfo_fields [OF assms(1)]
  have inj: "fTag x = fTag y" if "x \<in> set (sFields (mType m))" "y \<in> set (sFields (mType m))" "fName x = fName y" for x y
    using that assms(2) by (metis wfModel_def fieldType_fst option.inject)
  have "distinct (map snd l)" if "gm_ok l" "set l \<subseteq> set (Fields (iMeta i))" for l
    using that
  proof (induction l)
    case (Cons p l)
    have "snd p \<notin> snd ` set l"
    proof
      assume "snd p \<in> snd ` set l"
      then obtain q where q: "q \<in> set l" "snd q = snd p" by force
      have "p \<in> set (Fields (iMeta i))" "q \<in> set (Fields (iMeta i))" using Cons.prems(2) q(1) by auto
      then obtain x y where "x \<in> set (sFields (mType m))" "fName x = snd p" "fTag x = fst p"
          "y \<in> set (sFields (mType m))" "fName y = snd q" "fTag y = fst q"
        using f(5) [of "fst p" "snd p"] f(5) [of "fst q" "snd q"] by auto
      then have "fst q = fst p" using inj [of y x] q(2) by simp
      then show False using Cons.prems(1) q(1) by (metis distinct.simps(2) image_eqI list.simps(9) list.set_map)
    qed
    then show ?case using Cons by simp
  qed simp
  from this [OF f(4)] have "distinct (map snd (Fields (iMeta i)))" by simp
  moreover have "wfField i (c, g)" if cg: "(c, g) \<in> set (Fields (iMeta i))" for c g
  proof -
    obtain x col where x: "x \<in> set (sFields (mType m))" "fName x = g" "Column ts c = Some col" "NativeType col = Inr (fType x)"
      using f(5) [OF cg] by blast
    have "fieldType (mType m) g = Some (fType x)"
      using fieldType_fst [OF _ x(1)] assms(2) x(2) by (simp add: wfModel_def fieldType_def)
    then show ?thesis
      using assms(2) x f(1,2) by (auto simp: wfField_def wfModel_def list_all_iff split: option.splits)
  qed
  ultimately show ?thesis using f(2,4) assms(3) by (auto simp: wfInfo_def list_all_iff)
qed

section \<open>Rows and models\<close>

lemma IsDefaultValue_total:
  assumes "wfColumn c" "NativeType c = Inr t" "typeOf v = Some t" "wfVal v"
  shows "\<exists>b. IsDefaultValue c v = Inr b"
  using assms(1)
proof (cases rule: wfColumn_cases)
  case (Atomic g)
  then obtain a where "v = VAtom a" "atomType a = g" using assms(2,3) by (auto dest: typeOf_RAtomD)
  then show ?thesis
    using Atomic by (cases a; auto simp: IsDefaultValue_def isDefaultBaseValue_def elim!: isAtomicTypeE)
next
  case (Enum kt g)
  then obtain a where "v = VAtom a" "atomType a = g" using assms(2,3) by (auto dest: typeOf_RAtomD)
  then show ?thesis
    using Enum by (cases a; auto simp: IsDefaultValue_def isDefaultBaseValue_def elim!: isAtomicTypeE)
next
  case (Optional kt g)
  then show ?thesis using assms(2,3) by (auto simp: IsDefaultValue_def isDefaultBaseValue_def dest!: typeOf_RPtrD)
next
  case (Slice kt g)
  then show ?thesis using assms(2,3) by (auto simp: IsDefaultValue_def isDefaultBaseValue_def dest!: typeOf_RSliceD)
next
  case (Map kt vt g h)
  then show ?thesis using assms(2,3) by (auto simp: IsDefaultValue_def isDefaultBaseValue_def dest!: typeOf_RMapD)
qed

text \<open>The entry of a column in the row of an object: none for a field that is missing or has its default value.\<close>

definition rowEntry :: "Info \<Rightarrow> string \<Rightarrow> ColumnSchema \<Rightarrow> any option" where
  "rowEntry i c col =
     (case FieldByColumn i c of
        Inl _ \<Rightarrow> None
      | Inr v \<Rightarrow> if IsDefaultValue col v = Inr True then None
                 else (case NativeToOvs col v of Inl _ \<Rightarrow> None | Inr e \<Rightarrow> Some e))"

lemma newRowColumn_step:
  assumes "wfInfo i" "Column (mTableSchema (iMeta i)) c = Some col"
  shows "newRowColumn i [] row (c, col) = Inr (case rowEntry i c col of None \<Rightarrow> row | Some e \<Rightarrow> AList.update c e row)"
proof (cases "map_of (Fields (iMeta i)) c")
  case None
  then show ?thesis by (simp add: newRowColumn_def rowEntry_def FieldByColumn_def)
next
  case (Some f)
  obtain t v where v: "NativeType col = Inr t" "map_of (mObj (Obj i)) f = Some v" "typeOf v = Some t" "wfVal v" "wfColumn col"
    by (rule wfInfo_column [OF assms(1) Some assms(2)])
  obtain b e where "IsDefaultValue col v = Inr b" "NativeToOvs col v = Inr e"
    using IsDefaultValue_total [OF v(5,1,3,4)] NativeToOvs_inverse [OF v(5,1,3,4)] by blast
  then show ?thesis using Some v(2) by (cases b) (simp_all add: newRowColumn_def rowEntry_def FieldByColumn_def)
qed

lemma NewRow_loop:
  assumes "wfInfo i" "gm_ok cs" "\<And>c col. (c, col) \<in> set cs \<Longrightarrow> Column (mTableSchema (iMeta i)) c = Some col" "gm_ok row"
  shows "\<exists>r. foldR (newRowColumn i []) row cs = Inr r \<and> gm_ok r
    \<and> (\<forall>c. map_of r c = (case map_of cs c of None \<Rightarrow> map_of row c
         | Some col \<Rightarrow> (case rowEntry i c col of None \<Rightarrow> map_of row c | Some e \<Rightarrow> Some e)))"
  using assms(2-4)
proof (induction cs arbitrary: row)
  case (Cons p cs)
  obtain c col where p: "p = (c, col)" by fastforce
  let ?row = "case rowEntry i c col of None \<Rightarrow> row | Some e \<Rightarrow> AList.update c e row"
  have "newRowColumn i [] row p = Inr ?row"
    using newRowColumn_step [OF assms(1)] Cons.prems(2) p by simp
  moreover have "gm_ok ?row" using Cons.prems(3) by (simp split: option.split)
  moreover have "map_of cs c = None" using Cons.prems(1) p by (simp add: map_of_eq_None_iff)
  ultimately obtain r where r: "foldR (newRowColumn i []) row (p # cs) = Inr r" "gm_ok r"
      "\<And>d. map_of r d = (case map_of cs d of None \<Rightarrow> map_of ?row d
         | Some col \<Rightarrow> (case rowEntry i d col of None \<Rightarrow> map_of ?row d | Some e \<Rightarrow> Some e))"
    using Cons.IH [of ?row] Cons.prems by fastforce
  have "map_of r d = (case map_of (p # cs) d of None \<Rightarrow> map_of row d
         | Some col \<Rightarrow> (case rowEntry i d col of None \<Rightarrow> map_of row d | Some e \<Rightarrow> Some e))" for d
    unfolding r(3) using \<open>map_of cs c = None\<close> p by (cases "d = c") (auto split: option.split)
  then show ?case using r(1,2) by blast
qed simp

lemma map_of_tableColumns: "map_of (AList.update ''_uuid'' UUIDColumn (Columns ts)) c = Column ts c"
  by (simp add: Column_def)

lemma NewRow_spec:
  assumes "wfInfo i"
  obtains row where "NewRow i = Inr row" "gm_ok row"
    "\<And>c. map_of row c = (case Column (mTableSchema (iMeta i)) c of None \<Rightarrow> None | Some col \<Rightarrow> rowEntry i c col)"
proof -
  let ?cs = "AList.update ''_uuid'' UUIDColumn (Columns (mTableSchema (iMeta i)))"
  have ok: "gm_ok ?cs" using assms by (auto simp: wfInfo_def wfTable_def)
  then have "Column (mTableSchema (iMeta i)) c = Some col" if "(c, col) \<in> set ?cs" for c col
    using that map_of_in_iff [OF ok] map_of_tableColumns by metis
  then obtain r where r: "foldR (newRowColumn i []) [] ?cs = Inr r" "gm_ok r"
    "\<And>c. map_of r c = (case map_of ?cs c of None \<Rightarrow> map_of [] c
         | Some col \<Rightarrow> (case rowEntry i c col of None \<Rightarrow> map_of [] c | Some e \<Rightarrow> Some e))"
    using NewRow_loop [OF assms ok, of "[]"] by fastforce
  have "map_of r c = (case Column (mTableSchema (iMeta i)) c of None \<Rightarrow> None | Some col \<Rightarrow> rowEntry i c col)" for c
    unfolding r(3) map_of_tableColumns by (simp split: option.split)
  then show thesis using r(1,2) by (intro that [of r]) (simp_all add: NewRow_def NewRowF_def)
qed

text \<open>Reading a row: a column that is mapped and present takes the decoded value.\<close>

lemma getRowData_loop:
  assumes "wfInfo z" "gm_ok cs" "\<And>c col. (c, col) \<in> set cs \<Longrightarrow> Column (mTableSchema (iMeta z)) c = Some col"
    and "\<And>c col e. (c, col) \<in> set cs \<Longrightarrow> hasColumn z c \<Longrightarrow> map_of row c = Some e \<Longrightarrow> \<exists>v. OvsToNative col e = Inr v"
  shows "\<exists>z'. foldR (getRowColumn row) z cs = Inr z' \<and> wfInfo z' \<and> iMeta z' = iMeta z \<and> mType (Obj z') = mType (Obj z)
    \<and> (\<forall>c. FieldByColumn z' c = (case (map_of cs c, map_of row c) of (Some col, Some e) \<Rightarrow>
          if hasColumn z c then OvsToNative col e else FieldByColumn z c | _ \<Rightarrow> FieldByColumn z c))"
  using assms
proof (induction cs arbitrary: z)
  case (Cons p cs)
  obtain c col where p: "p = (c, col)" by fastforce
  have "\<exists>z1. getRowColumn row z p = Inr z1 \<and> wfInfo z1 \<and> iMeta z1 = iMeta z \<and> mType (Obj z1) = mType (Obj z)
    \<and> (\<forall>d. FieldByColumn z1 d = (case map_of row c of Some e \<Rightarrow>
          if d = c \<and> hasColumn z c then OvsToNative col e else FieldByColumn z d | _ \<Rightarrow> FieldByColumn z d))"
  proof (cases "hasColumn z c \<and> map_of row c \<noteq> None")
    case True
    then obtain e f where e: "map_of row c = Some e" "map_of (Fields (iMeta z)) c = Some f"
      by (auto simp: hasColumn_def)
    obtain v where v: "OvsToNative col e = Inr v" using Cons.prems(4) p True e(1) by fastforce
    have col: "Column (mTableSchema (iMeta z)) c = Some col" using Cons.prems(3) p by simp
    obtain t where t: "fieldType (mType (Obj z)) f = Some t" "NativeType col = Inr t" "wfColumn col"
      by (rule wfInfo_column [OF Cons.prems(1) e(2) col])
    have "typeOf v = Some t" "wfVal v" using OvsToNative_typed [OF t(3) v] t(2) by auto
    note r = SetField_wf [OF Cons.prems(1) e(2) t(1) this]
    show ?thesis
      by (rule exI [of _ "z\<lparr>Obj := (Obj z)\<lparr>mObj := AList.update f v (mObj (Obj z))\<rparr>\<rparr>"])
        (use True e(1) v r in \<open>simp add: getRowColumn_def p\<close>)
  next
    case False
    then show ?thesis using Cons.prems(1) by (auto simp: getRowColumn_def p split: option.split)
  qed
  then obtain z1 where z1: "getRowColumn row z p = Inr z1" "wfInfo z1" "iMeta z1 = iMeta z" "mType (Obj z1) = mType (Obj z)"
    "\<And>d. FieldByColumn z1 d = (case map_of row c of Some e \<Rightarrow>
          if d = c \<and> hasColumn z c then OvsToNative col e else FieldByColumn z d | _ \<Rightarrow> FieldByColumn z d)"
    by blast
  have hc: "hasColumn z1 = hasColumn z" using z1(3) by (simp add: hasColumn_def fun_eq_iff)
  have ex: "\<exists>z'. foldR (getRowColumn row) z1 cs = Inr z' \<and> wfInfo z' \<and> iMeta z' = iMeta z1 \<and> mType (Obj z') = mType (Obj z1)
    \<and> (\<forall>c. FieldByColumn z' c = (case (map_of cs c, map_of row c) of (Some col, Some e) \<Rightarrow>
          if hasColumn z1 c then OvsToNative col e else FieldByColumn z1 c | _ \<Rightarrow> FieldByColumn z1 c))"
  proof (rule Cons.IH [OF z1(2)])
    show "gm_ok cs" using Cons.prems(2) by simp
    show "Column (mTableSchema (iMeta z1)) a = Some b" if "(a, b) \<in> set cs" for a b
      using Cons.prems(3) that z1(3) by simp
    show "\<exists>v. OvsToNative b e = Inr v" if "(a, b) \<in> set cs" "hasColumn z1 a" "map_of row a = Some e" for a b e
      by (rule Cons.prems(4) [of a]) (use that hc in simp_all)
  qed
  obtain z' where z': "foldR (getRowColumn row) z1 cs = Inr z'" "wfInfo z'" "iMeta z' = iMeta z1" "mType (Obj z') = mType (Obj z1)"
    "\<And>c. FieldByColumn z' c = (case (map_of cs c, map_of row c) of (Some col, Some e) \<Rightarrow>
          if hasColumn z1 c then OvsToNative col e else FieldByColumn z1 c | _ \<Rightarrow> FieldByColumn z1 c)"
    using ex by blast
  have "map_of cs c = None" using Cons.prems(2) p by (simp add: map_of_eq_None_iff)
  then have "FieldByColumn z' d = (case (map_of (p # cs) d, map_of row d) of (Some col, Some e) \<Rightarrow>
          if hasColumn z d then OvsToNative col e else FieldByColumn z d | _ \<Rightarrow> FieldByColumn z d)" for d
    unfolding z'(5) z1(5) hc using p by (cases "d = c") (auto split: option.split)
  then show ?case using z1(1,3,4) z'(1-4) by auto
qed (auto split: option.split)

lemma getRowData_spec:
  assumes "wfInfo z" "''_uuid'' \<notin> set (keys (Columns (mTableSchema (iMeta z))))"
    and "\<And>c col e. Column (mTableSchema (iMeta z)) c = Some col \<Longrightarrow> hasColumn z c \<Longrightarrow> map_of row c = Some e \<Longrightarrow> \<exists>v. OvsToNative col e = Inr v"
  obtains z' where "getRowData row z = Inr z'" "wfInfo z'" "iMeta z' = iMeta z" "mType (Obj z') = mType (Obj z)"
    "\<And>c. FieldByColumn z' c = (case (map_of (Columns (mTableSchema (iMeta z))) c, map_of row c) of (Some col, Some e) \<Rightarrow>
          if hasColumn z c then OvsToNative col e else FieldByColumn z c | _ \<Rightarrow> FieldByColumn z c)"
proof -
  have ok: "gm_ok (Columns (mTableSchema (iMeta z)))" using assms(1) by (simp add: wfInfo_def wfTable_def)
  have "Column (mTableSchema (iMeta z)) c = Some col" if "(c, col) \<in> set (Columns (mTableSchema (iMeta z)))" for c col
    using that map_of_in_iff [OF ok] assms(2) by (force simp: Column_def)
  then show thesis
    using getRowData_loop [OF assms(1) ok, of row] assms(3) that unfolding getRowData_def by blast
qed

definition zeroInfo :: "Info \<Rightarrow> Info" where
  "zeroInfo i = i\<lparr>Obj := zeroModel (mType (Obj i))\<rparr>"

lemma zeroModel_field: "distinct (map fName (sFields st)) \<Longrightarrow> fieldType st f = Some t \<Longrightarrow> map_of (mObj (zeroModel st)) f = Some (zeroOf t)"
proof -
  assume d: "distinct (map fName (sFields st))" and t: "fieldType st f = Some t"
  have "map_option fType (find (\<lambda>x. fName x = f) fs) = Some t \<Longrightarrow> map_of (map (\<lambda>f. (fName f, zeroOf (fType f))) fs) f = Some (zeroOf t)"
    for fs :: "StructField list"
    by (induction fs) (auto split: if_splits)
  then show ?thesis using t by (simp add: zeroModel_def fieldType_def)
qed

lemma zeroInfo_wf:
  assumes "wfInfo i" "distinct (map fName (sFields (mType (Obj i))))"
  shows "wfInfo (zeroInfo i)" "colType i c = Some t \<Longrightarrow> FieldByColumn (zeroInfo i) c = Inr (zeroOf t)"
proof -
  have "wfField (zeroInfo i) p" if wf: "wfField i p" for p
  proof -
    obtain c f where p: "p = (c, f)" by fastforce
    obtain t col where t: "fieldType (mType (Obj i)) f = Some t" "Column (mTableSchema (iMeta i)) c = Some col" "NativeType col = Inr t"
      using wf p by (auto simp: wfField_def split: option.splits)
    have "mType (zeroModel st) = st" for st by (simp add: zeroModel_def)
    then show ?thesis
      using p t zeroModel_field [OF assms(2) t(1)] by (simp add: wfField_def zeroInfo_def)
  qed
  then show "wfInfo (zeroInfo i)" using assms(1) by (auto simp: wfInfo_def zeroInfo_def list_all_iff)
  show "FieldByColumn (zeroInfo i) c = Inr (zeroOf t)" if "colType i c = Some t"
    using that zeroModel_field [OF assms(2)] by (auto simp: colType_def FieldByColumn_def zeroInfo_def split: option.splits)
qed

section \<open>Properties\<close>

text \<open>What a field holds after its object was written to a row and read back.\<close>

definition readBack :: "ColumnSchema \<Rightarrow> rtype \<Rightarrow> any \<Rightarrow> any" where
  "readBack col t v = (if IsDefaultValue col v = Inr True then zeroOf t else nonNil v)"

lemma rowEntry_decodes:
  assumes "wfInfo i" "Column (mTableSchema (iMeta i)) c = Some col" "colType i c = Some t"
  obtains v where "FieldByColumn i c = Inr v" "NativeType col = Inr t" "typeOf v = Some t" "wfVal v"
    "rowEntry i c col = None \<and> readBack col t v = zeroOf t
     \<or> (\<exists>e. rowEntry i c col = Some e \<and> OvsToNative col e = Inr (readBack col t v) \<and> NativeToOvs col v = Inr e)"
proof -
  obtain f where f: "map_of (Fields (iMeta i)) c = Some f" "fieldType (mType (Obj i)) f = Some t"
    using assms(3) by (auto simp: colType_def split: option.splits)
  obtain v where v: "NativeType col = Inr t" "map_of (mObj (Obj i)) f = Some v" "typeOf v = Some t" "wfVal v" "wfColumn col"
    by (rule wfInfo_column [OF assms(1) f(1) assms(2)]) (use f(2) in auto)
  obtain e where "NativeToOvs col v = Inr e" "OvsToNative col e = Inr (nonNil v)"
    using NativeToOvs_inverse [OF v(5,1,3,4)] by blast
  then show thesis
    using v f(1) by (intro that [of v]) (auto simp: FieldByColumn_def rowEntry_def readBack_def)
qed

lemma uuidColumn_entry:
  assumes "wfInfo i" "hasColumn i ''_uuid''"
  obtains u where "FieldByColumn i ''_uuid'' = Inr (VAtom (AStr u))"
    "rowEntry i ''_uuid'' UUIDColumn = (if IsDefaultValue UUIDColumn (VAtom (AStr u)) = Inr True then None else Some (VAtom (AUUID u)))"
proof -
  obtain f where f: "map_of (Fields (iMeta i)) ''_uuid'' = Some f" using assms(2) by (auto simp: hasColumn_def)
  have col: "Column (mTableSchema (iMeta i)) ''_uuid'' = Some UUIDColumn" by (simp add: Column_def)
  obtain t v where v: "NativeType UUIDColumn = Inr t" "map_of (mObj (Obj i)) f = Some v" "typeOf v = Some t"
    by (rule wfInfo_column [OF assms(1) f col])
  then obtain u where "v = VAtom (AStr u)"
    by (auto simp: NativeType_def UUIDColumn_def atomType_cases dest!: typeOf_RAtomD)
  then show thesis
    using v f by (intro that [of u]) (auto simp: FieldByColumn_def rowEntry_def NativeToOvs_def NativeType_def UUIDColumn_def)
qed

text \<open>Writing an object to a row and reading the columns of the row back into a fresh object.\<close>

lemma NewRow_read:
  assumes "wfInfo i" and "distinct (map fName (sFields (mType (Obj i))))" and "''_uuid'' \<notin> set (keys (Columns (mTableSchema (iMeta i))))"
  obtains row i1 where "NewRow i = Inr row" "gm_ok row"
    "\<And>c. map_of row c = (case Column (mTableSchema (iMeta i)) c of None \<Rightarrow> None | Some col \<Rightarrow> rowEntry i c col)"
    "getRowData row (zeroInfo i) = Inr i1" "wfInfo i1" "iMeta i1 = iMeta i" "mType (Obj i1) = mType (Obj i)"
    "\<And>c col t. Column (mTableSchema (iMeta i)) c = Some col \<Longrightarrow> colType i c = Some t \<Longrightarrow> c \<noteq> ''_uuid'' \<or> map_of row c = None
       \<Longrightarrow> \<exists>v. FieldByColumn i c = Inr v \<and> FieldByColumn i1 c = Inr (readBack col t v)"
proof -
  let ?ts = "mTableSchema (iMeta i)"
  obtain row where row: "NewRow i = Inr row" "gm_ok row"
      "\<And>c. map_of row c = (case Column ?ts c of None \<Rightarrow> None | Some col \<Rightarrow> rowEntry i c col)"
    by (rule NewRow_spec [OF assms(1)]) (rule that)
  have meta: "iMeta (zeroInfo i) = iMeta i" "hasColumn (zeroInfo i) = hasColumn i" "mType (Obj (zeroInfo i)) = mType (Obj i)"
    by (simp_all add: zeroInfo_def zeroModel_def hasColumn_def fun_eq_iff)
  have dec: "\<exists>v. OvsToNative col e = Inr v"
    if a: "Column (mTableSchema (iMeta (zeroInfo i))) c = Some col" "hasColumn (zeroInfo i) c" "map_of row c = Some e" for c col e
  proof -
    have c: "Column ?ts c = Some col" using a(1) meta(1) by simp
    obtain t where t: "colType i c = Some t"
      using a(2) meta(2) hasColumn_colType [OF assms(1)] by auto
    show ?thesis by (rule rowEntry_decodes [OF assms(1) c t]) (use a(3) row(3) [of c] c in auto)
  qed
  note z = zeroInfo_wf [OF assms(1,2)]
  obtain i1 where i1: "getRowData row (zeroInfo i) = Inr i1" "wfInfo i1" "iMeta i1 = iMeta i" "mType (Obj i1) = mType (Obj i)"
      "\<And>c. FieldByColumn i1 c = (case (map_of (Columns ?ts) c, map_of row c) of (Some col, Some e) \<Rightarrow>
          if hasColumn i c then OvsToNative col e else FieldByColumn (zeroInfo i) c | _ \<Rightarrow> FieldByColumn (zeroInfo i) c)"
    by (rule getRowData_spec [OF z(1) _ dec, unfolded meta]) (rule assms(3), assumption+, rule that)
  have rdback: "\<exists>v. FieldByColumn i c = Inr v \<and> FieldByColumn i1 c = Inr (readBack col t v)"
    if c: "Column ?ts c = Some col" "colType i c = Some t" "c \<noteq> ''_uuid'' \<or> map_of row c = None" for c col t
  proof (rule rowEntry_decodes [OF assms(1) c(1,2)])
    fix v
    assume v: "FieldByColumn i c = Inr v" "rowEntry i c col = None \<and> readBack col t v = zeroOf t
      \<or> (\<exists>e. rowEntry i c col = Some e \<and> OvsToNative col e = Inr (readBack col t v) \<and> NativeToOvs col v = Inr e)"
    have "hasColumn i c" using c(2) by (auto simp: colType_def hasColumn_def split: option.splits)
    moreover have "c \<noteq> ''_uuid'' \<Longrightarrow> map_of (Columns ?ts) c = Some col" using c(1) by (simp add: Column_def)
    moreover have "map_of row c = rowEntry i c col" using row(3) [of c] c(1) by simp
    ultimately show ?thesis
      using v c(3) i1(5) [of c] z(2) [OF c(2)]
      by (cases "c = ''_uuid''"; cases "rowEntry i c col") (auto split: option.splits)
  qed
  show thesis by (rule that [OF row i1(1-4) rdback])
qed

text \<open>
  Claim C31. Row round trip: for an object that fits its table, \<open>NewRow\<close> succeeds, and reading the row into
  a fresh object of the same struct gives back every mapped column: a field with a non-default value is
  restored (a nil slice or map as an empty one), a default one is left at the zero value.
\<close>

theorem NewRow_GetRowData_roundtrip:
  assumes "wfInfo i" and "distinct (map fName (sFields (mType (Obj i))))" and "''_uuid'' \<notin> set (keys (Columns (mTableSchema (iMeta i))))"
  shows "\<exists>row i'. NewRow i = Inr row \<and> GetRowDataWithUUID (Some row) (zeroInfo i) = Inr i' \<and> wfInfo i'
    \<and> (\<forall>c col t. Column (mTableSchema (iMeta i)) c = Some col \<longrightarrow> colType i c = Some t \<longrightarrow>
         (\<exists>v. FieldByColumn i c = Inr v \<and> FieldByColumn i' c = Inr (readBack col t v)))"
proof -
  let ?ts = "mTableSchema (iMeta i)"
  obtain row i1 where row: "NewRow i = Inr row" "gm_ok row"
      "\<And>c. map_of row c = (case Column ?ts c of None \<Rightarrow> None | Some col \<Rightarrow> rowEntry i c col)"
    and i1: "getRowData row (zeroInfo i) = Inr i1" "wfInfo i1" "iMeta i1 = iMeta i" "mType (Obj i1) = mType (Obj i)"
    and rdback: "\<And>c col t. Column ?ts c = Some col \<Longrightarrow> colType i c = Some t \<Longrightarrow> c \<noteq> ''_uuid'' \<or> map_of row c = None
       \<Longrightarrow> \<exists>v. FieldByColumn i c = Inr v \<and> FieldByColumn i1 c = Inr (readBack col t v)"
    by (rule NewRow_read [OF assms]) (rule that)
  show ?thesis
  proof (cases "map_of row ''_uuid''")
    case None
    then have "GetRowDataWithUUID (Some row) (zeroInfo i) = Inr i1"
      using i1(1) by (simp add: GetRowDataWithUUID_def getRowDataWithUUID_def)
    then show ?thesis using row(1) i1(2) rdback None by (intro exI conjI) (assumption, assumption, assumption, blast)
  next
    case (Some e)
    have ent: "rowEntry i ''_uuid'' UUIDColumn = Some e" using Some row(3) [of "''_uuid''"] by (simp add: Column_def)
    then have has: "hasColumn i ''_uuid''" by (auto simp: rowEntry_def FieldByColumn_def hasColumn_def split: option.splits)
    obtain u where u: "FieldByColumn i ''_uuid'' = Inr (VAtom (AStr u))" "e = VAtom (AUUID u)" "IsDefaultValue UUIDColumn (VAtom (AStr u)) \<noteq> Inr True"
      by (rule uuidColumn_entry [OF assms(1) has]) (use ent that in \<open>auto split: if_splits\<close>)
    have "colType i1 = colType i" using i1(3,4) by (rule colType_cong)
    moreover have "colType i ''_uuid'' = Some (RAtom GString)"
      using colType_native [OF assms(1) _ has, of UUIDColumn] by (simp add: Column_def NativeType_def UUIDColumn_def)
    ultimately have ty: "colType i1 ''_uuid'' = typeOf (VAtom (AStr u))" by simp
    obtain i2 where i2: "SetField i1 ''_uuid'' (VAtom (AStr u)) = Inr i2" "wfInfo i2"
        "\<And>c. FieldByColumn i2 c = (if c = ''_uuid'' then Inr (VAtom (AStr u)) else FieldByColumn i1 c)"
      using info.put_ok [OF i1(2), of "''_uuid''" _ "VAtom (AStr u)"] ty by auto
    have "GetRowDataWithUUID (Some row) (zeroInfo i) = Inr i2"
      using i1(1,3) i2(1) Some u(2) has by (simp add: GetRowDataWithUUID_def getRowDataWithUUID_def hasColumn_def)
    moreover have "\<exists>v. FieldByColumn i c = Inr v \<and> FieldByColumn i2 c = Inr (readBack col t v)"
      if "Column ?ts c = Some col" "colType i c = Some t" for c col t
      using that rdback [OF that] i2(3) [of c] u(1,3) by (cases "c = ''_uuid''") (auto simp: readBack_def Column_def)
    ultimately show ?thesis using row(1) i2(2) by blast
  qed
qed

text \<open>
  The schema check of a struct is exact: \<open>NewInfo\<close> succeeds if and only if every tagged field names a
  column of the table and has the column's native type.
\<close>

theorem NewInfo_ok_iff:
  "isOk (NewInfo tn ts m) \<longleftrightarrow> list_all (\<lambda>x. fTag x = [] \<or> (case Column ts (fTag x) of None \<Rightarrow> False
      | Some col \<Rightarrow> NativeType col = Inr (fType x))) (sFields (mType m))"
proof -
  have "isOk (foldR (\<lambda>fs field. fieldEntry ts field fs) s xs) \<longleftrightarrow> list_all (\<lambda>x. fTag x = [] \<or> (case Column ts (fTag x) of None \<Rightarrow> False
      | Some col \<Rightarrow> NativeType col = Inr (fType x))) xs" for xs s
    by (induction xs arbitrary: s) (auto simp: isOk_bindR fieldEntry_def resR split: option.splits if_splits)
  then show ?thesis by (simp add: NewInfo_def isOk_bindR resR)
qed

text \<open>A small table with an indexed name, a set of ports and a map of references, and a struct for it.\<close>

definition exNameColumn :: ColumnSchema where
  "exNameColumn = \<lparr>cType = TypeString, TypeObj = Some \<lparr>Key = Some (exBase TypeString), Value = None, minP = None, maxP = None\<rparr>,
     ephemeral = None, mutable = None\<rparr>"

definition exTable :: TableSchema where
  "exTable = \<lparr>Columns = [(''name'', exNameColumn), (''ports'', exSetColumn), (''refs'', exMapColumn)],
     Indexes = [[''name'']], IsRootF = True\<rparr>"

definition exStruct :: StructType where
  "exStruct = \<lparr>sName = ''Bridge'', sFields = [
     \<lparr>fName = ''UUID'', fTag = ''_uuid'', fType = RAtom GString\<rparr>,
     \<lparr>fName = ''Name'', fTag = ''name'', fType = RAtom GString\<rparr>,
     \<lparr>fName = ''Ports'', fTag = ''ports'', fType = RSlice GInt\<rparr>,
     \<lparr>fName = ''Refs'', fTag = ''refs'', fType = RMap GString GString\<rparr>]\<rparr>"

definition exModel :: "string \<Rightarrow> string \<Rightarrow> Model" where
  "exModel u n = \<lparr>mType = exStruct, mObj = [(''UUID'', VAtom (AStr u)), (''Name'', VAtom (AStr n)),
     (''Ports'', VSlice GInt (Some [AInt 7])), (''Refs'', VMap GString GString None)]\<rparr>"

definition exMeta :: Metadata where
  "exMeta = \<lparr>Fields = [(''_uuid'', ''UUID''), (''name'', ''Name''), (''ports'', ''Ports''), (''refs'', ''Refs'')],
     mTableSchema = exTable, TableName = ''Bridge''\<rparr>"

lemma wfTable_exTable: "wfTable exTable"
  by (simp add: wfTable_def exTable_def wfColumn_examples)
    (simp add: wfColumn_def exNameColumn_def wfBase_def isAtomicType_def exColumn_defs)

lemma NativeType_examples:
  "NativeType exNameColumn = Inr (RAtom GString)" "NativeType exSetColumn = Inr (RSlice GInt)"
  "NativeType exMapColumn = Inr (RMap GString GString)" "NativeType UUIDColumn = Inr (RAtom GString)"
  by (simp_all add: exColumn_defs exNameColumn_def UUIDColumn_def)

lemma NewInfo_exModel: "NewInfo ''Bridge'' exTable (exModel u n) = Inr \<lparr>Obj = exModel u n, iMeta = exMeta\<rparr>"
  by (simp add: NewInfo_def exModel_def exStruct_def fieldEntry_def exTable_def Column_def exMeta_def NativeType_examples)

lemma wfModel_exModel: "wfModel (exModel u n)"
  by (simp add: wfModel_def exModel_def exStruct_def)

lemma wfInfo_exModel: "wfInfo \<lparr>Obj = exModel u n, iMeta = exMeta\<rparr>"
  by (rule NewInfo_wf [OF NewInfo_exModel wfModel_exModel wfTable_exTable])

theorem NewRow_GetRowData_roundtrip_witness:
  "\<exists>row i'. NewRow \<lparr>Obj = exModel ''u'' ''br0'', iMeta = exMeta\<rparr> = Inr row
     \<and> GetRowDataWithUUID (Some row) (zeroInfo \<lparr>Obj = exModel ''u'' ''br0'', iMeta = exMeta\<rparr>) = Inr i' \<and> wfInfo i'
     \<and> (\<exists>v. FieldByColumn \<lparr>Obj = exModel ''u'' ''br0'', iMeta = exMeta\<rparr> ''ports'' = Inr v
          \<and> FieldByColumn i' ''ports'' = Inr (readBack exSetColumn (RSlice GInt) v))"
proof -
  let ?i = "\<lparr>Obj = exModel ''u'' ''br0'', iMeta = exMeta\<rparr>"
  have h: "distinct (map fName (sFields (mType (Obj ?i))))" "''_uuid'' \<notin> set (keys (Columns (mTableSchema (iMeta ?i))))"
    by (simp_all add: exModel_def exStruct_def exMeta_def exTable_def)
  have c: "Column (mTableSchema (iMeta ?i)) ''ports'' = Some exSetColumn" "colType ?i ''ports'' = Some (RSlice GInt)"
    by (simp_all add: exModel_def exStruct_def exMeta_def exTable_def Column_def colType_def fieldType_def)
  show ?thesis
    using NewRow_GetRowData_roundtrip [OF wfInfo_exModel h] c by blast
qed

end
