(* ===== verification/DbModel.thy ===== *)
theory DbModel
  imports Mapper
begin

text \<open>
  Database models (\<open>model/model.go\<close>, \<open>model/client.go\<close>, \<open>model/database.go\<close>): the client's
  struct types by table and its optional indexes, their validation against a schema, the database model that
  combines the two and caches the field metadata, and \<open>CreateModel\<close>. \<open>Clone\<close> makes a deep copy: in
  a model of values it is the value itself. A database model built by \<open>NewDatabaseModel\<close> has metadata
  for exactly the tables of the client, and every object of those types is well wrapped by \<open>NewModelInfo\<close>.
\<close>

section \<open>Client models\<close>

record ColumnKey =
  ckColumn :: string
  ckKey :: "atom option"

type_synonym ClientIndex = "ColumnKey list"

record ClientDBModel =
  cdbName :: string
  cdbTypes :: "(string, StructType) gomap"
  cdbIndexes :: "(string, ClientIndex list) gomap"

definition hasUUIDField :: "StructType \<Rightarrow> bool" where
  "hasUUIDField st = list_ex (\<lambda>f. fTag f = ''_uuid'' \<and> fType f = RAtom GString) (sFields st)"

definition NewClientDBModel :: "string \<Rightarrow> (string, StructType) gomap \<Rightarrow> ClientDBModel result" where
  "NewClientDBModel name models =
     bindR (foldR (\<lambda>types (table, st).
         if hasUUIDField st then Inr (AList.update table st types)
         else Inl (Errorf ''model is expected to have a string field called uuid'')) [] models)
       (\<lambda>types. Inr \<lparr>cdbName = name, cdbTypes = types, cdbIndexes = []\<rparr>)"

definition clientNewModel :: "ClientDBModel \<Rightarrow> string \<Rightarrow> Model result" where
  "clientNewModel db table =
     (case map_of (cdbTypes db) table of
        None \<Rightarrow> Inl (Errorf ''table not found in database model'')
      | Some st \<Rightarrow> Inr (zeroModel st))"

definition copyIndexes :: "(string, ClientIndex list) gomap \<Rightarrow> (string, ClientIndex list) gomap" where
  "copyIndexes src = fold (\<lambda>(table, sets) dst. AList.update table (map (\<lambda>cols. map (\<lambda>c. c) cols) sets) dst) src []"

definition SetIndexes :: "ClientDBModel \<Rightarrow> (string, ClientIndex list) gomap \<Rightarrow> ClientDBModel" where
  "SetIndexes db indexes = db\<lparr>cdbIndexes := copyIndexes indexes\<rparr>"

definition ClientIndexes :: "ClientDBModel \<Rightarrow> string \<Rightarrow> ClientIndex list" where
  "ClientIndexes db table = (case map_of (cdbIndexes db) table of None \<Rightarrow> []
     | Some _ \<Rightarrow> (case map_of (copyIndexes (cdbIndexes db)) table of None \<Rightarrow> [] | Some sets \<Rightarrow> sets))"

text \<open>
  \<open>validate\<close> collects every error. A struct that cannot be wrapped gives one error and its client
  indexes are then reported as indexes of an unknown table.
\<close>

definition validateTable ::
  "ClientDBModel \<Rightarrow> DatabaseSchema \<Rightarrow> err list \<times> (string, Info) gomap \<Rightarrow> string \<Rightarrow> (err list \<times> (string, Info) gomap) result" where
  "validateTable db schema = (\<lambda>(errors, infos) tableName.
     case Table schema tableName of
       None \<Rightarrow> Inr (errors @ [Errorf ''database model contains a model for table that does not exist in schema''], infos)
     | Some ts \<Rightarrow>
         (case clientNewModel db tableName of
            Inl e \<Rightarrow> Inr (errors @ [e], infos)
          | Inr m \<Rightarrow>
              (case NewInfo tableName ts m of
                 Inl (Panic s) \<Rightarrow> Inl (Panic s)
               | Inl e \<Rightarrow> Inr (errors @ [e], infos)
               | Inr info \<Rightarrow> Inr (errors, AList.update tableName info infos))))"

definition validateIndexColumn :: "Info \<Rightarrow> ColumnKey \<Rightarrow> err list" where
  "validateIndexColumn info ck =
     (case FieldByColumn info (ckColumn ck) of
        Inl _ \<Rightarrow> [Errorf ''database model contains a client index for column that does not exist in table'']
      | Inr f \<Rightarrow> if ckKey ck \<noteq> None \<and> kindOf f \<noteq> KMap
                 then [Errorf ''database model contains a client index for key in column that is not a map'']
                 else [])"

definition validateIndexes :: "(string, Info) gomap \<Rightarrow> string \<times> ClientIndex list \<Rightarrow> err list" where
  "validateIndexes infos = (\<lambda>(tableName, indexSets).
     case map_of infos tableName of
       None \<Rightarrow> [Errorf ''database model contains a client index for table that does not exist in schema'']
     | Some info \<Rightarrow> concat (map (\<lambda>indexSet. concat (map (validateIndexColumn info) indexSet)) indexSets))"

definition validate :: "ClientDBModel \<Rightarrow> DatabaseSchema \<Rightarrow> err list result" where
  "validate db schema =
     bindR (foldR (validateTable db schema)
         (if cdbName db \<noteq> Name schema then [Errorf ''database model name does not match schema''] else [], [])
         (keys (cdbTypes db)))
       (\<lambda>(errors, infos). Inr (errors @ concat (map (validateIndexes infos) (cdbIndexes db))))"

section \<open>Database models\<close>

record DatabaseModel =
  dbClient :: ClientDBModel
  dbSchema :: DatabaseSchema
  dbMetadata :: "(StructType, Metadata) gomap"

definition emptySchema :: DatabaseSchema where
  "emptySchema = \<lparr>Name = [], Version = [], Tables = [], allTablesRoot = None\<rparr>"

definition modelInfoStep ::
  "DatabaseSchema \<Rightarrow> err list \<times> (StructType, Metadata) gomap \<Rightarrow> string \<times> StructType \<Rightarrow> (err list \<times> (StructType, Metadata) gomap) result" where
  "modelInfoStep schema = (\<lambda>(errors, metadata) (tableName, tType).
     case Table schema tableName of
       None \<Rightarrow> Inr (errors @ [Errorf ''database Model contains model for table which is not present in schema''], metadata)
     | Some ts \<Rightarrow>
         (case NewInfo tableName ts (zeroModel tType) of
            Inl (Panic s) \<Rightarrow> Inl (Panic s)
          | Inl e \<Rightarrow> Inr (errors @ [e], metadata)
          | Inr info \<Rightarrow> Inr (errors, AList.update tType (iMeta info) metadata)))"

definition generateModelInfo ::
  "DatabaseSchema \<Rightarrow> (string, StructType) gomap \<Rightarrow> (err list \<times> (StructType, Metadata) gomap) result" where
  "generateModelInfo schema modelTypes = foldR (modelInfoStep schema) ([], []) modelTypes"

text \<open>The result is the model, or the nonempty list of errors.\<close>

definition NewDatabaseModel :: "DatabaseSchema \<Rightarrow> ClientDBModel \<Rightarrow> (err list + DatabaseModel) result" where
  "NewDatabaseModel schema client =
     bindR (validate client schema) (\<lambda>errs.
       if errs \<noteq> [] then Inr (Inl errs)
       else bindR (generateModelInfo schema (cdbTypes client)) (\<lambda>(errs, metadata).
              if errs \<noteq> [] then Inr (Inl errs)
              else Inr (Inr \<lparr>dbClient = client, dbSchema = schema, dbMetadata = metadata\<rparr>)))"

definition NewPartialDatabaseModel :: "ClientDBModel \<Rightarrow> DatabaseModel" where
  "NewPartialDatabaseModel client = \<lparr>dbClient = client, dbSchema = emptySchema, dbMetadata = []\<rparr>"

definition Valid :: "DatabaseModel \<Rightarrow> bool" where
  "Valid db = (dbSchema db \<noteq> emptySchema)"

definition NewModel :: "DatabaseModel \<Rightarrow> string \<Rightarrow> Model result" where
  "NewModel db table =
     (case map_of (cdbTypes (dbClient db)) table of
        None \<Rightarrow> Inl (Errorf ''table not found in database model'')
      | Some st \<Rightarrow> Inr (zeroModel st))"

definition FindTable :: "DatabaseModel \<Rightarrow> StructType \<Rightarrow> string" where
  "FindTable db st = (case find (\<lambda>(_, t). t = st) (cdbTypes (dbClient db)) of None \<Rightarrow> [] | Some (table, _) \<Rightarrow> table)"

definition NewModelInfo :: "DatabaseModel \<Rightarrow> Model \<Rightarrow> Info result" where
  "NewModelInfo db m =
     (case map_of (dbMetadata db) (mType m) of
        None \<Rightarrow> Inl (ErrWrongType ''NewModelInfo'')
      | Some meta \<Rightarrow> Inr \<lparr>Obj = m, iMeta = meta\<rparr>)"

section \<open>Models\<close>

definition Clone :: "Model \<Rightarrow> Model" where
  "Clone a = a"

definition modelEqual :: "Model \<Rightarrow> Model \<Rightarrow> bool" where
  "modelEqual l r = (mType l = mType r \<and> list_all (\<lambda>f.
     case (map_of (mObj l) (fName f), map_of (mObj r) (fName f)) of
       (Some a, Some b) \<Rightarrow> deepEqual a b
     | (None, None) \<Rightarrow> True
     | _ \<Rightarrow> False) (sFields (mType l)))"

definition modelSetUUID :: "Model \<Rightarrow> string \<Rightarrow> Model result" where
  "modelSetUUID m u =
     (case find (\<lambda>f. fTag f = ''_uuid'' \<and> fType f = RAtom GString) (sFields (mType m)) of
        None \<Rightarrow> Inl (Errorf ''model is expected to have a string field mapped to column _uuid'')
      | Some f \<Rightarrow> Inr (m\<lparr>mObj := AList.update (fName f) (VAtom (AStr u)) (mObj m)\<rparr>))"

definition CreateModel :: "DatabaseModel \<Rightarrow> string \<Rightarrow> Row option \<Rightarrow> string \<Rightarrow> Model result" where
  "CreateModel db tableName row uuid =
     (if \<not> Valid db then Inl (Errorf ''database model not valid'')
      else case Table (dbSchema db) tableName of
        None \<Rightarrow> Inl (Errorf ''table not found'')
      | Some _ \<Rightarrow>
          bindR (NewModel db tableName) (\<lambda>m.
          bindR (NewModelInfo db m) (\<lambda>info.
          bindR (GetRowData row info) (\<lambda>info.
          if uuid \<noteq> [] then bindR (SetField info ''_uuid'' (VAtom (AStr uuid))) (\<lambda>info. Inr (Obj info))
          else Inr (Obj info)))))"

section \<open>Well-formed database models\<close>

text \<open>
  What \<open>NewDatabaseModel\<close> establishes: the metadata of each struct type is that of its table. A
  struct type is used for one table only, and a Go struct has distinct field names.
\<close>

definition wfDb :: "DatabaseModel \<Rightarrow> bool" where
  "wfDb db = (wfSchema (dbSchema db) \<and> Valid db \<and> gm_ok (cdbTypes (dbClient db))
     \<and> list_all (\<lambda>(table, st). distinct (map fName (sFields st)) \<and>
         (case (Table (dbSchema db) table, map_of (dbMetadata db) st) of
            (Some ts, Some meta) \<Rightarrow> NewInfo table ts (zeroModel st) = Inr \<lparr>Obj = zeroModel st, iMeta = meta\<rparr>
          | _ \<Rightarrow> False)) (cdbTypes (dbClient db)))"

lemma NewInfo_cong:
  assumes "NewInfo tn ts m = Inr i" "mType m' = mType m"
  shows "NewInfo tn ts m' = Inr (i\<lparr>Obj := m'\<rparr>)"
  using assms by (auto simp: NewInfo_def resR)

lemma wfDb_table:
  assumes "wfDb db" "map_of (cdbTypes (dbClient db)) table = Some st"
  obtains ts meta where "Table (dbSchema db) table = Some ts" "wfTable ts" "map_of (dbMetadata db) st = Some meta"
    "mTableSchema meta = ts" "TableName meta = table" "distinct (map fName (sFields st))"
    "NewInfo table ts (zeroModel st) = Inr \<lparr>Obj = zeroModel st, iMeta = meta\<rparr>"
proof -
  have "(table, st) \<in> set (cdbTypes (dbClient db))" using assms(2) by (rule map_of_SomeD)
  then obtain ts meta where t: "Table (dbSchema db) table = Some ts" "map_of (dbMetadata db) st = Some meta"
      "distinct (map fName (sFields st))" "NewInfo table ts (zeroModel st) = Inr \<lparr>Obj = zeroModel st, iMeta = meta\<rparr>"
    using assms(1) by (fastforce simp: wfDb_def list_all_iff split: option.splits)
  moreover have "wfTable ts" using assms(1) t(1) wfTable_Table by (auto simp: wfDb_def)
  moreover have "mTableSchema meta = ts" "TableName meta = table"
    using NewInfo_fields(2,3) [OF t(4)] by simp_all
  ultimately show thesis by (intro that)
qed

text \<open>An object of a table: a value of its struct type whose fields have their declared types.\<close>

definition tableModel :: "DatabaseModel \<Rightarrow> string \<Rightarrow> Model \<Rightarrow> bool" where
  "tableModel db table m = (map_of (cdbTypes (dbClient db)) table = Some (mType m) \<and> wfModel m)"

lemma NewModelInfo_wf:
  assumes "wfDb db" "tableModel db table m"
  obtains i where "NewModelInfo db m = Inr i" "wfInfo i" "Obj i = m" "Table (dbSchema db) table = Some (mTableSchema (iMeta i))"
    "map_of (dbMetadata db) (mType m) = Some (iMeta i)"
proof -
  have ty: "map_of (cdbTypes (dbClient db)) table = Some (mType m)" using assms(2) by (simp add: tableModel_def)
  obtain ts meta where t: "Table (dbSchema db) table = Some ts" "wfTable ts" "map_of (dbMetadata db) (mType m) = Some meta"
    "mTableSchema meta = ts" "NewInfo table ts (zeroModel (mType m)) = Inr \<lparr>Obj = zeroModel (mType m), iMeta = meta\<rparr>"
    by (rule wfDb_table [OF assms(1) ty])
  have "NewInfo table ts m = Inr \<lparr>Obj = m, iMeta = meta\<rparr>"
    using NewInfo_cong [OF t(5), of m] by (simp add: zeroModel_def)
  then have "wfInfo \<lparr>Obj = m, iMeta = meta\<rparr>"
    using NewInfo_wf assms(2) t(2) by (auto simp: tableModel_def)
  then show thesis
    using t by (intro that [of "\<lparr>Obj = m, iMeta = meta\<rparr>"]) (simp_all add: NewModelInfo_def)
qed

lemma tableModel_zero: "wfDb db \<Longrightarrow> map_of (cdbTypes (dbClient db)) table = Some st \<Longrightarrow> tableModel db table (zeroModel st)"
  using wfDb_table [of db table st] wfModel_zeroModel [of st] by (auto simp: tableModel_def zeroModel_def)

lemma NewModel_wf:
  assumes "wfDb db" "NewModel db table = Inr m"
  shows "tableModel db table m"
  using assms tableModel_zero by (auto simp: NewModel_def split: option.splits)

text \<open>A wrapped object that stays well formed keeps being an object of its table.\<close>

lemma SetField_wfModel:
  assumes "SetField i c v = Inr i'" "wfModel (Obj i)" "wfVal v"
  shows "wfModel (Obj i')" "mType (Obj i') = mType (Obj i)" "iMeta i' = iMeta i"
proof -
  obtain f t where f: "map_of (Fields (iMeta i)) c = Some f" "fieldType (mType (Obj i)) f = Some t" "typeOf v = Some t"
      "i' = i\<lparr>Obj := (Obj i)\<lparr>mObj := AList.update f v (mObj (Obj i))\<rparr>\<rparr>"
    using assms(1) by (auto simp: SetField_def split: option.splits if_splits)
  show "mType (Obj i') = mType (Obj i)" "iMeta i' = iMeta i" using f(4) by simp_all
  have "fType x = t" if x: "x \<in> set (sFields (mType (Obj i)))" "fName x = f" for x
    using f(2) fieldType_fst [OF _ x(1)] x(2) assms(2) by (simp add: fieldType_def wfModel_def)
  then show "wfModel (Obj i')"
    using assms(2,3) f(3,4) by (auto simp: wfModel_def list_all_iff split: option.splits)
qed

lemma getRowData_wfModel:
  assumes "getRowData row i = Inr i'" "wfModel (Obj i)" "wfTable (mTableSchema (iMeta i))"
  shows "wfModel (Obj i') \<and> mType (Obj i') = mType (Obj i) \<and> iMeta i' = iMeta i"
  using assms(1) unfolding getRowData_def
proof (rule foldR_invariant)
  fix s x s'
  assume x: "x \<in> set (Columns (mTableSchema (iMeta i)))" and s: "wfModel (Obj s) \<and> mType (Obj s) = mType (Obj i) \<and> iMeta s = iMeta i"
    and step: "getRowColumn row s x = Inr s'"
  obtain name col where p: "x = (name, col)" by fastforce
  have col: "wfColumn col" using x p assms(3) by (auto simp: wfTable_def list_all_iff)
  from step consider "s' = s" | e v where "OvsToNative col e = Inr v" "SetField s name v = Inr s'"
    by (auto simp: getRowColumn_def p split: if_splits option.splits sum.splits err.splits)
  then show "wfModel (Obj s') \<and> mType (Obj s') = mType (Obj i) \<and> iMeta s' = iMeta i"
  proof cases
    case 2
    have "wfVal v" using OvsToNative_typed [OF col 2(1)] by simp
    then show ?thesis using SetField_wfModel [OF 2(2)] s by simp
  qed (use s in simp)
qed (use assms(2) in simp)

lemma CreateModel_wf:
  assumes "wfDb db" "CreateModel db table row uuid = Inr m"
  shows "tableModel db table m"
proof -
  obtain st where st: "map_of (cdbTypes (dbClient db)) table = Some st"
    using assms(2) by (auto simp: CreateModel_def NewModel_def resR split: if_splits option.splits)
  have z: "tableModel db table (zeroModel st)" by (rule tableModel_zero [OF assms(1) st])
  obtain i where i: "NewModelInfo db (zeroModel st) = Inr i" "wfInfo i" "Obj i = zeroModel st"
    by (rule NewModelInfo_wf [OF assms(1) z])
  have wf: "wfModel (Obj i)" "mType (Obj i) = st" using z i(3) by (simp_all add: tableModel_def zeroModel_def)
  obtain i1 where i1: "GetRowData row i = Inr i1" "uuid = [] \<and> m = Obj i1 \<or> (\<exists>i2. SetField i1 ''_uuid'' (VAtom (AStr uuid)) = Inr i2 \<and> m = Obj i2)"
    using assms(2) st i(1) by (auto simp: CreateModel_def NewModel_def resR split: if_splits option.splits)
  have "wfModel (Obj i1) \<and> mType (Obj i1) = st"
    using i1(1) getRowData_wfModel [OF _ wf(1)] i(2) wf
    by (auto simp: GetRowData_def wfInfo_def split: option.splits)
  then have "wfModel m \<and> mType m = st"
    using i1(2) SetField_wfModel [of i1 "''_uuid''" "VAtom (AStr uuid)"] by auto
  then show ?thesis using st by (simp add: tableModel_def)
qed

section \<open>Properties\<close>

lemma modelInfo_loop:
  assumes "foldR (modelInfoStep schema) (errs, meta) types = Inr ([], meta')" "distinct (map snd types)"
  shows "errs = [] \<and> (\<forall>st. st \<notin> set (map snd types) \<longrightarrow> map_of meta' st = map_of meta st)
    \<and> (\<forall>(table, st) \<in> set types. case (Table schema table, map_of meta' st) of
         (Some ts, Some m) \<Rightarrow> NewInfo table ts (zeroModel st) = Inr \<lparr>Obj = zeroModel st, iMeta = m\<rparr> | _ \<Rightarrow> False)"
  using assms
proof (induction types arbitrary: errs meta)
  case (Cons p types)
  obtain table st where p: "p = (table, st)" by fastforce
  obtain errs1 meta1 where step: "modelInfoStep schema (errs, meta) p = Inr (errs1, meta1)"
      "foldR (modelInfoStep schema) (errs1, meta1) types = Inr ([], meta')"
    using Cons.prems(1) by (auto simp: resR)
  note ih = Cons.IH [OF step(2)]
  have d: "distinct (map snd types)" "st \<notin> set (map snd types)" using Cons.prems(2) p by auto
  have "errs1 = []" using ih d by simp
  then obtain ts i where ts: "Table schema table = Some ts" "NewInfo table ts (zeroModel st) = Inr i" "errs = []"
      "meta1 = AList.update st (iMeta i) meta"
    using step(1) p by (auto simp: modelInfoStep_def split: option.splits sum.splits err.splits)
  have i: "i = \<lparr>Obj = zeroModel st, iMeta = iMeta i\<rparr>" using NewInfo_fields(1) [OF ts(2)] by simp
  have "map_of meta' st = Some (iMeta i)" using ih d ts(4) by simp
  then show ?case using ih d ts p i by auto
qed auto

text \<open>
  A database model that \<open>NewDatabaseModel\<close> accepts is well formed: the client's name is the
  schema's, every table of the client is in the schema, the metadata kept for its struct type is that table's, and
  a new model of the table can be wrapped.
\<close>

theorem NewDatabaseModel_sound:
  assumes "NewDatabaseModel schema client = Inr (Inr db)" and "wfSchema schema" and "schema \<noteq> emptySchema"
    and "gm_ok (cdbTypes client)" and "distinct (map snd (cdbTypes client))"
    and "list_all (\<lambda>(table, st). distinct (map fName (sFields st))) (cdbTypes client)"
  shows "wfDb db \<and> cdbName client = Name schema \<and> dbClient db = client \<and> dbSchema db = schema
    \<and> list_all (\<lambda>(table, st). Table schema table \<noteq> None \<and> isOk (bindR (NewModel db table) (NewModelInfo db))) (cdbTypes client)"
proof -
  obtain meta where v: "validate client schema = Inr []" and g: "generateModelInfo schema (cdbTypes client) = Inr ([], meta)"
      and db: "db = \<lparr>dbClient = client, dbSchema = schema, dbMetadata = meta\<rparr>"
    using assms(1) by (auto simp: NewDatabaseModel_def resR split: if_splits)
  note loop = modelInfo_loop [OF g [unfolded generateModelInfo_def] assms(5)]
  have wf: "wfDb db"
    using loop assms db by (auto simp: wfDb_def Valid_def list_all_iff)
  have grow: "\<exists>rest. errs' = errs @ rest" if "foldR (validateTable client schema) (errs, infos) ts = Inr (errs', infos')" for errs infos ts errs' infos'
    using that
  proof (induction ts arbitrary: errs infos)
    case (Cons t ts)
    then obtain e1 i1 where s: "validateTable client schema (errs, infos) t = Inr (e1, i1)"
        "foldR (validateTable client schema) (e1, i1) ts = Inr (errs', infos')"
      by (auto simp: resR)
    then have "\<exists>r. e1 = errs @ r" by (auto simp: validateTable_def split: option.splits sum.splits err.splits)
    then show ?case using Cons.IH [OF s(2)] by auto
  qed simp
  have name: "cdbName client = Name schema"
    using v grow by (fastforce simp: validate_def resR split: if_splits)
  have "Table schema table \<noteq> None \<and> isOk (bindR (NewModel db table) (NewModelInfo db))" if "(table, st) \<in> set (cdbTypes client)" for table st
  proof -
    have st: "map_of (cdbTypes (dbClient db)) table = Some st" using that assms(4) db by simp
    obtain i where "NewModelInfo db (zeroModel st) = Inr i" "Table (dbSchema db) table = Some (mTableSchema (iMeta i))"
      by (rule NewModelInfo_wf [OF wf tableModel_zero [OF wf st]])
    then show ?thesis using st db by (simp add: NewModel_def)
  qed
  then show ?thesis using wf name db by (auto simp: list_all_iff)
qed

text \<open>A database of one table, and its client model.\<close>

definition exSchema :: DatabaseSchema where
  "exSchema = \<lparr>Name = ''db'', Version = ''1.0'', Tables = [(''Bridge'', exTable)], allTablesRoot = None\<rparr>"

definition exClient :: ClientDBModel where
  "exClient = \<lparr>cdbName = ''db'', cdbTypes = [(''Bridge'', exStruct)], cdbIndexes = []\<rparr>"

definition exDb :: DatabaseModel where
  "exDb = \<lparr>dbClient = exClient, dbSchema = exSchema, dbMetadata = [(exStruct, exMeta)]\<rparr>"

lemma NewInfo_exStruct: "NewInfo ''Bridge'' exTable (zeroModel exStruct) = Inr \<lparr>Obj = zeroModel exStruct, iMeta = exMeta\<rparr>"
  using NewInfo_cong [OF NewInfo_exModel, of "zeroModel exStruct" "[]" "[]"] by (simp add: exModel_def zeroModel_def)

lemma NewDatabaseModel_ex: "NewDatabaseModel exSchema exClient = Inr (Inr exDb)"
  by (simp add: NewDatabaseModel_def validate_def exClient_def exSchema_def validateTable_def Table_def clientNewModel_def
      NewInfo_exStruct generateModelInfo_def modelInfoStep_def exDb_def)

lemma wfSchema_exSchema: "wfSchema exSchema" "exSchema \<noteq> emptySchema"
  by (simp_all add: wfSchema_def exSchema_def wfTable_exTable emptySchema_def)

lemma wfDb_exDb: "wfDb exDb"
  using NewInfo_exStruct
  by (simp add: wfDb_def exDb_def exClient_def wfSchema_exSchema Valid_def Table_def)
    (simp add: exSchema_def exStruct_def)

theorem NewDatabaseModel_sound_witness:
  "NewDatabaseModel exSchema exClient = Inr (Inr exDb) \<and> wfDb exDb \<and> isOk (bindR (NewModel exDb ''Bridge'') (NewModelInfo exDb))"
proof -
  have h: "gm_ok (cdbTypes exClient)" "distinct (map snd (cdbTypes exClient))"
      "list_all (\<lambda>(table, st). distinct (map fName (sFields st))) (cdbTypes exClient)"
    by (simp_all add: exClient_def exStruct_def)
  show ?thesis
    using NewDatabaseModel_sound [OF NewDatabaseModel_ex wfSchema_exSchema h] NewDatabaseModel_ex by (simp add: exClient_def)
qed


lemma CreateModel_ex:
  "CreateModel exDb ''Bridge'' (Some [(''name'', VAtom (AStr ''br0'')), (''ports'', VOvsSet (Some [AInt 7]))]) ''u'' = Inr (exModel ''u'' ''br0'')"
proof -
  have v: "Valid exDb" "Table (dbSchema exDb) ''Bridge'' = Some exTable" "NewModel exDb ''Bridge'' = Inr (zeroModel exStruct)"
      "NewModelInfo exDb (zeroModel exStruct) = Inr \<lparr>Obj = zeroModel exStruct, iMeta = exMeta\<rparr>"
    using wfDb_exDb by (simp_all add: wfDb_def) (simp_all add: exDb_def exSchema_def Table_def NewModel_def exClient_def NewModelInfo_def zeroModel_def)
  have o: "OvsToNative exNameColumn (VAtom (AStr ''br0'')) = Inr (VAtom (AStr ''br0''))"
      "OvsToNative exSetColumn (VOvsSet (Some [AInt 7])) = Inr (VSlice GInt (Some [AInt 7]))"
    by (simp_all add: OvsToNative_def exNameColumn_def exColumn_defs)
  show ?thesis
    by (simp add: CreateModel_def v GetRowData_def getRowData_def exMeta_def)
      (simp add: getRowColumn_def hasColumn_def o SetField_def exTable_def fieldType_def zeroModel_def exStruct_def exModel_def)
qed


end
