(* ===== verification/Difference.thy ===== *)
theory Difference
  imports Values "HOL-Library.Multiset"
begin

text \<open>
  Differences of column values (\<open>updates/difference.go\<close>): the notation of the \<open>update2\<close>
  notification, in which a modification is the symmetric difference of sets, the changed
  entries of a map and the new value of an atom. \<open>setDifference\<close> keeps the in-place loop of the code
  (swap with the last live element, shrink, then append what is left of the lookup set). The
  locale \<open>delta\<close> states what the update protocol relies on: a difference applied to the
  old value gives the new one, and a merged difference acts as its two parts in sequence. It
  is interpreted for sets, maps and atoms.
\<close>

section \<open>Sets\<close>

text \<open>A reflected argument is \<open>None\<close> when invalid, \<open>Some None\<close> for a nil slice or map.\<close>

definition lookupSet :: "'a list \<Rightarrow> 'a list" where
  "lookupSet b = fold (\<lambda>x d. if x \<in> set d then d else d @ [x]) b []"

function sdLoop :: "'a list \<Rightarrow> nat \<Rightarrow> nat \<Rightarrow> 'a list \<Rightarrow> 'a list \<times> nat \<times> 'a list" where
  "sdLoop av i j d =
     (if i < j then
        (if av ! i \<in> set d then sdLoop (av[i := av ! (j - 1)]) i (j - 1) (remove1 (av ! i) d)
         else sdLoop av (Suc i) j d)
      else (av, j, d))"
  by pat_completeness auto
termination
  by (relation "measure (\<lambda>(av, i, j, d). j - i)") auto

declare sdLoop.simps [simp del]

definition setDiffElems :: "'a list \<Rightarrow> 'a list \<Rightarrow> 'a list" where
  "setDiffElems a b = (case sdLoop a 0 (length a) (lookupSet b) of (av, j, d) \<Rightarrow> take j av @ d)"

definition setDifference :: "'a list option option \<Rightarrow> 'a list option option \<Rightarrow> 'a list option option \<times> bool" where
  "setDifference a b =
     (if a = None \<and> b = None then (None, False)
      else if (a = None \<or> elems (the a) = []) \<and> b \<noteq> None then (b, elems (the b) \<noteq> [])
      else if (b = None \<or> elems (the b) = []) \<and> a \<noteq> None then (a, elems (the a) \<noteq> [])
      else (let r = setDiffElems (elems (the a)) (elems (the b))
            in if r = [] then (Some None, False) else (Some (Some r), True)))"

section \<open>Maps\<close>

definition mergeMapStep :: "('k, 'v) gomap \<Rightarrow> ('k \<times> 'v) \<Rightarrow> ('k, 'v) gomap \<Rightarrow> ('k, 'v) gomap" where
  "mergeMapStep ov = (\<lambda>(k, bv) av.
     (case (map_of ov k, map_of av k) of
        (Some o', Some a) \<Rightarrow>
          if o' = bv then AList.delete k av
          else if a = bv then AList.update k o' av
          else AList.update k bv av
      | (None, Some a) \<Rightarrow> if a = bv then AList.delete k av else AList.update k bv av
      | (_, None) \<Rightarrow> AList.update k bv av))"

definition mergeMapDifference ::
  "('k, 'v) gomap option option \<Rightarrow> ('k, 'v) gomap option option \<Rightarrow> ('k, 'v) gomap option option
     \<Rightarrow> ('k, 'v) gomap option option \<times> bool" where
  "mergeMapDifference ov a b =
     (if a = None \<and> b = None then (None, False)
      else if (a = None \<or> elems (the a) = []) \<and> b \<noteq> None then (b, elems (the b) \<noteq> [])
      else if (b = None \<or> elems (the b) = []) \<and> a \<noteq> None then (a, elems (the a) \<noteq> [])
      else (let om = (case ov of None \<Rightarrow> [] | Some m \<Rightarrow> elems m);
                r = fold (mergeMapStep om) (elems (the b)) (elems (the a))
            in if r = [] then (Some None, False) else (Some (Some r), True)))"

section \<open>Any value\<close>

definition mergeAtomicDifference :: "any \<Rightarrow> any \<Rightarrow> any \<Rightarrow> any \<times> bool" where
  "mergeAtomicDifference ov a b =
     (if ov \<noteq> VNil then (b, \<not> deepEqual ov b) else (b, \<not> deepEqual a b))"

text \<open>
  \<open>mergeDifference\<close> dispatches on the kind of \<open>b\<close>, or of \<open>a\<close> when \<open>b\<close> is nil. The arguments of a
  set or map difference have one element type; reflection panics otherwise.
\<close>

definition sliceArg :: "gotype \<Rightarrow> any \<Rightarrow> atom list option option result" where
  "sliceArg t v = (case v of VNil \<Rightarrow> Inr None
     | VSlice t' x \<Rightarrow> if t' = t then Inr (Some x) else Inl (Panic ''reflect.Set: value not assignable'')
     | _ \<Rightarrow> Inl (Panic ''reflect: call of Len''))"

definition mapArg :: "gotype \<Rightarrow> gotype \<Rightarrow> any \<Rightarrow> (atom, atom) gomap option option result" where
  "mapArg k w v = (case v of VNil \<Rightarrow> Inr None
     | VMap k' w' x \<Rightarrow> if k' = k \<and> w' = w then Inr (Some x) else Inl (Panic ''reflect: MapIndex'')
     | _ \<Rightarrow> Inl (Panic ''reflect: call of Len''))"

definition ofSlice :: "gotype \<Rightarrow> atom list option option \<Rightarrow> any" where
  "ofSlice t x = (case x of None \<Rightarrow> VNil | Some y \<Rightarrow> VSlice t y)"

definition ofMap :: "gotype \<Rightarrow> gotype \<Rightarrow> (atom, atom) gomap option option \<Rightarrow> any" where
  "ofMap k w x = (case x of None \<Rightarrow> VNil | Some y \<Rightarrow> VMap k w y)"

definition mergeDifference :: "any \<Rightarrow> any \<Rightarrow> any \<Rightarrow> (any \<times> bool) result" where
  "mergeDifference ov a b =
     (case (if b = VNil then a else b) of
        VNil \<Rightarrow> Inr (VNil, False)
      | VSlice t _ \<Rightarrow>
          bindR (sliceArg t a) (\<lambda>x. bindR (sliceArg t b) (\<lambda>y.
            case setDifference x y of (r, changed) \<Rightarrow> Inr (ofSlice t r, changed)))
      | VMap k w _ \<Rightarrow>
          bindR (mapArg k w a) (\<lambda>x. bindR (mapArg k w b) (\<lambda>y.
          bindR (mapArg k w ov) (\<lambda>z.
            case mergeMapDifference z x y of (r, changed) \<Rightarrow> Inr (ofMap k w r, changed))))
      | _ \<Rightarrow> Inr (mergeAtomicDifference ov a b))"

definition difference :: "any \<Rightarrow> any \<Rightarrow> (any \<times> bool) result" where
  "difference a b = mergeDifference VNil a b"

definition applyDifference :: "any \<Rightarrow> any \<Rightarrow> (any \<times> bool) result" where
  "applyDifference v d =
     (if d = VNil then Inr (v, False)
      else bindR (difference v d) (\<lambda>(result, changed).
        case d of
          VSlice _ x \<Rightarrow> if \<not> changed \<and> elems x \<noteq> [] then Inr (result, True)
                        else Inr (result, changed \<and> elems x \<noteq> [])
        | VMap _ _ x \<Rightarrow> if \<not> changed \<and> elems x \<noteq> [] then Inr (result, True)
                        else Inr (result, changed \<and> elems x \<noteq> [])
        | _ \<Rightarrow> Inr (result, changed)))"

section \<open>The set difference loop computes the symmetric difference\<close>

lemma lookupSet_aux:
  "distinct d \<Longrightarrow> distinct (fold (\<lambda>x d. if x \<in> set d then d else d @ [x]) b d)
     \<and> set (fold (\<lambda>x d. if x \<in> set d then d else d @ [x]) b d) = set d \<union> set b"
  by (induction b arbitrary: d) auto

lemma lookupSet [simp]: "distinct (lookupSet b)" "set (lookupSet b) = set b"
  using lookupSet_aux [of "[]" b] by (simp_all add: lookupSet_def)

lemma mset_butlast: "xs \<noteq> [] \<Longrightarrow> mset (butlast xs) = mset xs - {#last xs#}"
  by (induction xs rule: rev_induct) auto

lemma swap_last_shrink:
  assumes "i < length xs"
  shows "mset (butlast (xs[i := last xs])) = mset xs - {#xs ! i#}"
proof -
  have ne: "xs[i := last xs] \<noteq> []" "xs \<noteq> []" using assms by auto
  have "last (xs[i := last xs]) = last xs"
    using ne(2) by (simp add: last_list_update)
  then have "mset (butlast (xs[i := last xs])) = mset (xs[i := last xs]) - {#last xs#}"
    using mset_butlast [OF ne(1)] by simp
  also have "\<dots> = mset xs - {#xs ! i#}"
    using assms by (simp add: mset_update)
  finally show ?thesis .
qed

lemma take_swap_last:
  assumes "i < j" "j \<le> length av"
  shows "take (j - 1) (av[i := av ! (j - 1)]) = butlast ((take j av)[i := last (take j av)])"
proof (rule nth_equalityI)
  have l: "last (take j av) = av ! (j - 1)" using assms by (subst last_conv_nth) auto
  show "length (take (j - 1) (av[i := av ! (j - 1)])) = length (butlast ((take j av)[i := last (take j av)]))"
    using assms by simp
  fix n assume "n < length (take (j - 1) (av[i := av ! (j - 1)]))"
  then show "take (j - 1) (av[i := av ! (j - 1)]) ! n = butlast ((take j av)[i := last (take j av)]) ! n"
    unfolding l using assms by (cases "n = i") (auto simp: nth_butlast)
qed

lemma swap_last_take:
  assumes "i < j" "j \<le> length av" "distinct (take j av)"
  shows "set (take (j - 1) (av[i := av ! (j - 1)])) = set (take j av) - {av ! i}"
    and "distinct (take (j - 1) (av[i := av ! (j - 1)]))"
proof -
  let ?xs = "take j av" and ?ys = "take (j - 1) (av[i := av ! (j - 1)])"
  have m: "mset ?ys = mset ?xs - {#av ! i#}"
    using swap_last_shrink [of i ?xs] assms take_swap_last [OF assms(1,2)] by simp
  have "av ! i \<in> set ?xs" using assms(1,2) by (auto simp: in_set_conv_nth)
  moreover have "mset ?xs = mset_set (set ?xs)" using assms(3) by (simp add: mset_set_set)
  ultimately have eq: "mset ?ys = mset_set (set ?xs - {av ! i})"
    using m by (simp add: mset_set_Diff)
  then show "set ?ys = set ?xs - {av ! i}"
    by (metis finite_Diff finite_set finite_set_mset_mset_set set_mset_mset)
  then show "distinct ?ys"
    using eq by (metis distinct_count_atmost_1 count_mset_set' finite_set finite_Diff)
qed

lemma sdLoop_spec:
  assumes "sdLoop av i j d = (av', j', d')" and "i \<le> j" and "j \<le> length av"
    and "distinct (take j av)" and "distinct d" and "\<And>x. x \<in> set (take i av) \<Longrightarrow> x \<notin> set d"
  shows "j' \<le> length av' \<and> distinct (take j' av') \<and> distinct d'
    \<and> set (take j' av') = set (take j av) - set d \<and> set d' = set d - set (take j av)"
  using assms
proof (induction av i j d rule: sdLoop.induct)
  case (1 av i j d)
  note spec = "1.prems" and IH1 = "1.IH"(1) and IH2 = "1.IH"(2)
  consider (stop) "\<not> i < j" | (remove) "i < j" "av ! i \<in> set d" | (keep) "i < j" "av ! i \<notin> set d"
    by blast
  then show ?case
  proof cases
    case stop
    then have "sdLoop av i j d = (av, j, d)" by (simp add: sdLoop.simps)
    then have "av' = av" "j' = j" "d' = d" "i = j"
      using stop spec(1,2) by simp_all
    then show ?thesis using spec(3-6) by blast
  next
    case remove
    let ?av = "av[i := av ! (j - 1)]"
    note sw = swap_last_take [OF remove(1) spec(3,4)]
    have prefix: "set (take i ?av) = set (take i av)" by simp
    have mem: "av ! i \<in> set (take j av)" using remove(1) spec(3) by (auto simp: in_set_conv_nth)
    have "sdLoop ?av i (j - 1) (remove1 (av ! i) d) = (av', j', d')"
      using spec(1) remove by (simp add: sdLoop.simps [of av i j d])
    then have "j' \<le> length av' \<and> distinct (take j' av') \<and> distinct d'
        \<and> set (take j' av') = set (take (j - 1) ?av) - set (remove1 (av ! i) d)
        \<and> set d' = set (remove1 (av ! i) d) - set (take (j - 1) ?av)"
      using remove spec sw prefix by (intro IH1) (auto dest: set_remove1_subset [THEN subsetD])
    then show ?thesis using sw(1) spec(5) remove(2) mem by auto
  next
    case keep
    have "sdLoop av (Suc i) j d = (av', j', d')"
      using spec(1) keep by (simp add: sdLoop.simps [of av i j d])
    moreover have "take (Suc i) av = take i av @ [av ! i]"
      using keep(1) spec(3) by (simp add: take_Suc_conv_app_nth)
    ultimately show ?thesis using keep spec by (intro IH2) auto
  qed
qed

lemma setDiffElems_spec:
  assumes "distinct a" "distinct b"
  shows "set (setDiffElems a b) = (set a - set b) \<union> (set b - set a)" "distinct (setDiffElems a b)"
proof -
  obtain av j d where r: "sdLoop a 0 (length a) (lookupSet b) = (av, j, d)" by (metis prod_cases3)
  have "distinct (take j av) \<and> distinct d \<and> set (take j av) = set a - set b \<and> set d = set b - set a"
    using sdLoop_spec [OF r] assms by simp
  then show "set (setDiffElems a b) = (set a - set b) \<union> (set b - set a)" "distinct (setDiffElems a b)"
    by (auto simp: setDiffElems_def r)
qed

lemma setDifference_spec:
  assumes "distinct (elems a)" "distinct (elems b)"
  obtains r where "setDifference (Some a) (Some b) = (Some r, elems r \<noteq> [])" "distinct (elems r)"
    "set (elems r) = (set (elems a) - set (elems b)) \<union> (set (elems b) - set (elems a))"
proof (cases "elems a = [] \<or> elems b = []")
  case True
  then show ?thesis using assms that [of b] that [of a] by (cases "elems a = []") (auto simp: setDifference_def)
next
  case False
  let ?r = "setDiffElems (elems a) (elems b)"
  have "setDifference (Some a) (Some b) = (Some (if ?r = [] then None else Some ?r), ?r \<noteq> [])"
    using False by (simp add: setDifference_def Let_def)
  then show ?thesis using that [of "if ?r = [] then None else Some ?r"] setDiffElems_spec [OF assms]
    by (cases "?r = []") auto
qed

section \<open>Map differences, key by key\<close>

fun mergeEntry :: "'v option \<Rightarrow> 'v option \<Rightarrow> 'v option \<Rightarrow> 'v option" where
  "mergeEntry ov a None = a"
| "mergeEntry (Some o') (Some a) (Some b) = (if o' = b then None else if a = b then Some o' else Some b)"
| "mergeEntry None (Some a) (Some b) = (if a = b then None else Some b)"
| "mergeEntry ov None (Some b) = Some b"

lemma map_of_mergeMapStep:
  "map_of (mergeMapStep om (k, b) av) = (map_of av)(k := mergeEntry (map_of om k) (map_of av k) (Some b))"
  by (auto simp: mergeMapStep_def fun_eq_iff split: option.splits)

lemma gm_ok_mergeMapStep: "gm_ok av \<Longrightarrow> gm_ok (mergeMapStep om p av)"
  by (cases p) (auto simp: mergeMapStep_def split: option.splits)

lemma gm_ok_mergeFold: "gm_ok av \<Longrightarrow> gm_ok (fold (mergeMapStep om) bs av)"
  by (induction bs arbitrary: av) (auto simp: gm_ok_mergeMapStep)

lemma map_of_mergeFold:
  "gm_ok bs \<Longrightarrow> map_of (fold (mergeMapStep om) bs av) k = mergeEntry (map_of om k) (map_of av k) (map_of bs k)"
proof (induction bs arbitrary: av)
  case (Cons p bs)
  obtain k' b where p: "p = (k', b)" by fastforce
  have "k' \<notin> set (keys bs)" using Cons.prems p by simp
  then have "map_of bs k' = None" by (simp add: map_of_eq_None_iff)
  then show ?case using Cons p by (auto simp: map_of_mergeMapStep)
qed simp

definition origMap :: "('k, 'v) gomap option option \<Rightarrow> ('k, 'v) gomap" where
  "origMap ov = (case ov of None \<Rightarrow> [] | Some m \<Rightarrow> elems m)"

lemma mergeMapDifference_spec:
  assumes "gm_ok (elems a)" "gm_ok (elems b)"
  obtains r where "mergeMapDifference ov (Some a) (Some b) = (Some r, elems r \<noteq> [])" "gm_ok (elems r)"
    "\<And>k. map_of (elems r) k = mergeEntry (map_of (origMap ov) k) (map_of (elems a) k) (map_of (elems b) k)"
proof (cases "elems a = [] \<or> elems b = []")
  case True
  have "mergeEntry x None y = y" for x y :: "'b option" by (cases y) auto
  then show ?thesis using True assms that [of b] that [of a]
    by (cases "elems a = []") (auto simp: mergeMapDifference_def)
next
  case False
  let ?r = "fold (mergeMapStep (origMap ov)) (elems b) (elems a)"
  have "mergeMapDifference ov (Some a) (Some b) = (Some (if ?r = [] then None else Some ?r), ?r \<noteq> [])"
    using False by (auto simp: mergeMapDifference_def Let_def origMap_def)
  moreover have el: "elems (if ?r = [] then None else Some ?r) = ?r" by simp
  ultimately show ?thesis
    using that [of "if ?r = [] then None else Some ?r"] unfolding el
    by (simp add: assms gm_ok_mergeFold map_of_mergeFold)
qed

text \<open>What applying a map difference does to one key, and the two laws of the notation.\<close>

lemma mergeEntry_inverse: "mergeEntry None v (mergeEntry None v w) = w"
  by (cases v; cases w) auto

lemma mergeEntry_merge: "mergeEntry None ov (mergeEntry ov a b) = mergeEntry None (mergeEntry None ov a) b"
  by (cases ov; cases a; cases b) auto

lemma mergeEntry_None_iff: "mergeEntry None v d = v \<longleftrightarrow> d = None"
  by (cases v; cases d) auto

section \<open>Values of one column\<close>

text \<open>
  What a column value stands for: a slice is a set, a map a partial function, anything else is
  itself. \<open>colVal t v\<close> is the well-formedness of a value of Go type \<open>t\<close>; a slice has no repeated element.
\<close>

datatype absval = AbsAtom any | AbsSet "atom set" | AbsMap "atom \<Rightarrow> atom option"

definition absV :: "any \<Rightarrow> absval" where
  "absV v = (case v of VSlice _ x \<Rightarrow> AbsSet (set (elems x)) | VMap _ _ m \<Rightarrow> AbsMap (map_of (elems m)) | _ \<Rightarrow> AbsAtom v)"

definition distinctVal :: "any \<Rightarrow> bool" where
  "distinctVal v = (case v of VSlice _ x \<Rightarrow> distinct (elems x) | _ \<Rightarrow> True)"

definition colVal :: "rtype \<Rightarrow> any \<Rightarrow> bool" where
  "colVal t v = (typeOf v = Some t \<and> wfVal v \<and> distinctVal v \<and> t \<noteq> ROvsSet \<and> t \<noteq> ROvsMap)"

fun absApply :: "absval \<Rightarrow> absval \<Rightarrow> absval" where
  "absApply (AbsSet v) (AbsSet d) = AbsSet ((v - d) \<union> (d - v))"
| "absApply (AbsMap v) (AbsMap d) = AbsMap (\<lambda>k. mergeEntry None (v k) (d k))"
| "absApply _ d = d"

fun absMerge :: "absval \<Rightarrow> absval \<Rightarrow> absval \<Rightarrow> absval" where
  "absMerge _ (AbsSet a) (AbsSet b) = AbsSet ((a - b) \<union> (b - a))"
| "absMerge (AbsMap ov) (AbsMap a) (AbsMap b) = AbsMap (\<lambda>k. mergeEntry (ov k) (a k) (b k))"
| "absMerge _ _ b = b"

lemma colVal_cases [consumes 1, case_names Slice Map Atomic]:
  assumes "colVal t v"
  obtains (Slice) g x where "t = RSlice g" "v = VSlice g x" "distinct (elems x)" "list_all (\<lambda>a. atomType a = g) (elems x)"
  | (Map) k w m where "t = RMap k w" "v = VMap k w m" "gm_ok (elems m)"
      "list_all (\<lambda>(x, y). atomType x = k \<and> atomType y = w) (elems m)"
  | (Atomic) "(\<exists>g. t = RAtom g) \<or> (\<exists>g. t = RPtr g)" "absV v = AbsAtom v"
      "(\<exists>a. v = VAtom a) \<or> (\<exists>g x. v = VPtr g x)"
  using assms by (cases v) (auto simp: colVal_def distinctVal_def absV_def)

lemma colVal_sameShape:
  assumes "colVal t v" "colVal t w"
  shows "(\<exists>g x y. t = RSlice g \<and> v = VSlice g x \<and> w = VSlice g y) \<or> (\<exists>k h x y. t = RMap k h \<and> v = VMap k h x \<and> w = VMap k h y)
    \<or> (absV v = AbsAtom v \<and> absV w = AbsAtom w)"
  using assms by (cases v; cases w) (auto simp: colVal_def absV_def)

lemma mergeEntry_range: "mergeEntry ov a b = Some x \<Longrightarrow> ov = Some x \<or> a = Some x \<or> b = Some x"
  by (cases "(ov, a, b)" rule: mergeEntry.cases) (auto split: if_splits)

lemma mergeEntry_keys: "mergeEntry ov a b = Some x \<Longrightarrow> a \<noteq> None \<or> b \<noteq> None"
  by (cases "(ov, a, b)" rule: mergeEntry.cases) (auto split: if_splits)

lemma mergeEntry_typed:
  assumes "\<And>x y. (x, y) \<in> set om \<union> set a \<union> set b \<Longrightarrow> P x y" and "gm_ok r"
    and "\<And>k. map_of r k = mergeEntry (map_of om k) (map_of a k) (map_of b k)"
  shows "list_all (\<lambda>(x, y). P x y) r"
proof -
  have "P x y" if "(x, y) \<in> set r" for x y
  proof -
    have "mergeEntry (map_of om x) (map_of a x) (map_of b x) = Some y"
      using that map_of_in_iff [OF assms(2), of x y] assms(3) [of x] by simp
    then have "(x, y) \<in> set om \<union> set a \<union> set b" by (auto dest!: mergeEntry_range map_of_SomeD)
    then show ?thesis by (rule assms(1))
  qed
  then show ?thesis by (auto simp: list_all_iff)
qed

lemma mergeDifference_spec:
  assumes "colVal t ov \<or> ov = VNil" and "colVal t a" and "colVal t b"
  obtains r ch where "mergeDifference ov a b = Inr (r, ch)" "colVal t r"
    "absV r = (if ov = VNil then absApply (absV a) (absV b) else absMerge (absV ov) (absV a) (absV b))"
    "ch = (case absV r of AbsSet D \<Rightarrow> D \<noteq> {} | AbsMap D \<Rightarrow> D \<noteq> Map.empty
           | AbsAtom _ \<Rightarrow> if ov = VNil then a \<noteq> b else ov \<noteq> b)"
  using assms(3)
proof (cases rule: colVal_cases)
  case (Slice g y)
  from assms(2) Slice obtain x where x: "a = VSlice g x" "distinct (elems x)" "list_all (\<lambda>z. atomType z = g) (elems x)"
    by (cases rule: colVal_cases) (auto simp: colVal_def)
  obtain r where r: "setDifference (Some x) (Some y) = (Some r, elems r \<noteq> [])" "distinct (elems r)"
      "set (elems r) = (set (elems x) - set (elems y)) \<union> (set (elems y) - set (elems x))"
    using setDifference_spec [OF x(2) Slice(3)] by blast
  show ?thesis
  proof (rule that)
    show "colVal t (VSlice g r)"
      using Slice x r(2,3) by (auto simp: colVal_def distinctVal_def list_all_iff)
    show "mergeDifference ov a b = Inr (VSlice g r, elems r \<noteq> [])"
      using Slice(2) x(1) r(1) by (simp add: mergeDifference_def sliceArg_def ofSlice_def)
    show "absV (VSlice g r) = (if ov = VNil then absApply (absV a) (absV b) else absMerge (absV ov) (absV a) (absV b))"
      using Slice(2) x(1) r(3) by (simp add: absV_def)
  qed (simp_all add: absV_def)
next
  case (Map k w y)
  from assms(2) Map obtain x where x: "a = VMap k w x" "gm_ok (elems x)"
      "list_all (\<lambda>(p, q). atomType p = k \<and> atomType q = w) (elems x)"
    by (cases rule: colVal_cases) (auto simp: colVal_def)
  obtain z where z: "mapArg k w ov = Inr z" "ov = VNil \<Longrightarrow> z = None"
      "ov \<noteq> VNil \<Longrightarrow> absV ov = AbsMap (map_of (origMap z))"
      "list_all (\<lambda>(p, q). atomType p = k \<and> atomType q = w) (origMap z)"
    using assms(1) Map by (cases ov) (auto simp: colVal_def mapArg_def absV_def origMap_def)
  obtain r where r: "mergeMapDifference z (Some x) (Some y) = (Some r, elems r \<noteq> [])" "gm_ok (elems r)"
      "\<And>j. map_of (elems r) j = mergeEntry (map_of (origMap z) j) (map_of (elems x) j) (map_of (elems y) j)"
    using mergeMapDifference_spec [OF x(2) Map(3)] by blast
  have "list_all (\<lambda>(p, q). atomType p = k \<and> atomType q = w) (elems r)"
    by (rule mergeEntry_typed [OF _ r(2,3)]) (use z(4) x(3) Map(4) in \<open>auto simp: list_all_iff\<close>)
  then have typed: "colVal t (VMap k w r)"
    using Map(1) r(2) by (auto simp: colVal_def distinctVal_def)
  have args: "mapArg k w a = Inr (Some x)" "mapArg k w b = Inr (Some y)"
    using Map(2) x(1) by (simp_all add: mapArg_def)
  show ?thesis
  proof (rule that [OF _ typed])
    show "mergeDifference ov a b = Inr (VMap k w r, elems r \<noteq> [])"
      using Map(2) args r(1) z(1) by (simp add: mergeDifference_def ofMap_def)
    show "absV (VMap k w r) = (if ov = VNil then absApply (absV a) (absV b) else absMerge (absV ov) (absV a) (absV b))"
      using z(2,3) Map(2) x(1) r(3) by (simp add: absV_def fun_eq_iff origMap_def)
  qed (simp_all add: absV_def map_of_empty_iff)
next
  case Atomic
  then have "mergeDifference ov a b = Inr (mergeAtomicDifference ov a b)"
    by (auto simp: mergeDifference_def)
  moreover have "absV a = AbsAtom a" "ov \<noteq> VNil \<Longrightarrow> absV ov = AbsAtom ov"
    using Atomic assms by (auto simp: colVal_def absV_def split: any.splits)
  moreover have "deepEqual a b \<longleftrightarrow> a = b" "ov \<noteq> VNil \<Longrightarrow> deepEqual ov b \<longleftrightarrow> ov = b"
    using Atomic assms by (auto simp: colVal_def elim!: deepEqual.elims(2))
  ultimately show ?thesis
    using that [of b "if ov = VNil then a \<noteq> b else ov \<noteq> b"] Atomic assms(3)
    by (auto simp: mergeAtomicDifference_def absV_def)
qed

lemma difference_spec:
  assumes "colVal t v" and "colVal t d"
  obtains r ch where "difference v d = Inr (r, ch)" "colVal t r" "absV r = absApply (absV v) (absV d)"
    "ch = (case absV r of AbsSet D \<Rightarrow> D \<noteq> {} | AbsMap D \<Rightarrow> D \<noteq> Map.empty | AbsAtom _ \<Rightarrow> v \<noteq> d)"
proof (rule mergeDifference_spec [OF disjI2 [OF refl] assms])
  fix r ch
  assume "mergeDifference VNil v d = Inr (r, ch)" "colVal t r"
    and "absV r = (if VNil = VNil then absApply (absV v) (absV d) else absMerge (absV VNil) (absV v) (absV d))"
    and "ch = (case absV r of AbsSet D \<Rightarrow> D \<noteq> {} | AbsMap D \<Rightarrow> D \<noteq> Map.empty
           | AbsAtom _ \<Rightarrow> if VNil = VNil then v \<noteq> d else VNil \<noteq> d)"
  then show thesis using that [of r ch] by (simp add: difference_def)
qed

lemma applyDifference_spec:
  assumes "colVal t v" and "colVal t d"
  obtains r ch where "applyDifference v d = Inr (r, ch)" "colVal t r" "absV r = absApply (absV v) (absV d)"
    "ch = (case absV d of AbsSet D \<Rightarrow> D \<noteq> {} | AbsMap D \<Rightarrow> D \<noteq> Map.empty | AbsAtom _ \<Rightarrow> v \<noteq> d)"
proof (rule difference_spec [OF assms])
  fix r ch
  assume r: "difference v d = Inr (r, ch)" "colVal t r" "absV r = absApply (absV v) (absV d)"
    and ch: "ch = (case absV r of AbsSet D \<Rightarrow> D \<noteq> {} | AbsMap D \<Rightarrow> D \<noteq> Map.empty | AbsAtom _ \<Rightarrow> v \<noteq> d)"
  have "d \<noteq> VNil" using assms(2) by (auto simp: colVal_def)
  show thesis using assms(2)
  proof (cases rule: colVal_cases)
    case (Slice g x)
    have "applyDifference v d = Inr (r, elems x \<noteq> [])"
      using r(1) \<open>d \<noteq> VNil\<close> Slice(2) by (cases ch) (auto simp: applyDifference_def)
    moreover have "absV d = AbsSet (set (elems x))" using Slice(2) by (simp add: absV_def)
    ultimately show ?thesis using r(2,3) by (intro that) simp_all
  next
    case (Map k w m)
    have "applyDifference v d = Inr (r, elems m \<noteq> [])"
      using r(1) \<open>d \<noteq> VNil\<close> Map(2) by (cases ch) (auto simp: applyDifference_def)
    moreover have "absV d = AbsMap (map_of (elems m))" using Map(2) by (simp add: absV_def)
    ultimately show ?thesis using r(2,3) by (intro that) (simp_all add: map_of_empty_iff)
  next
    case Atomic
    then have "applyDifference v d = Inr (r, ch)"
      using r(1) by (auto simp: applyDifference_def)
    moreover have "absV r = AbsAtom d"
      using r(3) Atomic(2) by (cases "absV v") auto
    ultimately show ?thesis using r(2,3) ch Atomic(2) by (intro that) simp_all
  qed
qed

section \<open>The laws of the update2 notation\<close>

locale delta =
  fixes ok :: "'v \<Rightarrow> bool" and abs :: "'v \<Rightarrow> 'a"
    and diffD :: "'v \<Rightarrow> 'v \<Rightarrow> 'v" and applyD :: "'v \<Rightarrow> 'v \<Rightarrow> 'v" and mergeD :: "'v \<Rightarrow> 'v \<Rightarrow> 'v \<Rightarrow> 'v"
  assumes ok_diff: "ok v \<Longrightarrow> ok w \<Longrightarrow> ok (diffD v w)"
    and ok_apply: "ok v \<Longrightarrow> ok d \<Longrightarrow> ok (applyD v d)"
    and ok_merge: "ok v \<Longrightarrow> ok d \<Longrightarrow> ok e \<Longrightarrow> ok (mergeD v d e)"
    and apply_diff: "ok v \<Longrightarrow> ok w \<Longrightarrow> abs (applyD v (diffD v w)) = abs w"
    and apply_merge: "ok v \<Longrightarrow> ok d \<Longrightarrow> ok e \<Longrightarrow> abs (applyD v (mergeD v d e)) = abs (applyD (applyD v d) e)"
    and apply_cong: "ok v \<Longrightarrow> ok v' \<Longrightarrow> ok d \<Longrightarrow> abs v = abs v' \<Longrightarrow> abs (applyD v d) = abs (applyD v' d)"
begin

lemma ok_mergeAll: "ok v \<Longrightarrow> ok d \<Longrightarrow> list_all ok ds \<Longrightarrow> ok (foldl (mergeD v) d ds)"
  by (induction ds arbitrary: d) (auto intro: ok_merge)

lemma ok_applyAll: "ok v \<Longrightarrow> list_all ok ds \<Longrightarrow> ok (foldl applyD v ds)"
  by (induction ds arbitrary: v) (auto intro: ok_apply)

text \<open>Merging any number of differences and applying the result is applying them in sequence.\<close>

lemma apply_mergeAll:
  assumes "ok v" "ok d" "list_all ok ds"
  shows "abs (applyD v (foldl (mergeD v) d ds)) = abs (foldl applyD v (d # ds))"
  using assms(3)
proof (induction ds rule: rev_induct)
  case (snoc e ds)
  let ?m = "foldl (mergeD v) d ds"
  have ok: "ok ?m" "ok e" "list_all ok ds" using snoc.prems assms ok_mergeAll by auto
  have "abs (applyD v (mergeD v ?m e)) = abs (applyD (applyD v ?m) e)"
    by (rule apply_merge [OF assms(1) ok(1,2)])
  also have "\<dots> = abs (applyD (foldl applyD v (d # ds)) e)"
    using snoc.IH ok assms by (intro apply_cong) (auto intro: ok_apply ok_applyAll)
  finally show ?case by simp
qed simp

lemma apply_diff_twice: "ok v \<Longrightarrow> ok w \<Longrightarrow> ok x \<Longrightarrow> abs (applyD (applyD v (diffD v w)) (diffD w x)) = abs x"
  using apply_cong [of "applyD v (diffD v w)" w "diffD w x"] apply_diff ok_apply ok_diff by auto

end

definition diffV :: "any \<Rightarrow> any \<Rightarrow> any" where "diffV v w = fst (projr (difference v w))"
definition applyV :: "any \<Rightarrow> any \<Rightarrow> any" where "applyV v d = fst (projr (applyDifference v d))"
definition mergeV :: "any \<Rightarrow> any \<Rightarrow> any \<Rightarrow> any" where "mergeV v d e = fst (projr (mergeDifference v d e))"

lemma diffV: "colVal t v \<Longrightarrow> colVal t w \<Longrightarrow> colVal t (diffV v w) \<and> absV (diffV v w) = absApply (absV v) (absV w)"
  by (erule (1) difference_spec) (simp add: diffV_def)

lemma applyV: "colVal t v \<Longrightarrow> colVal t w \<Longrightarrow> colVal t (applyV v w) \<and> absV (applyV v w) = absApply (absV v) (absV w)"
  by (erule (1) applyDifference_spec) (simp add: applyV_def)

lemma mergeV:
  assumes "colVal t ov" "colVal t a" "colVal t b"
  shows "colVal t (mergeV ov a b) \<and> absV (mergeV ov a b) = absMerge (absV ov) (absV a) (absV b)"
proof -
  have "ov \<noteq> VNil" using assms(1) by (auto simp: colVal_def)
  then show ?thesis
    by (rule_tac mergeDifference_spec [OF disjI1 [OF assms(1)] assms(2,3)]) (simp add: mergeV_def)
qed

lemma absApply_laws:
  assumes "colVal t v" "colVal t d" "colVal t e"
  shows "absApply (absV v) (absApply (absV v) (absV d)) = absV d"
    and "absApply (absV v) (absMerge (absV v) (absV d) (absV e)) = absApply (absApply (absV v) (absV d)) (absV e)"
proof -
  have "absApply (absV v) (absApply (absV v) (absV d)) = absV d
    \<and> absApply (absV v) (absMerge (absV v) (absV d) (absV e)) = absApply (absApply (absV v) (absV d)) (absV e)"
    using assms(1)
  proof (cases rule: colVal_cases)
    case (Slice g x)
    then obtain y z where "d = VSlice g y" "e = VSlice g z"
      using assms(2,3) by (auto simp: colVal_def dest!: typeOf_RSliceD)
    then show ?thesis using Slice by (auto simp: absV_def)
  next
    case (Map k w x)
    then obtain y z where "d = VMap k w y" "e = VMap k w z"
      using assms(2,3) by (auto simp: colVal_def dest!: typeOf_RMapD)
    then show ?thesis using Map by (simp add: absV_def mergeEntry_inverse mergeEntry_merge)
  next
    case Atomic
    then have "absV d = AbsAtom d" "absV e = AbsAtom e"
      using assms(2,3) by (auto simp: colVal_def absV_def split: any.splits)
    then show ?thesis using Atomic by simp
  qed
  then show "absApply (absV v) (absApply (absV v) (absV d)) = absV d"
    and "absApply (absV v) (absMerge (absV v) (absV d) (absV e)) = absApply (absApply (absV v) (absV d)) (absV e)"
    by blast+
qed

interpretation column: delta "colVal t" absV diffV applyV mergeV for t
proof
  fix v w d e v'
  assume v: "colVal t v"
  show "colVal t (diffV v w)" if "colVal t w" using diffV v that by blast
  show "colVal t (applyV v d)" if "colVal t d" using applyV v that by blast
  show "colVal t (mergeV v d e)" if "colVal t d" "colVal t e" using mergeV v that by blast
  show "absV (applyV v (diffV v w)) = absV w" if "colVal t w"
    using v that diffV [OF v that] applyV [of t v "diffV v w"] absApply_laws(1) [OF v that that] by simp
  show "absV (applyV v (mergeV v d e)) = absV (applyV (applyV v d) e)" if "colVal t d" "colVal t e"
    using v that mergeV [OF v that] applyV [of t v "mergeV v d e"] applyV [OF v that(1)]
      applyV [of t "applyV v d" e] absApply_laws(2) [OF v that] by simp
  show "absV (applyV v d) = absV (applyV v' d)" if "colVal t v'" "colVal t d" "absV v = absV v'"
    using applyV [OF v that(2)] applyV [OF that(1,2)] that(3) by simp
qed

section \<open>Properties\<close>

lemma mergeEntry_eq_None: "mergeEntry None v w = None \<longleftrightarrow> v = w"
  by (cases v; cases w) auto

lemma absApply_flag:
  assumes "colVal t v" "colVal t d"
  shows "(case absV d of AbsSet D \<Rightarrow> D \<noteq> {} | AbsMap D \<Rightarrow> D \<noteq> Map.empty | AbsAtom _ \<Rightarrow> v \<noteq> d)
    \<longleftrightarrow> absApply (absV v) (absV d) \<noteq> absV v"
  using assms(1)
proof (cases rule: colVal_cases)
  case (Slice g x)
  then obtain y where "d = VSlice g y"
    using assms(2) by (auto simp: colVal_def dest!: typeOf_RSliceD)
  moreover have "V - D \<union> (D - V) \<noteq> V \<longleftrightarrow> D \<noteq> {}" for V D :: "atom set"
    by blast
  ultimately show ?thesis using Slice by (simp add: absV_def)
next
  case (Map k w x)
  then obtain y where "d = VMap k w y"
    using assms(2) by (auto simp: colVal_def dest!: typeOf_RMapD)
  then show ?thesis using Map by (simp add: absV_def fun_eq_iff mergeEntry_None_iff)
next
  case Atomic
  then have "absV d = AbsAtom d"
    using assms(2) by (auto simp: colVal_def absV_def split: any.splits)
  then show ?thesis using Atomic by auto
qed

lemma absV_AbsAtomD: "absV v = AbsAtom x \<Longrightarrow> x = v"
  by (auto simp: absV_def split: any.splits)

lemma absMerge_atom:
  assumes "colVal t v" "colVal t d" "colVal t e" "colVal t m"
    and "absV m = absMerge (absV v) (absV d) (absV e)" and "absV m = AbsAtom x"
  shows "m = e"
  using assms(1)
proof (cases rule: colVal_cases)
  case (Slice g x)
  then show ?thesis
    using assms(4,6) by (auto simp: colVal_def absV_def dest!: typeOf_RSliceD)
next
  case (Map k w x)
  then show ?thesis
    using assms(4,6) by (auto simp: colVal_def absV_def dest!: typeOf_RMapD)
next
  case Atomic
  then have "absV e = AbsAtom e"
    using assms(3) by (auto simp: colVal_def absV_def split: any.splits)
  then have "absV m = AbsAtom e" using assms(5) Atomic by simp
  then show ?thesis by (auto dest: absV_AbsAtomD)
qed

lemma absDiff_flag:
  assumes "colVal t v" "colVal t w" "absV r = absApply (absV v) (absV w)"
  shows "(case absV r of AbsSet D \<Rightarrow> D \<noteq> {} | AbsMap D \<Rightarrow> D \<noteq> Map.empty | AbsAtom _ \<Rightarrow> v \<noteq> w)
    \<longleftrightarrow> absV v \<noteq> absV w"
  using assms(1)
proof (cases rule: colVal_cases)
  case (Slice g x)
  then obtain y where "w = VSlice g y"
    using assms(2) by (auto simp: colVal_def dest!: typeOf_RSliceD)
  then show ?thesis using Slice assms(3) by (auto simp: absV_def)
next
  case (Map k h x)
  then obtain y where "w = VMap k h y"
    using assms(2) by (auto simp: colVal_def dest!: typeOf_RMapD)
  then show ?thesis using Map assms(3) by (simp add: absV_def fun_eq_iff mergeEntry_eq_None)
next
  case Atomic
  then have "absV w = AbsAtom w"
    using assms(2) by (auto simp: colVal_def absV_def split: any.splits)
  then show ?thesis using Atomic assms(3) by auto
qed

text \<open>
  Claim C1. The difference notation is a round trip: for two values of one column type, the
  difference exists, applying it to the old value gives a value equal to the new one (as a set, a map or
  an atom), and both the flag of \<open>difference\<close> and the flag of \<open>applyDifference\<close> say exactly
  whether old and new differ.
\<close>

theorem difference_roundtrip:
  assumes "colVal t v" and "colVal t w"
  shows "\<exists>d c r c'. difference v w = Inr (d, c) \<and> applyDifference v d = Inr (r, c') \<and> colVal t r
    \<and> absV r = absV w \<and> (c \<longleftrightarrow> absV v \<noteq> absV w) \<and> (c' \<longleftrightarrow> absV v \<noteq> absV w)"
proof -
  obtain d c where d: "difference v w = Inr (d, c)" "colVal t d" "absV d = absApply (absV v) (absV w)"
      "c = (case absV d of AbsSet D \<Rightarrow> D \<noteq> {} | AbsMap D \<Rightarrow> D \<noteq> Map.empty | AbsAtom _ \<Rightarrow> v \<noteq> w)"
    by (rule difference_spec [OF assms])
  obtain r c' where r: "applyDifference v d = Inr (r, c')" "colVal t r" "absV r = absApply (absV v) (absV d)"
      "c' = (case absV d of AbsSet D \<Rightarrow> D \<noteq> {} | AbsMap D \<Rightarrow> D \<noteq> Map.empty | AbsAtom _ \<Rightarrow> v \<noteq> d)"
    by (rule applyDifference_spec [OF assms(1) d(2)])
  have "absV r = absV w"
    using r(3) d(3) absApply_laws(1) [OF assms assms(2)] by simp
  moreover have "c \<longleftrightarrow> absV v \<noteq> absV w"
    unfolding d(4) by (rule absDiff_flag [OF assms d(3)])
  moreover have "c' \<longleftrightarrow> absV r \<noteq> absV v"
    unfolding r(4) r(3) by (rule absApply_flag [OF assms(1) d(2)])
  ultimately show ?thesis using d(1) r(1,2) by auto
qed

theorem difference_roundtrip_witness:
  "\<exists>d c r c'. difference (VSlice GInt (Some [AInt 1])) (VSlice GInt (Some [AInt 2])) = Inr (d, c)
     \<and> applyDifference (VSlice GInt (Some [AInt 1])) d = Inr (r, c')
     \<and> absV r = AbsSet {AInt 2} \<and> c'"
proof -
  have c: "colVal (RSlice GInt) (VSlice GInt (Some [AInt 1]))" "colVal (RSlice GInt) (VSlice GInt (Some [AInt 2]))"
    by (simp_all add: colVal_def distinctVal_def)
  have a: "absV (VSlice GInt (Some [AInt 2])) = AbsSet {AInt 2}"
    "absV (VSlice GInt (Some [AInt 1])) \<noteq> AbsSet {AInt 2}"
    by (simp_all add: absV_def doubleton_eq_iff)
  show ?thesis
    using difference_roundtrip [OF c] a by (elim exE conjE) (intro exI conjI, assumption+, simp_all)
qed

text \<open>
  Claim C7. Merging differences is sequential composition: for an original value \<open>v\<close> and
  differences \<open>d\<close>, \<open>e\<close> of its type, \<open>mergeDifference v d e\<close> gives one difference whose
  application to \<open>v\<close> has the same result as applying \<open>d\<close> and then \<open>e\<close>, and its flag is false exactly
  when the two cancel out, leaving the original value.
\<close>

theorem mergeDifference_sequential:
  assumes "colVal t v" and "colVal t d" and "colVal t e"
  shows "\<exists>m c r r1 r2. mergeDifference v d e = Inr (m, c) \<and> applyDifference v m = Inr r
    \<and> applyDifference v d = Inr r1 \<and> applyDifference (fst r1) e = Inr r2
    \<and> absV (fst r) = absV (fst r2) \<and> (c \<longleftrightarrow> absV (fst r2) \<noteq> absV v)"
proof -
  obtain m c where m: "mergeDifference v d e = Inr (m, c)" "colVal t m"
      "absV m = (if v = VNil then absApply (absV d) (absV e) else absMerge (absV v) (absV d) (absV e))"
      "c = (case absV m of AbsSet D \<Rightarrow> D \<noteq> {} | AbsMap D \<Rightarrow> D \<noteq> Map.empty
            | AbsAtom _ \<Rightarrow> if v = VNil then d \<noteq> e else v \<noteq> e)"
    by (rule mergeDifference_spec [OF disjI1 [OF assms(1)] assms(2,3)])
  obtain r c' where r: "applyDifference v m = Inr (r, c')" "absV r = absApply (absV v) (absV m)"
    by (rule applyDifference_spec [OF assms(1) m(2)])
  obtain r1 c1 where r1: "applyDifference v d = Inr (r1, c1)" "colVal t r1" "absV r1 = absApply (absV v) (absV d)"
    by (rule applyDifference_spec [OF assms(1,2)])
  obtain r2 c2 where r2: "applyDifference r1 e = Inr (r2, c2)" "absV r2 = absApply (absV r1) (absV e)"
    by (rule applyDifference_spec [OF r1(2) assms(3)])
  have nn: "v \<noteq> VNil" using assms(1) by (auto simp: colVal_def)
  have law: "absV r = absV r2"
    using nn r(2) m(3) r1(3) r2(2) absApply_laws(2) [OF assms] by simp
  moreover have "c \<longleftrightarrow> absV r2 \<noteq> absV v"
  proof -
    have atom: "m = e" if a: "absV m = AbsAtom x" for x
      by (rule absMerge_atom [OF assms m(2) _ a]) (use m(3) nn in simp)
    have "c = (case absV m of AbsSet D \<Rightarrow> D \<noteq> {} | AbsMap D \<Rightarrow> D \<noteq> Map.empty | AbsAtom _ \<Rightarrow> v \<noteq> m)"
      unfolding m(4) using nn atom by (cases "absV m") simp_all
    then show ?thesis using absApply_flag [OF assms(1) m(2)] r(2) law by simp
  qed
  ultimately show ?thesis using m(1) r(1) r1(1) r2(1) by auto
qed

theorem mergeDifference_sequential_witness:
  "\<exists>m c r r1 r2. mergeDifference (VMap GString GString (Some [(AStr ''k'', AStr ''a'')]))
        (VMap GString GString (Some [(AStr ''k'', AStr ''b'')])) (VMap GString GString (Some [(AStr ''k'', AStr ''b'')])) = Inr (m, c)
     \<and> applyDifference (VMap GString GString (Some [(AStr ''k'', AStr ''a'')])) m = Inr r
     \<and> applyDifference (VMap GString GString (Some [(AStr ''k'', AStr ''a'')])) (VMap GString GString (Some [(AStr ''k'', AStr ''b'')])) = Inr r1
     \<and> applyDifference (fst r1) (VMap GString GString (Some [(AStr ''k'', AStr ''b'')])) = Inr r2
     \<and> absV (fst r) = absV (fst r2)"
proof -
  have "colVal (RMap GString GString) (VMap GString GString (Some [(AStr ''k'', AStr s)]))" for s
    by (simp add: colVal_def distinctVal_def)
  from mergeDifference_sequential [OF this [of "''a''"] this [of "''b''"] this [of "''b''"]]
  show ?thesis by fast
qed

text \<open>
  Any number of modifications of one column: merging them one after the other into the
  first and applying the result once equals applying all of them in order.
\<close>

theorem mergeV_many:
  assumes "colVal t v" and "colVal t d" and "list_all (colVal t) ds"
  shows "absV (applyV v (foldl (mergeV v) d ds)) = absV (foldl applyV v (d # ds))"
  by (rule column.apply_mergeAll [OF assms])

theorem mergeV_many_witness:
  "absV (applyV (VSlice GInt None) (foldl (mergeV (VSlice GInt None)) (VSlice GInt (Some [AInt 1])) [VSlice GInt (Some [AInt 2]), VSlice GInt (Some [AInt 1])]))
   = absV (foldl applyV (VSlice GInt None) [VSlice GInt (Some [AInt 1]), VSlice GInt (Some [AInt 2]), VSlice GInt (Some [AInt 1])])"
  by (rule mergeV_many [of "RSlice GInt"]) (simp_all add: colVal_def distinctVal_def)

end
