(* ===== verification/Mutate.thy ===== *)
theory Mutate
  imports Bindings Difference "HOL-Library.Signed_Division"
begin

text \<open>
  Mutations of native values (\<open>updates/mutate.go\<close>). \<open>mutate\<close> returns the new value, the
  delta, and whether the two are the same Go object: a map handed back by \<open>mutateInsert\<close>
  as value and as delta is shared between the model and the pending differences, and
  the theory of updates has to know. Integers are 64-bit words: addition wraps around and division
  truncates towards zero. A failed type assertion, a division by zero and an
  assignment between different reflected types are \<open>Panic\<close>. The lemmas show that the delta of
  every validated mutation describes exactly the change of the value.
\<close>

section \<open>Slices\<close>

definition removeFromSlice :: "atom list \<Rightarrow> atom \<Rightarrow> atom list \<times> bool" where
  "removeFromSlice a b = (if b \<in> set a then (remove1 b a, True) else (a, False))"

definition insertToSlice :: "gotype \<Rightarrow> atom list option \<Rightarrow> atom \<Rightarrow> (atom list option \<times> bool) result" where
  "insertToSlice g a b =
     (if b \<in> set (elems a) then Inr (a, False)
      else if atomType b \<noteq> g then Inl (Panic ''reflect: Append'')
      else Inr (Some (elems a @ [b]), True))"

text \<open>The loops over the elements of the value; the accumulator holds the slice and the difference.\<close>

definition insertOne :: "gotype \<Rightarrow> atom list option \<times> atom list \<Rightarrow> atom \<Rightarrow> (atom list option \<times> atom list) result" where
  "insertOne g = (\<lambda>(v, d) b. bindR (insertToSlice g v b) (\<lambda>(v', ok). Inr (v', if ok then d @ [b] else d)))"

definition removeOne :: "atom \<Rightarrow> atom list \<times> atom list \<Rightarrow> atom list \<times> atom list" where
  "removeOne b = (\<lambda>(v, d). case removeFromSlice v b of (v', ok) \<Rightarrow> (v', if ok then d @ [b] else d))"

definition insertAll :: "gotype \<Rightarrow> atom list option \<Rightarrow> atom list \<Rightarrow> (atom list option \<times> atom list) result" where
  "insertAll g a bs = foldR (insertOne g) (a, []) bs"

definition removeAll' :: "atom list \<Rightarrow> atom list \<Rightarrow> atom list \<times> atom list" where
  "removeAll' a bs = fold removeOne bs (a, [])"

text \<open>An in-place deletion leaves a nil container nil.\<close>

definition keepNil :: "'a list option \<Rightarrow> 'a list \<Rightarrow> 'a list option" where
  "keepNil a v = (case a of None \<Rightarrow> None | Some _ \<Rightarrow> Some v)"

section \<open>Maps\<close>

text \<open>One iteration of each loop; the pair holds the current map and the difference.\<close>

definition insertEntry ::
  "atom \<times> atom \<Rightarrow> (atom, atom) gomap \<times> (atom, atom) gomap \<Rightarrow> (atom, atom) gomap \<times> (atom, atom) gomap" where
  "insertEntry = (\<lambda>(k, x) (m, d). if map_of m k = None then (AList.update k x m, AList.update k x d) else (m, d))"

definition deleteKey ::
  "atom \<Rightarrow> (atom, atom) gomap \<times> (atom, atom) gomap \<Rightarrow> (atom, atom) gomap \<times> (atom, atom) gomap" where
  "deleteKey = (\<lambda>k (m, d). case map_of m k of None \<Rightarrow> (m, d) | Some x \<Rightarrow> (AList.delete k m, AList.update k x d))"

definition deleteEntry ::
  "atom \<times> atom \<Rightarrow> (atom, atom) gomap \<times> (atom, atom) gomap \<Rightarrow> (atom, atom) gomap \<times> (atom, atom) gomap" where
  "deleteEntry = (\<lambda>(k, x) (m, d). if map_of m k = Some x then (AList.delete k m, AList.update k x d) else (m, d))"

definition insertEntries ::
  "(atom, atom) gomap \<Rightarrow> (atom, atom) gomap \<Rightarrow> (atom, atom) gomap \<times> (atom, atom) gomap" where
  "insertEntries vc vv = fold insertEntry vv (vc, [])"

definition deleteKeys ::
  "(atom, atom) gomap \<Rightarrow> atom list \<Rightarrow> (atom, atom) gomap \<times> (atom, atom) gomap" where
  "deleteKeys vc ks = fold deleteKey ks (vc, [])"

definition deleteEntries ::
  "(atom, atom) gomap \<Rightarrow> (atom, atom) gomap \<Rightarrow> (atom, atom) gomap \<times> (atom, atom) gomap" where
  "deleteEntries vc vv = fold deleteEntry vv (vc, [])"

text \<open>\<open>if diff.Len() > 0 { return current, diff.Interface() }; return current, nil\<close>.\<close>

definition mapDelta :: "gotype \<Rightarrow> gotype \<Rightarrow> (atom, atom) gomap \<Rightarrow> any" where
  "mapDelta k w d = (if d = [] then VNil else VMap k w (Some d))"

definition sliceDelta :: "gotype \<Rightarrow> atom list \<Rightarrow> any" where
  "sliceDelta g d = (if d = [] then VNil else VSlice g (Some d))"

section \<open>Insert and delete\<close>

definition mutateInsert :: "any \<Rightarrow> any \<Rightarrow> (any \<times> any \<times> bool) result" where
  "mutateInsert current v =
     (case current of
        VAtom (AInt _) \<Rightarrow> Inr (current, current, False)
      | VAtom (AReal _) \<Rightarrow> Inr (current, current, False)
      | VNil \<Rightarrow> Inr (v, v, True)
      | VSlice g a \<Rightarrow>
          (case v of
             VNil \<Rightarrow> Inl (Panic ''reflect: Type on zero Value'')
           | VAtom b \<Rightarrow>
               if atomType b \<noteq> g then Inr (current, VNil, False)
               else bindR (insertToSlice g a b) (\<lambda>(a', ok). Inr (VSlice g a', if ok then v else VNil, False))
           | VSlice h bs \<Rightarrow>
               bindR (insertAll g a (elems bs)) (\<lambda>(a', d). Inr (VSlice g a', sliceDelta h d, False))
           | _ \<Rightarrow> Inr (current, VNil, False))
      | VMap k w m \<Rightarrow>
          (case v of
             VMap k' w' n \<Rightarrow>
               if m = None \<and> elems n \<noteq> [] then Inr (v, v, True)
               else if elems n \<noteq> [] \<and> (k \<noteq> k' \<or> w \<noteq> w') then Inl (Panic ''reflect: SetMapIndex'')
               else (case insertEntries (elems m) (elems n) of
                       (m', d) \<Rightarrow> Inr (VMap k w (keepNil m m'), mapDelta k w d, False))
           | _ \<Rightarrow> Inr (current, VNil, False))
      | _ \<Rightarrow> Inr (current, VNil, False))"

definition mutateDelete :: "any \<Rightarrow> any \<Rightarrow> (any \<times> any \<times> bool) result" where
  "mutateDelete current v =
     (case current of
        VAtom (AInt _) \<Rightarrow> Inr (current, VNil, False)
      | VAtom (AReal _) \<Rightarrow> Inr (current, VNil, False)
      | VSlice g a \<Rightarrow>
          (case v of
             VNil \<Rightarrow> Inl (Panic ''reflect: Type on zero Value'')
           | VAtom b \<Rightarrow>
               if atomType b \<noteq> g then Inr (current, VNil, False)
               else (case removeFromSlice (elems a) b of
                       (a', ok) \<Rightarrow> Inr (VSlice g (keepNil a a'), if ok then v else VNil, False))
           | VSlice h bs \<Rightarrow>
               (case removeAll' (elems a) (elems bs) of
                  (a', d) \<Rightarrow> Inr (VSlice g (keepNil a a'), sliceDelta h d, False))
           | _ \<Rightarrow> Inr (current, VNil, False))
      | VMap k w m \<Rightarrow>
          (case v of
             VNil \<Rightarrow> Inl (Panic ''reflect: Type on zero Value'')
           | VSlice h ks \<Rightarrow>
               if h \<noteq> k then Inr (current, VNil, False)
               else (case deleteKeys (elems m) (elems ks) of
                       (m', d) \<Rightarrow> Inr (VMap k w (keepNil m m'), mapDelta k w d, False))
           | VMap k' w' n \<Rightarrow>
               if elems n \<noteq> [] \<and> k \<noteq> k' then Inl (Panic ''reflect: MapIndex'')
               else (case deleteEntries (elems m) (elems n) of
                       (m', d) \<Rightarrow> Inr (VMap k w (keepNil m m'), mapDelta k w d, False))
           | _ \<Rightarrow> Inr (current, VNil, False))
      | _ \<Rightarrow> Inr (current, VNil, False))"

section \<open>Arithmetic\<close>

definition intDiv :: "64 word \<Rightarrow> 64 word \<Rightarrow> 64 word result" where
  "intDiv i v = (if v = 0 then Inl (Panic ''integer divide by zero'') else Inr (word_of_int (sint i sdiv sint v)))"

definition intMod :: "64 word \<Rightarrow> 64 word \<Rightarrow> 64 word result" where
  "intMod i v = (if v = 0 then Inl (Panic ''integer divide by zero'') else Inr (word_of_int (sint i smod sint v)))"

text \<open>The element operation of a mutator, with the type assertion \<open>value.(int)\<close> or \<open>value.(float64)\<close>.\<close>

definition asInt :: "any \<Rightarrow> 64 word result" where
  "asInt v = (case v of VAtom (AInt i) \<Rightarrow> Inr i | _ \<Rightarrow> Inl (Panic ''interface conversion''))"

definition asFloat :: "any \<Rightarrow> f64 result" where
  "asFloat v = (case v of VAtom (AReal r) \<Rightarrow> Inr r | _ \<Rightarrow> Inl (Panic ''interface conversion''))"

definition onInt :: "(64 word \<Rightarrow> 64 word result) \<Rightarrow> atom \<Rightarrow> atom result" where
  "onInt f a = (case a of AInt i \<Rightarrow> bindR (f i) (\<lambda>x. Inr (AInt x)) | _ \<Rightarrow> Inr a)"

definition onFloat :: "(f64 \<Rightarrow> f64) \<Rightarrow> atom \<Rightarrow> atom result" where
  "onFloat f a = (case a of AReal r \<Rightarrow> Inr (AReal (f r)) | _ \<Rightarrow> Inr a)"

text \<open>The shape the arithmetic mutators share: an \<open>int\<close>, a \<open>float64\<close>, a slice of either, or unchanged.\<close>

definition mutateNum ::
  "(64 word \<Rightarrow> 64 word \<Rightarrow> 64 word result) \<Rightarrow> (f64 \<Rightarrow> f64 \<Rightarrow> f64) option \<Rightarrow> any \<Rightarrow> any \<Rightarrow> any result" where
  "mutateNum f g current v =
     (case current of
        VAtom (AInt i) \<Rightarrow> bindR (asInt v) (\<lambda>x. bindR (f i x) (\<lambda>r. Inr (VAtom (AInt r))))
      | VAtom (AReal i) \<Rightarrow>
          (case g of None \<Rightarrow> Inr current
           | Some h \<Rightarrow> bindR (asFloat v) (\<lambda>x. Inr (VAtom (AReal (h i x)))))
      | VSlice GInt xs \<Rightarrow>
          bindR (asInt v) (\<lambda>x. bindR (mapR (onInt (\<lambda>j. f j x)) (elems xs)) (\<lambda>ys. Inr (VSlice GInt (keepNil xs ys))))
      | VSlice GFloat64 xs \<Rightarrow>
          (case g of None \<Rightarrow> Inr current
           | Some h \<Rightarrow> bindR (asFloat v) (\<lambda>x. bindR (mapR (onFloat (\<lambda>j. h j x)) (elems xs)) (\<lambda>ys. Inr (VSlice GFloat64 (keepNil xs ys)))))
      | _ \<Rightarrow> Inr current)"

definition mutateAdd :: "any \<Rightarrow> any \<Rightarrow> any result" where
  "mutateAdd = mutateNum (\<lambda>i v. Inr (i + v)) (Some f64_add)"

definition mutateSubtract :: "any \<Rightarrow> any \<Rightarrow> any result" where
  "mutateSubtract = mutateNum (\<lambda>i v. Inr (i - v)) (Some f64_sub)"

definition mutateMultiply :: "any \<Rightarrow> any \<Rightarrow> any result" where
  "mutateMultiply = mutateNum (\<lambda>i v. Inr (i * v)) (Some f64_mul)"

definition mutateDivide :: "any \<Rightarrow> any \<Rightarrow> any result" where
  "mutateDivide = mutateNum intDiv (Some f64_div)"

definition mutateModulo :: "any \<Rightarrow> any \<Rightarrow> any result" where
  "mutateModulo = mutateNum intMod None"

text \<open>For an arithmetic mutator the delta is the new value: \<open>return newValue, newValue\<close>.\<close>

definition bothValues :: "any result \<Rightarrow> (any \<times> any \<times> bool) result" where
  "bothValues r = bindR r (\<lambda>x. Inr (x, x, True))"

definition mutate :: "any \<Rightarrow> Mutator \<Rightarrow> any \<Rightarrow> (any \<times> any \<times> bool) result" where
  "mutate current mutator v =
     (if typeOf current \<in> {Some (RAtom GBool), Some (RAtom GString)} then Inr (current, v, False)
      else case mutator of
        MutateOperationInsert \<Rightarrow> mutateInsert current v
      | MutateOperationDelete \<Rightarrow> mutateDelete current v
      | MutateOperationAdd \<Rightarrow> bothValues (mutateAdd current v)
      | MutateOperationSubtract \<Rightarrow> bothValues (mutateSubtract current v)
      | MutateOperationMultiply \<Rightarrow> bothValues (mutateMultiply current v)
      | MutateOperationDivide \<Rightarrow> bothValues (mutateDivide current v)
      | MutateOperationModulo \<Rightarrow> bothValues (mutateModulo current v)
      | MutatorOther _ \<Rightarrow> Inr (current, v, False))"

section \<open>What the loops compute\<close>

lemma keepNil_simps [simp]: "keepNil None v = None" "keepNil (Some x) v = Some v"
  by (simp_all add: keepNil_def)

lemma elems_keepNil: "(a = None \<Longrightarrow> v = []) \<Longrightarrow> elems (keepNil a v) = v"
  by (cases a) auto

lemma insertAll_acc:
  assumes "list_all (\<lambda>b. atomType b = g) bs" "distinct (elems v)" "distinct d" "set d \<subseteq> set (elems v)"
  shows "\<exists>v' d'. foldR (insertOne g) (v, d) bs = Inr (v', d')
     \<and> distinct (elems v') \<and> distinct d' \<and> set (elems v') = set (elems v) \<union> set bs
     \<and> set d' = set d \<union> (set bs - set (elems v))"
  using assms
proof (induction bs arbitrary: v d)
  case (Cons b bs)
  show ?case
  proof (cases "b \<in> set (elems v)")
    case True
    then show ?thesis using Cons.IH [of v d] Cons.prems by (auto simp: insertOne_def insertToSlice_def)
  next
    case False
    then have "b \<notin> set d" using Cons.prems by auto
    moreover have "set (d @ [b]) \<union> (set bs - set (elems v @ [b])) = set d \<union> (set (b # bs) - set (elems v))"
      using False by auto
    ultimately show ?thesis
      using False Cons.IH [of "Some (elems v @ [b])" "d @ [b]"] Cons.prems by (auto simp: insertOne_def insertToSlice_def)
  qed
qed auto

lemma insertAll_spec:
  assumes "list_all (\<lambda>b. atomType b = g) bs" "distinct (elems a)"
  obtains v d where "insertAll g a bs = Inr (v, d)" "distinct (elems v)" "distinct d"
    "set (elems v) = set (elems a) \<union> set bs" "set d = set bs - set (elems a)"
  using insertAll_acc [OF assms, of "[]"] unfolding insertAll_def by auto

lemma removeAll_acc:
  assumes "distinct v" "distinct d" "set d \<inter> set v = {}"
  shows "\<exists>v' d'. fold removeOne bs (v, d) = (v', d')
     \<and> distinct v' \<and> distinct d' \<and> set v' = set v - set bs \<and> set d' = set d \<union> (set bs \<inter> set v)"
  using assms
proof (induction bs arbitrary: v d)
  case (Cons b bs)
  show ?case
  proof (cases "b \<in> set v")
    case False
    then show ?thesis using Cons.IH [OF Cons.prems] by (auto simp: removeOne_def removeFromSlice_def)
  next
    case True
    moreover have "set (d @ [b]) \<inter> set (remove1 b v) = {}" "distinct (d @ [b])"
      using True Cons.prems by auto
    ultimately show ?thesis
      using Cons.IH [of "remove1 b v" "d @ [b]"] Cons.prems by (auto simp: removeOne_def removeFromSlice_def)
  qed
qed auto

lemma removeAll_spec:
  assumes "distinct a"
  obtains v d where "removeAll' a bs = (v, d)" "distinct v" "distinct d"
    "set v = set a - set bs" "set d = set bs \<inter> set a"
  using removeAll_acc [OF assms, of "[]" bs] unfolding removeAll'_def by auto

lemma gm_ok_loops:
  assumes "gm_ok m" "gm_ok d"
  shows "gm_ok (fst (fold insertEntry vv (m, d))) \<and> gm_ok (snd (fold insertEntry vv (m, d)))"
    and "gm_ok (fst (fold deleteKey ks (m, d))) \<and> gm_ok (snd (fold deleteKey ks (m, d)))"
    and "gm_ok (fst (fold deleteEntry vv (m, d))) \<and> gm_ok (snd (fold deleteEntry vv (m, d)))"
proof -
  show "gm_ok (fst (fold insertEntry vv (m, d))) \<and> gm_ok (snd (fold insertEntry vv (m, d)))"
    using assms by (induction vv arbitrary: m d) (auto simp: insertEntry_def split: prod.split)
  show "gm_ok (fst (fold deleteKey ks (m, d))) \<and> gm_ok (snd (fold deleteKey ks (m, d)))"
    using assms by (induction ks arbitrary: m d) (auto simp: deleteKey_def split: option.split)
  show "gm_ok (fst (fold deleteEntry vv (m, d))) \<and> gm_ok (snd (fold deleteEntry vv (m, d)))"
    using assms by (induction vv arbitrary: m d) (auto simp: deleteEntry_def split: prod.split)
qed

lemma insertEntry_fold:
  assumes "gm_ok vv"
  shows "map_of (fst (fold insertEntry vv (m, d))) j = (if map_of m j = None then map_of vv j else map_of m j)
     \<and> map_of (snd (fold insertEntry vv (m, d))) j = (if map_of m j = None \<and> map_of vv j \<noteq> None then map_of vv j else map_of d j)"
  using assms
proof (induction vv arbitrary: m d)
  case (Cons p vv)
  obtain k x where p: "p = (k, x)" by fastforce
  have k: "map_of vv k = None" using Cons.prems(1) p by (simp add: map_of_eq_None_iff)
  have step: "fold insertEntry (p # vv) (m, d)
    = fold insertEntry vv (if map_of m k = None then (AList.update k x m, AList.update k x d) else (m, d))"
    by (simp add: p insertEntry_def)
  show ?case
    unfolding step using Cons k p by (cases "map_of m k"; cases "j = k") simp_all
qed simp

lemma deleteKey_fold:
  "map_of (fst (fold deleteKey ks (m, d))) j = (if j \<in> set ks then None else map_of m j)
     \<and> map_of (snd (fold deleteKey ks (m, d))) j = (if j \<in> set ks \<and> map_of m j \<noteq> None then map_of m j else map_of d j)"
proof (induction ks arbitrary: m d)
  case (Cons k ks)
  have step: "fold deleteKey (k # ks) (m, d)
    = fold deleteKey ks (case map_of m k of None \<Rightarrow> (m, d) | Some x \<Rightarrow> (AList.delete k m, AList.update k x d))"
    by (simp add: deleteKey_def)
  show ?case
    unfolding step using Cons by (cases "map_of m k"; cases "j = k") auto
qed simp

lemma deleteEntry_fold:
  assumes "gm_ok vv"
  shows "map_of (fst (fold deleteEntry vv (m, d))) j = (if map_of vv j = map_of m j then None else map_of m j)
     \<and> map_of (snd (fold deleteEntry vv (m, d))) j = (if map_of vv j = map_of m j \<and> map_of m j \<noteq> None then map_of m j else map_of d j)"
  using assms
proof (induction vv arbitrary: m d)
  case (Cons p vv)
  obtain k x where p: "p = (k, x)" by fastforce
  have k: "map_of vv k = None" using Cons.prems(1) p by (simp add: map_of_eq_None_iff)
  have step: "fold deleteEntry (p # vv) (m, d)
    = fold deleteEntry vv (if map_of m k = Some x then (AList.delete k m, AList.update k x d) else (m, d))"
    by (simp add: p deleteEntry_def)
  show ?case
    unfolding step using Cons k p by (cases "map_of m k"; cases "j = k") simp_all
qed simp

lemma insertEntries_spec:
  assumes "gm_ok vv" "gm_ok vc"
  obtains m d where "insertEntries vc vv = (m, d)" "gm_ok m" "gm_ok d"
    "\<And>k. map_of m k = (if map_of vc k = None then map_of vv k else map_of vc k)"
    "\<And>k. map_of d k = (if map_of vc k = None then map_of vv k else None)"
proof (rule that [of "fst (insertEntries vc vv)" "snd (insertEntries vc vv)"])
  fix k
  show "map_of (snd (insertEntries vc vv)) k = (if map_of vc k = None then map_of vv k else None)"
    using insertEntry_fold [OF assms(1), of vc "[]" k] by (auto simp: insertEntries_def)
qed (use assms in \<open>simp_all add: insertEntries_def gm_ok_loops insertEntry_fold\<close>)

lemma deleteKeys_spec:
  assumes "gm_ok vc"
  obtains m d where "deleteKeys vc ks = (m, d)" "gm_ok m" "gm_ok d"
    "\<And>k. map_of m k = (if k \<in> set ks then None else map_of vc k)"
    "\<And>k. map_of d k = (if k \<in> set ks then map_of vc k else None)"
proof (rule that [of "fst (deleteKeys vc ks)" "snd (deleteKeys vc ks)"])
  fix k
  show "map_of (snd (deleteKeys vc ks)) k = (if k \<in> set ks then map_of vc k else None)"
    using deleteKey_fold [of ks vc "[]" k] by (auto simp: deleteKeys_def)
qed (use assms in \<open>simp_all add: deleteKeys_def gm_ok_loops deleteKey_fold\<close>)

lemma deleteEntries_spec:
  assumes "gm_ok vv" "gm_ok vc"
  obtains m d where "deleteEntries vc vv = (m, d)" "gm_ok m" "gm_ok d"
    "\<And>k. map_of m k = (if map_of vv k = map_of vc k then None else map_of vc k)"
    "\<And>k. map_of d k = (if map_of vv k = map_of vc k then map_of vc k else None)"
proof (rule that [of "fst (deleteEntries vc vv)" "snd (deleteEntries vc vv)"])
  fix k
  show "map_of (snd (deleteEntries vc vv)) k = (if map_of vv k = map_of vc k then map_of vc k else None)"
    using deleteEntry_fold [OF assms(1), of vc "[]" k] by (auto simp: deleteEntries_def)
qed (use assms in \<open>simp_all add: deleteEntries_def gm_ok_loops deleteEntry_fold\<close>)

section \<open>The delta of a mutation\<close>

text \<open>
  What insert and delete mean on the abstract values: union and difference of sets; a key already in a
  map keeps its value on insert; delete takes a set of keys or the entries to remove.
\<close>

fun absInsert :: "absval \<Rightarrow> absval \<Rightarrow> absval" where
  "absInsert (AbsSet a) (AbsSet b) = AbsSet (a \<union> b)"
| "absInsert (AbsMap a) (AbsMap b) = AbsMap (b ++ a)"
| "absInsert a _ = a"

fun absDelete :: "absval \<Rightarrow> absval \<Rightarrow> absval" where
  "absDelete (AbsSet a) (AbsSet b) = AbsSet (a - b)"
| "absDelete (AbsMap a) (AbsSet ks) = AbsMap (a |` (- ks))"
| "absDelete (AbsMap a) (AbsMap b) = AbsMap (\<lambda>k. if b k = a k then None else a k)"
| "absDelete a _ = a"

lemma typed_of_map:
  assumes "gm_ok r" "\<And>k y. map_of r k = Some y \<Longrightarrow> map_of a k = Some y \<or> map_of b k = Some y"
    and "list_all (\<lambda>(x, y). P x y) a" "list_all (\<lambda>(x, y). P x y) b"
  shows "list_all (\<lambda>(x, y). P x y) r"
proof -
  have "P x y" if "(x, y) \<in> set r" for x y
  proof -
    have "map_of r x = Some y" using that assms(1) by simp
    then have "(x, y) \<in> set a \<or> (x, y) \<in> set b" using assms(2) by (blast dest: map_of_SomeD)
    then show ?thesis using assms(3,4) by (auto simp: list_all_iff)
  qed
  then show ?thesis by (auto simp: list_all_iff)
qed

lemma applyDifference_delta:
  assumes "colVal t v" "d = VNil \<and> absV n = absV v \<or> colVal t d \<and> absV n = absApply (absV v) (absV d)"
  shows "\<exists>r ch. applyDifference v d = Inr (r, ch) \<and> absV r = absV n"
proof (cases "d = VNil")
  case True
  then have "absV n = absV v" using assms(2) by (auto simp: colVal_def)
  then show ?thesis using True by (auto simp: applyDifference_def)
next
  case False
  then have d: "colVal t d" "absV n = absApply (absV v) (absV d)" using assms(2) by auto
  show ?thesis by (rule applyDifference_spec [OF assms(1) d(1)]) (use d(2) in auto)
qed

text \<open>The delta a map loop returns: \<open>nil\<close> when nothing changed.\<close>

lemma mapDelta_delta:
  assumes "gm_ok d" "\<And>k. map_of n k = mergeEntry None (map_of m k) (map_of d k)"
    and "list_all (\<lambda>(x, y). atomType x = k \<and> atomType y = w) d"
  shows "mapDelta k w d = VNil \<and> AbsMap (map_of n) = AbsMap (map_of m)
    \<or> colVal (RMap k w) (mapDelta k w d) \<and> AbsMap (map_of n) = absApply (AbsMap (map_of m)) (absV (mapDelta k w d))"
proof (cases "d = []")
  case True
  have "mergeEntry None x None = x" for x :: "atom option" by (cases x) auto
  then show ?thesis using True assms(2) by (auto simp: mapDelta_def fun_eq_iff)
next
  case False
  then show ?thesis
    using assms by (simp add: mapDelta_def colVal_def distinctVal_def absV_def fun_eq_iff)
qed

lemma sliceDelta_delta:
  assumes "distinct d" "set n = (set a - set d) \<union> (set d - set a)" "list_all (\<lambda>b. atomType b = g) d"
  shows "sliceDelta g d = VNil \<and> AbsSet (set n) = AbsSet (set a)
    \<or> colVal (RSlice g) (sliceDelta g d) \<and> AbsSet (set n) = absApply (AbsSet (set a)) (absV (sliceDelta g d))"
  using assms by (auto simp: sliceDelta_def colVal_def distinctVal_def absV_def)

lemma mutateInsert_spec:
  assumes "colVal t v" "colVal t x" "(\<exists>g. t = RSlice g) \<or> (\<exists>k w. t = RMap k w)"
  obtains n d sh where "mutateInsert v x = Inr (n, d, sh)" "colVal t n" "absV n = absInsert (absV v) (absV x)"
    "d = VNil \<and> absV n = absV v \<or> colVal t d \<and> absV n = absApply (absV v) (absV d)"
  using assms(1)
proof (cases rule: colVal_cases)
  case (Slice g a)
  from assms(2) Slice obtain b where b: "x = VSlice g b" "distinct (elems b)" "list_all (\<lambda>z. atomType z = g) (elems b)"
    by (cases rule: colVal_cases) (auto simp: colVal_def)
  obtain r d where r: "insertAll g a (elems b) = Inr (r, d)" "distinct (elems r)" "distinct d"
      "set (elems r) = set (elems a) \<union> set (elems b)" "set d = set (elems b) - set (elems a)"
    by (rule insertAll_spec [OF b(3) Slice(3)])
  have "list_all (\<lambda>z. atomType z = g) d" using r(5) b(3) by (auto simp: list_all_iff)
  from sliceDelta_delta [OF r(3) _ this, of "elems r" "elems a"] r(4,5)
  have "sliceDelta g d = VNil \<and> AbsSet (set (elems r)) = AbsSet (set (elems a))
    \<or> colVal (RSlice g) (sliceDelta g d) \<and> AbsSet (set (elems r)) = absApply (AbsSet (set (elems a))) (absV (sliceDelta g d))"
    by auto
  then show ?thesis
    using Slice b r by (intro that [of "VSlice g r" "sliceDelta g d" False])
      (auto simp: mutateInsert_def colVal_def distinctVal_def absV_def list_all_iff)
next
  case (Map k w m)
  from assms(2) Map obtain y where y: "x = VMap k w y" "gm_ok (elems y)"
      "list_all (\<lambda>(p, q). atomType p = k \<and> atomType q = w) (elems y)"
    by (cases rule: colVal_cases) (auto simp: colVal_def)
  show ?thesis
  proof (cases "m = None \<and> elems y \<noteq> []")
    case True
    have "mergeEntry None None z = z" for z :: "atom option" by (cases z) auto
    then show ?thesis
      using True Map y assms(2) by (intro that [of x x True]) (simp_all add: mutateInsert_def absV_def)
  next
    case False
    obtain n d where n: "insertEntries (elems m) (elems y) = (n, d)" "gm_ok n" "gm_ok d"
        "\<And>j. map_of n j = (if map_of (elems m) j = None then map_of (elems y) j else map_of (elems m) j)"
        "\<And>j. map_of d j = (if map_of (elems m) j = None then map_of (elems y) j else None)"
      by (rule insertEntries_spec [OF y(2) Map(3)]) blast
    have el: "elems (keepNil m n) = n"
      using False n(1) by (intro elems_keepNil) (simp add: insertEntries_def)
    have typed: "list_all (\<lambda>(p, q). atomType p = k \<and> atomType q = w) n" "list_all (\<lambda>(p, q). atomType p = k \<and> atomType q = w) d"
      using typed_of_map [OF n(2) _ Map(4) y(3)] typed_of_map [OF n(3) _ Map(4) y(3)] n(4,5) by (metis option.distinct(1))+
    have "map_of n j = mergeEntry None (map_of (elems m) j) (map_of d j)" for j
      unfolding n(4,5) by (cases "map_of (elems m) j"; cases "map_of (elems y) j") auto
    note dl = mapDelta_delta [OF n(3) this typed(2)]
    show ?thesis
    proof (rule that [of "VMap k w (keepNil m n)" "mapDelta k w d" False])
      show "mutateInsert v x = Inr (VMap k w (keepNil m n), mapDelta k w d, False)"
        using False Map(2) y(1) n(1) by (auto simp: mutateInsert_def)
      show "colVal t (VMap k w (keepNil m n))"
        using Map(1) n(2) typed(1) el by (simp add: colVal_def distinctVal_def)
      show "absV (VMap k w (keepNil m n)) = absInsert (absV v) (absV x)"
        using Map(2) y(1) el n(4) by (auto simp: absV_def fun_eq_iff map_add_def split: option.splits)
      show "mapDelta k w d = VNil \<and> absV (VMap k w (keepNil m n)) = absV v
        \<or> colVal t (mapDelta k w d) \<and> absV (VMap k w (keepNil m n)) = absApply (absV v) (absV (mapDelta k w d))"
        using dl Map(1,2) el by (simp add: absV_def)
    qed
  qed
next
  case Atomic
  then show ?thesis using assms(3) by auto
qed

lemma mutateDelete_map:
  assumes v: "v = VMap k w m" "t = RMap k w" "gm_ok (elems m)" "list_all (\<lambda>(p, q). atomType p = k \<and> atomType q = w) (elems m)"
    and n: "gm_ok n" "gm_ok d" "\<And>j. map_of n j = (if P j then None else map_of (elems m) j)"
      "\<And>j. map_of d j = (if P j then map_of (elems m) j else None)" "m = None \<Longrightarrow> n = []"
  shows "colVal t (VMap k w (keepNil m n)) \<and> absV (VMap k w (keepNil m n)) = AbsMap (\<lambda>j. if P j then None else map_of (elems m) j)
    \<and> (mapDelta k w d = VNil \<and> absV (VMap k w (keepNil m n)) = absV v
      \<or> colVal t (mapDelta k w d) \<and> absV (VMap k w (keepNil m n)) = absApply (absV v) (absV (mapDelta k w d)))"
proof -
  have el: "elems (keepNil m n) = n" using n(5) by (rule elems_keepNil)
  have typed: "list_all (\<lambda>(p, q). atomType p = k \<and> atomType q = w) n" "list_all (\<lambda>(p, q). atomType p = k \<and> atomType q = w) d"
    using typed_of_map [OF n(1) _ v(4) v(4)] typed_of_map [OF n(2) _ v(4) v(4)] n(3,4) by (metis option.distinct(1))+
  have "map_of n j = mergeEntry None (map_of (elems m) j) (map_of d j)" for j
    unfolding n(3,4) by (cases "map_of (elems m) j") auto
  note dl = mapDelta_delta [OF n(2) this typed(2)]
  have "absV (VMap k w (keepNil m n)) = AbsMap (\<lambda>j. if P j then None else map_of (elems m) j)"
    using el n(3) by (simp add: absV_def fun_eq_iff)
  moreover have "colVal t (VMap k w (keepNil m n))"
    using v(2) n(1) typed(1) el by (simp add: colVal_def distinctVal_def)
  ultimately show ?thesis using dl v(1,2) el by (simp add: absV_def)
qed

lemma mutateDelete_spec:
  assumes "colVal t v" "colVal t x \<and> ((\<exists>g. t = RSlice g) \<or> (\<exists>k w. t = RMap k w)) \<or> (\<exists>k w. t = RMap k w \<and> colVal (RSlice k) x)"
  obtains n d sh where "mutateDelete v x = Inr (n, d, sh)" "colVal t n" "absV n = absDelete (absV v) (absV x)"
    "d = VNil \<and> absV n = absV v \<or> colVal t d \<and> absV n = absApply (absV v) (absV d)"
  using assms(1)
proof (cases rule: colVal_cases)
  case (Slice g a)
  with assms(2) have "colVal (RSlice g) x" by auto
  then obtain b where b: "x = VSlice g b" "list_all (\<lambda>z. atomType z = g) (elems b)"
    by (cases rule: colVal_cases) auto
  obtain r d where r: "removeAll' (elems a) (elems b) = (r, d)" "distinct r" "distinct d"
      "set r = set (elems a) - set (elems b)" "set d = set (elems b) \<inter> set (elems a)"
    by (rule removeAll_spec [OF Slice(3)])
  have el: "elems (keepNil a r) = r" using r(4) by (intro elems_keepNil) auto
  have "list_all (\<lambda>z. atomType z = g) d" using r(5) b(2) by (auto simp: list_all_iff)
  moreover have "set r = (set (elems a) - set d) \<union> (set d - set (elems a))" using r(4,5) by auto
  ultimately have "sliceDelta g d = VNil \<and> AbsSet (set r) = AbsSet (set (elems a))
    \<or> colVal (RSlice g) (sliceDelta g d) \<and> AbsSet (set r) = absApply (AbsSet (set (elems a))) (absV (sliceDelta g d))"
    using r(3) by (intro sliceDelta_delta)
  then show ?thesis
    using Slice b r el by (intro that [of "VSlice g (keepNil a r)" "sliceDelta g d" False])
      (auto simp: mutateDelete_def colVal_def distinctVal_def absV_def list_all_iff)
next
  case (Map k w m)
  consider (keys) "colVal (RSlice k) x" | (entries) "colVal (RMap k w) x" using assms(2) Map(1) by auto
  then show ?thesis
  proof cases
    case keys
    then obtain ks where ks: "x = VSlice k ks" by (cases rule: colVal_cases) auto
    obtain n d where n: "deleteKeys (elems m) (elems ks) = (n, d)" "gm_ok n" "gm_ok d"
        "\<And>j. map_of n j = (if j \<in> set (elems ks) then None else map_of (elems m) j)"
        "\<And>j. map_of d j = (if j \<in> set (elems ks) then map_of (elems m) j else None)"
      by (rule deleteKeys_spec [OF Map(3)]) blast
    have "m = None \<Longrightarrow> n = []" using n(4) by (simp flip: map_of_empty_iff add: fun_eq_iff)
    note r = mutateDelete_map [OF Map(2,1,3,4) n(2-5) this, simplified]
    have "(\<lambda>j. if j \<in> K then None else f j) = f |` (- K)" for K and f :: "atom \<Rightarrow> atom option"
      by (auto simp: restrict_map_def)
    then have "absDelete (absV v) (absV x) = AbsMap (\<lambda>j. if j \<in> set (elems ks) then None else map_of (elems m) j)"
      using Map(2) ks by (simp add: absV_def)
    moreover have "mutateDelete v x = Inr (VMap k w (keepNil m n), mapDelta k w d, False)"
      using Map(2) ks n(1) by (simp add: mutateDelete_def)
    moreover note conjunct1 [OF r] conjunct1 [OF conjunct2 [OF r]] conjunct2 [OF conjunct2 [OF r]]
    ultimately show ?thesis
      by (intro that [of "VMap k w (keepNil m n)" "mapDelta k w d" False]) (assumption | simp only:)+
  next
    case entries
    then obtain y where y: "x = VMap k w y" "gm_ok (elems y)" by (cases rule: colVal_cases) auto
    obtain n d where n: "deleteEntries (elems m) (elems y) = (n, d)" "gm_ok n" "gm_ok d"
        "\<And>j. map_of n j = (if map_of (elems y) j = map_of (elems m) j then None else map_of (elems m) j)"
        "\<And>j. map_of d j = (if map_of (elems y) j = map_of (elems m) j then map_of (elems m) j else None)"
      by (rule deleteEntries_spec [OF y(2) Map(3)]) blast
    have "m = None \<Longrightarrow> n = []" using n(4) by (simp flip: map_of_empty_iff add: fun_eq_iff)
    note r = mutateDelete_map [OF Map(2,1,3,4) n(2-5) this, simplified]
    have "absDelete (absV v) (absV x)
      = AbsMap (\<lambda>j. if map_of (elems y) j = map_of (elems m) j then None else map_of (elems m) j)"
      using Map(2) y(1) by (simp add: absV_def)
    moreover have "mutateDelete v x = Inr (VMap k w (keepNil m n), mapDelta k w d, False)"
      using Map(2) y(1) n(1) by (simp add: mutateDelete_def)
    moreover note conjunct1 [OF r] conjunct1 [OF conjunct2 [OF r]] conjunct2 [OF conjunct2 [OF r]]
    ultimately show ?thesis
      by (intro that [of "VMap k w (keepNil m n)" "mapDelta k w d" False]) (assumption | simp only:)+
  qed
next
  case Atomic
  then show ?thesis using assms(2) by auto
qed

section \<open>Properties\<close>

text \<open>
  Claim C37. Insert mutations: on a set or a map column, inserting a value of the column's type never fails,
  gives the union of the sets (for a map, the missing keys are added and the existing ones keep
  their value), and the returned delta, applied to the old value as a difference, gives the new value.
\<close>

theorem mutate_insert_delta:
  assumes "colVal t v" and "colVal t x" and "(\<exists>g. t = RSlice g) \<or> (\<exists>k w. t = RMap k w)"
  shows "\<exists>n d sh r ch. mutate v MutateOperationInsert x = Inr (n, d, sh) \<and> colVal t n
    \<and> absV n = absInsert (absV v) (absV x) \<and> applyDifference v d = Inr (r, ch) \<and> absV r = absV n"
proof -
  obtain n d sh where n: "mutateInsert v x = Inr (n, d, sh)" "colVal t n" "absV n = absInsert (absV v) (absV x)"
      "d = VNil \<and> absV n = absV v \<or> colVal t d \<and> absV n = absApply (absV v) (absV d)"
    by (rule mutateInsert_spec [OF assms])
  have "mutate v MutateOperationInsert x = mutateInsert v x"
    using assms(1,3) by (auto simp: mutate_def colVal_def)
  then show ?thesis using n applyDifference_delta [OF assms(1) n(4)] by auto
qed

theorem mutate_insert_delta_witness:
  "\<exists>n d sh r ch. mutate (VSlice GInt (Some [AInt 1])) MutateOperationInsert (VSlice GInt (Some [AInt 1, AInt 2])) = Inr (n, d, sh)
    \<and> colVal (RSlice GInt) n
    \<and> absV n = absInsert (absV (VSlice GInt (Some [AInt 1]))) (absV (VSlice GInt (Some [AInt 1, AInt 2])))
    \<and> applyDifference (VSlice GInt (Some [AInt 1])) d = Inr (r, ch) \<and> absV r = absV n"
  by (rule mutate_insert_delta) (simp_all add: colVal_def distinctVal_def)

text \<open>
  Delete mutations: on a set column, or on a map column with a map or a list of keys, deleting never
  fails, gives the difference of the sets (for a map, the map without the given keys, or without the entries
  that are equal), and the returned delta, applied to the old value, gives the new value.
\<close>

theorem mutate_delete_delta:
  assumes "colVal t v"
    and "colVal t x \<and> ((\<exists>g. t = RSlice g) \<or> (\<exists>k w. t = RMap k w)) \<or> (\<exists>k w. t = RMap k w \<and> colVal (RSlice k) x)"
  shows "\<exists>n d sh r ch. mutate v MutateOperationDelete x = Inr (n, d, sh) \<and> colVal t n
    \<and> absV n = absDelete (absV v) (absV x) \<and> applyDifference v d = Inr (r, ch) \<and> absV r = absV n"
proof -
  obtain n d sh where n: "mutateDelete v x = Inr (n, d, sh)" "colVal t n" "absV n = absDelete (absV v) (absV x)"
      "d = VNil \<and> absV n = absV v \<or> colVal t d \<and> absV n = absApply (absV v) (absV d)"
    by (rule mutateDelete_spec [OF assms])
  have "mutate v MutateOperationDelete x = mutateDelete v x"
    using assms by (auto simp: mutate_def colVal_def)
  then show ?thesis using n applyDifference_delta [OF assms(1) n(4)] by auto
qed

theorem mutate_delete_delta_witness:
  "\<exists>n d sh r ch. mutate (VMap GString GString (Some [(AStr ''a'', AStr ''x''), (AStr ''b'', AStr ''y'')]))
        MutateOperationDelete (VSlice GString (Some [AStr ''a''])) = Inr (n, d, sh)
    \<and> colVal (RMap GString GString) n
    \<and> absV n = absDelete (absV (VMap GString GString (Some [(AStr ''a'', AStr ''x''), (AStr ''b'', AStr ''y'')]))) (absV (VSlice GString (Some [AStr ''a''])))
    \<and> applyDifference (VMap GString GString (Some [(AStr ''a'', AStr ''x''), (AStr ''b'', AStr ''y'')])) d = Inr (r, ch) \<and> absV r = absV n"
  by (rule mutate_delete_delta) (simp_all add: colVal_def distinctVal_def)


text \<open>
  Arithmetic on a set of integers returns the whole new set as its delta, which is not the
  difference of the two sets: for the set 1, 2 and \<open>add 1\<close> the new value is 2, 3, and applying the
  returned delta to the old value gives 1, 3.
\<close>

theorem mutate_set_arith_delta:
  "\<exists>d r. mutate (VSlice GInt (Some [AInt 1, AInt 2])) MutateOperationAdd (VAtom (AInt 1)) = Inr (VSlice GInt (Some [AInt 2, AInt 3]), d, True)
     \<and> applyDifference (VSlice GInt (Some [AInt 1, AInt 2])) d = Inr (r, True) \<and> r = VSlice GInt (Some [AInt 1, AInt 3])"
  by (simp add: mutate_def bothValues_def mutateAdd_def mutateNum_def asInt_def onInt_def applyDifference_def
      difference_def mergeDifference_def sliceArg_def ofSlice_def setDifference_def setDiffElems_def lookupSet_def
      sdLoop.simps Let_def)

end
