(* ===== verification/Updates.thy ===== *)
theory Updates
  imports DbModel Mutate
begin

text \<open>
  Model updates (\<open>updates/merge.go\<close>, \<open>updates/updates.go\<close>): one pending update per table and uuid,
  held both as a pair of models and as an \<open>update2\<close> row, added from operations, from \<open>update\<close> and
  \<open>update2\<close> notifications, and merged in sequence. An empty set of updates stands for the nil map the
  code keeps. The lemmas show that each addition turns the current model into the one the operation asks for, that the
  recorded rows agree with the recorded models, and that updates which cancel out leave no trace.
\<close>

section \<open>Merging two updates of a row\<close>

record modelUpdate =
  muRow :: "RowUpdate2 option"
  muOld :: "Model option"
  muNew :: "Model option"

definition emptyUpdate :: modelUpdate where
  "emptyUpdate = \<lparr>muRow = None, muOld = None, muNew = None\<rparr>"

definition isEmpty :: "modelUpdate \<Rightarrow> bool" where
  "isEmpty mu = (mu = emptyUpdate)"

text \<open>\<open>ts.Column(k).TypeObj.Max()\<close>.\<close>

definition columnMax :: "TableSchema option \<Rightarrow> string \<Rightarrow> int result" where
  "columnMax ts k =
     (case ts of
        None \<Rightarrow> Inl (Panic ''nil TableSchema'')
      | Some t \<Rightarrow> (case Column t k of
          None \<Rightarrow> Inl (Panic ''nil ColumnSchema'')
        | Some c \<Rightarrow> bindR (typeObj c) (\<lambda>o'. Inr (Max o'))))"

text \<open>The original value an atomic difference is compared with.\<close>

definition atomicOriginal :: "Row \<Rightarrow> string \<Rightarrow> any \<Rightarrow> any result" where
  "atomicOriginal original k v =
     bindR (case map_of original k of
              Some x \<Rightarrow> if x = VNil then (case typeOf v of None \<Rightarrow> Inl (Panic ''reflect.Zero(nil)'') | Some t \<Rightarrow> Inr (zeroOf t)) else Inr x
            | None \<Rightarrow> (case typeOf v of None \<Rightarrow> Inl (Panic ''reflect.Zero(nil)'') | Some t \<Rightarrow> Inr (zeroOf t)))
       (\<lambda>o'. case o' of VOvsSet None \<Rightarrow> Inr (VOvsSet (Some [])) | _ \<Rightarrow> Inr o')"

definition mergeColumn :: "TableSchema option \<Rightarrow> Row \<Rightarrow> string \<Rightarrow> any \<Rightarrow> any \<Rightarrow> (any \<times> bool) result" where
  "mergeColumn ts original k a v =
     (let atomic = bindR (atomicOriginal original k v) (\<lambda>o'. Inr (mergeAtomicDifference o' a v)) in
      case v of
        VOvsSet b \<Rightarrow>
          (case a of
             VOvsSet x \<Rightarrow>
               bindR (columnMax ts k) (\<lambda>mx.
                 if mx \<noteq> 1
                 then (case setDifference (Some x) (Some b) of
                         (Some r, changed) \<Rightarrow> Inr (VOvsSet r, changed)
                       | (None, _) \<Rightarrow> Inl (Panic ''interface conversion''))
                 else atomic)
           | _ \<Rightarrow> Inl (Panic ''interface conversion''))
      | VOvsMap b \<Rightarrow>
          (case a of
             VOvsMap x \<Rightarrow>
               bindR (case map_of original k of
                        None \<Rightarrow> Inr None
                      | Some (VOvsMap om) \<Rightarrow> Inr om
                      | Some _ \<Rightarrow> Inl (Panic ''interface conversion'')) (\<lambda>om.
                 case mergeMapDifference (Some om) (Some x) (Some b) of
                   (Some r, changed) \<Rightarrow> Inr (VOvsMap r, changed)
                 | (None, _) \<Rightarrow> Inl (Panic ''interface conversion''))
           | _ \<Rightarrow> Inl (Panic ''interface conversion''))
      | _ \<Rightarrow> atomic)"

definition mergeModifyStep :: "TableSchema option \<Rightarrow> Row \<Rightarrow> Row \<Rightarrow> string \<times> any \<Rightarrow> Row result" where
  "mergeModifyStep ts original aMod = (\<lambda>(k, v).
     case map_of aMod k of
       None \<Rightarrow> Inr (AList.update k v aMod)
     | Some a \<Rightarrow>
         bindR (mergeColumn ts original k a v) (\<lambda>(result, changed).
           if \<not> changed then Inr (AList.delete k aMod) else Inr (AList.update k result aMod)))"

definition derefRow :: "Row option \<Rightarrow> Row result" where
  "derefRow r = (case r of None \<Rightarrow> Inl (Panic ''nil pointer dereference'') | Some x \<Rightarrow> Inr x)"

definition mergeModifyRow :: "TableSchema option \<Rightarrow> Row option \<Rightarrow> Row option \<Rightarrow> Row option \<Rightarrow> Row option result" where
  "mergeModifyRow ts orig a b =
     bindR (derefRow orig) (\<lambda>original. bindR (derefRow a) (\<lambda>aMod. bindR (derefRow b) (\<lambda>bMod.
     bindR (foldR (mergeModifyStep ts original) aMod bMod) (\<lambda>r.
       Inr (if r = [] then None else Some r)))))"

definition mergeRowUpdate :: "TableSchema option \<Rightarrow> RowUpdate2 option \<Rightarrow> RowUpdate2 option \<Rightarrow> RowUpdate2 option result" where
  "mergeRowUpdate ts x y =
     (case (x, y) of
        (_, None) \<Rightarrow> Inr x
      | (None, Some b) \<Rightarrow> Inr (Some b)
      | (Some a, Some b) \<Rightarrow>
          if Insert a \<noteq> None \<and> Modify b \<noteq> None then Inr (Some (a\<lparr>New := New b, Insert := New b\<rparr>))
          else if Modify a \<noteq> None \<and> Modify b \<noteq> None then
            bindR (mergeModifyRow ts (Old a) (Modify a) (Modify b)) (\<lambda>m.
              case m of None \<Rightarrow> Inr None | Some _ \<Rightarrow> Inr (Some (a\<lparr>New := New b, Modify := m\<rparr>)))
          else if Insert a \<noteq> None \<and> Delete b \<noteq> None then Inr None
          else if Delete b \<noteq> None then
            Inr (Some (a\<lparr>Initial := None, Insert := None, Modify := None, New := None, Delete := Delete b\<rparr>))
          else Inl (Errorf ''sequence of updates not supported''))"

definition mergeModels :: "modelUpdate \<Rightarrow> modelUpdate \<Rightarrow> modelUpdate result" where
  "mergeModels a b =
     (if muOld b = None \<and> muNew b = None then Inr a
      else if muOld a = None \<and> muNew a = None then Inr (a\<lparr>muOld := muOld b, muNew := muNew b\<rparr>)
      else if muNew a \<noteq> None \<and> muOld b \<noteq> None \<and> muNew b \<noteq> None then Inr (a\<lparr>muNew := muNew b\<rparr>)
      else if muOld b \<noteq> None \<and> muNew b = None then Inr (a\<lparr>muNew := None\<rparr>)
      else Inl (Errorf ''sequence of updates not supported''))"

definition merge :: "TableSchema option \<Rightarrow> modelUpdate \<Rightarrow> modelUpdate \<Rightarrow> modelUpdate result" where
  "merge ts a b =
     bindR (mergeModels a b) (\<lambda>a'.
     bindR (mergeRowUpdate ts (muRow a) (muRow b)) (\<lambda>ru2.
       case ru2 of None \<Rightarrow> Inr emptyUpdate | Some r \<Rightarrow> Inr (a'\<lparr>muRow := Some r\<rparr>)))"

section \<open>The set of updates\<close>

type_synonym ModelUpdates = "(string, (string, modelUpdate) gomap) gomap"

definition tableUpdates :: "ModelUpdates \<Rightarrow> string \<Rightarrow> (string, modelUpdate) gomap" where
  "tableUpdates u table = (case map_of u table of None \<Rightarrow> [] | Some t \<Rightarrow> t)"

definition GetUpdatedTables :: "ModelUpdates \<Rightarrow> string list" where
  "GetUpdatedTables u = map fst (filter (\<lambda>(table, ups). ups \<noteq> []) u)"

definition ForEachModelUpdate ::
  "ModelUpdates \<Rightarrow> string \<Rightarrow> ('s \<Rightarrow> string \<Rightarrow> Model option \<Rightarrow> Model option \<Rightarrow> 's \<times> err option) \<Rightarrow> 's \<Rightarrow> 's \<times> err option" where
  "ForEachModelUpdate u table f s = foldS (\<lambda>s (uuid, mu). f s uuid (muOld mu) (muNew mu)) s (tableUpdates u table)"

definition ForEachRowUpdate ::
  "ModelUpdates \<Rightarrow> string \<Rightarrow> ('s \<Rightarrow> string \<Rightarrow> RowUpdate2 \<Rightarrow> 's \<times> err option) \<Rightarrow> 's \<Rightarrow> 's \<times> err option" where
  "ForEachRowUpdate u table f s =
     foldS (\<lambda>s (uuid, mu). case muRow mu of None \<Rightarrow> (s, Some (Panic ''nil pointer dereference'')) | Some r \<Rightarrow> f s uuid r)
       s (tableUpdates u table)"

definition GetModel :: "ModelUpdates \<Rightarrow> string \<Rightarrow> string \<Rightarrow> Model option" where
  "GetModel u table uuid = (case map_of (tableUpdates u table) uuid of None \<Rightarrow> None | Some mu \<Rightarrow> muNew mu)"

definition GetRow :: "ModelUpdates \<Rightarrow> string \<Rightarrow> string \<Rightarrow> Row option result" where
  "GetRow u table uuid =
     (case map_of (tableUpdates u table) uuid of
        None \<Rightarrow> Inr None
      | Some mu \<Rightarrow> (case muRow mu of None \<Rightarrow> Inl (Panic ''nil pointer dereference'') | Some r \<Rightarrow> Inr (New r)))"

definition addUpdate :: "DatabaseModel \<Rightarrow> string \<Rightarrow> string \<Rightarrow> modelUpdate \<Rightarrow> ModelUpdates \<Rightarrow> ModelUpdates result" where
  "addUpdate db table uuid update u =
     (let t = tableUpdates u table;
          current = (case map_of t uuid of None \<Rightarrow> emptyUpdate | Some x \<Rightarrow> x)
      in bindR (merge (Table (dbSchema db) table) current update) (\<lambda>m.
           if \<not> isEmpty m then Inr (AList.update table (AList.update uuid m t) u)
           else (let t' = AList.delete uuid t in
                 if t' = [] then Inr (AList.delete table u) else Inr (AList.update table t' u))))"

definition Merge :: "DatabaseModel \<Rightarrow> ModelUpdates \<Rightarrow> ModelUpdates \<Rightarrow> ModelUpdates result" where
  "Merge db newUpdates u =
     foldR (\<lambda>u (table, models). foldR (\<lambda>u (uuid, update). addUpdate db table uuid update u) u models) u newUpdates"

section \<open>Changing a model by a row\<close>

definition changeColumn ::
  "TableSchema option \<Rightarrow> bool \<Rightarrow> bool \<times> Info \<times> Row option \<Rightarrow> string \<times> any \<Rightarrow> (bool \<times> Info \<times> Row option) result" where
  "changeColumn schema isModify = (\<lambda>(changed, info, modifyRow) (column, updateOvs).
     case schema of
       None \<Rightarrow> Inl (Panic ''nil TableSchema'')
     | Some ts \<Rightarrow>
       (case Column ts column of
          None \<Rightarrow> Inr (changed, info, modifyRow)
        | Some col \<Rightarrow>
            bindR (FieldByColumn info column) (\<lambda>current.
            bindR (OvsToNative col updateOvs) (\<lambda>updateNative.
              if isModify then
                bindR (applyDifference current updateNative) (\<lambda>(result, isDifferent).
                  if isDifferent \<and> \<not> Mutable col then Inl (ConstraintViolation ''column is not mutable'')
                  else bindR (SetField info column result) (\<lambda>info'. Inr (changed \<or> isDifferent, info', modifyRow)))
              else
                bindR (difference current updateNative) (\<lambda>(diff, isDifferent).
                  if isDifferent \<and> \<not> Mutable col then Inl (ConstraintViolation ''column is not mutable'')
                  else bindR (case modifyRow of
                                Some row \<Rightarrow> if isDifferent
                                  then bindR (NativeToOvs col diff) (\<lambda>d. Inr (Some (AList.update column d row)))
                                  else Inr modifyRow
                              | None \<Rightarrow> Inr modifyRow) (\<lambda>modifyRow'.
                       bindR (SetField info column updateNative) (\<lambda>info'. Inr (changed \<or> isDifferent, info', modifyRow'))))))))"

definition updateOrModifyModel ::
  "DatabaseModel \<Rightarrow> string \<Rightarrow> Info \<Rightarrow> Row \<Rightarrow> Row option \<Rightarrow> bool \<Rightarrow> (bool \<times> Info \<times> Row option) result" where
  "updateOrModifyModel db table info changeRow modifyRow isModify =
     foldR (changeColumn (Table (dbSchema db) table) isModify) (False, info, modifyRow) changeRow"

definition updateModel :: "DatabaseModel \<Rightarrow> string \<Rightarrow> Info \<Rightarrow> Row \<Rightarrow> Row option \<Rightarrow> (bool \<times> Info \<times> Row option) result" where
  "updateModel db table info update modify = updateOrModifyModel db table info update modify False"

definition modifyModel :: "DatabaseModel \<Rightarrow> string \<Rightarrow> Info \<Rightarrow> Row \<Rightarrow> (bool \<times> Info \<times> Row option) result" where
  "modifyModel db table info modify = updateOrModifyModel db table info modify None True"

section \<open>Adding operations\<close>

text \<open>The model argument of the operations may be nil.\<close>

definition modelInfo :: "DatabaseModel \<Rightarrow> Model option \<Rightarrow> Info result" where
  "modelInfo db m = (case m of None \<Rightarrow> Inl (ErrWrongType ''NewModelInfo'') | Some x \<Rightarrow> NewModelInfo db x)"

definition cloneModel :: "Model option \<Rightarrow> Model result" where
  "cloneModel m = (case m of None \<Rightarrow> Inl (Panic ''reflect: Type on zero Value'') | Some x \<Rightarrow> Inr (Clone x))"

definition addInsertOperation :: "DatabaseModel \<Rightarrow> string \<Rightarrow> string \<Rightarrow> Operation \<Rightarrow> ModelUpdates \<Rightarrow> ModelUpdates result" where
  "addInsertOperation db table uuid op u =
     bindR (NewModel db table) (\<lambda>m.
     bindR (NewModelInfo db m) (\<lambda>info.
     bindR (GetRowData (Some (opRow op)) info) (\<lambda>info.
     bindR (SetField info ''_uuid'' (VAtom (AStr uuid))) (\<lambda>info.
     bindR (NewRow info) (\<lambda>resultRow.
       addUpdate db table uuid
         \<lparr>muRow = Some (emptyRU2\<lparr>Insert := Some resultRow, New := Some resultRow\<rparr>), muOld = None, muNew = Some (Obj info)\<rparr> u)))))"

definition addUpdateOperation ::
  "DatabaseModel \<Rightarrow> string \<Rightarrow> string \<Rightarrow> Model option \<Rightarrow> Operation \<Rightarrow> ModelUpdates \<Rightarrow> ModelUpdates result" where
  "addUpdateOperation db table uuid old op u =
     bindR (modelInfo db old) (\<lambda>oldInfo.
     bindR (NewRow oldInfo) (\<lambda>oldRow.
     bindR (cloneModel old) (\<lambda>newModel.
     bindR (NewModelInfo db newModel) (\<lambda>newInfo.
     bindR (updateModel db table newInfo (opRow op) (Some [])) (\<lambda>(changed, newInfo, delta).
       if \<not> changed then Inr u
       else bindR (NewRow newInfo) (\<lambda>newRow.
         addUpdate db table uuid
           \<lparr>muRow = Some (emptyRU2\<lparr>Modify := delta, Old := Some oldRow, New := Some newRow\<rparr>), muOld = old, muNew = Some (Obj newInfo)\<rparr> u))))))"

text \<open>
  One mutation of a mutate operation. The pending differences are kept by column; a column is
  \<^emph>\<open>shared\<close> when its entry is the very map that is the field of the new model, so that an in-place
  change of one is a change of the other: both \<open>mutate\<close>, which writes into a non-nil map, and
  \<open>mergeMapDifference\<close>, which computes its result in its second argument.
\<close>

record mutateState =
  msInfo :: Info
  msDiffs :: "(string, any) gomap"
  msShared :: "string list"

definition isMap :: "any \<Rightarrow> bool" where
  "isMap v = (case v of VMap _ _ _ \<Rightarrow> True | _ \<Rightarrow> False)"

definition mapLen0 :: "any \<Rightarrow> bool" where
  "mapLen0 v = (case v of VMap _ _ m \<Rightarrow> elems m = [] | _ \<Rightarrow> v = VNil)"

definition mutationValue :: "ColumnSchema \<Rightarrow> Mutation \<Rightarrow> any result" where
  "mutationValue column m =
     (if mMutator m = MutateOperationDelete \<and> cType column = TypeMap \<and> typeOf (mValue m) \<noteq> Some ROvsMap
      then bindR (keyType column) (\<lambda>kt. OvsToNativeSlice kt (mValue m))
      else OvsToNative column (mValue m))"

text \<open>\<open>mergeDifference\<close> on the entry \<open>a\<close> of a shared column: the value the field holds afterwards.\<close>

definition sharedField :: "any \<Rightarrow> any \<Rightarrow> any \<Rightarrow> any" where
  "sharedField a b result =
     (if mapLen0 a \<or> mapLen0 b then a
      else case result of VMap k w r \<Rightarrow> VMap k w (Some (elems r)) | _ \<Rightarrow> a)"

definition mutateStep :: "TableSchema option \<Rightarrow> Info \<Rightarrow> mutateState \<Rightarrow> Mutation \<Rightarrow> mutateState result" where
  "mutateStep schema oldInfo s m =
     (let col = mColumn m in
      case schema of
        None \<Rightarrow> Inl (Panic ''nil TableSchema'')
      | Some ts \<Rightarrow>
        (case Column ts col of
           None \<Rightarrow> Inr s
         | Some column \<Rightarrow>
             bindR (mutationValue column m) (\<lambda>nativeValue.
             bindR (ValidateMutation column (mMutator m) nativeValue) (\<lambda>_.
             bindR (FieldByColumn (msInfo s) col) (\<lambda>current.
             bindR (mutate current (mMutator m) nativeValue) (\<lambda>(newValue, diff, same).
             bindR (SetField (msInfo s) col newValue) (\<lambda>info.
             bindR (FieldByColumn oldInfo col) (\<lambda>old.
               let isShared = (col \<in> set (msShared s));
                   a = (if isShared then newValue else (case map_of (msDiffs s) col of None \<Rightarrow> VNil | Some d \<Rightarrow> d))
               in bindR (mergeDifference old a diff) (\<lambda>(r, changed).
                  bindR (if isShared then SetField info col (sharedField a diff r) else Inr info) (\<lambda>info'.
                    let stays = changed \<and> (isShared \<and> \<not> mapLen0 a \<or> same \<and> isMap newValue \<and> mapLen0 a)
                    in Inr \<lparr>msInfo = info',
                            msDiffs = (if changed then AList.update col r (msDiffs s) else AList.delete col (msDiffs s)),
                            msShared = (if stays then col # List.removeAll col (msShared s) else List.removeAll col (msShared s))\<rparr>))))))))))"

definition deltaRow :: "TableSchema option \<Rightarrow> (string, any) gomap \<Rightarrow> Row result" where
  "deltaRow schema ds =
     foldR (\<lambda>delta (column, diff).
       case schema of
         None \<Rightarrow> Inl (Panic ''nil TableSchema'')
       | Some ts \<Rightarrow> (case Column ts column of
           None \<Rightarrow> Inl (Panic ''nil ColumnSchema'')
         | Some col \<Rightarrow> bindR (NativeToOvs col diff) (\<lambda>d. Inr (AList.update column d delta)))) [] ds"

definition addMutateOperation ::
  "DatabaseModel \<Rightarrow> string \<Rightarrow> string \<Rightarrow> Model option \<Rightarrow> Operation \<Rightarrow> ModelUpdates \<Rightarrow> ModelUpdates result" where
  "addMutateOperation db table uuid old op u =
     (let schema = Table (dbSchema db) table in
      bindR (modelInfo db old) (\<lambda>oldInfo.
      bindR (NewRow oldInfo) (\<lambda>oldRow.
      bindR (cloneModel old) (\<lambda>newModel.
      bindR (NewModelInfo db newModel) (\<lambda>newInfo.
      bindR (foldR (mutateStep schema oldInfo) \<lparr>msInfo = newInfo, msDiffs = [], msShared = []\<rparr> (Mutations op)) (\<lambda>s.
        if msDiffs s = [] then Inr u
        else bindR (deltaRow schema (msDiffs s)) (\<lambda>delta.
          bindR (NewRow (msInfo s)) (\<lambda>newRow.
            addUpdate db table uuid
              \<lparr>muRow = Some (emptyRU2\<lparr>Modify := Some delta, Old := Some oldRow, New := Some newRow\<rparr>),
               muOld = old, muNew = Some (Obj (msInfo s))\<rparr> u))))))))"

definition addDeleteOperation ::
  "DatabaseModel \<Rightarrow> string \<Rightarrow> string \<Rightarrow> Model option \<Rightarrow> ModelUpdates \<Rightarrow> ModelUpdates result" where
  "addDeleteOperation db table uuid old u =
     bindR (modelInfo db old) (\<lambda>info.
     bindR (NewRow info) (\<lambda>oldRow.
       addUpdate db table uuid
         \<lparr>muRow = Some (emptyRU2\<lparr>Delete := Some [], Old := Some oldRow\<rparr>), muOld = old, muNew = None\<rparr> u))"

definition AddOperation ::
  "DatabaseModel \<Rightarrow> string \<Rightarrow> string \<Rightarrow> Model option \<Rightarrow> Operation \<Rightarrow> ModelUpdates \<Rightarrow> ModelUpdates result" where
  "AddOperation db table uuid current op u =
     (case Op op of
        OperationInsert \<Rightarrow> addInsertOperation db table uuid op u
      | OperationUpdate \<Rightarrow> addUpdateOperation db table uuid current op u
      | OperationMutate \<Rightarrow> addMutateOperation db table uuid current op u
      | OperationDelete \<Rightarrow> addDeleteOperation db table uuid current u
      | _ \<Rightarrow> Inl (Errorf ''database update from operation not supported''))"

section \<open>Adding notifications\<close>

definition AddRowUpdate ::
  "DatabaseModel \<Rightarrow> string \<Rightarrow> string \<Rightarrow> Model option \<Rightarrow> RowUpdate \<Rightarrow> ModelUpdates \<Rightarrow> ModelUpdates result" where
  "AddRowUpdate db table uuid current ru u =
     (case (ruOld ru, ruNew ru) of
        (None, Some newRow) \<Rightarrow>
          bindR (CreateModel db table (Some newRow) uuid) (\<lambda>newModel.
            addUpdate db table uuid \<lparr>muRow = Some (emptyRU2\<lparr>New := Some newRow\<rparr>), muOld = None, muNew = Some newModel\<rparr> u)
      | (Some oldRow, Some newRow) \<Rightarrow>
          bindR (cloneModel current) (\<lambda>newModel.
          bindR (NewModelInfo db newModel) (\<lambda>info.
          bindR (updateModel db table info newRow None) (\<lambda>(changed, info, _).
            if \<not> changed then Inr u
            else addUpdate db table uuid
              \<lparr>muRow = Some (emptyRU2\<lparr>Old := Some oldRow, New := Some newRow\<rparr>), muOld = current, muNew = Some (Obj info)\<rparr> u)))
      | (_, None) \<Rightarrow>
          addUpdate db table uuid \<lparr>muRow = Some (emptyRU2\<lparr>Old := ruOld ru\<rparr>), muOld = current, muNew = None\<rparr> u)"

definition AddRowUpdate2 ::
  "DatabaseModel \<Rightarrow> string \<Rightarrow> string \<Rightarrow> Model option \<Rightarrow> RowUpdate2 \<Rightarrow> ModelUpdates \<Rightarrow> ModelUpdates result" where
  "AddRowUpdate2 db table uuid current ru u =
     (let ru2 = (if Initial ru \<noteq> None then ru\<lparr>Insert := Initial ru\<rparr> else ru) in
      case Insert ru2 of
        Some row \<Rightarrow>
          bindR (CreateModel db table (Some row) uuid) (\<lambda>newModel.
            addUpdate db table uuid \<lparr>muRow = Some ru2, muOld = None, muNew = Some newModel\<rparr> u)
      | None \<Rightarrow>
          (case Modify ru2 of
             Some row \<Rightarrow>
               bindR (cloneModel current) (\<lambda>newModel.
               bindR (NewModelInfo db newModel) (\<lambda>info.
               bindR (modifyModel db table info row) (\<lambda>(changed, info, _).
                 if \<not> changed then Inr u
                 else addUpdate db table uuid \<lparr>muRow = Some ru2, muOld = current, muNew = Some (Obj info)\<rparr> u)))
           | None \<Rightarrow> addUpdate db table uuid \<lparr>muRow = Some ru2, muOld = current, muNew = None\<rparr> u))"

section \<open>An update and its delta\<close>

lemma NativeType_shape: "NativeType c = Inr t \<Longrightarrow> t \<noteq> ROvsSet \<and> t \<noteq> ROvsMap"
  by (auto simp: NativeType_def resR split: ExtendedType.splits if_splits)

lemma nonNil_colVal: "colVal t d \<Longrightarrow> colVal t (nonNil d) \<and> absV (nonNil d) = absV d"
  by (cases d) (auto simp: colVal_def distinctVal_def absV_def)

lemma NativeToOvs_delta:
  assumes "wfColumn col" "NativeType col = Inr t" "colVal t d" "NativeToOvs col d = Inr e"
  shows "OvsToNative col e = Inr (nonNil d)"
  using NativeToOvs_inverse [OF assms(1,2), of d] assms(3,4) by (auto simp: colVal_def)

text \<open>Two fields with the same abstract value: as sets, as maps, or as atoms.\<close>

definition sameField :: "any result \<Rightarrow> any result \<Rightarrow> bool" where
  "sameField x y = (case (x, y) of (Inr v, Inr w) \<Rightarrow> absV v = absV w | (Inl e, Inl e') \<Rightarrow> e = e' | _ \<Rightarrow> False)"

lemma sameField_refl [simp]: "sameField x x"
  by (cases x) (auto simp: sameField_def)

definition distinctFields :: "Info \<Rightarrow> bool" where
  "distinctFields i = list_all (\<lambda>(c, _). case FieldByColumn i c of Inl _ \<Rightarrow> True | Inr v \<Rightarrow> distinctVal v) (Fields (iMeta i))"

definition distinctRow :: "TableSchema \<Rightarrow> Row \<Rightarrow> bool" where
  "distinctRow ts row = list_all (\<lambda>(c, e). case Column ts c of None \<Rightarrow> True
     | Some col \<Rightarrow> (case OvsToNative col e of Inl _ \<Rightarrow> True | Inr v \<Rightarrow> distinctVal v)) row"

lemma distinctFieldsD:
  assumes "distinctFields i" "FieldByColumn i c = Inr v"
  shows "distinctVal v"
proof -
  obtain f where "(c, f) \<in> set (Fields (iMeta i))"
    using assms(2) by (auto simp: FieldByColumn_def split: option.splits dest: map_of_SomeD)
  then show ?thesis using assms by (auto simp: distinctFields_def list_all_iff)
qed

lemma field_colVal:
  assumes "wfInfo i" "FieldByColumn i c = Inr v" "Column (mTableSchema (iMeta i)) c = Some col" "distinctVal v"
  obtains t where "colType i c = Some t" "NativeType col = Inr t" "colVal t v" "wfColumn col"
proof -
  have "hasColumn i c" using assms(2) by (auto simp: FieldByColumn_def hasColumn_def split: option.splits)
  then obtain t where t: "colType i c = Some t" "NativeType col = Inr t"
    using colType_native [OF assms(1,3)] by auto
  then have "typeOf v = Some t" "wfVal v" using info.get_typed [OF assms(1) t(1)] assms(2) by auto
  moreover have "wfColumn col" using assms(1,3) wfColumn_Column by (auto simp: wfInfo_def)
  ultimately show thesis using t assms(4) NativeType_shape [OF t(2)] by (intro that [of t]) (auto simp: colVal_def)
qed

lemma decoded_colVal:
  assumes "wfColumn col" "NativeType col = Inr t" "OvsToNative col e = Inr w" "distinctVal w"
  shows "colVal t w"
  using OvsToNative_typed [OF assms(1,3)] assms NativeType_shape [OF assms(2)] by (auto simp: colVal_def)

text \<open>
  The server's loop over the update row and the client's loop over the resulting delta, in step. The client starts
  from the same object; a column not reached yet has its first value on both sides.
\<close>

definition inStep :: "TableSchema \<Rightarrow> Info \<Rightarrow> string list \<Rightarrow> bool \<times> Info \<times> Row option \<Rightarrow> bool" where
  "inStep ts i ks = (\<lambda>(ch, i', dl). \<exists>del j. dl = Some del \<and> gm_ok del \<and> set (keys del) \<subseteq> set ks
     \<and> foldR (changeColumn (Some ts) True) (False, i, None) del = Inr (ch, j, None)
     \<and> wfInfo i' \<and> wfInfo j \<and> iMeta i' = iMeta i \<and> iMeta j = iMeta i \<and> mType (Obj i') = mType (Obj i) \<and> mType (Obj j) = mType (Obj i)
     \<and> (\<forall>c. sameField (FieldByColumn i' c) (FieldByColumn j c))
     \<and> (\<forall>c. c \<notin> set ks \<longrightarrow> FieldByColumn i' c = FieldByColumn i c \<and> FieldByColumn j c = FieldByColumn i c))"

lemma SetField_typed:
  assumes "wfInfo i" "colType i c = Some t" "colVal t v"
  obtains i' where "SetField i c v = Inr i'" "wfInfo i'" "iMeta i' = iMeta i" "mType (Obj i') = mType (Obj i)"
    "\<And>c'. FieldByColumn i' c' = (if c' = c then Inr v else FieldByColumn i c')"
proof -
  obtain f where f: "map_of (Fields (iMeta i)) c = Some f" "fieldType (mType (Obj i)) f = Some t"
    using assms(2) by (auto simp: colType_def split: option.splits)
  have "typeOf v = Some t" "wfVal v" using assms(3) by (auto simp: colVal_def)
  note r = SetField_wf [OF assms(1) f this]
  show thesis by (rule that [OF r(1,2) _ _ r(3)]) simp_all
qed

lemma changeColumn_update:
  assumes "changeColumn (Some ts) False (ch, i, Some del) (c, ov) = Inr st" "Column ts c = Some col"
  obtains v w d k i2 where "FieldByColumn i c = Inr v" "OvsToNative col ov = Inr w" "difference v w = Inr (d, k)"
    "SetField i c w = Inr i2"
    "\<not> k \<and> st = (ch, i2, Some del) \<or> k \<and> Mutable col \<and> (\<exists>e. NativeToOvs col d = Inr e \<and> st = (True, i2, Some (AList.update c e del)))"
proof -
  obtain v w d k where v: "FieldByColumn i c = Inr v" "OvsToNative col ov = Inr w" "difference v w = Inr (d, k)"
    using assms by (auto simp: changeColumn_def resR)
  then obtain i2 where "SetField i c w = Inr i2"
    using assms by (auto simp: changeColumn_def resR split: if_splits)
  with v assms show thesis
    by (intro that [of v w d k i2]) (auto simp: changeColumn_def resR split: if_splits)
qed

lemma changeColumn_modify:
  assumes "Column ts c = Some col" "FieldByColumn j c = Inr v" "OvsToNative col e = Inr d" "applyDifference v d = Inr (r, k)"
    "Mutable col" "SetField j c r = Inr j2"
  shows "changeColumn (Some ts) True (ch, j, m) (c, e) = Inr (ch \<or> k, j2, m)"
  using assms by (simp add: changeColumn_def)

lemma inStep_step:
  assumes inv: "inStep ts i ks (ch, i', dl)" and new: "c \<notin> set ks"
    and ts: "mTableSchema (iMeta i) = ts" and wf: "distinctFields i" "wfInfo i"
    and row: "distinctRow ts [(c, ov)]"
    and step: "changeColumn (Some ts) False (ch, i', dl) (c, ov) = Inr st"
  shows "inStep ts i (ks @ [c]) st"
proof -
  obtain del j where del: "dl = Some del" "gm_ok del" "set (keys del) \<subseteq> set ks"
      "foldR (changeColumn (Some ts) True) (False, i, None) del = Inr (ch, j, None)"
      "wfInfo i'" "wfInfo j" "iMeta i' = iMeta i" "iMeta j = iMeta i" "mType (Obj i') = mType (Obj i)" "mType (Obj j) = mType (Obj i)"
      "\<And>c. sameField (FieldByColumn i' c) (FieldByColumn j c)"
      "\<And>c. c \<notin> set ks \<Longrightarrow> FieldByColumn i' c = FieldByColumn i c \<and> FieldByColumn j c = FieldByColumn i c"
    using inv unfolding inStep_def by auto
  show ?thesis
  proof (cases "Column ts c")
    case None
    then have "st = (ch, i', dl)" using step by (simp add: changeColumn_def)
    then show ?thesis using del unfolding inStep_def by auto
  next
    case (Some col)
    obtain v w d k i2 where v: "FieldByColumn i' c = Inr v" "OvsToNative col ov = Inr w" "difference v w = Inr (d, k)"
        and set2: "SetField i' c w = Inr i2"
        and st: "\<not> k \<and> st = (ch, i2, Some del) \<or> k \<and> Mutable col \<and> (\<exists>e. NativeToOvs col d = Inr e \<and> st = (True, i2, Some (AList.update c e del)))"
      by (rule changeColumn_update [OF step [unfolded del(1)] Some])
    have vi: "FieldByColumn i c = Inr v" "FieldByColumn j c = Inr v" using del(12) [OF new] v(1) by auto
    have dv: "distinctVal v" by (rule distinctFieldsD [OF wf(1) vi(1)])
    obtain t where t: "colType i' c = Some t" "NativeType col = Inr t" "colVal t v" "wfColumn col"
      by (rule field_colVal [OF del(5) v(1) _ dv]) (use Some ts del(7) in auto)
    have dw: "distinctVal w" using row Some v(2) by (simp add: distinctRow_def)
    have w: "colVal t w" by (rule decoded_colVal [OF t(4,2) v(2) dw])
    have i2: "wfInfo i2" "iMeta i2 = iMeta i'" "mType (Obj i2) = mType (Obj i')"
        "\<And>c'. FieldByColumn i2 c' = (if c' = c then Inr w else FieldByColumn i' c')"
      by (rule SetField_typed [OF del(5) t(1) w]; use set2 in simp)+
    have "colType j = colType i'" using del(7-10) by (intro colType_cong) simp_all
    then have tj: "colType j c = Some t" using t(1) by simp
    obtain d' k' where dd: "difference v w = Inr (d', k')" "colVal t d'" "absV d' = absApply (absV v) (absV w)"
        "k' = (case absV d' of AbsSet D \<Rightarrow> D \<noteq> {} | AbsMap D \<Rightarrow> D \<noteq> Map.empty | AbsAtom _ \<Rightarrow> v \<noteq> w)"
      by (rule difference_spec [OF t(3) w])
    have dk: "d' = d" "k' = k" using dd(1) v(3) by auto
    have kiff: "k \<longleftrightarrow> absV v \<noteq> absV w" using absDiff_flag [OF t(3) w dd(3)] dd(4) dk by simp
    show ?thesis
    proof (cases k)
      case False
      then have st': "st = (ch, i2, Some del)" using st by simp
      have "sameField (FieldByColumn i2 c') (FieldByColumn j c')" for c'
        using del(11) [of c'] i2(4) [of c'] vi(2) kiff False by (auto simp: sameField_def)
      then show ?thesis
        using st' del i2 unfolding inStep_def by auto
    next
      case True
      obtain e where e: "NativeToOvs col d = Inr e" "st = (True, i2, Some (AList.update c e del))" "Mutable col"
        using st True by auto
      note dn = nonNil_colVal [OF dd(2)]
      have dec: "OvsToNative col e = Inr (nonNil d)"
        using NativeToOvs_delta [OF t(4,2)] dd(2) dk e(1) by simp
      have cn: "colVal t (nonNil d)" using dn dk by simp
      obtain r kr where r: "applyDifference v (nonNil d) = Inr (r, kr)" "colVal t r" "absV r = absApply (absV v) (absV (nonNil d))"
          "kr = (case absV (nonNil d) of AbsSet D \<Rightarrow> D \<noteq> {} | AbsMap D \<Rightarrow> D \<noteq> Map.empty | AbsAtom _ \<Rightarrow> v \<noteq> nonNil d)"
        by (rule applyDifference_spec [OF t(3) cn])
      have rw: "absV r = absV w"
        using r(3) dn dk dd(3) absApply_laws(1) [OF t(3) w w] by simp
      have kr: "kr" using absApply_flag [OF t(3) cn] r(3,4) rw kiff True by simp
      obtain j2 where j2: "SetField j c r = Inr j2" "wfInfo j2" "iMeta j2 = iMeta j" "mType (Obj j2) = mType (Obj j)"
          "\<And>c'. FieldByColumn j2 c' = (if c' = c then Inr r else FieldByColumn j c')"
        by (rule SetField_typed [OF del(6) tj r(2)]) (rule that)
      have app: "AList.update c e del = del @ [(c, e)]" using del(3) new by (intro update_append_new) auto
      have "foldR (changeColumn (Some ts) True) (False, i, None) (AList.update c e del) = Inr (True, j2, None)"
        using del(4) changeColumn_modify [OF Some vi(2) dec r(1) e(3) j2(1), of ch None] kr by (simp add: app foldR_append)
      moreover have "sameField (FieldByColumn i2 c') (FieldByColumn j2 c')" for c'
        using del(11) [of c'] i2(4) [of c'] j2(5) [of c'] rw by (auto simp: sameField_def)
      moreover have "gm_ok (AList.update c e del)" using del(2) by auto
      moreover have "set (keys (AList.update c e del)) \<subseteq> set (ks @ [c])" unfolding app using del(3) by auto
      moreover have "FieldByColumn i2 c' = FieldByColumn i c' \<and> FieldByColumn j2 c' = FieldByColumn i c'" if "c' \<notin> set (ks @ [c])" for c'
        using that del(12) [of c'] i2(4) [of c'] j2(5) [of c'] by auto
      ultimately show ?thesis
        using e(2) del i2(1-3) j2(2-4) unfolding inStep_def by auto
    qed
  qed
qed

lemma inStep_loop:
  assumes "wfInfo i" "distinctFields i" "mTableSchema (iMeta i) = ts" "gm_ok row" "distinctRow ts row"
    and "foldR (changeColumn (Some ts) False) (False, i, Some []) row = Inr st"
  shows "inStep ts i (keys row) st"
  using assms(4-6)
proof (induction row arbitrary: st rule: rev_induct)
  case Nil
  then show ?case using assms(1) by (auto simp: inStep_def)
next
  case (snoc p row)
  obtain c ov where p: "p = (c, ov)" by fastforce
  obtain ch i1 dl where s: "foldR (changeColumn (Some ts) False) (False, i, Some []) row = Inr (ch, i1, dl)"
      "changeColumn (Some ts) False (ch, i1, dl) (c, ov) = Inr st"
    using snoc.prems(3) p by (auto simp: foldR_append resR)
  have "inStep ts i (keys row) (ch, i1, dl)"
    using snoc.IH [OF _ _ s(1)] snoc.prems(1,2) by (simp add: distinctRow_def)
  moreover have "c \<notin> set (keys row)" using snoc.prems(1) p by auto
  moreover have "distinctRow ts [(c, ov)]" using snoc.prems(2) p by (simp add: distinctRow_def)
  ultimately have "inStep ts i (keys row @ [c]) st"
    using inStep_step [OF _ _ assms(3,2,1) _ s(2)] by blast
  then show ?case using p by simp
qed

section \<open>Properties\<close>

text \<open>
  Claim C8. The server's delta and the client's modification agree: when an update operation changes an object, the
  \<open>modify\<close> row it produces, applied to the same original object as an \<open>update2\<close> notification, succeeds, reports a
  change exactly when the server did, and gives an object with the same column values.
\<close>

theorem update_delta_consistent:
  assumes "wfInfo i" and "distinctFields i" and "Table (dbSchema db) table = Some (mTableSchema (iMeta i))"
    and "gm_ok row" and "distinctRow (mTableSchema (iMeta i)) row"
    and "updateModel db table i row (Some []) = Inr (changed, i', dl)"
  shows "\<exists>d j. dl = Some d \<and> modifyModel db table i d = Inr (changed, j, None)
    \<and> (\<forall>c. sameField (FieldByColumn i' c) (FieldByColumn j c))"
  using inStep_loop [OF assms(1,2) refl assms(4,5)] assms(3,6)
  by (auto simp: updateModel_def modifyModel_def updateOrModifyModel_def inStep_def)

lemma exUpdate:
  "updateModel exDb ''Bridge'' \<lparr>Obj = exModel ''u'' ''br0'', iMeta = exMeta\<rparr> [(''name'', VAtom (AStr ''br1''))] (Some [])
   = Inr (True, \<lparr>Obj = exModel ''u'' ''br1'', iMeta = exMeta\<rparr>, Some [(''name'', VAtom (AStr ''br1''))])"
proof -
  have "OvsToNative exNameColumn (VAtom (AStr ''br1'')) = Inr (VAtom (AStr ''br1''))"
      "NativeToOvs exNameColumn (VAtom (AStr ''br1'')) = Inr (VAtom (AStr ''br1''))" "Mutable exNameColumn"
    by (simp_all add: OvsToNative_def NativeToOvs_def NativeType_examples) (simp_all add: exNameColumn_def Mutable_def)
  then show ?thesis
    by (simp add: updateModel_def updateOrModifyModel_def changeColumn_def exDb_def exSchema_def Table_def exTable_def Column_def
        FieldByColumn_def exMeta_def exModel_def difference_def mergeDifference_def mergeAtomicDifference_def SetField_def fieldType_def exStruct_def)
qed

theorem update_delta_consistent_witness:
  "\<exists>d j. Some [(''name'', VAtom (AStr ''br1''))] = Some d \<and> modifyModel exDb ''Bridge'' \<lparr>Obj = exModel ''u'' ''br0'', iMeta = exMeta\<rparr> d = Inr (True, j, None)
     \<and> (\<forall>c. sameField (FieldByColumn \<lparr>Obj = exModel ''u'' ''br1'', iMeta = exMeta\<rparr> c) (FieldByColumn j c))"
proof (rule update_delta_consistent [OF wfInfo_exModel _ _ _ _ exUpdate])
  show "distinctFields \<lparr>Obj = exModel ''u'' ''br0'', iMeta = exMeta\<rparr>"
    by (simp add: distinctFields_def exMeta_def FieldByColumn_def exModel_def distinctVal_def)
qed (simp_all add: exDb_def exSchema_def Table_def exMeta_def distinctRow_def exTable_def Column_def exNameColumn_def OvsToNative_def distinctVal_def)

section \<open>The pending updates\<close>

definition pending :: "ModelUpdates \<Rightarrow> string \<Rightarrow> string \<Rightarrow> modelUpdate" where
  "pending u table uuid = (case map_of (tableUpdates u table) uuid of None \<Rightarrow> emptyUpdate | Some m \<Rightarrow> m)"

definition wfUpdates :: "ModelUpdates \<Rightarrow> bool" where
  "wfUpdates u = (gm_ok u \<and> list_all (\<lambda>(table, ups). ups \<noteq> [] \<and> gm_ok ups \<and> list_all (\<lambda>(uuid, m). \<not> isEmpty m) ups) u)"

lemma wfUpdates_table: "wfUpdates u \<Longrightarrow> gm_ok (tableUpdates u t) \<and> list_all (\<lambda>(uuid, m). \<not> isEmpty m) (tableUpdates u t)"
  by (auto simp: wfUpdates_def tableUpdates_def list_all_iff split: option.splits dest!: map_of_SomeD)

lemma list_all_update: "list_all P m \<Longrightarrow> P (k, v) \<Longrightarrow> list_all P (AList.update k v m)"
  using set_update_subset [of k v m] by (auto simp: list_all_iff)

lemma list_all_delete: "list_all P m \<Longrightarrow> list_all P (AList.delete k m)"
  by (auto simp: AList.delete_eq list_all_iff)

lemma tableUpdates_simps [simp]:
  "tableUpdates (AList.update t x u) t' = (if t' = t then x else tableUpdates u t')"
  "tableUpdates (AList.delete t u) t' = (if t' = t then [] else tableUpdates u t')"
  "tableUpdates [] t' = []"
  by (auto simp: tableUpdates_def)

lemma pending_None [simp]: "map_of (tableUpdates u t) x = None \<Longrightarrow> pending u t x = emptyUpdate"
  by (simp add: pending_def)

lemma addUpdate_spec:
  assumes "addUpdate db table uuid upd u = Inr u'" "wfUpdates u"
  obtains m where "merge (Table (dbSchema db) table) (pending u table uuid) upd = Inr m" "wfUpdates u'"
    "\<And>t x. pending u' t x = (if t = table \<and> x = uuid then m else pending u t x)"
proof -
  let ?t = "tableUpdates u table"
  obtain m where m: "merge (Table (dbSchema db) table) (pending u table uuid) upd = Inr m"
    and u': "u' = (if \<not> isEmpty m then AList.update table (AList.update uuid m ?t) u
       else if AList.delete uuid ?t = [] then AList.delete table u else AList.update table (AList.delete uuid ?t) u)"
    using assms(1) by (auto simp: addUpdate_def pending_def resR Let_def split: if_splits)
  note t = wfUpdates_table [OF assms(2), of table]
  have "AList.update uuid m ?t \<noteq> []" by (cases ?t) auto
  then have "wfUpdates u'"
    using assms(2) t unfolding u' wfUpdates_def
    by (auto intro!: list_all_update list_all_delete gm_ok_update gm_ok_delete)
  moreover have "pending u' t x = (if t = table \<and> x = uuid then m else pending u t x)" for t x
  proof (cases "t = table")
    case True
    have tu: "tableUpdates u' table = (if isEmpty m then AList.delete uuid ?t else AList.update uuid m ?t)"
      unfolding u' by simp
    show ?thesis unfolding pending_def True tu by (simp add: isEmpty_def)
  qed (simp add: pending_def u')
  ultimately show thesis using m by (intro that)
qed

text \<open>
  Adding an update is local and keeps the set of updates normalised: no table without rows
  and no empty update is kept, the rows other than the updated one are untouched, and the updated row holds the merge of its
  pending update with the new one.
\<close>

theorem addUpdate_local:
  assumes "addUpdate db table uuid upd u = Inr u'" and "wfUpdates u"
  shows "wfUpdates u' \<and> GetUpdatedTables u' = keys u'
    \<and> (\<exists>m. merge (Table (dbSchema db) table) (pending u table uuid) upd = Inr m
         \<and> (\<forall>t x. pending u' t x = (if t = table \<and> x = uuid then m else pending u t x)))"
proof -
  obtain m where m: "merge (Table (dbSchema db) table) (pending u table uuid) upd = Inr m" "wfUpdates u'"
    "\<And>t x. pending u' t x = (if t = table \<and> x = uuid then m else pending u t x)"
    by (rule addUpdate_spec [OF assms]) (rule that)
  have "filter (\<lambda>(t, ups). ups \<noteq> []) u' = u'"
    using m(2) by (auto simp: wfUpdates_def list_all_iff intro!: filter_True)
  then show ?thesis using m by (auto simp: GetUpdatedTables_def)
qed

lemma addUpdate_first:
  assumes "pending u table uuid = emptyUpdate" "muRow upd \<noteq> None"
  shows "addUpdate db table uuid upd u = Inr (AList.update table (AList.update uuid upd (tableUpdates u table)) u)"
proof -
  have "merge ts emptyUpdate upd = Inr upd" for ts
    using assms(2) by (auto simp: merge_def mergeModels_def mergeRowUpdate_def emptyUpdate_def)
  then show ?thesis using assms by (auto simp: addUpdate_def Let_def pending_def isEmpty_def emptyUpdate_def)
qed

theorem addUpdate_local_witness:
  "wfUpdates [(''Bridge'', [(''u'', \<lparr>muRow = Some emptyRU2, muOld = None, muNew = None\<rparr>)])]"
proof -
  have "addUpdate exDb ''Bridge'' ''u'' \<lparr>muRow = Some emptyRU2, muOld = None, muNew = None\<rparr> []
    = Inr [(''Bridge'', [(''u'', \<lparr>muRow = Some emptyRU2, muOld = None, muNew = None\<rparr>)])]"
    by (simp add: addUpdate_first)
  from addUpdate_local [OF this] show ?thesis by (simp add: wfUpdates_def)
qed

section \<open>Insert and delete\<close>

lemma GetRowData_wf:
  assumes "wfDb db" "NewModel db table = Inr m" "NewModelInfo db m = Inr i" "GetRowData row i = Inr i1"
  shows "tableModel db table (Obj i1)" "iMeta i1 = iMeta i" "mType (Obj i1) = mType m"
proof -
  have m: "tableModel db table m" by (rule NewModel_wf [OF assms(1,2)])
  have i: "wfInfo i" "Obj i = m"
    by (rule NewModelInfo_wf [OF assms(1) m]; use assms(3) in simp)+
  have "wfModel (Obj i1) \<and> mType (Obj i1) = mType m \<and> iMeta i1 = iMeta i"
    using assms(4) getRowData_wfModel [of _ i i1] i m by (auto simp: GetRowData_def tableModel_def wfInfo_def split: option.splits)
  then show "tableModel db table (Obj i1)" "iMeta i1 = iMeta i" "mType (Obj i1) = mType m"
    using m by (auto simp: tableModel_def)
qed

lemma addInsertOperation_spec:
  assumes "wfDb db" "addInsertOperation db table uuid op u = Inr u'"
  obtains m row where "tableModel db table m"
    "addUpdate db table uuid \<lparr>muRow = Some (emptyRU2\<lparr>Insert := Some row, New := Some row\<rparr>), muOld = None, muNew = Some m\<rparr> u = Inr u'"
proof -
  obtain m0 i0 i1 i2 row where i: "NewModel db table = Inr m0" "NewModelInfo db m0 = Inr i0" "GetRowData (Some (opRow op)) i0 = Inr i1"
      "SetField i1 ''_uuid'' (VAtom (AStr uuid)) = Inr i2" "NewRow i2 = Inr row"
      "addUpdate db table uuid \<lparr>muRow = Some (emptyRU2\<lparr>Insert := Some row, New := Some row\<rparr>), muOld = None, muNew = Some (Obj i2)\<rparr> u = Inr u'"
    using assms(2) by (auto simp: addInsertOperation_def resR)
  have "tableModel db table (Obj i1)" by (rule GetRowData_wf(1) [OF assms(1) i(1-3)])
  then have "tableModel db table (Obj i2)"
    using SetField_wfModel(1,2) [OF i(4)] by (simp add: tableModel_def)
  then show thesis using i(6) by (rule that)
qed

lemma addDeleteOperation_spec:
  assumes "wfDb db" "tableModel db table m"
  obtains row where "addDeleteOperation db table uuid (Some m) u
    = addUpdate db table uuid \<lparr>muRow = Some (emptyRU2\<lparr>Delete := Some [], Old := Some row\<rparr>), muOld = Some m, muNew = None\<rparr> u"
proof -
  obtain i where i: "NewModelInfo db m = Inr i" "wfInfo i"
    by (rule NewModelInfo_wf [OF assms])
  obtain row where "NewRow i = Inr row" by (rule NewRow_spec [OF i(2)])
  then show thesis using i(1) by (intro that [of row]) (simp add: addDeleteOperation_def modelInfo_def)
qed

lemma update_same: "map_of m k = Some v \<Longrightarrow> AList.update k v m = m"
  by (induction m) auto

lemma delete_update: "k \<notin> set (keys m) \<Longrightarrow> AList.delete k (AList.update k v m) = m"
  by (simp add: update_append_new AList.delete_eq) (force simp: filter_id_conv)

lemma update_update: "AList.update k w (AList.update k v m) = AList.update k w m"
  by (induction m) auto

text \<open>
  A row that is inserted and then deleted leaves no trace: deleting the model that an insert operation recorded
  succeeds and gives back exactly the updates from before the insert.
\<close>

theorem insert_delete_cancels:
  assumes "wfDb db" and "wfUpdates u" and "pending u table uuid = emptyUpdate"
    and "addInsertOperation db table uuid op u = Inr u1"
  shows "\<exists>m. GetModel u1 table uuid = Some m \<and> addDeleteOperation db table uuid (Some m) u1 = Inr u"
proof -
  obtain m row where m: "tableModel db table m"
    "addUpdate db table uuid \<lparr>muRow = Some (emptyRU2\<lparr>Insert := Some row, New := Some row\<rparr>), muOld = None, muNew = Some m\<rparr> u = Inr u1"
    by (rule addInsertOperation_spec [OF assms(1,4)])
  let ?t = "tableUpdates u table" and ?m = "\<lparr>muRow = Some (emptyRU2\<lparr>Insert := Some row, New := Some row\<rparr>), muOld = None, muNew = Some m\<rparr>"
  have u1: "u1 = AList.update table (AList.update uuid ?m ?t) u"
    using m(2) addUpdate_first [OF assms(3), of ?m db] by simp
  obtain orow where del: "addDeleteOperation db table uuid (Some m) u1
      = addUpdate db table uuid \<lparr>muRow = Some (emptyRU2\<lparr>Delete := Some [], Old := Some orow\<rparr>), muOld = Some m, muNew = None\<rparr> u1"
    by (rule addDeleteOperation_spec [OF assms(1) m(1)])
  have new: "uuid \<notin> set (keys ?t)"
  proof
    assume "uuid \<in> set (keys ?t)"
    then obtain x where x: "map_of ?t uuid = Some x" using map_of_key_iff [of uuid ?t] by blast
    then have "isEmpty x" using assms(3) by (simp add: pending_def isEmpty_def)
    then show False using x wfUpdates_table [OF assms(2), of table] by (auto simp: list_all_iff dest!: map_of_SomeD)
  qed
  have "merge ts ?m \<lparr>muRow = Some (emptyRU2\<lparr>Delete := Some [], Old := Some orow\<rparr>), muOld = Some m, muNew = None\<rparr> = Inr emptyUpdate" for ts
    by (simp add: merge_def mergeModels_def mergeRowUpdate_def emptyRU2_def)
  then have r: "addDeleteOperation db table uuid (Some m) u1
      = Inr (if ?t = [] then AList.delete table u1 else AList.update table ?t u1)"
    unfolding del by (simp add: addUpdate_def u1 isEmpty_def delete_update [OF new] Let_def)
  have "(if ?t = [] then AList.delete table u1 else AList.update table ?t u1) = u"
  proof (cases "map_of u table")
    case None
    then have "table \<notin> set (keys u)" by (auto simp: map_of_eq_None_iff)
    then show ?thesis using None by (simp add: u1 tableUpdates_def delete_update)
  next
    case (Some ups)
    then have "ups \<noteq> []" using assms(2) by (auto simp: wfUpdates_def list_all_iff dest!: map_of_SomeD)
    then show ?thesis using Some by (simp add: u1 tableUpdates_def update_update update_same)
  qed
  then show ?thesis using r u1 by (simp add: GetModel_def)
qed

definition exInsertOp :: Operation where
  "exInsertOp = emptyOp\<lparr>Op := OperationInsert, opTable := ''Bridge'', opRow := [(''name'', VAtom (AStr ''br0'')), (''ports'', VOvsSet (Some [AInt 7]))]\<rparr>"

lemma exInsert: "\<exists>u1. addInsertOperation exDb ''Bridge'' ''u'' exInsertOp [] = Inr u1"
proof -
  have o: "OvsToNative exNameColumn (VAtom (AStr ''br0'')) = Inr (VAtom (AStr ''br0''))"
      "OvsToNative exSetColumn (VOvsSet (Some [AInt 7])) = Inr (VSlice GInt (Some [AInt 7]))"
    by (simp_all add: OvsToNative_def exNameColumn_def exColumn_defs)
  have d: "bindR (GetRowData (Some (opRow exInsertOp)) \<lparr>Obj = zeroModel exStruct, iMeta = exMeta\<rparr>) (\<lambda>i. SetField i ''_uuid'' (VAtom (AStr ''u'')))
      = Inr \<lparr>Obj = exModel ''u'' ''br0'', iMeta = exMeta\<rparr>"
    by (simp add: GetRowData_def getRowData_def exMeta_def exInsertOp_def)
      (simp add: getRowColumn_def hasColumn_def o SetField_def exTable_def fieldType_def zeroModel_def exStruct_def exModel_def)
  obtain row where "NewRow \<lparr>Obj = exModel ''u'' ''br0'', iMeta = exMeta\<rparr> = Inr row"
    by (rule NewRow_spec [OF wfInfo_exModel])
  then show ?thesis
    using d by (auto simp: addInsertOperation_def NewModel_def NewModelInfo_def resR exDb_def exClient_def zeroModel_def addUpdate_first)
qed

theorem insert_delete_cancels_witness:
  "\<exists>u1 m. addInsertOperation exDb ''Bridge'' ''u'' exInsertOp [] = Inr u1 \<and> addDeleteOperation exDb ''Bridge'' ''u'' (Some m) u1 = Inr []"
proof -
  obtain u1 where u1: "addInsertOperation exDb ''Bridge'' ''u'' exInsertOp [] = Inr u1"
    using exInsert by blast
  have "wfUpdates []" "pending [] ''Bridge'' ''u'' = emptyUpdate" by (simp_all add: wfUpdates_def)
  from insert_delete_cancels [OF wfDb_exDb this u1] show ?thesis using u1 by blast
qed

definition exMutations :: "Mutation list" where
  "exMutations = [\<lparr>mColumn = ''refs'', mMutator = MutateOperationInsert, mValue = VOvsMap (Some [(AStr ''a'', AUUID ''1'')])\<rparr>,
     \<lparr>mColumn = ''refs'', mMutator = MutateOperationInsert, mValue = VOvsMap (Some [(AStr ''b'', AUUID ''2'')])\<rparr>]"

text \<open>
  Two insert mutations of one operation on a map column that is nil: the second one is lost, from the
  new model and from the delta, because the map of the first one serves as field and as delta at once.
\<close>

theorem mutate_nil_map_loses_second_insert:
  "\<exists>s. foldR (mutateStep (Some exTable) \<lparr>Obj = exModel ''u'' ''br0'', iMeta = exMeta\<rparr>)
        \<lparr>msInfo = \<lparr>Obj = exModel ''u'' ''br0'', iMeta = exMeta\<rparr>, msDiffs = [], msShared = []\<rparr> exMutations = Inr s
     \<and> FieldByColumn (msInfo s) ''refs'' = Inr (VMap GString GString (Some [(AStr ''a'', AStr ''1'')]))
     \<and> map_of (msDiffs s) ''refs'' = Some (VMap GString GString (Some [(AStr ''a'', AStr ''1'')]))"
proof -
  let ?i = "\<lparr>Obj = exModel ''u'' ''br0'', iMeta = exMeta\<rparr>"
  let ?m = "\<lambda>k v. VMap GString GString (Some [(AStr k, AStr v)])"
  have col: "Column exTable ''refs'' = Some exMapColumn" by (simp add: exTable_def Column_def)
  have v: "mutationValue exMapColumn \<lparr>mColumn = ''refs'', mMutator = MutateOperationInsert, mValue = VOvsMap (Some [(AStr k, AUUID w)])\<rparr> = Inr (?m k w)" for k w
    by (simp add: mutationValue_def OvsToNative_def convMap_def exColumn_defs)
  have val: "ValidateMutation exMapColumn MutateOperationInsert (?m k w) = Inr ()" for k w
    by (simp add: ValidateMutation_def exColumn_defs Mutable_def)
  have f: "FieldByColumn ?i ''refs'' = Inr (VMap GString GString None)" by (simp add: FieldByColumn_def exMeta_def exModel_def)
  let ?j = "\<lambda>m. \<lparr>Obj = (exModel ''u'' ''br0'')\<lparr>mObj := AList.update ''Refs'' (VMap GString GString (Some m)) (mObj (exModel ''u'' ''br0''))\<rparr>, iMeta = exMeta\<rparr>"
  have set1: "SetField ?i ''refs'' (VMap GString GString (Some m)) = Inr (?j m)" for m
    by (simp add: SetField_def exMeta_def exModel_def fieldType_def exStruct_def)
  have set2: "SetField (?j m) ''refs'' (VMap GString GString (Some n)) = Inr (?j n)" for m n
    by (simp add: SetField_def exMeta_def exModel_def fieldType_def exStruct_def)
  have f2: "FieldByColumn (?j m) ''refs'' = Inr (VMap GString GString (Some m))" for m
    by (simp add: FieldByColumn_def exMeta_def exModel_def)
  have s1: "mutateStep (Some exTable) ?i \<lparr>msInfo = ?i, msDiffs = [], msShared = []\<rparr> (exMutations ! 0)
     = Inr \<lparr>msInfo = ?j [(AStr ''a'', AStr ''1'')], msDiffs = [(''refs'', ?m ''a'' ''1'')], msShared = [''refs'']\<rparr>"
    using set1 by (simp add: mutateStep_def exMutations_def col v val f mutate_def mutateInsert_def mergeDifference_def mapArg_def
        ofMap_def mergeMapDifference_def mapLen0_def isMap_def Let_def)
  have s2: "mutateStep (Some exTable) ?i \<lparr>msInfo = ?j [(AStr ''a'', AStr ''1'')], msDiffs = [(''refs'', ?m ''a'' ''1'')], msShared = [''refs'']\<rparr> (exMutations ! 1)
     = Inr \<lparr>msInfo = ?j [(AStr ''a'', AStr ''1'')], msDiffs = [(''refs'', ?m ''a'' ''1'')], msShared = [''refs'']\<rparr>"
    by (simp add: mutateStep_def exMutations_def col v val f f2 set2 mutate_def mutateInsert_def insertEntries_def insertEntry_def mapDelta_def
        mergeDifference_def mapArg_def ofMap_def mergeMapDifference_def mergeMapStep_def sharedField_def mapLen0_def isMap_def Let_def del: One_nat_def)
  show ?thesis
    using s1 s2 f2 by (intro exI conjI) (auto simp: exMutations_def)
qed

end
