(* ===== verification/Conditions.thy ===== *)
theory Conditions
  imports Bindings
begin

text \<open>
  Evaluation of conditions (\<open>ovsdb/condition.go\<close>): \<open>ConditionFunction.Evaluate\<close> with its
  per-kind branches, \<open>sliceContains\<close> and \<open>mapContains\<close>. The lemmas characterise each
  function and show on which conditions that \<open>ValidateCondition\<close> accepts the evaluation succeeds.
\<close>

section \<open>Evaluate\<close>

definition sliceContains :: "atom list \<Rightarrow> atom list \<Rightarrow> bool" where
  "sliceContains x y = list_all (\<lambda>vy. list_ex (\<lambda>vx. vy = vx) x) y"

definition mapContains :: "(atom, atom) gomap \<Rightarrow> (atom, atom) gomap \<Rightarrow> bool" where
  "mapContains x y = list_all (\<lambda>(k, v). case map_of x k of None \<Rightarrow> False | Some vx \<Rightarrow> v = vx) y"

text \<open>The containment tests behind \<open>includes\<close>: \<open>MapIndex\<close> panics on a key of another type.\<close>

definition contains :: "any \<Rightarrow> any \<Rightarrow> bool result" where
  "contains a b =
     (case a of
        VSlice _ x \<Rightarrow> (case b of VSlice _ y \<Rightarrow> Inr (sliceContains (elems x) (elems y)) | _ \<Rightarrow> Inl (Panic ''reflect: Index''))
      | VMap k _ x \<Rightarrow>
          (case b of
             VMap k' _ y \<Rightarrow> (if k \<noteq> k' \<and> elems y \<noteq> [] then Inl (Panic ''reflect: MapIndex'')
                             else Inr (mapContains (elems x) (elems y)))
           | _ \<Rightarrow> Inl (Panic ''reflect: MapRange''))
      | VAtom x \<Rightarrow> (if atomType x = GUUID then Inl (Errorf ''condition not supported'') else Inr (deepEqual a b))
      | _ \<Rightarrow> Inl (Errorf ''condition not supported''))"

definition compareWith :: "(64 word \<Rightarrow> 64 word \<Rightarrow> bool) \<Rightarrow> (f64 \<Rightarrow> f64 \<Rightarrow> bool) \<Rightarrow> any \<Rightarrow> any \<Rightarrow> bool result" where
  "compareWith ci cf a b =
     (case a of
        VAtom (AInt x) \<Rightarrow> (case b of VAtom (AInt y) \<Rightarrow> Inr (ci x y) | _ \<Rightarrow> Inl (Panic ''reflect: Int''))
      | VAtom (AReal x) \<Rightarrow> (case b of VAtom (AReal y) \<Rightarrow> Inr (cf x y) | _ \<Rightarrow> Inl (Panic ''reflect: Float''))
      | VAtom (ABool _) \<Rightarrow> Inl (Errorf ''unreachable condition'')
      | VAtom (AStr _) \<Rightarrow> Inl (Errorf ''unreachable condition'')
      | VSlice _ _ \<Rightarrow> Inl (Errorf ''unreachable condition'')
      | VMap _ _ _ \<Rightarrow> Inl (Errorf ''unreachable condition'')
      | _ \<Rightarrow> Inl (Errorf ''condition not supported''))"

definition Evaluate :: "ConditionFunction \<Rightarrow> any \<Rightarrow> any \<Rightarrow> bool result" where
  "Evaluate c a b =
     (if kindOf a \<noteq> kindOf b then Inl (Errorf ''comparison not supported'')
      else case c of
        ConditionEqual \<Rightarrow> Inr (deepEqual a b)
      | ConditionNotEqual \<Rightarrow> Inr (\<not> deepEqual a b)
      | ConditionIncludes \<Rightarrow> contains a b
      | ConditionExcludes \<Rightarrow> bindR (contains a b) (\<lambda>r. Inr (\<not> r))
      | ConditionGreaterThan \<Rightarrow> compareWith (\<lambda>x y. sint y < sint x) (\<lambda>x y. f64_lt y x) a b
      | ConditionGreaterThanOrEqual \<Rightarrow> compareWith (\<lambda>x y. sint y \<le> sint x) (\<lambda>x y. f64_le y x) a b
      | ConditionLessThan \<Rightarrow> compareWith (\<lambda>x y. sint x < sint y) f64_lt a b
      | ConditionLessThanOrEqual \<Rightarrow> compareWith (\<lambda>x y. sint x \<le> sint y) f64_le a b
      | ConditionOther _ \<Rightarrow> Inl (Errorf ''unsupported condition function''))"

section \<open>Characterisation\<close>

lemma sliceContains_iff: "sliceContains x y \<longleftrightarrow> set y \<subseteq> set x"
  by (auto simp: sliceContains_def list_all_iff list_ex_iff)

lemma mapContains_iff:
  assumes "gm_ok y"
  shows "mapContains x y \<longleftrightarrow> map_of y \<subseteq>\<^sub>m map_of x"
proof -
  have "mapContains x y \<longleftrightarrow> (\<forall>k v. (k, v) \<in> set y \<longrightarrow> map_of x k = Some v)"
    by (auto simp: mapContains_def list_all_iff split: option.splits)
  also have "\<dots> \<longleftrightarrow> (\<forall>k v. map_of y k = Some v \<longrightarrow> map_of x k = Some v)"
    using map_of_in_iff [OF assms] by metis
  also have "\<dots> \<longleftrightarrow> map_of y \<subseteq>\<^sub>m map_of x"
    by (auto simp: map_le_def dom_def)
  finally show ?thesis .
qed

lemma kindOf_typeOf: "typeOf a = typeOf b \<Longrightarrow> kindOf a = kindOf b"
  by (simp add: kindOf_def)

lemma Evaluate_sets:
  "Evaluate ConditionIncludes (VSlice t x) (VSlice t' y) = Inr (set (elems y) \<subseteq> set (elems x))"
  "Evaluate ConditionExcludes (VSlice t x) (VSlice t' y) = Inr (\<not> set (elems y) \<subseteq> set (elems x))"
  by (simp_all add: Evaluate_def contains_def kindOf_def sliceContains_iff)

lemma contains_ok:
  assumes "typeOf a = Some t" and "typeOf b = Some t"
  shows "isOk (contains a b) \<longleftrightarrow> (case t of RSlice _ \<Rightarrow> True | RMap _ _ \<Rightarrow> True | RAtom g \<Rightarrow> g \<noteq> GUUID | _ \<Rightarrow> False)"
  using assms by (cases a; cases b) (auto simp: contains_def)

lemma compareWith_ok:
  assumes "typeOf a = Some (RAtom g)" and "typeOf b = Some (RAtom g)" and "g = GInt \<or> g = GFloat64"
  shows "isOk (compareWith p q a b)"
  using assms by (auto dest!: typeOf_RAtomD simp: atomType_cases compareWith_def)

text \<open>
  Evaluating a condition that \<open>ValidateCondition\<close> accepted, on a value of the
  column's native type, succeeds for the eight condition functions except in one case: \<open>includes\<close> and
  \<open>excludes\<close> on an optional column (a Go pointer), where validation accepts the
  condition and \<open>Evaluate\<close> reports that the kind is not supported.
\<close>

theorem Evaluate_validated:
  assumes "wfColumn c" and "ValidateCondition c f v = Inr ()" and "NativeType c = Inr (the (typeOf x))"
    and "typeOf x \<noteq> None" and "\<And>s. f \<noteq> ConditionOther s"
  shows "isOk (Evaluate f x v) \<longleftrightarrow>
           \<not> (f \<in> {ConditionIncludes, ConditionExcludes} \<and> (\<exists>g. NativeType c = Inr (RPtr g)))"
proof -
  obtain t where t: "typeOf x = Some t" "typeOf v = Some t" "NativeType c = Inr t"
    using assms(2-4) by (auto simp: ValidateCondition_def split: if_splits)
  then have k: "kindOf x = kindOf v" by (simp add: kindOf_typeOf)
  have num: "g = GInt \<or> g = GFloat64" if "f \<in> {ConditionGreaterThan, ConditionGreaterThanOrEqual,
      ConditionLessThan, ConditionLessThanOrEqual}" "t = RAtom g" for g
    using assms(2) t that
    by (auto simp: ValidateCondition_def NativeType_def split: ExtendedType.splits if_splits)
  have atomic: "\<exists>g. t = RAtom g" if "f \<in> {ConditionGreaterThan, ConditionGreaterThanOrEqual,
      ConditionLessThan, ConditionLessThanOrEqual}"
    using assms(2) t that
    by (auto simp: ValidateCondition_def NativeType_def split: ExtendedType.splits if_splits)
  have shape: "\<not> (t = RAtom GUUID \<or> t = ROvsSet \<or> t = ROvsMap)"
    using assms(1)
  proof (cases rule: wfColumn_cases)
    case (Atomic g)
    then show ?thesis using t by (auto elim!: isAtomicTypeE)
  next
    case (Enum kt g)
    then show ?thesis using t by (auto elim!: isAtomicTypeE)
  qed (use t in auto)
  show ?thesis
  proof (cases f)
    case ConditionIncludes
    then show ?thesis using k contains_ok [OF t(1,2)] shape t(3)
      by (cases t) (auto simp: Evaluate_def)
  next
    case ConditionExcludes
    then have "isOk (Evaluate f x v) \<longleftrightarrow> isOk (contains x v)"
      using k by (cases "contains x v") (auto simp: Evaluate_def)
    then show ?thesis using ConditionExcludes contains_ok [OF t(1,2)] shape t(3)
      by (cases t) auto
  qed (use k assms(5) num atomic t(1,2) in \<open>auto simp: Evaluate_def intro: compareWith_ok\<close>)
qed

theorem Evaluate_validated_witness:
  "isOk (Evaluate ConditionIncludes (VSlice GInt (Some [AInt 1, AInt 2])) (VSlice GInt (Some [AInt 2])))"
proof -
  have t: "NativeType exSetColumn = Inr (RSlice GInt)" by (simp add: exColumn_defs)
  have v: "ValidateCondition exSetColumn ConditionIncludes (VSlice GInt (Some [AInt 2])) = Inr ()"
    by (simp add: ValidateCondition_def t) (simp add: exSetColumn_def)
  show ?thesis
    using Evaluate_validated [OF wfColumn_examples(1) v, of "VSlice GInt (Some [AInt 1, AInt 2])"] t by simp
qed

text \<open>
  RFC 7047 has \<open>excludes\<close> hold when the column contains none of the given elements.
  The code negates \<open>includes\<close>, so a column that contains some but not all of them is
  reported as excluding them.
\<close>

theorem Evaluate_excludes_partial_overlap:
  "Evaluate ConditionExcludes (VSlice GInt (Some [AInt 1, AInt 2])) (VSlice GInt (Some [AInt 2, AInt 3])) = Inr True
   \<and> set [AInt 1, AInt 2] \<inter> set [AInt 2, AInt 3] \<noteq> {}"
  by (simp add: Evaluate_sets)

end
