(* ===== verification/UuidSet.thy ===== *)
theory UuidSet
  imports Prelude
begin

text \<open>
  Sets of uuids (\<open>cache/uuidset.go\<close>), Go maps from uuid to an empty struct: a list without
  repetition whose order stands for the iteration order. A set that may be nil is an
  option. The locale \<open>uuid_sets\<close> is the contract the row cache uses, stated through the abstraction to
  mathematical sets; it is interpreted on the functions of the file.
\<close>

type_synonym uuidset = "string list"

definition add :: "string \<Rightarrow> uuidset \<Rightarrow> uuidset" where
  "add u s = (if u \<in> set s then s else s @ [u])"

definition remove :: "string \<Rightarrow> uuidset \<Rightarrow> uuidset" where
  "remove u s = removeAll u s"

definition has :: "uuidset \<Rightarrow> string \<Rightarrow> bool" where
  "has s u = (u \<in> set s)"

definition newUUIDSet :: "string list \<Rightarrow> uuidset" where
  "newUUIDSet uuids = fold add uuids []"

definition usEquals :: "uuidset \<Rightarrow> uuidset \<Rightarrow> bool" where
  "usEquals s t = (length s = length t \<and> list_all (has t) s)"

definition getAny :: "uuidset \<Rightarrow> string" where
  "getAny s = (case s of [] \<Rightarrow> [] | u # _ \<Rightarrow> u)"

definition usEmpty :: "uuidset \<Rightarrow> bool" where
  "usEmpty s = (length s = 0)"

text \<open>The set operations take nil as the empty set, and may return nil.\<close>

definition usOf :: "uuidset option \<Rightarrow> uuidset" where
  "usOf s = (case s of None \<Rightarrow> [] | Some x \<Rightarrow> x)"

definition addUUIDSet :: "uuidset option \<Rightarrow> uuidset option \<Rightarrow> uuidset option" where
  "addUUIDSet s1 s2 =
     (if length (usOf s2) = 0 then s1
      else Some (fold add (usOf s2) (usOf s1)))"

definition substractUUIDSet :: "uuidset option \<Rightarrow> uuidset option \<Rightarrow> uuidset option" where
  "substractUUIDSet s1 s2 =
     (if length (usOf s1) = 0 \<or> length (usOf s2) = 0 then s1
      else Some (fold remove (usOf s2) (usOf s1)))"

definition intersectUUIDSets :: "uuidset option \<Rightarrow> uuidset option \<Rightarrow> uuidset option" where
  "intersectUUIDSets s1 s2 =
     (if length (usOf s1) = 0 \<or> length (usOf s2) = 0 then None
      else let (big, small) = (if length (usOf s1) > length (usOf s2) then (usOf s1, usOf s2) else (usOf s2, usOf s1))
           in Some (fold (\<lambda>u f. if has big u then add u f else f) small []))"

section \<open>The contract\<close>

locale uuid_sets =
  fixes ok :: "'s \<Rightarrow> bool"
    and abs :: "'s \<Rightarrow> string set"
    and single :: "string \<Rightarrow> 's"
    and union :: "'s \<Rightarrow> 's \<Rightarrow> 's"
    and minus :: "'s \<Rightarrow> 's \<Rightarrow> 's"
    and inter :: "'s \<Rightarrow> 's \<Rightarrow> 's"
    and is_empty :: "'s \<Rightarrow> bool"
  assumes single: "ok (single u)" "abs (single u) = {u}"
    and union: "ok s \<Longrightarrow> ok t \<Longrightarrow> ok (union s t)" "ok s \<Longrightarrow> ok t \<Longrightarrow> abs (union s t) = abs s \<union> abs t"
    and minus: "ok s \<Longrightarrow> ok t \<Longrightarrow> ok (minus s t)" "ok s \<Longrightarrow> ok t \<Longrightarrow> abs (minus s t) = abs s - abs t"
    and inter: "ok s \<Longrightarrow> ok t \<Longrightarrow> ok (inter s t)" "ok s \<Longrightarrow> ok t \<Longrightarrow> abs (inter s t) = abs s \<inter> abs t"
    and is_empty: "ok s \<Longrightarrow> is_empty s \<longleftrightarrow> abs s = {}"
begin

lemma remove_last: "ok s \<Longrightarrow> is_empty (minus s (single u)) \<longleftrightarrow> abs s \<subseteq> {u}"
  by (auto simp: is_empty minus single)

lemma insert_member: "ok s \<Longrightarrow> abs (union s (single u)) = insert u (abs s)"
  by (auto simp: union single)

end

lemma set_add [simp]: "set (add u s) = insert u (set s)"
  by (auto simp: add_def)

lemma distinct_add [simp]: "distinct s \<Longrightarrow> distinct (add u s)"
  by (auto simp: add_def)

lemma set_remove [simp]: "set (remove u s) = set s - {u}"
  by (auto simp: remove_def)

lemma distinct_remove [simp]: "distinct s \<Longrightarrow> distinct (remove u s)"
  by (auto simp: remove_def distinct_removeAll)

lemma fold_add: "set (fold add us s) = set s \<union> set us" "distinct s \<Longrightarrow> distinct (fold add us s)"
  by (induction us arbitrary: s) auto

lemma fold_remove: "set (fold remove us s) = set s - set us" "distinct s \<Longrightarrow> distinct (fold remove us s)"
  by (induction us arbitrary: s) auto

lemma fold_addIf: "set (fold (\<lambda>u f. if P u then add u f else f) us s) = set s \<union> {u \<in> set us. P u}"
    "distinct s \<Longrightarrow> distinct (fold (\<lambda>u f. if P u then add u f else f) us s)"
  by (induction us arbitrary: s) auto

lemma usOf_simps [simp]: "usOf None = []" "usOf (Some x) = x"
  by (simp_all add: usOf_def)

lemma newUUIDSet_single [simp]: "newUUIDSet [u] = [u]"
  by (simp add: newUUIDSet_def add_def)

lemma usEquals_iff: "distinct s \<Longrightarrow> distinct t \<Longrightarrow> usEquals s t \<longleftrightarrow> set s = set t"
proof
  assume d: "distinct s" "distinct t" and "usEquals s t"
  then have "set s \<subseteq> set t" "card (set s) = card (set t)"
    by (auto simp: usEquals_def has_def list_all_iff distinct_card)
  then show "set s = set t" by (intro card_subset_eq) auto
next
  assume d: "distinct s" "distinct t" and e: "set s = set t"
  then have "length s = length t" by (metis distinct_card)
  then show "usEquals s t" using e by (auto simp: usEquals_def has_def list_all_iff)
qed

interpretation us: uuid_sets "\<lambda>s. distinct (usOf s)" "\<lambda>s. set (usOf s)" "\<lambda>u. Some (newUUIDSet [u])"
  addUUIDSet substractUUIDSet intersectUUIDSets "\<lambda>s. usEmpty (usOf s)"
proof
  fix s t :: "uuidset option"
  assume s: "distinct (usOf s)" and t: "distinct (usOf t)"
  show "distinct (usOf (addUUIDSet s t))" "set (usOf (addUUIDSet s t)) = set (usOf s) \<union> set (usOf t)"
    using s by (auto simp: addUUIDSet_def fold_add)
  show "distinct (usOf (substractUUIDSet s t))" "set (usOf (substractUUIDSet s t)) = set (usOf s) - set (usOf t)"
    using s by (auto simp: substractUUIDSet_def fold_remove)
  show "distinct (usOf (intersectUUIDSets s t))" "set (usOf (intersectUUIDSets s t)) = set (usOf s) \<inter> set (usOf t)"
    by (auto simp: intersectUUIDSets_def has_def fold_addIf split: if_splits)
qed (simp_all add: usEmpty_def)

section \<open>Properties\<close>

text \<open>
  The set operations of the cache are the mathematical ones on well-formed sets: union,
  difference, intersection and equality, with nil standing for the empty set; in particular, removing one
  uuid empties a set exactly when it held nothing else.
\<close>

theorem uuidset_operations:
  assumes "distinct (usOf s)" and "distinct (usOf t)"
  shows "set (usOf (addUUIDSet s t)) = set (usOf s) \<union> set (usOf t)
    \<and> set (usOf (substractUUIDSet s t)) = set (usOf s) - set (usOf t)
    \<and> set (usOf (intersectUUIDSets s t)) = set (usOf s) \<inter> set (usOf t)
    \<and> (usEquals (usOf s) (usOf t) \<longleftrightarrow> set (usOf s) = set (usOf t))
    \<and> (usEmpty (usOf (substractUUIDSet s (Some (newUUIDSet [u])))) \<longleftrightarrow> set (usOf s) \<subseteq> {u})"
  using us.union(2) [OF assms] us.minus(2) [OF assms] us.inter(2) [OF assms] usEquals_iff [OF assms] us.remove_last [OF assms(1)]
  by blast

theorem uuidset_operations_witness:
  "set (usOf (intersectUUIDSets (Some [''a'', ''b'']) (Some [''b'', ''c'']))) = {''b''}"
proof -
  have "distinct (usOf (Some [''a'', ''b'']))" "distinct (usOf (Some [''b'', ''c'']))" by simp_all
  from uuidset_operations [OF this] show ?thesis by auto
qed

end
