(* ===== verification/RowCache.thy ===== *)
theory RowCache
  imports Updates Conditions UuidSet "HOL-Library.List_Lexorder" "HOL-Library.Char_ord"
begin

text \<open>
  The row cache of one table (\<open>RowCache\<close> in \<open>cache/cache.go\<close>): models by uuid and, for every schema and
  client index, a map from the index value of a row to the uuids that have it. An index over several columns has
  the \<open>gob\<close> encoding of the column values as its value; the model keeps the encoded values themselves, leaving
  out nil ones as the code does. Values are compared as Go map keys, so a slice or a map
  as a single index column is \<open>Panic\<close>. The invariant says that each index describes the cached rows, and
  every operation keeps it.
\<close>

section \<open>Indexes\<close>

datatype indexType = schemaIndexType | clientIndexType

record indexSpec =
  isIndex :: string
  isColumns :: "ColumnKey list"
  isType :: indexType

datatype ivalue = IVal any | ISeq "any list"

type_synonym valueToUUIDs = "(ivalue, uuidset) gomap"
type_synonym columnToValue = "(string, valueToUUIDs) gomap"

definition isClientIndex :: "indexSpec \<Rightarrow> bool" where
  "isClientIndex s = (isType s = clientIndexType)"

definition isSchemaIndex :: "indexSpec \<Rightarrow> bool" where
  "isSchemaIndex s = (isType s = schemaIndexType)"

text \<open>\<open>fmt.Sprintf("%v", key)\<close>; a real key is rendered by its bit pattern.\<close>

definition fmtV :: "atom \<Rightarrow> string" where
  "fmtV a = (case a of
     AInt i \<Rightarrow> showInt (sint i)
   | AReal r \<Rightarrow> showNat (unat r)
   | ABool b \<Rightarrow> (if b then ''true'' else ''false'')
   | AStr s \<Rightarrow> s
   | AUUID u \<Rightarrow> ''{'' @ u @ ''}'')"

definition join :: "string \<Rightarrow> string list \<Rightarrow> string" where
  "join d xs = (case xs of [] \<Rightarrow> [] | y # ys \<Rightarrow> y @ concat (map (\<lambda>z. d @ z) ys))"

definition newIndexFromColumns :: "string list \<Rightarrow> string" where
  "newIndexFromColumns columns = join '','' (sort columns)"

definition columnName :: "ColumnKey \<Rightarrow> string" where
  "columnName ck = (case ckKey ck of None \<Rightarrow> ckColumn ck | Some k \<Rightarrow> ckColumn ck @ ''|'' @ fmtV k)"

definition newIndexFromColumnKeys :: "ColumnKey list \<Rightarrow> string" where
  "newIndexFromColumnKeys cks =
     newIndexFromColumns (fold (\<lambda>ck cols. if columnName ck \<in> set cols then cols else cols @ [columnName ck]) cks [])"

definition newColumnKeysFromColumns :: "string list \<Rightarrow> ColumnKey list" where
  "newColumnKeysFromColumns columns = map (\<lambda>c. \<lparr>ckColumn = c, ckKey = None\<rparr>) columns"

definition valueFromMap :: "any \<Rightarrow> atom \<Rightarrow> any result" where
  "valueFromMap v key =
     (case v of
        VMap k w m \<Rightarrow>
          if atomType key \<noteq> k then Inl (Panic ''reflect: MapIndex'')
          else (case map_of (elems m) key of None \<Rightarrow> Inr (VAtom (zeroAtom w)) | Some x \<Rightarrow> Inr (VAtom x))
      | _ \<Rightarrow> Inl (Errorf ''expected map''))"

definition valueFromColumnKey :: "Info \<Rightarrow> ColumnKey \<Rightarrow> any result" where
  "valueFromColumnKey info ck =
     bindR (FieldByColumn info (ckColumn ck)) (\<lambda>v.
     bindR (case ckKey ck of None \<Rightarrow> Inr v | Some k \<Rightarrow> valueFromMap v k) (\<lambda>v.
       case v of VPtr _ (Some a) \<Rightarrow> Inr (VAtom a) | _ \<Rightarrow> Inr v))"

definition encodable :: "any \<Rightarrow> bool" where
  "encodable v = (case v of VNil \<Rightarrow> False | VPtr _ None \<Rightarrow> False | _ \<Rightarrow> True)"

definition valueFromIndex :: "Info \<Rightarrow> ColumnKey list \<Rightarrow> ivalue result" where
  "valueFromIndex info cks =
     (if length cks > 1 then
        bindR (mapR (valueFromColumnKey info) cks) (\<lambda>vs. Inr (ISeq (map nonNil (filter encodable vs))))
      else case cks of
        [] \<Rightarrow> Inl (Panic ''index out of range'')
      | ck # _ \<Rightarrow> bindR (valueFromColumnKey info ck) (\<lambda>v. Inr (IVal v)))"

text \<open>Use of an index value as a map key.\<close>

definition hashable :: "ivalue \<Rightarrow> ivalue result" where
  "hashable v = (case v of
     IVal (VSlice _ _) \<Rightarrow> Inl (Panic ''hash of unhashable type'')
   | IVal (VMap _ _ _) \<Rightarrow> Inl (Panic ''hash of unhashable type'')
   | _ \<Rightarrow> Inr v)"

definition indexKey :: "Info \<Rightarrow> indexSpec \<Rightarrow> ivalue result" where
  "indexKey info spec = bindR (valueFromIndex info (isColumns spec)) hashable"

section \<open>The cache\<close>

record RowCache =
  rcName :: string
  rcDb :: DatabaseModel
  rcType :: "StructType option"
  rcCache :: "(string, Model) gomap"
  rcSpecs :: "indexSpec list"
  rcIndexes :: columnToValue

definition indexVals :: "RowCache \<Rightarrow> string \<Rightarrow> valueToUUIDs" where
  "indexVals r idx = (case map_of (rcIndexes r) idx of None \<Rightarrow> [] | Some m \<Rightarrow> m)"

definition existing :: "RowCache \<Rightarrow> indexSpec \<Rightarrow> ivalue \<Rightarrow> uuidset" where
  "existing r spec v = usOf (map_of (indexVals r (isIndex spec)) v)"

definition newIndexes :: "indexSpec list \<Rightarrow> columnToValue" where
  "newIndexes specs = fold (\<lambda>s c. AList.update (isIndex s) [] c) specs []"

definition schemaSpecs :: "string list list \<Rightarrow> indexSpec list" where
  "schemaSpecs idxs = map (\<lambda>columns. let cks = newColumnKeysFromColumns columns in
     \<lparr>isIndex = newIndexFromColumnKeys cks, isColumns = cks, isType = schemaIndexType\<rparr>) idxs"

definition addClientSpec :: "ClientIndex \<Rightarrow> indexSpec list \<Rightarrow> indexSpec list" where
  "addClientSpec cks specs =
     (if newIndexFromColumnKeys cks \<in> isIndex ` set specs then specs
      else specs @ [\<lparr>isIndex = newIndexFromColumnKeys cks, isColumns = cks, isType = clientIndexType\<rparr>])"

definition newRowCache :: "string \<Rightarrow> DatabaseModel \<Rightarrow> StructType option \<Rightarrow> RowCache result" where
  "newRowCache name db st =
     (case Table (dbSchema db) name of
        None \<Rightarrow> Inl (Panic ''nil TableSchema'')
      | Some ts \<Rightarrow>
          let specs = fold addClientSpec (ClientIndexes (dbClient db) name) (schemaSpecs (Indexes ts))
          in Inr \<lparr>rcName = name, rcDb = db, rcType = st, rcCache = [], rcSpecs = specs, rcIndexes = newIndexes specs\<rparr>)"

definition rowByUUID :: "RowCache \<Rightarrow> string \<Rightarrow> Model option" where
  "rowByUUID r uuid = map_option Clone (map_of (rcCache r) uuid)"

definition HasRow :: "RowCache \<Rightarrow> string \<Rightarrow> bool" where
  "HasRow r uuid = (map_of (rcCache r) uuid \<noteq> None)"

definition Rows :: "RowCache \<Rightarrow> (string, Model) gomap" where
  "Rows r = map (\<lambda>(k, v). (k, Clone v)) (rcCache r)"

definition RowsShallow :: "RowCache \<Rightarrow> (string, Model) gomap" where
  "RowsShallow r = rcCache r"

definition RowsByUUIDsShallow :: "RowCache \<Rightarrow> string list \<Rightarrow> (string, Model) gomap" where
  "RowsByUUIDsShallow r uuids =
     fold (\<lambda>u res. case map_of (rcCache r) u of None \<Rightarrow> res | Some row \<Rightarrow> AList.update u row res) uuids []"

definition Len :: "RowCache \<Rightarrow> nat" where
  "Len r = length (rcCache r)"

definition IndexOf :: "RowCache \<Rightarrow> string list \<Rightarrow> (ivalue, string list) gomap result" where
  "IndexOf r columns =
     (case map_of (rcIndexes r) (newIndexFromColumns columns) of
        None \<Rightarrow> Inl (Errorf ''is not an index'')
      | Some index \<Rightarrow> Inr (map (\<lambda>(k, v). (k, v)) index))"

text \<open>The conflict of a new index value with the rows that already have it.\<close>

definition conflicts :: "RowCache \<Rightarrow> bool \<Rightarrow> indexSpec \<Rightarrow> ivalue \<Rightarrow> string \<Rightarrow> bool" where
  "conflicts r check spec v uuid =
     (check \<and> isSchemaIndex spec \<and> \<not> usEmpty (existing r spec v) \<and> \<not> usEquals (existing r spec v) (newUUIDSet [uuid]))"

definition ivalueAny :: "ivalue \<Rightarrow> any" where
  "ivalueAny v = (case v of IVal x \<Rightarrow> x | ISeq xs \<Rightarrow> VNil)"

definition indexError :: "RowCache \<Rightarrow> indexSpec \<Rightarrow> ivalue \<Rightarrow> string \<Rightarrow> err" where
  "indexError r spec v uuid = ErrIndexExists (rcName r) (ivalueAny v) (isIndex spec) uuid (existing r spec v)"

text \<open>Writing and removing one entry of an index.\<close>

definition writeIndex :: "string \<Rightarrow> indexSpec \<Rightarrow> ivalue \<Rightarrow> columnToValue \<Rightarrow> columnToValue" where
  "writeIndex uuid spec k idxs =
     (let vals = (case map_of idxs (isIndex spec) of None \<Rightarrow> [] | Some m \<Rightarrow> m);
          v = newUUIDSet [uuid]
      in AList.update (isIndex spec)
           (AList.update k (if isSchemaIndex spec then v else usOf (addUUIDSet (map_of vals k) (Some v))) vals) idxs)"

definition removeIndex :: "string \<Rightarrow> indexSpec \<Rightarrow> ivalue \<Rightarrow> columnToValue \<Rightarrow> columnToValue" where
  "removeIndex uuid spec k idxs =
     (let vals = (case map_of idxs (isIndex spec) of None \<Rightarrow> [] | Some m \<Rightarrow> m);
          s = substractUUIDSet (map_of vals k) (Some (newUUIDSet [uuid]))
      in AList.update (isIndex spec)
           (if usEmpty (usOf s) then AList.delete k vals else AList.update k (usOf s) vals) idxs)"

definition Create :: "string \<Rightarrow> Model \<Rightarrow> bool \<Rightarrow> RowCache \<Rightarrow> RowCache result" where
  "Create uuid m check r =
     (if map_of (rcCache r) uuid \<noteq> None then Inl (ErrCacheInconsistent (rcName r) uuid)
      else if rcType r = None then Inl (Panic ''nil reflect.Type'')
      else if Some (mType m) \<noteq> rcType r then Inl (Errorf ''unexpected data type'')
      else bindR (NewModelInfo (rcDb r) m) (\<lambda>info.
           bindR (mapR (\<lambda>spec. bindR (indexKey info spec) (\<lambda>v.
                    if conflicts r check spec v uuid then Inl (indexError r spec v uuid) else Inr (spec, v))) (rcSpecs r)) (\<lambda>adds.
             Inr (r\<lparr>rcIndexes := fold (\<lambda>(spec, k). writeIndex uuid spec k) adds (rcIndexes r),
                    rcCache := AList.update uuid (Clone m) (rcCache r)\<rparr>))))"

text \<open>
  \<open>Update\<close>: the index entries to add and to remove are computed first, collecting the conflicts; then, index
  by index, the new entry is written and the old one removed. An old entry of a schema index is deleted whatever it holds.
\<close>

definition updateKeys :: "RowCache \<Rightarrow> Info \<Rightarrow> Info \<Rightarrow> indexSpec \<Rightarrow> (indexSpec \<times> ivalue \<times> ivalue) result" where
  "updateKeys r oldInfo newInfo spec =
     bindR (valueFromIndex oldInfo (isColumns spec)) (\<lambda>oldVal.
     bindR (valueFromIndex newInfo (isColumns spec)) (\<lambda>newVal.
     bindR (hashable oldVal) (\<lambda>oldVal. bindR (hashable newVal) (\<lambda>newVal. Inr (spec, oldVal, newVal)))))"

definition dropIndex :: "string \<Rightarrow> indexSpec \<Rightarrow> ivalue \<Rightarrow> columnToValue \<Rightarrow> columnToValue" where
  "dropIndex uuid spec k idxs =
     (if isSchemaIndex spec
      then AList.update (isIndex spec) (AList.delete k (case map_of idxs (isIndex spec) of None \<Rightarrow> [] | Some m \<Rightarrow> m)) idxs
      else removeIndex uuid spec k idxs)"

definition changedFor :: "indexSpec \<Rightarrow> indexSpec \<times> ivalue \<times> ivalue \<Rightarrow> bool" where
  "changedFor spec e = (isIndex (fst e) = isIndex spec \<and> fst (snd e) \<noteq> snd (snd e))"

definition moveIndex :: "string \<Rightarrow> (indexSpec \<times> ivalue \<times> ivalue) list \<Rightarrow> indexSpec \<Rightarrow> columnToValue \<Rightarrow> columnToValue" where
  "moveIndex uuid ks spec idxs =
     (let es = filter (changedFor spec) ks
      in fold (\<lambda>(s, old, new). dropIndex uuid spec old) es (fold (\<lambda>(s, old, new). writeIndex uuid spec new) es idxs))"

definition UpdateRow :: "string \<Rightarrow> Model \<Rightarrow> bool \<Rightarrow> RowCache \<Rightarrow> (RowCache \<times> Model) result" where
  "UpdateRow uuid m check r =
     (case map_of (rcCache r) uuid of
        None \<Rightarrow> Inl (ErrCacheInconsistent (rcName r) uuid)
      | Some oldRow \<Rightarrow>
          bindR (NewModelInfo (rcDb r) (Clone oldRow)) (\<lambda>oldInfo.
          bindR (NewModelInfo (rcDb r) m) (\<lambda>newInfo.
          bindR (mapR (updateKeys r oldInfo newInfo) (rcSpecs r)) (\<lambda>ks.
            if list_ex (\<lambda>(spec, oldVal, newVal). oldVal \<noteq> newVal \<and> conflicts r check spec newVal uuid) ks
            then Inl (Errorf ''index exists'')
            else Inr (r\<lparr>rcIndexes := fold (moveIndex uuid ks) (rcSpecs r) (rcIndexes r),
                        rcCache := AList.update uuid (Clone m) (rcCache r)\<rparr>, Clone oldRow)))))"

definition DeleteRow :: "string \<Rightarrow> RowCache \<Rightarrow> RowCache result" where
  "DeleteRow uuid r =
     (case map_of (rcCache r) uuid of
        None \<Rightarrow> Inl (ErrCacheInconsistent (rcName r) uuid)
      | Some oldRow \<Rightarrow>
          bindR (NewModelInfo (rcDb r) oldRow) (\<lambda>oldInfo.
          bindR (mapR (\<lambda>spec. bindR (indexKey oldInfo spec) (\<lambda>v. Inr (spec, v))) (rcSpecs r)) (\<lambda>rems.
            Inr (r\<lparr>rcIndexes := fold (\<lambda>(spec, k). removeIndex uuid spec k) rems (rcIndexes r),
                   rcCache := AList.delete uuid (rcCache r)\<rparr>))))"

definition existsConflict :: "RowCache \<Rightarrow> Info \<Rightarrow> string \<Rightarrow> indexSpec \<Rightarrow> unit result" where
  "existsConflict r info uuid spec =
     (case valueFromIndex info (isColumns spec) of
        Inl (Panic s) \<Rightarrow> Inl (Panic s)
      | Inl _ \<Rightarrow> Inr ()
      | Inr v \<Rightarrow> bindR (hashable v) (\<lambda>v.
          if conflicts r True spec v uuid then Inl (indexError r spec v uuid) else Inr ()))"

definition stringField :: "any \<Rightarrow> string result" where
  "stringField v = (case v of VAtom (AStr s) \<Rightarrow> Inr s | _ \<Rightarrow> Inl (Panic ''interface conversion''))"

definition IndexExists :: "RowCache \<Rightarrow> Model \<Rightarrow> unit result" where
  "IndexExists r row =
     bindR (NewModelInfo (rcDb r) row) (\<lambda>info.
       case FieldByColumn info ''_uuid'' of
         Inl (Panic s) \<Rightarrow> Inl (Panic s)
       | Inl _ \<Rightarrow> Inr ()
       | Inr field \<Rightarrow> bindR (stringField field) (\<lambda>uuid.
           foldR (\<lambda>_ spec. existsConflict r info uuid spec) () (takeWhile isSchemaIndex (rcSpecs r))))"

section \<open>Searching by models\<close>

fun searchSpecs :: "RowCache \<Rightarrow> Info \<Rightarrow> bool \<Rightarrow> (string, Model option) gomap \<Rightarrow> indexSpec list \<Rightarrow> (string, Model option) gomap result" where
  "searchSpecs r info useClient results [] = Inr results"
| "searchSpecs r info useClient results (spec # specs) =
     (if isClientIndex spec \<and> \<not> useClient then Inr results
      else case valueFromIndex info (isColumns spec) of
        Inl (Panic s) \<Rightarrow> Inl (Panic s)
      | Inl _ \<Rightarrow> searchSpecs r info useClient results specs
      | Inr v \<Rightarrow> bindR (hashable v) (\<lambda>v.
          case map_of (indexVals r (isIndex spec)) v of
            None \<Rightarrow> searchSpecs r info useClient results specs
          | Some uuids \<Rightarrow> Inr (fold (\<lambda>u res. if map_of res u = None then AList.update u (rowByUUID r u) res else res) uuids results)))"

definition rowsByModelStep :: "RowCache \<Rightarrow> bool \<Rightarrow> (string, Model option) gomap \<Rightarrow> Model \<Rightarrow> (string, Model option) gomap result" where
  "rowsByModelStep r useClient results m =
     (if Some (mType m) \<noteq> rcType r then Inl (Errorf ''model type did not match expected row type'')
      else case NewModelInfo (rcDb r) m of
        Inl _ \<Rightarrow> Inl (Panic ''nil pointer dereference'')
      | Inr info \<Rightarrow>
          bindR (FieldByColumn info ''_uuid'') (\<lambda>field. bindR (stringField field) (\<lambda>uuid.
            if uuid \<noteq> [] \<and> map_of results uuid = None \<and> rowByUUID r uuid \<noteq> None
            then Inr (AList.update uuid (rowByUUID r uuid) results)
            else searchSpecs r info useClient results (rcSpecs r))))"

definition rowsByModels :: "RowCache \<Rightarrow> Model list \<Rightarrow> bool \<Rightarrow> (string, Model option) gomap result" where
  "rowsByModels r models useClient = foldR (rowsByModelStep r useClient) [] models"

definition RowByModel :: "RowCache \<Rightarrow> Model \<Rightarrow> (string \<times> Model option) result" where
  "RowByModel r m =
     bindR (rowsByModels r [m] False) (\<lambda>ms. case ms of [] \<Rightarrow> Inr ([], None) | (uuid, x) # _ \<Rightarrow> Inr (uuid, x))"

definition RowsByModels :: "RowCache \<Rightarrow> Model list \<Rightarrow> (string, Model option) gomap result" where
  "RowsByModels r models = rowsByModels r models True"

section \<open>Searching by conditions\<close>

record indexableCondition =
  icColumn :: string
  icKeys :: "atom list"
  icValue :: any

definition toIndexableCondition :: "Condition \<Rightarrow> any \<Rightarrow> indexableCondition option" where
  "toIndexableCondition c v =
     (if cColumn c = ''_uuid'' then None
      else if cFunction c \<noteq> ConditionEqual \<and> cFunction c \<noteq> ConditionIncludes then None
      else if v = VNil then None
      else if cFunction c = ConditionIncludes \<and> kindOf v = KSlice then None
      else Some \<lparr>icColumn = cColumn c,
                 icKeys = (case v of VMap _ _ m \<Rightarrow> if cFunction c = ConditionIncludes then keys (elems m) else [] | _ \<Rightarrow> []),
                 icValue = v\<rparr>)"

definition conditionKeys :: "indexableCondition \<Rightarrow> ColumnKey list" where
  "conditionKeys ic =
     (if icKeys ic = [] then [\<lparr>ckColumn = icColumn ic, ckKey = None\<rparr>]
      else map (\<lambda>k. \<lparr>ckColumn = icColumn ic, ckKey = Some k\<rparr>) (icKeys ic))"

definition indexMatchesConditions :: "indexSpec \<Rightarrow> indexableCondition list \<Rightarrow> bool" where
  "indexMatchesConditions spec ics = (newIndexFromColumnKeys (concat (map conditionKeys ics)) = isIndex spec)"

fun evaluateSpecs :: "RowCache \<Rightarrow> Info \<Rightarrow> indexableCondition list \<Rightarrow> indexSpec list \<Rightarrow> uuidset option result" where
  "evaluateSpecs r info ics [] = Inr None"
| "evaluateSpecs r info ics (spec # specs) =
     (if \<not> indexMatchesConditions spec ics then evaluateSpecs r info ics specs
      else bindR (valueFromIndex info (isColumns spec)) (\<lambda>v.
        if v = IVal VNil then evaluateSpecs r info ics specs
        else bindR (hashable v) (\<lambda>v. Inr (Some (usOf (map_of (indexVals r (isIndex spec)) v))))))"

definition evaluateConditionSetAsIndex :: "RowCache \<Rightarrow> indexableCondition list \<Rightarrow> uuidset option result" where
  "evaluateConditionSetAsIndex r ics =
     bindR (NewModel (rcDb r) (rcName r)) (\<lambda>m.
     bindR (NewModelInfo (rcDb r) m) (\<lambda>info.
     bindR (foldR (\<lambda>info ic. SetField info (icColumn ic) (icValue ic)) info ics) (\<lambda>info.
       evaluateSpecs r info ics (rcSpecs r))))"

text \<open>The candidates found so far, and whether the search is over.\<close>

definition intersectUUIDsFromConditionSet :: "RowCache \<Rightarrow> uuidset option \<Rightarrow> indexableCondition list \<Rightarrow> (uuidset option \<times> bool) result" where
  "intersectUUIDsFromConditionSet r matching ics =
     bindR (evaluateConditionSetAsIndex r ics) (\<lambda>uuids.
       let matching' = (if matching = None then uuids else if uuids \<noteq> None then intersectUUIDSets matching uuids else matching)
       in Inr (matching', matching' \<noteq> None \<and> length (usOf matching') \<le> 1))"

fun evaluateSubsets ::
  "RowCache \<Rightarrow> indexableCondition \<Rightarrow> uuidset option \<Rightarrow> indexableCondition list list \<Rightarrow> (uuidset option \<times> bool) result" where
  "evaluateSubsets r ic matching [] = Inr (matching, False)"
| "evaluateSubsets r ic matching (s # ss) =
     bindR (intersectUUIDsFromConditionSet r matching (s @ [ic])) (\<lambda>(matching', stop).
       if stop then Inr (matching', True) else evaluateSubsets r ic matching' ss)"

fun powerSetLoop ::
  "RowCache \<Rightarrow> indexableCondition list list \<Rightarrow> uuidset option \<Rightarrow> (Condition \<times> any) list \<Rightarrow> uuidset option result" where
  "powerSetLoop r ps matching [] = Inr matching"
| "powerSetLoop r ps matching ((c, v) # cs) =
     (case toIndexableCondition c v of
        None \<Rightarrow> powerSetLoop r ps matching cs
      | Some ic \<Rightarrow>
          bindR (evaluateSubsets r ic matching ps) (\<lambda>(matching', stop).
            if stop then Inr matching' else powerSetLoop r (ps @ map (\<lambda>s. s @ [ic]) ps) matching' cs))"

definition uuidsByConditionsAsIndexes :: "RowCache \<Rightarrow> Condition list \<Rightarrow> any list \<Rightarrow> uuidset option result" where
  "uuidsByConditionsAsIndexes r conditions nativeValues = powerSetLoop r [[]] None (zip conditions nativeValues)"

definition matchCondition :: "RowCache \<Rightarrow> Condition \<Rightarrow> any \<Rightarrow> uuidset \<Rightarrow> string \<Rightarrow> uuidset result" where
  "matchCondition r c v matched uuid =
     bindR (modelInfo (rcDb r) (map_of (rcCache r) uuid)) (\<lambda>info.
     bindR (FieldByColumn info (cColumn c)) (\<lambda>val.
     bindR (Evaluate (cFunction c) val v) (\<lambda>ok. Inr (if ok then add uuid matched else matched))))"

definition conditionMatches :: "RowCache \<Rightarrow> uuidset option \<Rightarrow> Condition \<Rightarrow> any \<Rightarrow> uuidset result" where
  "conditionMatches r matching c v =
     (if cColumn c = ''_uuid'' \<and> (cFunction c = ConditionEqual \<or> cFunction c = ConditionIncludes)
      then bindR (stringField v) (\<lambda>uuid. Inr (if HasRow r uuid then [uuid] else []))
      else foldR (matchCondition r c v) [] (case matching of Some us \<Rightarrow> us | None \<Rightarrow> keys (rcCache r)))"

fun conditionLoop :: "RowCache \<Rightarrow> uuidset option \<Rightarrow> (Condition \<times> any) list \<Rightarrow> uuidset option result" where
  "conditionLoop r matching [] = Inr matching"
| "conditionLoop r matching ((c, v) # cs) =
     bindR (conditionMatches r matching c v) (\<lambda>mc.
       let matching' = (if matching = None then Some mc else intersectUUIDSets matching (Some mc))
       in if usEmpty (usOf matching') then Inr matching' else conditionLoop r matching' cs)"

definition nativeConditionValue :: "RowCache \<Rightarrow> Condition \<Rightarrow> any result" where
  "nativeConditionValue r c =
     (case Table (dbSchema (rcDb r)) (rcName r) of
        None \<Rightarrow> Inl (Panic ''nil TableSchema'')
      | Some ts \<Rightarrow> (case Column ts (cColumn c) of
          None \<Rightarrow> Inl (Panic ''nil ColumnSchema'')
        | Some col \<Rightarrow> OvsToNative col (cValue c)))"

definition RowsByCondition :: "RowCache \<Rightarrow> Condition list \<Rightarrow> (string, Model option) gomap result" where
  "RowsByCondition r conditions =
     (if conditions = [] then Inr (map (\<lambda>(u, _). (u, rowByUUID r u)) (rcCache r))
      else bindR (mapR (nativeConditionValue r) conditions) (\<lambda>nativeValues.
           bindR (uuidsByConditionsAsIndexes r conditions nativeValues) (\<lambda>matching.
           bindR (conditionLoop r matching (zip conditions nativeValues)) (\<lambda>matching.
             Inr (map (\<lambda>u. (u, rowByUUID r u)) (usOf matching))))))"

section \<open>What an index holds\<close>

definition lookup :: "indexSpec \<Rightarrow> columnToValue \<Rightarrow> ivalue \<Rightarrow> uuidset option" where
  "lookup spec idxs = map_of (case map_of idxs (isIndex spec) of None \<Rightarrow> [] | Some m \<Rightarrow> m)"

text \<open>An index tracks a relation from rows to values: each value lists exactly its rows, and no value lists none.\<close>

definition tracks :: "(ivalue \<Rightarrow> uuidset option) \<Rightarrow> (string \<Rightarrow> ivalue option) \<Rightarrow> bool" where
  "tracks L R = (\<forall>v. distinct (usOf (L v)) \<and> set (usOf (L v)) = {u. R u = Some v} \<and> L v \<noteq> Some [])"

text \<open>
  The contract of one index as its operations see it: writing an entry adds the row to its value and dropping an
  entry removes it, the other values stay. A unique index promises so only while no other row has the value.
\<close>

locale index_store =
  fixes look :: "'i \<Rightarrow> ivalue \<Rightarrow> uuidset option"
    and put :: "string \<Rightarrow> ivalue \<Rightarrow> 'i \<Rightarrow> 'i"
    and del :: "string \<Rightarrow> ivalue \<Rightarrow> 'i \<Rightarrow> 'i"
    and unique :: bool
  assumes put_other: "k' \<noteq> k \<Longrightarrow> look (put u k i) k' = look i k'"
    and put_same: "distinct (usOf (look i k)) \<Longrightarrow> \<not> unique \<or> set (usOf (look i k)) \<subseteq> {u}
      \<Longrightarrow> distinct (usOf (look (put u k i) k)) \<and> set (usOf (look (put u k i) k)) = insert u (set (usOf (look i k)))"
    and del_other: "k' \<noteq> k \<Longrightarrow> look (del u k i) k' = look i k'"
    and del_same: "distinct (usOf (look i k)) \<Longrightarrow> \<not> unique \<or> set (usOf (look i k)) \<subseteq> {u} \<Longrightarrow> look i k \<noteq> Some []
      \<Longrightarrow> distinct (usOf (look (del u k i) k)) \<and> set (usOf (look (del u k i) k)) = set (usOf (look i k)) - {u}
        \<and> look (del u k i) k \<noteq> Some []"
begin

lemma tracks_put:
  assumes "tracks (look i) R" "R u = None" "unique \<Longrightarrow> \<forall>u'. R u' \<noteq> Some k"
  shows "tracks (look (put u k i)) (R(u \<mapsto> k))"
proof -
  have i: "distinct (usOf (look i v))" "set (usOf (look i v)) = {u. R u = Some v}" "look i v \<noteq> Some []" for v
    using assms(1) by (auto simp: tracks_def)
  have "\<not> unique \<or> set (usOf (look i k)) \<subseteq> {u}" using assms(3) i(2) by auto
  note p = put_same [OF i(1) this]
  show ?thesis unfolding tracks_def
  proof (intro allI)
    fix v
    show "distinct (usOf (look (put u k i) v)) \<and> set (usOf (look (put u k i) v)) = {w. (R(u \<mapsto> k)) w = Some v} \<and> look (put u k i) v \<noteq> Some []"
    proof (cases "v = k")
      case True
      have "set (usOf (look (put u k i) k)) = insert u {w. R w = Some k}" using p i(2) by simp
      moreover from this have "look (put u k i) k \<noteq> Some []" by auto
      ultimately show ?thesis using True p by auto
    next
      case False
      then show ?thesis using put_other [OF False] i assms(2) by auto
    qed
  qed
qed

lemma tracks_del:
  assumes "tracks (look i) R" "R u = Some k" "unique \<Longrightarrow> \<forall>u'. R u' = Some k \<longrightarrow> u' = u"
  shows "tracks (look (del u k i)) (R(u := None))"
proof -
  have i: "distinct (usOf (look i v))" "set (usOf (look i v)) = {u. R u = Some v}" "look i v \<noteq> Some []" for v
    using assms(1) by (auto simp: tracks_def)
  have "\<not> unique \<or> set (usOf (look i k)) \<subseteq> {u}" using assms(3) i(2) by auto
  note p = del_same [OF i(1) this i(3)]
  show ?thesis unfolding tracks_def
  proof (intro allI)
    fix v
    show "distinct (usOf (look (del u k i) v)) \<and> set (usOf (look (del u k i) v)) = {w. (R(u := None)) w = Some v} \<and> look (del u k i) v \<noteq> Some []"
    proof (cases "v = k")
      case True
      then show ?thesis using p i(2) [of k] by auto
    next
      case False
      then show ?thesis using del_other [OF False] i assms(2) by auto
    qed
  qed
qed

text \<open>A row that moves from one value to another: the new entry is written before the old one is dropped.\<close>

lemma tracks_move:
  assumes "tracks (look i) R" "R u = Some old" "old \<noteq> new"
    and "unique \<Longrightarrow> (\<forall>u'. R u' \<noteq> Some new) \<and> (\<forall>u'. R u' = Some old \<longrightarrow> u' = u)"
  shows "tracks (look (del u old (put u new i))) (R(u \<mapsto> new))"
proof -
  have i: "distinct (usOf (look i v))" "set (usOf (look i v)) = {u. R u = Some v}" "look i v \<noteq> Some []" for v
    using assms(1) by (auto simp: tracks_def)
  have un: "\<not> unique \<or> set (usOf (look i new)) \<subseteq> {u}" "\<not> unique \<or> set (usOf (look i old)) \<subseteq> {u}" using assms(4) i(2) by auto
  note p = put_same [OF i(1) un(1)]
  have o: "look (put u new i) old = look i old" using put_other assms(3) by simp
  note d = del_same [of "put u new i" old u, unfolded o, OF i(1) un(2) i(3)]
  show ?thesis unfolding tracks_def
  proof (intro allI)
    fix v
    consider "v = old" | "v = new" | "v \<noteq> old" "v \<noteq> new" by blast
    then show "distinct (usOf (look (del u old (put u new i)) v)) \<and> set (usOf (look (del u old (put u new i)) v)) = {w. (R(u \<mapsto> new)) w = Some v}
        \<and> look (del u old (put u new i)) v \<noteq> Some []"
    proof cases
      case 1
      then show ?thesis using d i(2) [of old] assms(3) by auto
    next
      case 2
      have "look (del u old (put u new i)) new = look (put u new i) new" using del_other assms(3) by simp
      moreover have "set (usOf (look (put u new i) new)) = insert u {w. R w = Some new}" using p i(2) by simp
      moreover from this have "look (put u new i) new \<noteq> Some []" by auto
      ultimately show ?thesis using 2 p by auto
    next
      case 3
      have "look (del u old (put u new i)) v = look i v" using 3 del_other put_other by simp
      then show ?thesis using i 3 assms(2) by auto
    qed
  qed
qed

end

lemma lookup_write:
  "lookup spec (writeIndex u spec k i) = (lookup spec i)(k \<mapsto> if isSchemaIndex spec then [u] else usOf (addUUIDSet (lookup spec i k) (Some [u])))"
  by (simp add: lookup_def writeIndex_def Let_def)

lemma lookup_remove:
  "lookup spec (removeIndex u spec k i) = (lookup spec i)(k :=
     (if usEmpty (usOf (substractUUIDSet (lookup spec i k) (Some [u]))) then None else Some (usOf (substractUUIDSet (lookup spec i k) (Some [u])))))"
  by (simp add: lookup_def removeIndex_def Let_def)

lemma lookup_drop:
  "lookup spec (dropIndex u spec k i) = (if isSchemaIndex spec then (lookup spec i)(k := None) else lookup spec (removeIndex u spec k i))"
  by (simp add: lookup_def dropIndex_def)

lemma lookup_other:
  assumes "isIndex spec' \<noteq> isIndex spec"
  shows "lookup spec' (writeIndex u spec k i) = lookup spec' i" "lookup spec' (removeIndex u spec k i) = lookup spec' i"
    "lookup spec' (dropIndex u spec k i) = lookup spec' i"
  using assms by (simp_all add: lookup_def writeIndex_def removeIndex_def dropIndex_def Let_def)

lemma usOf_add1: "distinct (usOf s) \<Longrightarrow> distinct (usOf (addUUIDSet s (Some [u]))) \<and> set (usOf (addUUIDSet s (Some [u]))) = insert u (set (usOf s))"
  using us.union [of s "Some [u]"] by simp

lemma usOf_sub1: "distinct (usOf s) \<Longrightarrow> distinct (usOf (substractUUIDSet s (Some [u]))) \<and> set (usOf (substractUUIDSet s (Some [u]))) = set (usOf s) - {u}"
  using us.minus [of s "Some [u]"] by simp

lemma nonEmpty_simps: "usOf (if usEmpty x then None else Some x) = x" "(if usEmpty x then None else Some x) \<noteq> Some []"
  by (auto simp: usEmpty_def)

lemma remove_same:
  assumes "distinct (usOf (lookup spec i k))"
  shows "distinct (usOf (lookup spec (removeIndex u spec k i) k)) \<and> set (usOf (lookup spec (removeIndex u spec k i) k)) = set (usOf (lookup spec i k)) - {u}
      \<and> lookup spec (removeIndex u spec k i) k \<noteq> Some []"
  unfolding lookup_remove fun_upd_same nonEmpty_simps(1) using usOf_sub1 [OF assms, of u] nonEmpty_simps(2) by blast

interpretation idx: index_store "lookup spec" "\<lambda>u k. writeIndex u spec k" "\<lambda>u k. dropIndex u spec k" "isSchemaIndex spec" for spec
proof
  fix k' k :: ivalue and u i
  show "k' \<noteq> k \<Longrightarrow> lookup spec (writeIndex u spec k i) k' = lookup spec i k'"
    "k' \<noteq> k \<Longrightarrow> lookup spec (dropIndex u spec k i) k' = lookup spec i k'"
    by (simp_all add: lookup_write lookup_drop lookup_remove)
  assume d: "distinct (usOf (lookup spec i k))" and s: "\<not> isSchemaIndex spec \<or> set (usOf (lookup spec i k)) \<subseteq> {u}"
  show "distinct (usOf (lookup spec (writeIndex u spec k i) k)) \<and> set (usOf (lookup spec (writeIndex u spec k i) k)) = insert u (set (usOf (lookup spec i k)))"
    using usOf_add1 [OF d] s by (auto simp: lookup_write)
  show "distinct (usOf (lookup spec (dropIndex u spec k i) k)) \<and> set (usOf (lookup spec (dropIndex u spec k i) k)) = set (usOf (lookup spec i k)) - {u}
      \<and> lookup spec (dropIndex u spec k i) k \<noteq> Some []"
    using remove_same [OF d] s by (cases "isSchemaIndex spec") (auto simp: lookup_drop)
qed

interpretation rem: index_store "lookup spec" "\<lambda>u k. writeIndex u spec k" "\<lambda>u k. removeIndex u spec k" "isSchemaIndex spec" for spec
proof
  fix k' k :: ivalue and u i
  show "k' \<noteq> k \<Longrightarrow> lookup spec (writeIndex u spec k i) k' = lookup spec i k'"
    "k' \<noteq> k \<Longrightarrow> lookup spec (removeIndex u spec k i) k' = lookup spec i k'"
    by (simp_all add: lookup_write lookup_remove)
  assume d: "distinct (usOf (lookup spec i k))" and s: "\<not> isSchemaIndex spec \<or> set (usOf (lookup spec i k)) \<subseteq> {u}"
  show "distinct (usOf (lookup spec (writeIndex u spec k i) k)) \<and> set (usOf (lookup spec (writeIndex u spec k i) k)) = insert u (set (usOf (lookup spec i k)))"
    using usOf_add1 [OF d] s by (auto simp: lookup_write)
  show "distinct (usOf (lookup spec (removeIndex u spec k i) k)) \<and> set (usOf (lookup spec (removeIndex u spec k i) k)) = set (usOf (lookup spec i k)) - {u}
      \<and> lookup spec (removeIndex u spec k i) k \<noteq> Some []"
    by (rule remove_same [OF d])
qed

section \<open>The invariant of the row cache\<close>

definition rowKey :: "DatabaseModel \<Rightarrow> indexSpec \<Rightarrow> Model \<Rightarrow> ivalue option" where
  "rowKey db spec m = (case NewModelInfo db m of Inl _ \<Rightarrow> None
     | Inr i \<Rightarrow> (case indexKey i spec of Inl _ \<Rightarrow> None | Inr v \<Rightarrow> Some v))"

definition relOf :: "RowCache \<Rightarrow> indexSpec \<Rightarrow> string \<Rightarrow> ivalue option" where
  "relOf r spec u = (case map_of (rcCache r) u of None \<Rightarrow> None | Some m \<Rightarrow> rowKey (rcDb r) spec m)"

definition uniqueOn :: "(string \<Rightarrow> ivalue option) \<Rightarrow> bool" where
  "uniqueOn R = (\<forall>u u' v. R u = Some v \<longrightarrow> R u' = Some v \<longrightarrow> u = u')"

definition rcInv :: "RowCache \<Rightarrow> bool" where
  "rcInv r = (gm_ok (rcCache r) \<and> distinct (map isIndex (rcSpecs r)) \<and>
     (\<forall>spec \<in> set (rcSpecs r). tracks (lookup spec (rcIndexes r)) (relOf r spec)
        \<and> (isSchemaIndex spec \<longrightarrow> uniqueOn (relOf r spec))))"

text \<open>No other row has a schema index value of the model: what \<open>checkIndexes\<close> makes sure of.\<close>

definition noClash :: "RowCache \<Rightarrow> string \<Rightarrow> Model \<Rightarrow> bool" where
  "noClash r uuid m = (\<forall>spec \<in> set (rcSpecs r). isSchemaIndex spec \<longrightarrow>
     (\<forall>u v. u \<noteq> uuid \<longrightarrow> relOf r spec u = Some v \<longrightarrow> rowKey (rcDb r) spec m \<noteq> Some v))"

lemma fold_local:
  assumes "distinct (map nm xs)" "x \<in> set xs"
    and other: "\<And>y i. y \<in> set xs \<Longrightarrow> nm y \<noteq> nm x \<Longrightarrow> L (f y i) = L i"
    and cong: "\<And>i j. L i = L j \<Longrightarrow> L (f x i) = L (f x j)"
  shows "L (fold f xs i) = L (f x i)"
proof -
  obtain ys zs where xs: "xs = ys @ x # zs" using assms(2) by (auto simp: in_set_conv_decomp)
  have idle: "L (fold f ws j) = L j" if "set ws \<subseteq> set xs" "nm x \<notin> nm ` set ws" for ws j
    using that by (induction ws arbitrary: j) (auto simp: other)
  have "nm x \<notin> nm ` set ys" "nm x \<notin> nm ` set zs" using assms(1) xs by auto
  then have "L (fold f ys i) = L i" "L (fold f zs j) = L j" for j using idle xs by auto
  then show ?thesis using cong [of "fold f ys i" i] by (simp add: xs)
qed

lemma lookup_cong:
  assumes "lookup spec i = lookup spec j"
  shows "lookup spec (writeIndex u spec k i) = lookup spec (writeIndex u spec k j)"
    "lookup spec (removeIndex u spec k i) = lookup spec (removeIndex u spec k j)"
    "lookup spec (dropIndex u spec k i) = lookup spec (dropIndex u spec k j)"
  by (simp_all add: lookup_write lookup_drop lookup_remove assms)

lemma fold_entries:
  assumes "distinct (map (isIndex \<circ> fst) adds)" "(spec, k) \<in> set adds"
    and other: "\<And>s k i. isIndex spec \<noteq> isIndex s \<Longrightarrow> lookup spec (f s k i) = lookup spec i"
    and cong: "\<And>i j. lookup spec i = lookup spec j \<Longrightarrow> lookup spec (f spec k i) = lookup spec (f spec k j)"
  shows "lookup spec (fold (\<lambda>(s, k). f s k) adds i) = lookup spec (f spec k i)"
proof -
  have "lookup spec (fold (\<lambda>(s, k). f s k) adds i) = lookup spec ((\<lambda>(s, k). f s k) (spec, k) i)"
  proof (rule fold_local [OF assms(1,2)])
    show "lookup spec ((\<lambda>(s, k). f s k) y i) = lookup spec i" if "(isIndex \<circ> fst) y \<noteq> (isIndex \<circ> fst) (spec, k)" for y i
      using that by (cases y) (simp add: other)
    show "lookup spec ((\<lambda>(s, k). f s k) (spec, k) i) = lookup spec ((\<lambda>(s, k). f s k) (spec, k) j)" if "lookup spec i = lookup spec j" for i j
      using cong [OF that] by simp
  qed
  then show ?thesis by simp
qed

lemma relOf_update:
  assumes "rcDb r' = rcDb r" "rcCache r' = AList.update uuid m (rcCache r)"
  shows "relOf r' spec = (relOf r spec)(uuid := rowKey (rcDb r) spec m)"
  using assms by (auto simp: relOf_def fun_eq_iff split: option.split)

lemma uniqueOn_upd: "uniqueOn R \<Longrightarrow> (\<And>u'. u' \<noteq> u \<Longrightarrow> R u' \<noteq> Some k) \<Longrightarrow> uniqueOn (R(u \<mapsto> k))"
  unfolding uniqueOn_def by (metis fun_upd_apply option.inject)

lemma uniqueOn_del: "uniqueOn R \<Longrightarrow> uniqueOn (R(u := None))"
  unfolding uniqueOn_def by (metis fun_upd_apply option.distinct(1))

lemma other_member: "S \<noteq> {} \<Longrightarrow> S \<noteq> {a} \<Longrightarrow> \<exists>u. u \<in> S \<and> u \<noteq> a"
  by auto

lemma no_conflict:
  assumes "tracks (lookup spec (rcIndexes r)) (relOf r spec)" "\<not> conflicts r True spec v uuid" "isSchemaIndex spec"
    and "relOf r spec u = Some v"
  shows "u = uuid"
proof -
  have ex: "existing r spec v = usOf (lookup spec (rcIndexes r) v)" by (simp add: existing_def lookup_def indexVals_def)
  have d: "distinct (existing r spec v)" "set (existing r spec v) = {u. relOf r spec u = Some v}"
    using assms(1) ex by (auto simp: tracks_def)
  then have "u \<in> set (existing r spec v)" using assms(4) by simp
  then have "usEquals (existing r spec v) [uuid]"
    using assms(2,3) by (auto simp: conflicts_def usEmpty_def)
  then have "set (existing r spec v) = {uuid}" using usEquals_iff [OF d(1), of "[uuid]"] by simp
  then show ?thesis using d(2) assms(4) by auto
qed

lemma mapR_mem: "mapR f xs = Inr ys \<Longrightarrow> x \<in> set xs \<Longrightarrow> \<exists>y \<in> set ys. f x = Inr y"
  by (induction xs arbitrary: ys) (auto simp: resR)

lemma mapR_map: "mapR f xs = Inr ys \<Longrightarrow> (\<And>x y. x \<in> set xs \<Longrightarrow> f x = Inr y \<Longrightarrow> g y = h x) \<Longrightarrow> map g ys = map h xs"
  by (induction xs arbitrary: ys) (auto simp: resR)

lemma Create_spec:
  assumes "Create uuid m check r = Inr r'"
  obtains adds where "map_of (rcCache r) uuid = None" "rcDb r' = rcDb r" "rcSpecs r' = rcSpecs r" "rcName r' = rcName r" "rcType r' = rcType r"
    "rcType r = Some (mType m)" "rcCache r' = AList.update uuid m (rcCache r)"
    "rcIndexes r' = fold (\<lambda>(spec, k). writeIndex uuid spec k) adds (rcIndexes r)"
    "map fst adds = rcSpecs r"
    "\<And>spec. spec \<in> set (rcSpecs r) \<Longrightarrow> \<exists>k. (spec, k) \<in> set adds \<and> rowKey (rcDb r) spec m = Some k \<and> \<not> conflicts r check spec k uuid"
proof -
  obtain info adds where a: "NewModelInfo (rcDb r) m = Inr info" "map_of (rcCache r) uuid = None" "rcType r = Some (mType m)"
      "mapR (\<lambda>spec. bindR (indexKey info spec) (\<lambda>v. if conflicts r check spec v uuid then Inl (indexError r spec v uuid) else Inr (spec, v))) (rcSpecs r) = Inr adds"
      "r' = r\<lparr>rcIndexes := fold (\<lambda>(spec, k). writeIndex uuid spec k) adds (rcIndexes r), rcCache := AList.update uuid (Clone m) (rcCache r)\<rparr>"
    using assms by (auto simp: Create_def resR split: if_splits)
  have "map fst adds = map (\<lambda>x. x) (rcSpecs r)"
    by (rule mapR_map [OF a(4)]) (auto simp: resR split: if_splits)
  moreover have "\<exists>k. (spec, k) \<in> set adds \<and> rowKey (rcDb r) spec m = Some k \<and> \<not> conflicts r check spec k uuid" if "spec \<in> set (rcSpecs r)" for spec
    using mapR_mem [OF a(4) that] a(1) by (auto simp: rowKey_def resR split: if_splits)
  ultimately show thesis using a by (intro that [of adds]) (simp_all add: Clone_def)
qed

lemma Create_inv:
  assumes "rcInv r" "Create uuid m check r = Inr r'" "check \<or> noClash r uuid m"
  shows "rcInv r'"
proof -
  obtain adds where c: "map_of (rcCache r) uuid = None" "rcDb r' = rcDb r" "rcSpecs r' = rcSpecs r"
    "rcCache r' = AList.update uuid m (rcCache r)" "rcIndexes r' = fold (\<lambda>(spec, k). writeIndex uuid spec k) adds (rcIndexes r)"
    "map fst adds = rcSpecs r"
    "\<And>spec. spec \<in> set (rcSpecs r) \<Longrightarrow> \<exists>k. (spec, k) \<in> set adds \<and> rowKey (rcDb r) spec m = Some k \<and> \<not> conflicts r check spec k uuid"
    by (rule Create_spec [OF assms(2)]) (rule that)
  have inv: "gm_ok (rcCache r)" "distinct (map isIndex (rcSpecs r))"
    "\<And>spec. spec \<in> set (rcSpecs r) \<Longrightarrow> tracks (lookup spec (rcIndexes r)) (relOf r spec) \<and> (isSchemaIndex spec \<longrightarrow> uniqueOn (relOf r spec))"
    using assms(1) by (auto simp: rcInv_def)
  have dn: "distinct (map (isIndex \<circ> fst) adds)" using inv(2) c(6) by (metis map_map)
  have "tracks (lookup spec (rcIndexes r')) (relOf r' spec) \<and> (isSchemaIndex spec \<longrightarrow> uniqueOn (relOf r' spec))" if sp: "spec \<in> set (rcSpecs r)" for spec
  proof -
    obtain k where k: "(spec, k) \<in> set adds" "rowKey (rcDb r) spec m = Some k" "\<not> conflicts r check spec k uuid"
      using c(7) [OF sp] by blast
    have "lookup spec (fold (\<lambda>(spec, k). writeIndex uuid spec k) adds (rcIndexes r)) = lookup spec (writeIndex uuid spec k (rcIndexes r))"
      by (rule fold_entries [where f = "\<lambda>s k. writeIndex uuid s k", OF dn k(1)]) (rule lookup_other(1), assumption, rule lookup_cong(1), assumption)
    then have L: "lookup spec (rcIndexes r') = lookup spec (writeIndex uuid spec k (rcIndexes r))" using c(5) by simp
    have R: "relOf r' spec = (relOf r spec)(uuid \<mapsto> k)" using relOf_update [OF c(2,4)] k(2) by simp
    have none: "relOf r spec uuid = None" using c(1) by (simp add: relOf_def)
    note t = conjunct1 [OF inv(3) [OF sp]] and q = conjunct2 [OF inv(3) [OF sp]]
    have fresh: "relOf r spec u \<noteq> Some k" if sch: "isSchemaIndex spec" for u
    proof
      assume a: "relOf r spec u = Some k"
      then have "u \<noteq> uuid" using none by auto
      then show False
        using no_conflict [OF t _ sch a, of uuid] assms(3) a k(2,3) sch sp unfolding noClash_def by (cases check) auto
    qed
    show ?thesis
      unfolding L R using idx.tracks_put [OF t none] uniqueOn_upd q fresh by blast
  qed
  then show ?thesis using inv(1,2) c(3,4) by (auto simp: rcInv_def)
qed

lemma filter_key:
  assumes "distinct (map (isIndex \<circ> fst) ks)" "(spec, ov, nv) \<in> set ks"
  shows "filter (changedFor spec) ks = (if ov = nv then [] else [(spec, ov, nv)])"
proof -
  have none: "filter (changedFor spec) l = []" if "isIndex spec \<notin> isIndex ` fst ` set l" for l
    using that by (auto simp: filter_empty_conv changedFor_def image_iff)
  obtain ys zs where ks: "ks = ys @ (spec, ov, nv) # zs" using assms(2) by (auto simp: in_set_conv_decomp)
  have "isIndex spec \<notin> isIndex ` fst ` set ys" "isIndex spec \<notin> isIndex ` fst ` set zs"
    using assms(1) ks by (auto simp: image_image)
  then show ?thesis using none by (simp add: ks changedFor_def)
qed

lemma moveIndex_other:
  assumes "isIndex y \<noteq> isIndex spec"
  shows "lookup spec (moveIndex uuid ks y i) = lookup spec i"
proof -
  have "lookup spec (fold (\<lambda>(s, old, new). writeIndex uuid y new) es i) = lookup spec i"
    "lookup spec (fold (\<lambda>(s, old, new). dropIndex uuid y old) es i) = lookup spec i" for es :: "(indexSpec \<times> ivalue \<times> ivalue) list" and i
    using assms by (induction es arbitrary: i) (auto simp: lookup_other)
  then show ?thesis by (simp add: moveIndex_def Let_def)
qed

lemma DeleteRow_inv:
  assumes "rcInv r" "DeleteRow uuid r = Inr r'"
  shows "rcInv r' \<and> rcCache r' = AList.delete uuid (rcCache r) \<and> rcDb r' = rcDb r \<and> rcSpecs r' = rcSpecs r"
proof -
  obtain old info rems where c: "map_of (rcCache r) uuid = Some old" "NewModelInfo (rcDb r) old = Inr info"
      "mapR (\<lambda>spec. bindR (indexKey info spec) (\<lambda>v. Inr (spec, v))) (rcSpecs r) = Inr rems"
      "r' = r\<lparr>rcIndexes := fold (\<lambda>(spec, k). removeIndex uuid spec k) rems (rcIndexes r), rcCache := AList.delete uuid (rcCache r)\<rparr>"
    using assms(2) by (auto simp: DeleteRow_def resR split: option.splits)
  have inv: "gm_ok (rcCache r)" "distinct (map isIndex (rcSpecs r))"
    "\<And>spec. spec \<in> set (rcSpecs r) \<Longrightarrow> tracks (lookup spec (rcIndexes r)) (relOf r spec) \<and> (isSchemaIndex spec \<longrightarrow> uniqueOn (relOf r spec))"
    using assms(1) by (auto simp: rcInv_def)
  have "map fst rems = map (\<lambda>x. x) (rcSpecs r)" by (rule mapR_map [OF c(3)]) (auto simp: resR)
  then have dn: "distinct (map (isIndex \<circ> fst) rems)" using inv(2) by (metis list.map_ident map_map)
  have "tracks (lookup spec (rcIndexes r')) (relOf r' spec) \<and> (isSchemaIndex spec \<longrightarrow> uniqueOn (relOf r' spec))" if sp: "spec \<in> set (rcSpecs r)" for spec
  proof -
    obtain k where k: "(spec, k) \<in> set rems" "indexKey info spec = Inr k"
      using mapR_mem [OF c(3) sp] by (auto simp: resR)
    have "lookup spec (fold (\<lambda>(spec, k). removeIndex uuid spec k) rems (rcIndexes r)) = lookup spec (removeIndex uuid spec k (rcIndexes r))"
      by (rule fold_entries [where f = "\<lambda>s k. removeIndex uuid s k", OF dn k(1)]) (rule lookup_other(2), assumption, rule lookup_cong(2), assumption)
    then have L: "lookup spec (rcIndexes r') = lookup spec (removeIndex uuid spec k (rcIndexes r))" using c(4) by simp
    have R: "relOf r' spec = (relOf r spec)(uuid := None)" using c(4) by (auto simp: relOf_def fun_eq_iff split: option.split)
    have u: "relOf r spec uuid = Some k" using c(1,2) k(2) by (simp add: relOf_def rowKey_def)
    note t = conjunct1 [OF inv(3) [OF sp]] and q = conjunct2 [OF inv(3) [OF sp]]
    have "isSchemaIndex spec \<Longrightarrow> \<forall>u'. relOf r spec u' = Some k \<longrightarrow> u' = uuid" using q u unfolding uniqueOn_def by blast
    from rem.tracks_del [OF t u this] show ?thesis
      unfolding L R using uniqueOn_del q by blast
  qed
  then show ?thesis using inv(1,2) c(4) by (auto simp: rcInv_def)
qed

lemma UpdateRow_inv:
  assumes "rcInv r" "UpdateRow uuid m check r = Inr (r', old)" "check \<or> noClash r uuid m"
  shows "rcInv r' \<and> rcCache r' = AList.update uuid m (rcCache r) \<and> map_of (rcCache r) uuid = Some old \<and> rcDb r' = rcDb r \<and> rcSpecs r' = rcSpecs r"
proof -
  obtain oldInfo newInfo ks where c: "map_of (rcCache r) uuid = Some old" "NewModelInfo (rcDb r) old = Inr oldInfo"
      "NewModelInfo (rcDb r) m = Inr newInfo" "mapR (updateKeys r oldInfo newInfo) (rcSpecs r) = Inr ks"
      "\<not> list_ex (\<lambda>(spec, oldVal, newVal). oldVal \<noteq> newVal \<and> conflicts r check spec newVal uuid) ks"
      "r' = r\<lparr>rcIndexes := fold (moveIndex uuid ks) (rcSpecs r) (rcIndexes r), rcCache := AList.update uuid m (rcCache r)\<rparr>"
    using assms(2) by (auto simp: UpdateRow_def resR Clone_def split: option.splits if_splits)
  have inv: "gm_ok (rcCache r)" "distinct (map isIndex (rcSpecs r))"
    "\<And>spec. spec \<in> set (rcSpecs r) \<Longrightarrow> tracks (lookup spec (rcIndexes r)) (relOf r spec) \<and> (isSchemaIndex spec \<longrightarrow> uniqueOn (relOf r spec))"
    using assms(1) by (auto simp: rcInv_def)
  have fs: "map fst ks = map (\<lambda>x. x) (rcSpecs r)" by (rule mapR_map [OF c(4)]) (auto simp: updateKeys_def resR)
  have dn: "distinct (map (isIndex \<circ> fst) ks)" using inv(2) fs by (metis list.map_ident map_map)
  have "tracks (lookup spec (rcIndexes r')) (relOf r' spec) \<and> (isSchemaIndex spec \<longrightarrow> uniqueOn (relOf r' spec))" if sp: "spec \<in> set (rcSpecs r)" for spec
  proof -
    obtain ov nv where k: "(spec, ov, nv) \<in> set ks" "rowKey (rcDb r) spec old = Some ov" "rowKey (rcDb r) spec m = Some nv"
      using mapR_mem [OF c(4) sp] c(2,3) by (auto simp: updateKeys_def rowKey_def indexKey_def hashable_def resR)
    have es: "filter (changedFor spec) ks = (if ov = nv then [] else [(spec, ov, nv)])"
      by (rule filter_key [OF dn k(1)])
    have move: "moveIndex uuid ks spec i = (if ov = nv then i else dropIndex uuid spec ov (writeIndex uuid spec nv i))" for i
      by (simp add: moveIndex_def es)
    have "lookup spec (fold (moveIndex uuid ks) (rcSpecs r) (rcIndexes r)) = lookup spec (moveIndex uuid ks spec (rcIndexes r))"
    proof (rule fold_local [OF inv(2) sp])
      show "lookup spec (moveIndex uuid ks y i) = lookup spec i" if "isIndex y \<noteq> isIndex spec" for y i
        by (rule moveIndex_other [OF that])
      show "lookup spec (moveIndex uuid ks spec i) = lookup spec (moveIndex uuid ks spec j)" if "lookup spec i = lookup spec j" for i j
        using that by (cases "ov = nv") (simp_all add: move lookup_cong(3) [OF lookup_cong(1) [OF that]])
    qed
    then have L: "lookup spec (rcIndexes r') = lookup spec (moveIndex uuid ks spec (rcIndexes r))" using c(6) by simp
    have R: "relOf r' spec = (relOf r spec)(uuid \<mapsto> nv)" using relOf_update [of r' r uuid m] c(6) k(3) by simp
    have u: "relOf r spec uuid = Some ov" using c(1) k(2) by (simp add: relOf_def)
    note t = conjunct1 [OF inv(3) [OF sp]] and q = conjunct2 [OF inv(3) [OF sp]]
    show ?thesis
    proof (cases "ov = nv")
      case True
      then have "relOf r' spec = relOf r spec" using R u by auto
      then show ?thesis using t q L move True by simp
    next
      case False
      have fresh: "relOf r spec u' \<noteq> Some nv" if sch: "isSchemaIndex spec" for u'
      proof
        assume a: "relOf r spec u' = Some nv"
        have "u' \<noteq> uuid" using a u False by auto
        moreover have "\<not> conflicts r check spec nv uuid" using c(5) k(1) False by (fastforce simp: list_ex_iff)
        ultimately show False
          using no_conflict [OF t _ sch a, of uuid] assms(3) a k(3) sch sp by (cases check) (auto simp: noClash_def)
      qed
      have "isSchemaIndex spec \<Longrightarrow> (\<forall>u'. relOf r spec u' \<noteq> Some nv) \<and> (\<forall>u'. relOf r spec u' = Some ov \<longrightarrow> u' = uuid)"
        using fresh q u unfolding uniqueOn_def by blast
      from idx.tracks_move [OF t u False this] show ?thesis
        unfolding L R move using False uniqueOn_upd q fresh by (metis (full_types))
    qed
  qed
  then show ?thesis using inv(1,2) c(1,6) by (auto simp: rcInv_def)
qed

section \<open>Reachable caches\<close>

lemma map_of_newIndexes:
  "map_of (fold (\<lambda>s c. AList.update (isIndex s) [] c) specs c) i = (if i \<in> isIndex ` set specs then Some [] else map_of c i)"
  by (induction specs arbitrary: c) auto

lemma lookup_newIndexes: "lookup spec (newIndexes specs) v = None"
  by (simp add: lookup_def newIndexes_def map_of_newIndexes)

lemma distinct_clientSpecs: "distinct (map isIndex specs) \<Longrightarrow> distinct (map isIndex (fold addClientSpec cs specs))"
  by (induction cs arbitrary: specs) (auto simp: addClientSpec_def)

lemma newRowCache_inv:
  assumes "newRowCache name db st = Inr r" "Table (dbSchema db) name = Some ts"
    and "distinct (map isIndex (schemaSpecs (Indexes ts)))"
  shows "rcInv r"
  using assms distinct_clientSpecs [OF assms(3)]
  by (auto simp: newRowCache_def Let_def rcInv_def tracks_def lookup_newIndexes relOf_def uniqueOn_def)

text \<open>
  The steps of a cache: operations that check the indexes, as the transaction code calls them, and unchecked ones on
  models whose schema index values no other row has, as the notifications of a server that enforces its indexes.
\<close>

inductive cacheStep :: "RowCache \<Rightarrow> RowCache \<Rightarrow> bool" where
  create: "Create uuid m check r = Inr r' \<Longrightarrow> check \<or> noClash r uuid m \<Longrightarrow> cacheStep r r'"
| update: "UpdateRow uuid m check r = Inr (r', old) \<Longrightarrow> check \<or> noClash r uuid m \<Longrightarrow> cacheStep r r'"
| delete: "DeleteRow uuid r = Inr r' \<Longrightarrow> cacheStep r r'"

inductive cacheReach :: "RowCache \<Rightarrow> RowCache \<Rightarrow> bool" for r0 where
  start: "cacheReach r0 r0"
| step: "cacheReach r0 r \<Longrightarrow> cacheStep r r' \<Longrightarrow> cacheReach r0 r'"

inductive_cases cacheStepE: "cacheStep r r'"

lemma cacheStep_inv: "cacheStep r r' \<Longrightarrow> rcInv r \<Longrightarrow> rcInv r'"
  by (erule cacheStepE) (blast dest: Create_inv UpdateRow_inv DeleteRow_inv)+

lemma cacheReach_inv: "cacheReach r0 r \<Longrightarrow> rcInv r0 \<Longrightarrow> rcInv r"
  by (induction rule: cacheReach.induct) (auto dest: cacheStep_inv)

section \<open>Properties\<close>


text \<open>A cache of the example table, and one row in it.\<close>

definition exSpec :: indexSpec where
  "exSpec = \<lparr>isIndex = ''name'', isColumns = [\<lparr>ckColumn = ''name'', ckKey = None\<rparr>], isType = schemaIndexType\<rparr>"

definition exCache :: "(string, Model) gomap \<Rightarrow> (ivalue, uuidset) gomap \<Rightarrow> RowCache" where
  "exCache rows idx = \<lparr>rcName = ''Bridge'', rcDb = exDb, rcType = Some exStruct, rcCache = rows, rcSpecs = [exSpec], rcIndexes = [(''name'', idx)]\<rparr>"

lemma exSpecs: "schemaSpecs (Indexes exTable) = [exSpec]"
  by (simp add: schemaSpecs_def exTable_def exSpec_def newColumnKeysFromColumns_def newIndexFromColumnKeys_def columnName_def newIndexFromColumns_def join_def)

lemma newRowCache_ex: "newRowCache ''Bridge'' exDb (Some exStruct) = Inr (exCache [] [])"
  by (simp add: newRowCache_def exDb_def exSchema_def Table_def exClient_def ClientIndexes_def exSpecs exCache_def newIndexes_def)
    (simp add: exSpec_def)

lemma exTable_table: "Table (dbSchema exDb) ''Bridge'' = Some exTable"
  by (simp add: exDb_def exSchema_def Table_def)

lemma exKey: "indexKey \<lparr>Obj = exModel u n, iMeta = exMeta\<rparr> exSpec = Inr (IVal (VAtom (AStr n)))"
  by (simp add: indexKey_def valueFromIndex_def exSpec_def valueFromColumnKey_def FieldByColumn_def exMeta_def exModel_def hashable_def)

lemma NewModelInfo_ex: "NewModelInfo exDb (exModel u n) = Inr \<lparr>Obj = exModel u n, iMeta = exMeta\<rparr>"
  by (simp add: NewModelInfo_def exDb_def exModel_def)

lemma Create_ex: "Create ''u1'' (exModel ''u1'' ''x'') True (exCache [] []) = Inr (exCache [(''u1'', exModel ''u1'' ''x'')] [(IVal (VAtom (AStr ''x'')), [''u1''])])"
proof -
  have "mType (exModel u n) = exStruct" for u n by (simp add: exModel_def)
  then show ?thesis
    by (simp add: Create_def exCache_def NewModelInfo_ex exKey conflicts_def existing_def indexVals_def usEmpty_def writeIndex_def Clone_def)
      (simp add: exSpec_def isSchemaIndex_def)
qed


text \<open>
  The index check is exact: creating a row of the right type whose index values can be computed, under a
  uuid not in the cache, succeeds if and only if no other row has one of its schema index values.
\<close>

theorem Create_checks_indexes:
  assumes "rcInv r" and "map_of (rcCache r) uuid = None" and "rcType r = Some (mType m)"
    and "NewModelInfo (rcDb r) m = Inr info" and "\<forall>spec \<in> set (rcSpecs r). rowKey (rcDb r) spec m \<noteq> None"
  shows "isOk (Create uuid m True r) \<longleftrightarrow> noClash r uuid m"
proof -
  have key: "\<exists>v. indexKey info spec = Inr v \<and> rowKey (rcDb r) spec m = Some v" if "spec \<in> set (rcSpecs r)" for spec
    using assms(4,5) that by (auto simp: rowKey_def split: sum.splits)
  have ok: "isOk (Create uuid m True r) \<longleftrightarrow> isOk (mapR (\<lambda>spec. bindR (indexKey info spec) (\<lambda>v.
      if conflicts r True spec v uuid then Inl (indexError r spec v uuid) else Inr (spec, v))) (rcSpecs r))"
    using assms(2-4) by (simp add: Create_def resR)
  have mok: "isOk (mapR f xs) \<longleftrightarrow> (\<forall>x \<in> set xs. isOk (f x))" for f :: "indexSpec \<Rightarrow> (indexSpec \<times> ivalue) result" and xs
    by (induction xs) (auto simp: resR)
  have conf: "conflicts r True spec v uuid \<longleftrightarrow> isSchemaIndex spec \<and> (\<exists>u. u \<noteq> uuid \<and> relOf r spec u = Some v)"
    if sp: "spec \<in> set (rcSpecs r)" for spec v
  proof
    have t: "tracks (lookup spec (rcIndexes r)) (relOf r spec)" using assms(1) sp by (simp add: rcInv_def)
    have ex: "existing r spec v = usOf (lookup spec (rcIndexes r) v)" by (simp add: existing_def lookup_def indexVals_def)
    have d: "distinct (existing r spec v)" "set (existing r spec v) = {u. relOf r spec u = Some v}"
      using t ex by (auto simp: tracks_def)
    show "isSchemaIndex spec \<and> (\<exists>u. u \<noteq> uuid \<and> relOf r spec u = Some v)" if "conflicts r True spec v uuid"
    proof -
      have c: "isSchemaIndex spec" "set (existing r spec v) \<noteq> {}" "set (existing r spec v) \<noteq> {uuid}"
        using that usEquals_iff [OF d(1), of "[uuid]"] by (auto simp: conflicts_def usEmpty_def)
      obtain u where u: "u \<in> set (existing r spec v)" "u \<noteq> uuid" using other_member [OF c(2,3)] by blast
      then have "relOf r spec u = Some v" unfolding d(2) by simp
      then show ?thesis using c(1) u(2) by blast
    qed
    show "conflicts r True spec v uuid" if "isSchemaIndex spec \<and> (\<exists>u. u \<noteq> uuid \<and> relOf r spec u = Some v)"
      using that no_conflict [OF t] by blast
  qed
  have "isOk (bindR (indexKey info spec) (\<lambda>v. if conflicts r True spec v uuid then Inl (indexError r spec v uuid) else Inr (spec, v)))
      \<longleftrightarrow> \<not> (isSchemaIndex spec \<and> (\<exists>u. u \<noteq> uuid \<and> relOf r spec u = rowKey (rcDb r) spec m))" if sp: "spec \<in> set (rcSpecs r)" for spec
  proof -
    obtain v where "indexKey info spec = Inr v" "rowKey (rcDb r) spec m = Some v" using key [OF sp] by blast
    then show ?thesis using conf [OF sp, of v] by simp
  qed
  then show ?thesis
    unfolding ok mok noClash_def using key by (metis (no_types, lifting))
qed

theorem Create_checks_indexes_witness:
  "isOk (Create ''u1'' (exModel ''u1'' ''x'') True (exCache [] [])) \<longleftrightarrow> noClash (exCache [] []) ''u1'' (exModel ''u1'' ''x'')"
proof (rule Create_checks_indexes)
  show "rcInv (exCache [] [])"
    by (rule newRowCache_inv [OF newRowCache_ex exTable_table]) (simp add: exSpecs)
  show "NewModelInfo (rcDb (exCache [] [])) (exModel ''u1'' ''x'') = Inr \<lparr>Obj = exModel ''u1'' ''x'', iMeta = exMeta\<rparr>"
    by (simp add: exCache_def NewModelInfo_ex)
  show "\<forall>spec\<in>set (rcSpecs (exCache [] [])). rowKey (rcDb (exCache [] [])) spec (exModel ''u1'' ''x'') \<noteq> None"
    by (simp add: exCache_def rowKey_def NewModelInfo_ex exKey)
qed (simp_all add: exCache_def exModel_def)

section \<open>Searching by conditions\<close>

text \<open>A row satisfies a condition: by its uuid for \<open>_uuid\<close>, else by evaluating the condition on its column.\<close>

definition satisfies :: "RowCache \<Rightarrow> string \<Rightarrow> Condition \<times> any \<Rightarrow> bool" where
  "satisfies r u = (\<lambda>(c, v).
     if cColumn c = ''_uuid'' \<and> (cFunction c = ConditionEqual \<or> cFunction c = ConditionIncludes)
     then v = VAtom (AStr u) \<and> HasRow r u
     else bindR (modelInfo (rcDb r) (map_of (rcCache r) u)) (\<lambda>info.
          bindR (FieldByColumn info (cColumn c)) (\<lambda>val. Evaluate (cFunction c) val v)) = Inr True)"

lemma intersect_set: "set (usOf (intersectUUIDSets s t)) = set (usOf s) \<inter> set (usOf t)"
  by (auto simp: intersectUUIDSets_def has_def fold_addIf split: if_splits)

lemma matchCondition_loop:
  assumes "foldR (matchCondition r c v) acc us = Inr mc"
    and "\<not> (cColumn c = ''_uuid'' \<and> (cFunction c = ConditionEqual \<or> cFunction c = ConditionIncludes))"
  shows "set mc = set acc \<union> {u \<in> set us. satisfies r u (c, v)}"
  using assms(1)
proof (induction us arbitrary: acc)
  case (Cons u us)
  obtain acc' where a: "matchCondition r c v acc u = Inr acc'" "foldR (matchCondition r c v) acc' us = Inr mc"
    using Cons.prems by (auto simp: resR)
  define e where "e = bindR (modelInfo (rcDb r) (map_of (rcCache r) u)) (\<lambda>info.
      bindR (FieldByColumn info (cColumn c)) (\<lambda>val. Evaluate (cFunction c) val v))"
  have "matchCondition r c v acc u = bindR e (\<lambda>ok. Inr (if ok then add u acc else acc))"
    by (simp add: matchCondition_def e_def bindR_assoc)
  then obtain ok where "e = Inr ok" "acc' = (if ok then add u acc else acc)"
    using a(1) by (cases e) auto
  moreover have "satisfies r u (c, v) \<longleftrightarrow> e = Inr True" using assms(2) unfolding satisfies_def e_def by (simp only: prod.case if_False)
  ultimately show ?case using Cons.IH [OF a(2)] by (cases ok) auto
qed simp

lemma conditionMatches_set:
  assumes "conditionMatches r matching c v = Inr mc"
  shows "set mc \<subseteq> {u. satisfies r u (c, v)}"
    and "satisfies r u (c, v) \<Longrightarrow> case matching of Some us \<Rightarrow> u \<in> set us | None \<Rightarrow> True \<Longrightarrow> u \<in> set mc"
proof -
  let ?special = "cColumn c = ''_uuid'' \<and> (cFunction c = ConditionEqual \<or> cFunction c = ConditionIncludes)"
  let ?us = "case matching of Some us \<Rightarrow> us | None \<Rightarrow> keys (rcCache r)"
  have loop: "set mc = {u \<in> set ?us. satisfies r u (c, v)}" if "\<not> ?special"
    using assms that matchCondition_loop [of r c v "[]" ?us mc] unfolding conditionMatches_def by auto
  have spec: "\<exists>w. v = VAtom (AStr w) \<and> mc = (if HasRow r w then [w] else [])" if ?special
    using assms that by (auto simp: conditionMatches_def stringField_def resR split: any.splits atom.splits if_splits)
  show "set mc \<subseteq> {u. satisfies r u (c, v)}"
  proof (cases ?special)
    case True
    then show ?thesis using spec by (auto simp: satisfies_def)
  qed (use loop in auto)
  have cached: "u \<in> set (keys (rcCache r))" if "satisfies r u (c, v)" "\<not> ?special" for u
  proof -
    have "map_of (rcCache r) u \<noteq> None"
      using that by (auto simp: satisfies_def modelInfo_def split: option.splits)
    then show ?thesis using map_of_key_iff [of u "rcCache r"] by blast
  qed
  show "u \<in> set mc" if "satisfies r u (c, v)" "case matching of Some us \<Rightarrow> u \<in> set us | None \<Rightarrow> True"
  proof (cases ?special)
    case True
    then show ?thesis using spec that(1) by (auto simp: satisfies_def)
  next
    case False
    then show ?thesis using loop that cached [OF that(1)] by (auto split: option.splits)
  qed
qed

lemma conditionLoop_sound:
  assumes "conditionLoop r matching cs = Inr res" "u \<in> set (usOf res)" "cs \<noteq> [] \<or> matching \<noteq> None"
  shows "(\<forall>p \<in> set cs. satisfies r u p) \<and> (case matching of Some us \<Rightarrow> u \<in> set us | None \<Rightarrow> True)"
  using assms
proof (induction cs arbitrary: matching)
  case Nil
  then show ?case by auto
next
  case (Cons p cs)
  obtain c v where p: "p = (c, v)" by fastforce
  obtain mc where mc: "conditionMatches r matching c v = Inr mc" using Cons.prems(1) p by (auto simp: resR)
  define m' where "m' = (if matching = None then Some mc else intersectUUIDSets matching (Some mc))"
  have m'set: "set (usOf m') \<subseteq> set mc" "case matching of Some us \<Rightarrow> set (usOf m') \<subseteq> set us | None \<Rightarrow> True"
    by (auto simp: m'_def intersect_set split: option.splits)
  show ?case
  proof (cases "usEmpty (usOf m')")
    case True
    then have "res = m'" using Cons.prems(1) p mc by (simp add: m'_def Let_def)
    then show ?thesis using True Cons.prems(2) by (simp add: usEmpty_def)
  next
    case False
    then have l: "conditionLoop r m' cs = Inr res" using Cons.prems(1) p mc by (simp add: m'_def Let_def)
    have nn: "m' \<noteq> None" using False by (cases m') (auto simp: usEmpty_def)
    then have ih: "(\<forall>p \<in> set cs. satisfies r u p)" "u \<in> set (usOf m')"
      using Cons.IH [OF l Cons.prems(2)] by auto
    then show ?thesis using conditionMatches_set(1) [OF mc] m'set p by (auto split: option.splits)
  qed
qed

lemma conditionLoop_complete:
  assumes "conditionLoop r matching cs = Inr res" "\<forall>p \<in> set cs. satisfies r u p"
    and "case matching of Some us \<Rightarrow> u \<in> set us | None \<Rightarrow> True" "cs \<noteq> [] \<or> matching \<noteq> None"
  shows "u \<in> set (usOf res)"
  using assms
proof (induction cs arbitrary: matching)
  case Nil
  then show ?case by auto
next
  case (Cons p cs)
  obtain c v where p: "p = (c, v)" by fastforce
  obtain mc where mc: "conditionMatches r matching c v = Inr mc" using Cons.prems(1) p by (auto simp: resR)
  define m' where "m' = (if matching = None then Some mc else intersectUUIDSets matching (Some mc))"
  have "u \<in> set mc" using conditionMatches_set(2) [OF mc] Cons.prems(2,3) p by auto
  then have u: "u \<in> set (usOf m')" using Cons.prems(3) by (auto simp: m'_def intersect_set split: option.splits)
  then have ne: "\<not> usEmpty (usOf m')" by (auto simp: usEmpty_def)
  then have l: "conditionLoop r m' cs = Inr res" using Cons.prems(1) p mc by (simp add: m'_def Let_def)
  obtain us where us: "m' = Some us" using ne by (cases m') (auto simp: usEmpty_def)
  show ?case using Cons.IH [OF l] Cons.prems(2) u us by auto
qed

text \<open>
  Claim C25. The rows a search returns are cached and satisfy every condition of the query, whatever candidates
  the indexes gave.
\<close>

theorem RowsByCondition_sound:
  assumes "RowsByCondition r conds = Inr res" and "conds \<noteq> []" and "(u, x) \<in> set res"
  shows "x = rowByUUID r u \<and> (\<forall>c \<in> set conds. \<exists>v. nativeConditionValue r c = Inr v \<and> satisfies r u (c, v))"
proof -
  obtain vs m0 m where v: "mapR (nativeConditionValue r) conds = Inr vs" "conditionLoop r m0 (zip conds vs) = Inr m"
      "res = map (\<lambda>u. (u, rowByUUID r u)) (usOf m)"
    using assms(1,2) by (auto simp: RowsByCondition_def resR)
  have len: "length vs = length conds" by (rule mapR_length [OF v(1)])
  then have "zip conds vs \<noteq> []" using assms(2) by (cases conds; cases vs) auto
  moreover have "u \<in> set (usOf m)" "x = rowByUUID r u" using assms(3) v(3) by auto
  ultimately have sat: "\<forall>p \<in> set (zip conds vs). satisfies r u p" "x = rowByUUID r u" using conditionLoop_sound [OF v(2)] by blast+
  have "\<exists>v. nativeConditionValue r c = Inr v \<and> satisfies r u (c, v)" if c: "c \<in> set conds" for c
  proof -
    obtain i where i: "i < length conds" "c = conds ! i" using c by (auto simp: in_set_conv_nth)
    have "nativeConditionValue r c = Inr (vs ! i)" using v(1) i by (auto simp: mapR_eq_Inr list_all2_conv_all_nth)
    moreover have "(c, vs ! i) \<in> set (zip conds vs)" using i len by (auto simp: set_zip)
    ultimately show ?thesis using sat(1) by blast
  qed
  then show ?thesis using sat(2) by blast
qed

lemma powerSetLoop_noIndex: "rcSpecs r = [] \<Longrightarrow> powerSetLoop r ps None cs = Inr m \<Longrightarrow> m = None"
proof (induction cs arbitrary: ps)
  case (Cons p cs)
  obtain c v where p: "p = (c, v)" by fastforce
  have ev: "evaluateSubsets r ic None ss = Inr (m', stop) \<Longrightarrow> m' = None \<and> \<not> stop" for ic ss m' stop
    using Cons.prems(1)
    by (induction ss) (auto simp: intersectUUIDsFromConditionSet_def evaluateConditionSetAsIndex_def resR)
  show ?case
    using Cons.prems p by (auto simp: resR split: option.splits if_splits dest: ev intro: Cons.IH [OF Cons.prems(1)])
qed simp

text \<open>
  Claim C35. On a table without indexes the search is the plain filter: it returns exactly the rows that satisfy every
  condition.
\<close>

theorem RowsByCondition_scan:
  assumes "RowsByCondition r conds = Inr res" and "conds \<noteq> []" and "rcSpecs r = []"
  shows "\<exists>vs. mapR (nativeConditionValue r) conds = Inr vs
    \<and> set (keys res) = {u. \<forall>p \<in> set (zip conds vs). satisfies r u p}"
proof -
  obtain vs m0 m where v: "mapR (nativeConditionValue r) conds = Inr vs" "uuidsByConditionsAsIndexes r conds vs = Inr m0"
      "conditionLoop r m0 (zip conds vs) = Inr m" "res = map (\<lambda>u. (u, rowByUUID r u)) (usOf m)"
    using assms(1,2) by (auto simp: RowsByCondition_def resR)
  have "m0 = None" using powerSetLoop_noIndex [OF assms(3)] v(2) by (auto simp: uuidsByConditionsAsIndexes_def)
  moreover have "zip conds vs \<noteq> []" using assms(2) mapR_length [OF v(1)] by (cases conds; cases vs) auto
  ultimately have "u \<in> set (usOf m) \<longleftrightarrow> (\<forall>p \<in> set (zip conds vs). satisfies r u p)" for u
    using conditionLoop_sound [OF v(3), of u] conditionLoop_complete [OF v(3), of u] by auto
  moreover have "set (keys res) = set (usOf m)" using v(4) by force
  ultimately show ?thesis using v(1) by blast
qed

definition exCond :: "Condition" where
  "exCond = \<lparr>cColumn = ''name'', cFunction = ConditionEqual, cValue = VAtom (AStr ''x'')\<rparr>"

definition exScan :: RowCache where
  "exScan = (exCache [(''u1'', exModel ''u1'' ''x''), (''u2'', exModel ''u2'' ''y'')] [])\<lparr>rcSpecs := []\<rparr>"

lemma exCond_value:
  assumes "rcDb r = exDb" "rcName r = ''Bridge''"
  shows "nativeConditionValue r exCond = Inr (VAtom (AStr ''x''))"
  using assms by (simp add: nativeConditionValue_def exTable_table)
    (simp add: exCond_def exTable_def Column_def exNameColumn_def OvsToNative_def exColumn_defs)

lemma RowsByCondition_ex: "RowsByCondition exScan [exCond] = Inr [(''u1'', Some (exModel ''u1'' ''x''))]"
proof -
  have db: "rcDb exScan = exDb" "rcName exScan = ''Bridge''" "rcSpecs exScan = []"
    "rcCache exScan = [(''u1'', exModel ''u1'' ''x''), (''u2'', exModel ''u2'' ''y'')]" by (simp_all add: exScan_def exCache_def)
  have nm: "NewModel exDb ''Bridge'' = Inr (zeroModel exStruct)" "NewModelInfo exDb (zeroModel exStruct) = Inr \<lparr>Obj = zeroModel exStruct, iMeta = exMeta\<rparr>"
    by (simp_all add: NewModel_def NewModelInfo_def exDb_def exClient_def clientNewModel_def zeroModel_def)
  have sf: "\<exists>i. SetField \<lparr>Obj = zeroModel exStruct, iMeta = exMeta\<rparr> ''name'' (VAtom (AStr ''x'')) = Inr i"
    by (simp add: SetField_def exMeta_def fieldType_def zeroModel_def exStruct_def)
  have idx: "uuidsByConditionsAsIndexes exScan [exCond] [VAtom (AStr ''x'')] = Inr None"
    using sf by (auto simp: uuidsByConditionsAsIndexes_def toIndexableCondition_def exCond_def intersectUUIDsFromConditionSet_def
      evaluateConditionSetAsIndex_def db nm)
  have f: "FieldByColumn \<lparr>Obj = exModel u n, iMeta = exMeta\<rparr> ''name'' = Inr (VAtom (AStr n))" for u n
    by (simp add: FieldByColumn_def exMeta_def exModel_def)
  have "conditionLoop exScan None (zip [exCond] [VAtom (AStr ''x'')]) = Inr (Some [''u1''])"
    by (simp add: conditionMatches_def matchCondition_def db modelInfo_def NewModelInfo_ex f exCond_def Evaluate_def add_def usEmpty_def kindOf_def)
  then show ?thesis
    by (simp add: RowsByCondition_def exCond_value [OF db(1,2)] idx) (simp add: rowByUUID_def db Clone_def)
qed

theorem RowsByCondition_sound_witness:
  "\<exists>v. nativeConditionValue exScan exCond = Inr v \<and> satisfies exScan ''u1'' (exCond, v)"
  using RowsByCondition_sound [OF RowsByCondition_ex, of "''u1''" "Some (exModel ''u1'' ''x'')"] by simp

theorem RowsByCondition_scan_witness:
  "{u. satisfies exScan u (exCond, VAtom (AStr ''x''))} = {''u1''}"
proof -
  have db: "rcDb exScan = exDb" "rcName exScan = ''Bridge''" "rcSpecs exScan = []" by (simp_all add: exScan_def exCache_def)
  show ?thesis
    using RowsByCondition_scan [OF RowsByCondition_ex _ db(3)] exCond_value [OF db(1,2)] by auto
qed

end
