(* ===== verification/TableCache.thy ===== *)
theory TableCache
  imports RowCache
begin

text \<open>
  The table cache of a client or of the in-memory server (\<open>TableCache\<close> and \<open>eventProcessor\<close> in
  \<open>cache/cache.go\<close>): a row cache per table of the schema, the bounded channel of events and the handlers they
  are dispatched to. An operation that fails keeps what it changed before, so it returns the new state
  together with the error. The handlers are callbacks of the client, state transformers of an arbitrary
  client state \<open>'s\<close>. The lemmas show that an applied update refines a pointwise update of the
  contents, and that the queued events tell the same story.
\<close>

section \<open>Events and their handlers\<close>

datatype eventType = addEvent | updateEvent | deleteEvent

record event =
  evType :: eventType
  evTable :: string
  evOld :: "Model option"
  evNew :: "Model option"

text \<open>\<open>EventHandlerFuncs\<close>: each callback may be missing.\<close>

record 's EventHandlerFuncs =
  AddFunc :: "(string \<Rightarrow> Model option \<Rightarrow> 's \<Rightarrow> 's) option"
  UpdateFunc :: "(string \<Rightarrow> Model option \<Rightarrow> Model option \<Rightarrow> 's \<Rightarrow> 's) option"
  DeleteFunc :: "(string \<Rightarrow> Model option \<Rightarrow> 's \<Rightarrow> 's) option"

definition OnAdd :: "'s EventHandlerFuncs \<Rightarrow> string \<Rightarrow> Model option \<Rightarrow> 's \<Rightarrow> 's" where
  "OnAdd e table m s = (case AddFunc e of None \<Rightarrow> s | Some f \<Rightarrow> f table m s)"

definition OnUpdate :: "'s EventHandlerFuncs \<Rightarrow> string \<Rightarrow> Model option \<Rightarrow> Model option \<Rightarrow> 's \<Rightarrow> 's" where
  "OnUpdate e table old new s = (case UpdateFunc e of None \<Rightarrow> s | Some f \<Rightarrow> f table old new s)"

definition OnDelete :: "'s EventHandlerFuncs \<Rightarrow> string \<Rightarrow> Model option \<Rightarrow> 's \<Rightarrow> 's" where
  "OnDelete e table row s = (case DeleteFunc e of None \<Rightarrow> s | Some f \<Rightarrow> f table row s)"

text \<open>The processor: the buffered channel with its capacity, and the registered handlers.\<close>

record 's eventProcessor =
  epEvents :: "event list"
  epCapacity :: int
  epHandlers :: "'s EventHandlerFuncs list"

definition newEventProcessor :: "int \<Rightarrow> 's eventProcessor" where
  "newEventProcessor capacity = \<lparr>epEvents = [], epCapacity = capacity, epHandlers = []\<rparr>"

definition AddEventHandler :: "'s EventHandlerFuncs \<Rightarrow> 's eventProcessor \<Rightarrow> 's eventProcessor" where
  "AddEventHandler h e = e\<lparr>epHandlers := epHandlers e @ [h]\<rparr>"

text \<open>A full channel drops the event.\<close>

definition AddEvent :: "eventType \<Rightarrow> string \<Rightarrow> Model option \<Rightarrow> Model option \<Rightarrow> 's eventProcessor \<Rightarrow> 's eventProcessor" where
  "AddEvent ty table old new e =
     (if int (length (epEvents e)) < epCapacity e
      then e\<lparr>epEvents := epEvents e @ [\<lparr>evType = ty, evTable = table, evOld = old, evNew = new\<rparr>]\<rparr>
      else e)"

definition dispatch :: "event \<Rightarrow> 's EventHandlerFuncs \<Rightarrow> 's \<Rightarrow> 's" where
  "dispatch ev h s =
     (case evType ev of
        addEvent \<Rightarrow> OnAdd h (evTable ev) (evNew ev) s
      | updateEvent \<Rightarrow> OnUpdate h (evTable ev) (evOld ev) (evNew ev) s
      | deleteEvent \<Rightarrow> OnDelete h (evTable ev) (evOld ev) s)"

text \<open>
  The loop of \<open>Run\<close>: as long as the stop channel stays open it takes one event after the other from the channel and
  calls every handler with it. The stop channel wins after \<open>n\<close> rounds; a round on an empty channel waits.
\<close>

fun runEvents :: "nat \<Rightarrow> 's eventProcessor \<Rightarrow> 's \<Rightarrow> 's eventProcessor \<times> 's" where
  "runEvents 0 e s = (e, s)"
| "runEvents (Suc n) e s =
     (case epEvents e of
        [] \<Rightarrow> runEvents n e s
      | ev # evs \<Rightarrow> runEvents n (e\<lparr>epEvents := evs\<rparr>) (fold (dispatch ev) (epHandlers e) s))"

section \<open>The cache\<close>

record 's TableCache =
  tcCache :: "(string, RowCache) gomap"
  tcEvents :: "'s eventProcessor"
  tcDb :: DatabaseModel

type_synonym cacheData = "(string, (string, Model) gomap) gomap"

definition bufferSize :: int where "bufferSize = 65536"

definition newCaches :: "DatabaseModel \<Rightarrow> (string, RowCache) gomap \<Rightarrow> (string, RowCache) gomap result" where
  "newCaches db c =
     foldR (\<lambda>c name. bindR (newRowCache name db (map_of (cdbTypes (dbClient db)) name)) (\<lambda>r. Inr (AList.update name r c)))
       c (keys (Tables (dbSchema db)))"

definition createRows :: "RowCache option \<Rightarrow> (string, Model) gomap \<Rightarrow> RowCache result" where
  "createRows rc rows =
     (case rc of
        None \<Rightarrow> Inl (Panic ''nil pointer dereference'')
      | Some r \<Rightarrow> foldR (\<lambda>r (uuid, row). Create uuid row True r) r rows)"

definition NewTableCache :: "DatabaseModel \<Rightarrow> cacheData \<Rightarrow> 's TableCache result" where
  "NewTableCache db data =
     (if \<not> Valid db then Inl (Errorf ''tablecache without valid databasemodel cannot be populated'')
      else bindR (newCaches db []) (\<lambda>cache.
           bindR (foldR (\<lambda>c (table, rowData).
                    if map_of (Tables (dbSchema db)) table = None then Inl (Errorf ''table is not in schema'')
                    else if rowData = [] then Inr c
                    else bindR (createRows (map_of c table) rowData) (\<lambda>r. Inr (AList.update table r c))) cache data) (\<lambda>cache.
             Inr \<lparr>tcCache = cache, tcEvents = newEventProcessor bufferSize, tcDb = db\<rparr>)))"

definition cacheTable :: "'s TableCache \<Rightarrow> string \<Rightarrow> RowCache option" where
  "cacheTable t name = map_of (tcCache t) name"

definition cacheTables :: "'s TableCache \<Rightarrow> string list" where
  "cacheTables t = keys (tcCache t)"

text \<open>One model update: the branches of the callback of \<open>ApplyCacheUpdate\<close>.\<close>

definition setTable :: "string \<Rightarrow> RowCache \<Rightarrow> 's TableCache \<Rightarrow> 's TableCache" where
  "setTable table r t = t\<lparr>tcCache := AList.update table r (tcCache t)\<rparr>"

definition queueEvent :: "eventType \<Rightarrow> string \<Rightarrow> Model option \<Rightarrow> Model option \<Rightarrow> 's TableCache \<Rightarrow> 's TableCache" where
  "queueEvent ty table old new t = t\<lparr>tcEvents := AddEvent ty table old new (tcEvents t)\<rparr>"

definition applyModelUpdate ::
  "string \<Rightarrow> 's TableCache \<Rightarrow> string \<Rightarrow> Model option \<Rightarrow> Model option \<Rightarrow> 's TableCache \<times> err option" where
  "applyModelUpdate table t uuid old newModel =
     (case map_of (tcCache t) table of
        None \<Rightarrow> (t, Some (Panic ''nil pointer dereference''))
      | Some r \<Rightarrow>
          (case (old, newModel) of
             (None, Some m) \<Rightarrow>
               (case Create uuid m False r of
                  Inl e \<Rightarrow> (t, Some e)
                | Inr r' \<Rightarrow> (queueEvent addEvent table None newModel (setTable table r' t), None))
           | (Some _, Some m) \<Rightarrow>
               (case UpdateRow uuid m False r of
                  Inl e \<Rightarrow> (t, Some e)
                | Inr (r', _) \<Rightarrow> (queueEvent updateEvent table old newModel (setTable table r' t), None))
           | (_, None) \<Rightarrow>
               (case DeleteRow uuid r of
                  Inl e \<Rightarrow> (t, Some e)
                | Inr r' \<Rightarrow> (queueEvent deleteEvent table old None (setTable table r' t), None))))"

definition ApplyCacheUpdate :: "ModelUpdates \<Rightarrow> 's TableCache \<Rightarrow> 's TableCache \<times> err option" where
  "ApplyCacheUpdate u t =
     foldS (\<lambda>t table. ForEachModelUpdate u table (applyModelUpdate table) t) t (GetUpdatedTables u)"

section \<open>Notifications\<close>

type_synonym TableUpdates = "(string, (string, RowUpdate option) gomap) gomap"
type_synonym TableUpdates2 = "(string, (string, RowUpdate2 option) gomap) gomap"

definition populateRow :: "string \<Rightarrow> 's TableCache \<Rightarrow> string \<times> RowUpdate option \<Rightarrow> 's TableCache \<times> err option" where
  "populateRow table t = (\<lambda>(uuid, row).
     case map_of (tcCache t) table of
       None \<Rightarrow> (t, Some (Panic ''nil pointer dereference''))
     | Some r \<Rightarrow> (case row of
         None \<Rightarrow> (t, Some (Panic ''nil pointer dereference''))
       | Some ru \<Rightarrow> (case AddRowUpdate (tcDb t) table uuid (map_of (rcCache r) uuid) ru [] of
           Inl e \<Rightarrow> (t, Some e)
         | Inr update \<Rightarrow> ApplyCacheUpdate update t)))"

definition Populate :: "TableUpdates \<Rightarrow> 's TableCache \<Rightarrow> 's TableCache \<times> err option" where
  "Populate tus t =
     foldS (\<lambda>t table. case map_of tus table of None \<Rightarrow> (t, None) | Some tu \<Rightarrow> foldS (populateRow table) t tu)
       t (keys (cdbTypes (dbClient (tcDb t))))"

definition populateRow2 :: "string \<Rightarrow> 's TableCache \<Rightarrow> string \<times> RowUpdate2 option \<Rightarrow> 's TableCache \<times> err option" where
  "populateRow2 table t = (\<lambda>(uuid, row).
     case map_of (tcCache t) table of
       None \<Rightarrow> (t, Some (Panic ''nil pointer dereference''))
     | Some r \<Rightarrow> (case row of
         None \<Rightarrow> (t, Some (Panic ''nil pointer dereference''))
       | Some ru \<Rightarrow>
           if Initial ru = None \<and> Insert ru = None \<and> map_of (rcCache r) uuid = None
           then (t, Some (ErrCacheInconsistent table uuid))
           else (case AddRowUpdate2 (tcDb t) table uuid (map_of (rcCache r) uuid) ru [] of
             Inl e \<Rightarrow> (t, Some e)
           | Inr update \<Rightarrow> ApplyCacheUpdate update t)))"

definition Populate2 :: "TableUpdates2 \<Rightarrow> 's TableCache \<Rightarrow> 's TableCache \<times> err option" where
  "Populate2 tus t =
     foldS (\<lambda>t table. case map_of tus table of None \<Rightarrow> (t, None) | Some tu \<Rightarrow> foldS (populateRow2 table) t tu)
       t (keys (cdbTypes (dbClient (tcDb t))))"

definition cacheUpdate :: "TableUpdates \<Rightarrow> 's TableCache \<Rightarrow> 's TableCache \<times> err option" where
  "cacheUpdate tus t = (if tus = [] then (t, None) else Populate tus t)"

definition cacheUpdate2 :: "TableUpdates2 \<Rightarrow> 's TableCache \<Rightarrow> 's TableCache \<times> err option" where
  "cacheUpdate2 tus t = (if tus = [] then (t, None) else Populate2 tus t)"

text \<open>\<open>Purge\<close> replaces the caches of the tables of the new schema; a table only the old schema had stays.\<close>

definition Purge :: "DatabaseModel \<Rightarrow> 's TableCache \<Rightarrow> 's TableCache result" where
  "Purge db t = bindR (newCaches db (tcCache t)) (\<lambda>c. Inr (t\<lparr>tcCache := c, tcDb := db\<rparr>))"

section \<open>The contents of the cache\<close>

text \<open>
  What the table cache relies on in a row cache: creating, updating and deleting a row change the rows as a map is changed,
  and they fail when the row is there, or not there.
\<close>

locale row_store =
  fixes rows :: "'r \<Rightarrow> string \<Rightarrow> 'm option"
    and create :: "string \<Rightarrow> 'm \<Rightarrow> 'r \<Rightarrow> ('e, 'r) res"
    and update :: "string \<Rightarrow> 'm \<Rightarrow> 'r \<Rightarrow> ('e, 'r \<times> 'm) res"
    and delete :: "string \<Rightarrow> 'r \<Rightarrow> ('e, 'r) res"
  assumes create_rows: "create u m r = Inr r' \<Longrightarrow> rows r u = None \<and> rows r' = (rows r)(u \<mapsto> m)"
    and update_rows: "update u m r = Inr (r', old) \<Longrightarrow> rows r u = Some old \<and> rows r' = (rows r)(u \<mapsto> m)"
    and delete_rows: "delete u r = Inr r' \<Longrightarrow> rows r u \<noteq> None \<and> rows r' = (rows r)(u := None)"
begin

lemma change_rows:
  assumes "(case (old, new) of (None, Some m) \<Rightarrow> create u m r | (Some _, Some m) \<Rightarrow> bindR (update u m r) (\<lambda>x. Inr (fst x))
      | (_, None) \<Rightarrow> delete u r) = Inr r'"
  shows "rows r' = (rows r)(u := new)"
  using assms
  by (auto simp: resR split: option.splits dest: create_rows update_rows delete_rows)

lemma change_present:
  assumes "(case (old, new) of (None, Some m) \<Rightarrow> create u m r | (Some _, Some m) \<Rightarrow> bindR (update u m r) (\<lambda>x. Inr (fst x))
      | (_, None) \<Rightarrow> delete u r) = Inr r'"
  shows "rows r u = None \<longleftrightarrow> old = None \<and> new \<noteq> None"
  using assms by (auto simp: resR split: option.splits dest: create_rows update_rows delete_rows)

end

interpretation rs: row_store "\<lambda>r. map_of (rcCache r)" "\<lambda>u m. Create u m check" "\<lambda>u m. UpdateRow u m check" DeleteRow for check
proof
  fix u m r r'
  show "map_of (rcCache r) u = None \<and> map_of (rcCache r') = (map_of (rcCache r))(u \<mapsto> m)" if "Create u m check r = Inr r'"
    using that by (auto simp: Create_def resR Clone_def split: if_splits)
next
  fix u m r r' old
  show "map_of (rcCache r) u = Some old \<and> map_of (rcCache r') = (map_of (rcCache r))(u \<mapsto> m)" if "UpdateRow u m check r = Inr (r', old)"
    using that by (auto simp: UpdateRow_def resR Clone_def split: option.splits if_splits)
next
  fix u r r'
  show "map_of (rcCache r) u \<noteq> None \<and> map_of (rcCache r') = (map_of (rcCache r))(u := None)" if "DeleteRow u r = Inr r'"
    using that by (auto simp: DeleteRow_def resR split: option.splits)
qed

definition contents :: "'s TableCache \<Rightarrow> string \<times> string \<Rightarrow> Model option" where
  "contents t = (\<lambda>(table, uuid). case map_of (tcCache t) table of None \<Rightarrow> None | Some r \<Rightarrow> map_of (rcCache r) uuid)"

definition eventOf :: "string \<times> string \<times> modelUpdate \<Rightarrow> event" where
  "eventOf = (\<lambda>(table, uuid, mu). \<lparr>evType = (if muNew mu = None then deleteEvent else if muOld mu = None then addEvent else updateEvent),
     evTable = table, evOld = muOld mu, evNew = muNew mu\<rparr>)"

lemma contents_setTable: "contents (setTable table r t) = (\<lambda>(tb, u). if tb = table then map_of (rcCache r) u else contents t (tb, u))"
  by (auto simp: contents_def setTable_def fun_eq_iff)

lemma queueEvent_simps [simp]:
  "contents (queueEvent ty table old new t) = contents t" "tcCache (queueEvent ty table old new t) = tcCache t"
  "tcDb (queueEvent ty table old new t) = tcDb t" "tcEvents (queueEvent ty table old new t) = AddEvent ty table old new (tcEvents t)"
  "tcEvents (setTable table r t) = tcEvents t" "tcDb (setTable table r t) = tcDb t"
  by (simp_all add: queueEvent_def contents_def setTable_def)

lemma applyModelUpdate_ok:
  assumes "applyModelUpdate table t uuid (muOld mu) (muNew mu) = (t', None)"
  shows "contents t' = (contents t)((table, uuid) := muNew mu)"
    "epEvents (tcEvents t') = epEvents (tcEvents t) @ take (nat (epCapacity (tcEvents t)) - length (epEvents (tcEvents t))) [eventOf (table, uuid, mu)]"
    "epCapacity (tcEvents t') = epCapacity (tcEvents t)"
proof -
  obtain r where r: "map_of (tcCache t) table = Some r" using assms by (auto simp: applyModelUpdate_def split: option.splits)
  define new where "new = (case (muOld mu, muNew mu) of (None, Some m) \<Rightarrow> Create uuid m False r
      | (Some _, Some m) \<Rightarrow> bindR (UpdateRow uuid m False r) (\<lambda>x. Inr (fst x)) | (_, None) \<Rightarrow> DeleteRow uuid r)"
  obtain r' where r': "new = Inr r'"
      "t' = queueEvent (evType (eventOf (table, uuid, mu))) table (muOld mu) (muNew mu) (setTable table r' t)"
    using assms r by (auto simp: applyModelUpdate_def new_def eventOf_def split: option.splits sum.splits prod.splits)
  have "map_of (rcCache r') = (map_of (rcCache r))(uuid := muNew mu)"
    by (rule rs.change_rows [OF r'(1) [unfolded new_def]])
  moreover have "contents t (table, x) = map_of (rcCache r) x" for x using r by (simp add: contents_def)
  ultimately show "contents t' = (contents t)((table, uuid) := muNew mu)"
    unfolding r'(2) by (auto simp: contents_setTable fun_eq_iff)
  show "epEvents (tcEvents t') = epEvents (tcEvents t) @ take (nat (epCapacity (tcEvents t)) - length (epEvents (tcEvents t))) [eventOf (table, uuid, mu)]"
    unfolding r'(2) by (auto simp: AddEvent_def eventOf_def)
  show "epCapacity (tcEvents t') = epCapacity (tcEvents t)"
    unfolding r'(2) by (simp add: AddEvent_def)
qed

text \<open>The updates of all tables as one list.\<close>

definition flatUpdates :: "ModelUpdates \<Rightarrow> (string \<times> string \<times> modelUpdate) list" where
  "flatUpdates u = concat (map (\<lambda>table. map (Pair table) (tableUpdates u table)) (GetUpdatedTables u))"

definition applyFlat :: "'s TableCache \<Rightarrow> string \<times> string \<times> modelUpdate \<Rightarrow> 's TableCache \<times> err option" where
  "applyFlat t = (\<lambda>(table, uuid, mu). applyModelUpdate table t uuid (muOld mu) (muNew mu))"

lemma ApplyCacheUpdate_flat:
  fixes t :: "'s TableCache"
  shows "ApplyCacheUpdate u t = foldS applyFlat t (flatUpdates u)"
proof -
  have "foldS (\<lambda>t table. foldS (g table) t (h table)) t xs = foldS (\<lambda>t (table, p). g table t p) t (concat (map (\<lambda>table. map (Pair table) (h table)) xs))"
    for g :: "string \<Rightarrow> 's TableCache \<Rightarrow> string \<times> modelUpdate \<Rightarrow> 's TableCache \<times> err option" and h xs t
  proof (induction xs arbitrary: t)
    case (Cons x xs)
    have "foldS (\<lambda>t (table, p). g table t p) t (map (Pair x) ps) = foldS (g x) t ps" for ps t
      by (induction ps arbitrary: t) (auto split: prod.splits option.splits)
    then show ?case using Cons.IH by (simp add: foldS_append split: prod.split option.split)
  qed simp
  note this [of "\<lambda>table t (uuid, mu). applyModelUpdate table t uuid (muOld mu) (muNew mu)" "tableUpdates u" t "GetUpdatedTables u"]
  moreover have "(\<lambda>(t :: 's TableCache) (table, p). (\<lambda>(uuid, mu). applyModelUpdate table t uuid (muOld mu) (muNew mu)) p) = applyFlat"
    by (auto simp: applyFlat_def fun_eq_iff)
  ultimately show ?thesis unfolding ApplyCacheUpdate_def ForEachModelUpdate_def flatUpdates_def by (simp only:)
qed

lemma foldS_applyFlat:
  assumes "foldS applyFlat t xs = (t', None)"
  shows "contents t' = fold (\<lambda>(table, uuid, mu) c. c((table, uuid) := muNew mu)) xs (contents t)
    \<and> epEvents (tcEvents t') = epEvents (tcEvents t) @ take (nat (epCapacity (tcEvents t)) - length (epEvents (tcEvents t))) (map eventOf xs)"
  using assms
proof (induction xs arbitrary: t)
  case (Cons x xs)
  obtain table uuid mu where x: "x = (table, uuid, mu)" by (cases x)
  obtain t1 where t1: "applyFlat t x = (t1, None)" "foldS applyFlat t1 xs = (t', None)" using Cons.prems unfolding foldS_ok_Cons by blast
  note s = applyModelUpdate_ok [OF t1(1) [unfolded x applyFlat_def prod.case]]
  define n where "n = nat (epCapacity (tcEvents t)) - length (epEvents (tcEvents t))"
  have "nat (epCapacity (tcEvents t1)) - length (epEvents (tcEvents t1)) = n - 1" using s(2,3) by (cases n) (auto simp: n_def)
  then have "epEvents (tcEvents t') = epEvents (tcEvents t) @ take n [eventOf x] @ take (n - 1) (map eventOf xs)"
    using Cons.IH [OF t1(2)] s(2) by (simp add: n_def x)
  then have "epEvents (tcEvents t') = epEvents (tcEvents t) @ take n (map eventOf (x # xs))" by (cases n) simp_all
  then show ?case using Cons.IH [OF t1(2)] s(1) by (simp add: x n_def)
qed simp

lemma fold_upd_distinct:
  assumes "distinct (map fst xs)"
  shows "fold (\<lambda>(k, v) c. c(k := f v)) xs c k = (case map_of xs k of None \<Rightarrow> c k | Some v \<Rightarrow> f v)"
  using assms
proof (induction xs arbitrary: c)
  case (Cons p xs)
  then show ?case by (cases p) (force split: option.split dest: map_of_SomeD)
qed simp

lemma flatUpdates_keys:
  assumes "wfUpdates u"
  shows "distinct (map (\<lambda>(table, uuid, mu). (table, uuid)) (flatUpdates u))"
    "((table, uuid, mu) \<in> set (flatUpdates u)) \<longleftrightarrow> map_of (tableUpdates u table) uuid = Some mu"
proof -
  have d: "distinct (GetUpdatedTables u)"
    using assms unfolding wfUpdates_def GetUpdatedTables_def by (auto intro: distinct_map_filter)
  have "distinct (map (\<lambda>(table, uuid, mu). (table, uuid)) (concat (map (\<lambda>table. map (Pair table) (tableUpdates u table)) xs)))"
    if "distinct xs" for xs
    using that
  proof (induction xs)
    case (Cons x xs)
    have e: "map (\<lambda>(table, uuid, mu). (table, uuid)) (map (Pair x) ps) = map (\<lambda>p. (x, fst p)) ps" for ps :: "(string \<times> modelUpdate) list"
      by auto
    have "distinct (map (\<lambda>p. (x, fst p)) (tableUpdates u x))"
    proof -
      have "distinct (map fst (tableUpdates u x))" using wfUpdates_table [OF assms, of x] by simp
      then show ?thesis by (auto simp: distinct_map inj_on_def)
    qed
    then show ?case using Cons by (auto simp del: map_map simp add: e)
  qed simp
  from this [OF d] show "distinct (map (\<lambda>(table, uuid, mu). (table, uuid)) (flatUpdates u))" unfolding flatUpdates_def .
  have g: "gm_ok (tableUpdates u table)" using wfUpdates_table [OF assms] by blast
  have "(table, uuid, mu) \<in> set (flatUpdates u) \<longleftrightarrow> table \<in> set (GetUpdatedTables u) \<and> (uuid, mu) \<in> set (tableUpdates u table)"
    by (auto simp: flatUpdates_def)
  also have "\<dots> \<longleftrightarrow> (uuid, mu) \<in> set (tableUpdates u table)"
  proof -
    have "table \<in> set (GetUpdatedTables u)" if p: "p \<in> set (tableUpdates u table)" for p
    proof -
      obtain ups where "map_of u table = Some ups" "p \<in> set ups" using p by (cases "map_of u table") (auto simp: tableUpdates_def)
      then have "(table, ups) \<in> set u" "ups \<noteq> []" by (auto dest: map_of_SomeD)
      then show ?thesis unfolding GetUpdatedTables_def by force
    qed
    then show ?thesis by blast
  qed
  finally show "((table, uuid, mu) \<in> set (flatUpdates u)) \<longleftrightarrow> map_of (tableUpdates u table) uuid = Some mu"
    using map_of_in_iff [OF g] by simp
qed


lemma ApplyCacheUpdate_ok:
  assumes "ApplyCacheUpdate u t = (t', None)" "wfUpdates u"
  shows "contents t' (table, uuid) = (case map_of (tableUpdates u table) uuid of None \<Rightarrow> contents t (table, uuid) | Some mu \<Rightarrow> muNew mu)"
    "epEvents (tcEvents t') = epEvents (tcEvents t) @ take (nat (epCapacity (tcEvents t)) - length (epEvents (tcEvents t))) (map eventOf (flatUpdates u))"
proof -
  note f = foldS_applyFlat [OF assms(1) [unfolded ApplyCacheUpdate_flat]]
  show "epEvents (tcEvents t') = epEvents (tcEvents t) @ take (nat (epCapacity (tcEvents t)) - length (epEvents (tcEvents t))) (map eventOf (flatUpdates u))"
    using f by blast
  define xs where "xs = map (\<lambda>(tb, u, mu). ((tb, u), mu)) (flatUpdates u)"
  have "fold (\<lambda>(table, uuid, mu) c. c((table, uuid) := muNew mu)) ys c = fold (\<lambda>(k, v) c. c(k := muNew v)) (map (\<lambda>(tb, u, mu). ((tb, u), mu)) ys) c"
    for ys and c :: "string \<times> string \<Rightarrow> Model option"
    by (induction ys arbitrary: c) auto
  then have c: "contents t' = fold (\<lambda>(k, v) c. c(k := muNew v)) xs (contents t)" using f xs_def by simp
  have d: "distinct (map fst xs)"
    using flatUpdates_keys(1) [OF assms(2)] by (simp add: xs_def comp_def case_prod_unfold)
  have "map_of xs (table, uuid) = Some mu \<longleftrightarrow> map_of (tableUpdates u table) uuid = Some mu" for mu
  proof -
    have "((table, uuid), mu) \<in> set xs \<longleftrightarrow> (table, uuid, mu) \<in> set (flatUpdates u)" by (force simp: xs_def)
    then show ?thesis using map_of_eq_Some_iff [OF d] flatUpdates_keys(2) [OF assms(2)] by simp
  qed
  then have "map_of xs (table, uuid) = map_of (tableUpdates u table) uuid" by (metis not_Some_eq)
  then show "contents t' (table, uuid) = (case map_of (tableUpdates u table) uuid of None \<Rightarrow> contents t (table, uuid) | Some mu \<Rightarrow> muNew mu)"
    unfolding c fold_upd_distinct [OF d] by simp
qed


lemma AddEvent_bound: "int (length (epEvents e)) \<le> epCapacity e \<Longrightarrow> int (length (epEvents (AddEvent ty table old new e))) \<le> epCapacity (AddEvent ty table old new e)"
  by (simp add: AddEvent_def)

section \<open>Properties\<close>

text \<open>
  Claim C11. An applied cache update refines the pointwise update of the contents: every row named by the update
  holds its new model, or is gone when there is none, and every other row of every table is as before.
\<close>

theorem ApplyCacheUpdate_refines:
  assumes "ApplyCacheUpdate u t = (t', None)" and "wfUpdates u"
  shows "contents t' (table, uuid) = (case map_of (tableUpdates u table) uuid of None \<Rightarrow> contents t (table, uuid) | Some mu \<Rightarrow> muNew mu)"
  by (rule ApplyCacheUpdate_ok(1) [OF assms])

text \<open>
  The events queued by an applied update are one add, update or delete event for each of its rows, in the order of
  application; when the channel fills up the rest of them is dropped and nothing else.
\<close>

theorem ApplyCacheUpdate_events:
  assumes "ApplyCacheUpdate u t = (t', None)" and "wfUpdates u"
  shows "epEvents (tcEvents t') = epEvents (tcEvents t) @ take (nat (epCapacity (tcEvents t)) - length (epEvents (tcEvents t))) (map eventOf (flatUpdates u))"
  by (rule ApplyCacheUpdate_ok(2) [OF assms])



section \<open>A notification that replicates an update\<close>

text \<open>The index values of every well formed row of the table can be computed and used as keys.\<close>

definition indexable :: "RowCache \<Rightarrow> bool" where
  "indexable r = (\<forall>spec \<in> set (rcSpecs r). \<forall>i. wfInfo i \<longrightarrow> map_of (dbMetadata (rcDb r)) (mType (Obj i)) = Some (iMeta i)
     \<longrightarrow> isOk (indexKey i spec))"

lemma UpdateRow_total:
  assumes "indexable r" "map_of (rcCache r) uuid = Some m" "NewModelInfo (rcDb r) m = Inr i" "wfInfo i"
    "NewModelInfo (rcDb r) m' = Inr j" "wfInfo j"
  shows "\<exists>r'. UpdateRow uuid m' False r = Inr (r', m)"
proof -
  have "isOk (updateKeys r i j spec)" if "spec \<in> set (rcSpecs r)" for spec
  proof -
    have "isOk (indexKey i spec)" "isOk (indexKey j spec)"
      using assms(1,3-6) that by (auto simp: indexable_def NewModelInfo_def split: option.splits)
    then show ?thesis by (auto simp: updateKeys_def indexKey_def resR)
  qed
  then have "\<exists>ks. mapR (updateKeys r i j) (rcSpecs r) = Inr ks" by (intro mapR_total)
  moreover have "\<not> conflicts r False spec v uuid" for spec v by (simp add: conflicts_def)
  ultimately show ?thesis using assms(2,3,5) by (auto simp: UpdateRow_def Clone_def list_ex_iff)
qed

lemma ApplyCacheUpdate_one:
  assumes "applyModelUpdate table t uuid (muOld mu) (muNew mu) = (t', None)"
  shows "ApplyCacheUpdate [(table, [(uuid, mu)])] t = (t', None)"
  using assms by (simp add: ApplyCacheUpdate_def GetUpdatedTables_def ForEachModelUpdate_def tableUpdates_def)

lemma Populate2_one:
  fixes t :: "'s TableCache"
  assumes "table \<in> set (keys (cdbTypes (dbClient (tcDb t))))" "gm_ok (cdbTypes (dbClient (tcDb t)))"
    and "populateRow2 table t (uuid, row) = (t', None)"
  shows "Populate2 [(table, [(uuid, row)])] t = (t', None)"
proof -
  obtain xs ys where k: "keys (cdbTypes (dbClient (tcDb t))) = xs @ table # ys" "table \<notin> set xs" "table \<notin> set ys"
    using assms(1,2) by (metis distinct_append distinct.simps(2) in_set_conv_decomp not_distinct_conv_prefix split_list_first)
  define f where "f = (\<lambda>(t :: 's TableCache) tb. case map_of [(table, [(uuid, row)])] tb of None \<Rightarrow> (t, None) | Some tu \<Rightarrow> foldS (populateRow2 tb) t tu)"
  have skip: "foldS f s zs = (s, None)" if "table \<notin> set zs" for zs s
    using that by (induction zs) (auto simp: f_def)
  have "f t table = (t', None)" using assms(3) by (simp add: f_def)
  then have "foldS f t (xs @ table # ys) = (t', None)" using skip k by (simp add: foldS_append)
  then show ?thesis unfolding Populate2_def k(1) f_def .
qed

lemma Populate2_modify:
  assumes "wfDb (tcDb t)" and "map_of (tcCache t) table = Some r" and "rcDb r = tcDb t" and "indexable r"
    and "map_of (rcCache r) uuid = Some m" and "tableModel (tcDb t) table m" and "NewModelInfo (tcDb t) m = Inr i" and "distinctFields i"
    and "gm_ok row" and "distinctRow (mTableSchema (iMeta i)) row"
    and "updateModel (tcDb t) table i row (Some []) = Inr (True, i', Some d)"
  shows "\<exists>t' j. Populate2 [(table, [(uuid, Some (emptyRU2\<lparr>Modify := Some d\<rparr>))])] t = (t', None)
    \<and> contents t' = (contents t)((table, uuid) \<mapsto> Obj j)
    \<and> NewModelInfo (tcDb t) (Obj j) = Inr j \<and> (\<forall>c. sameField (FieldByColumn i' c) (FieldByColumn j c))"
proof -
  have i: "wfInfo i" "Obj i = m" "Table (dbSchema (tcDb t)) table = Some (mTableSchema (iMeta i))"
      "map_of (dbMetadata (tcDb t)) (mType m) = Some (iMeta i)"
    using NewModelInfo_wf [OF assms(1,6)] assms(7) by auto
  have "inStep (mTableSchema (iMeta i)) i (keys row) (True, i', Some d)"
    using inStep_loop [OF i(1) assms(8) refl assms(9,10)] assms(11) i(3) by (simp add: updateModel_def updateOrModifyModel_def)
  then obtain j where j: "foldR (changeColumn (Some (mTableSchema (iMeta i))) True) (False, i, None) d = Inr (True, j, None)"
      "wfInfo j" "iMeta j = iMeta i" "mType (Obj j) = mType (Obj i)" "\<And>c. sameField (FieldByColumn i' c) (FieldByColumn j c)"
    unfolding inStep_def by auto
  have nj: "NewModelInfo (tcDb t) (Obj j) = Inr j" using j(3,4) i(2,4) by (simp add: NewModelInfo_def)
  obtain r' where r': "UpdateRow uuid (Obj j) False r = Inr (r', m)"
    using UpdateRow_total [OF assms(4,5), of i "Obj j" j] assms(3,7) i(1) j(2) nj by auto
  define ru where "ru = emptyRU2\<lparr>Modify := Some d\<rparr>"
  define mu where "mu = \<lparr>muRow = Some ru, muOld = Some m, muNew = Some (Obj j)\<rparr>"
  have ru: "Initial ru = None" "Insert ru = None" "Modify ru = Some d" by (simp_all add: ru_def emptyRU2_def)
  have "modifyModel (tcDb t) table i d = Inr (True, j, None)" using j(1) i(3) by (simp add: modifyModel_def updateOrModifyModel_def)
  then have "AddRowUpdate2 (tcDb t) table uuid (Some m) ru [] = addUpdate (tcDb t) table uuid mu []"
    using assms(7) by (simp add: AddRowUpdate2_def ru cloneModel_def Clone_def mu_def)
  also have "\<dots> = Inr [(table, [(uuid, mu)])]"
    by (subst addUpdate_first) (simp_all add: pending_def tableUpdates_def mu_def)
  finally have add: "AddRowUpdate2 (tcDb t) table uuid (Some m) ru [] = Inr [(table, [(uuid, mu)])]" .
  obtain t' where t': "applyModelUpdate table t uuid (muOld mu) (muNew mu) = (t', None)"
    using r' assms(2) by (simp add: applyModelUpdate_def mu_def)
  have "populateRow2 table t (uuid, Some ru) = (t', None)"
    using add ApplyCacheUpdate_one [OF t'] assms(2,5) by (simp add: populateRow2_def)
  moreover have "table \<in> set (keys (cdbTypes (dbClient (tcDb t))))"
    using assms(6) by (force simp: tableModel_def dest: map_of_SomeD)
  ultimately have "Populate2 [(table, [(uuid, Some ru)])] t = (t', None)"
    using Populate2_one [of table t uuid "Some ru" t'] assms(1) unfolding wfDb_def by blast
  moreover have "contents t' = (contents t)((table, uuid) \<mapsto> Obj j)" using applyModelUpdate_ok(1) [OF t'] by (simp add: mu_def)
  ultimately show ?thesis using nj j(5) by (auto simp: ru_def)
qed

text \<open>
  Claim C9. Replication: the server updates a row, the client receives the resulting \<open>modify\<close> delta as an \<open>update2\<close>
  notification and holds the row as it was before. Then the notification is applied without error, the client's row has
  afterwards the column values of the server's, and no other row of its cache changes.
\<close>

theorem Populate2_replicates:
  assumes "wfDb (tcDb t)" and "map_of (tcCache t) table = Some r" and "rcDb r = tcDb t" and "indexable r"
    and "map_of (rcCache r) uuid = Some m" and "tableModel (tcDb t) table m" and "NewModelInfo (tcDb t) m = Inr i" and "distinctFields i"
    and "gm_ok row" and "distinctRow (mTableSchema (iMeta i)) row"
    and "updateModel (tcDb t) table i row (Some []) = Inr (True, i', Some d)"
  shows "\<exists>t' j. Populate2 [(table, [(uuid, Some (emptyRU2\<lparr>Modify := Some d\<rparr>))])] t = (t', None)
    \<and> contents t' = (contents t)((table, uuid) \<mapsto> Obj j)
    \<and> NewModelInfo (tcDb t) (Obj j) = Inr j \<and> (\<forall>c. sameField (FieldByColumn i' c) (FieldByColumn j c))"
  by (rule Populate2_modify [OF assms])

definition exTC :: "unit TableCache" where
  "exTC = \<lparr>tcCache = [(''Bridge'', exCache [(''u'', exModel ''u'' ''br0'')] [(IVal (VAtom (AStr ''br0'')), [''u''])])],
     tcEvents = newEventProcessor 1, tcDb = exDb\<rparr>"

lemma indexable_exCache: "indexable (exCache rows idx)"
proof -
  have "isOk (indexKey i exSpec)" if i: "wfInfo i" "map_of (dbMetadata exDb) (mType (Obj i)) = Some (iMeta i)" for i
  proof -
    have m: "iMeta i = exMeta" "mType (Obj i) = exStruct" using i(2) by (auto simp: exDb_def split: if_splits)
    then have "colType i ''name'' = Some (RAtom GString)" by (simp add: colType_def exMeta_def fieldType_def exStruct_def)
    then obtain v where v: "FieldByColumn i ''name'' = Inr v" "typeOf v = Some (RAtom GString)" using info.get_typed [OF i(1)] by blast
    then obtain a where "v = VAtom a" by (cases v) auto
    then show ?thesis using v by (simp add: indexKey_def valueFromIndex_def exSpec_def valueFromColumnKey_def hashable_def)
  qed
  then show ?thesis by (simp add: indexable_def exCache_def)
qed

theorem Populate2_replicates_witness:
  "\<exists>t' j. Populate2 [(''Bridge'', [(''u'', Some (emptyRU2\<lparr>Modify := Some [(''name'', VAtom (AStr ''br1''))]\<rparr>))])] exTC = (t', None)
    \<and> contents t' = (contents exTC)((''Bridge'', ''u'') \<mapsto> Obj j)
    \<and> NewModelInfo exDb (Obj j) = Inr j \<and> (\<forall>c. sameField (FieldByColumn \<lparr>Obj = exModel ''u'' ''br1'', iMeta = exMeta\<rparr> c) (FieldByColumn j c))"
proof -
  have db: "tcDb exTC = exDb" by (simp add: exTC_def)
  note w = Populate2_replicates [of exTC "''Bridge''" "exCache [(''u'', exModel ''u'' ''br0'')] [(IVal (VAtom (AStr ''br0'')), [''u''])]" "''u''"
      "exModel ''u'' ''br0''" "\<lparr>Obj = exModel ''u'' ''br0'', iMeta = exMeta\<rparr>", unfolded db, OF wfDb_exDb _ _ indexable_exCache _ _ NewModelInfo_ex _ _ _ exUpdate]
  show ?thesis
  proof (rule w)
    show "distinctFields \<lparr>Obj = exModel ''u'' ''br0'', iMeta = exMeta\<rparr>"
      by (simp add: distinctFields_def exMeta_def FieldByColumn_def exModel_def distinctVal_def)
    show "tableModel exDb ''Bridge'' (exModel ''u'' ''br0'')"
      by (simp add: tableModel_def exDb_def exClient_def wfModel_exModel) (simp add: exModel_def)
  qed (simp_all add: exTC_def exCache_def exMeta_def distinctRow_def exTable_def Column_def exNameColumn_def OvsToNative_def distinctVal_def)
qed

definition exDelete :: ModelUpdates where
  "exDelete = [(''Bridge'', [(''u'', \<lparr>muRow = Some emptyRU2, muOld = Some (exModel ''u'' ''br0''), muNew = None\<rparr>)])]"

lemma ApplyCacheUpdate_ex: "snd (ApplyCacheUpdate exDelete exTC) = None" "wfUpdates exDelete"
proof -
  have "\<exists>r. DeleteRow ''u'' (exCache [(''u'', exModel ''u'' ''br0'')] [(IVal (VAtom (AStr ''br0'')), [''u''])]) = Inr r"
    by (simp add: DeleteRow_def) (simp add: exCache_def NewModelInfo_ex exKey)
  then show "snd (ApplyCacheUpdate exDelete exTC) = None"
    by (auto simp: ApplyCacheUpdate_def GetUpdatedTables_def ForEachModelUpdate_def tableUpdates_def exDelete_def applyModelUpdate_def exTC_def)
  show "wfUpdates exDelete" by (simp add: wfUpdates_def exDelete_def isEmpty_def emptyUpdate_def)
qed

theorem ApplyCacheUpdate_refines_witness:
  "snd (ApplyCacheUpdate exDelete exTC) = None \<and> contents exTC (''Bridge'', ''u'') \<noteq> None \<and> contents (fst (ApplyCacheUpdate exDelete exTC)) (''Bridge'', ''u'') = None"
  using ApplyCacheUpdate_refines [of exDelete exTC "fst (ApplyCacheUpdate exDelete exTC)" "''Bridge''" "''u''"] ApplyCacheUpdate_ex
  by (simp add: prod_eq_iff tableUpdates_def) (simp add: exDelete_def contents_def exTC_def exCache_def)

theorem ApplyCacheUpdate_events_witness:
  "epEvents (tcEvents (fst (ApplyCacheUpdate exDelete exTC))) = [\<lparr>evType = deleteEvent, evTable = ''Bridge'', evOld = Some (exModel ''u'' ''br0''), evNew = None\<rparr>]"
  using ApplyCacheUpdate_events [of exDelete exTC "fst (ApplyCacheUpdate exDelete exTC)"] ApplyCacheUpdate_ex
  by (simp add: prod_eq_iff) (simp add: exTC_def newEventProcessor_def flatUpdates_def GetUpdatedTables_def exDelete_def tableUpdates_def eventOf_def)

end
