(* ===== verification/References.thy ===== *)
theory References
  imports Updates
begin

text \<open>
  The references between rows (\<open>database/references.go\<close>): for every place in the schema that holds
  references, the rows that are referenced from there with the rows that reference them. The lemmas show that this nested
  map behaves as one finite function from a place and a row to the referencing rows, of which no empty part is stored.
\<close>

record ReferenceSpec =
  ToTable :: string
  FromTable :: string
  FromColumn :: string
  FromValue :: bool

type_synonym Reference = "(string, string list) gomap"
type_synonym References = "(ReferenceSpec, Reference) gomap"

definition GetReferences :: "References \<Rightarrow> string \<Rightarrow> string \<Rightarrow> References" where
  "GetReferences rs table uuid =
     fold (\<lambda>(spec, values) refs.
       if ToTable spec \<noteq> table then refs
       else case map_of values uuid of None \<Rightarrow> refs | Some from \<Rightarrow> AList.update spec [(uuid, from)] refs) rs []"

definition updateReference :: "ReferenceSpec \<Rightarrow> string \<Rightarrow> string list \<Rightarrow> References \<Rightarrow> References" where
  "updateReference spec to from rs =
     (if map_of rs spec = None \<and> from \<noteq> [] then AList.update spec [(to, from)] rs
      else let thisRefs = (case map_of rs spec of None \<Rightarrow> [] | Some r \<Rightarrow> r)
           in if from \<noteq> [] then AList.update spec (AList.update to from thisRefs) rs
              else let thisRefs' = AList.delete to thisRefs
                   in if thisRefs' = [] then AList.delete spec rs else AList.update spec thisRefs' rs)"

definition UpdateReferences :: "References \<Rightarrow> References \<Rightarrow> References" where
  "UpdateReferences other rs =
     fold (\<lambda>(spec, otherRefs) rs. fold (\<lambda>(to, from) rs. updateReference spec to from rs) otherRefs rs) other rs"

section \<open>References as a function\<close>

definition referencing :: "References \<Rightarrow> ReferenceSpec \<Rightarrow> string \<Rightarrow> string list" where
  "referencing rs spec to = (case map_of rs spec of None \<Rightarrow> [] | Some r \<Rightarrow> (case map_of r to of None \<Rightarrow> [] | Some from \<Rightarrow> from))"

definition wfRefs :: "References \<Rightarrow> bool" where
  "wfRefs rs = (gm_ok rs \<and> list_all (\<lambda>(spec, r). gm_ok r \<and> r \<noteq> [] \<and> list_all (\<lambda>(to, from). from \<noteq> []) r) rs)"

text \<open>
  What a store of references promises to its users: a write is seen at its place and row and nowhere else, and the
  writes of a batch are seen in their order.
\<close>

locale reference_store =
  fixes ok :: "'r \<Rightarrow> bool"
    and look :: "'r \<Rightarrow> 'k \<Rightarrow> 'v"
    and put :: "'k \<Rightarrow> 'v \<Rightarrow> 'r \<Rightarrow> 'r"
  assumes look_put: "ok r \<Longrightarrow> look (put k v r) = (look r)(k := v)"
    and put_ok: "ok r \<Longrightarrow> ok (put k v r)"
begin

lemma batch_ok: "ok r \<Longrightarrow> ok (fold (\<lambda>(k, v). put k v) kvs r)"
  by (induction kvs arbitrary: r) (auto simp: put_ok)

lemma look_batch:
  assumes "ok r" "distinct (map fst kvs)"
  shows "look (fold (\<lambda>(k, v). put k v) kvs r) k = (case map_of kvs k of None \<Rightarrow> look r k | Some v \<Rightarrow> v)"
  using assms
proof (induction kvs arbitrary: r)
  case (Cons p kvs)
  obtain k' v' where p: "p = (k', v')" by fastforce
  have "map_of kvs k' = None" using Cons.prems(2) p by (simp add: map_of_eq_None_iff)
  then show ?case
    using Cons.IH [of "put k' v' r"] Cons.prems p by (auto simp: put_ok look_put split: option.splits)
qed simp

end

lemma wfRefs_entry: "wfRefs rs \<Longrightarrow> map_of rs spec = Some r \<Longrightarrow> gm_ok r \<and> r \<noteq> [] \<and> list_all (\<lambda>(to, from). from \<noteq> []) r"
  by (auto simp: wfRefs_def list_all_iff dest!: map_of_SomeD)

lemma wfRefs_update: "wfRefs rs \<Longrightarrow> gm_ok r \<Longrightarrow> r \<noteq> [] \<Longrightarrow> list_all (\<lambda>(to, from). from \<noteq> []) r \<Longrightarrow> wfRefs (AList.update spec r rs)"
  by (auto simp: wfRefs_def intro!: list_all_update)

lemma wfRefs_delete: "wfRefs rs \<Longrightarrow> wfRefs (AList.delete spec rs)"
  by (auto simp: wfRefs_def intro!: list_all_delete)

lemma update_nonempty: "AList.update k v m \<noteq> []"
  by (cases m) auto

lemma updateReference_wf:
  assumes "wfRefs rs"
  shows "wfRefs (updateReference spec to from rs)"
proof (cases "map_of rs spec")
  case None
  then show ?thesis using assms by (auto simp: updateReference_def Let_def intro!: wfRefs_update wfRefs_delete)
next
  case (Some r)
  then show ?thesis using assms wfRefs_entry [OF assms Some]
    by (auto simp: updateReference_def Let_def update_nonempty intro!: wfRefs_update wfRefs_delete list_all_update list_all_delete)
qed

lemma referencing_update:
  "referencing (updateReference spec to from rs) s t = (if s = spec \<and> t = to then from else referencing rs s t)"
proof (cases "map_of rs spec")
  case None
  then show ?thesis by (auto simp: updateReference_def referencing_def Let_def)
next
  case (Some r)
  have "map_of r t = None" if "AList.delete to r = []" "t \<noteq> to"
  proof -
    have "map_of (AList.delete to r) t = None" using that(1) by simp
    then show ?thesis using that(2) by simp
  qed
  then show ?thesis using Some by (auto simp: updateReference_def referencing_def Let_def split: option.splits)
qed

interpretation refs: reference_store wfRefs "\<lambda>rs (spec, to). referencing rs spec to" "\<lambda>(spec, to) from. updateReference spec to from"
proof
  fix r k v
  assume r: "wfRefs r"
  show "(\<lambda>(spec, to). referencing ((case k of (spec, to) \<Rightarrow> \<lambda>from. updateReference spec to from) v r) spec to)
      = (\<lambda>(spec, to). referencing r spec to)(k := v)"
    by (cases k) (auto simp: referencing_update fun_eq_iff)
  show "wfRefs ((case k of (spec, to) \<Rightarrow> \<lambda>from. updateReference spec to from) v r)"
    using r by (cases k) (simp add: updateReference_wf)
qed

definition flatRefs :: "References \<Rightarrow> ((ReferenceSpec \<times> string) \<times> string list) list" where
  "flatRefs rs = concat (map (\<lambda>(spec, r). map (\<lambda>(to, from). ((spec, to), from)) r) rs)"

lemma UpdateReferences_flat:
  "UpdateReferences other rs = fold (\<lambda>(k, v). (case k of (spec, to) \<Rightarrow> \<lambda>from. updateReference spec to from) v) (flatRefs other) rs"
proof -
  have inner: "fold (\<lambda>(to, from) rs. updateReference spec to from rs) r rs
      = fold (\<lambda>(k, v). (case k of (spec, to) \<Rightarrow> \<lambda>from. updateReference spec to from) v) (map (\<lambda>(to, from). ((spec, to), from)) r) rs" for spec r rs
    by (induction r arbitrary: rs) auto
  show ?thesis unfolding UpdateReferences_def flatRefs_def
    by (induction other arbitrary: rs) (auto simp: inner)
qed

lemma flatRefs_keys:
  assumes "gm_ok rs" "list_all (\<lambda>(spec, r). gm_ok r) rs"
  shows "distinct (map fst (flatRefs rs))" "map_of (flatRefs rs) (spec, to) = (case map_of rs spec of None \<Rightarrow> None | Some r \<Rightarrow> map_of r to)"
proof -
  have "distinct (map fst (flatRefs rs)) \<and> (\<forall>spec to. map_of (flatRefs rs) (spec, to) = (case map_of rs spec of None \<Rightarrow> None | Some r \<Rightarrow> map_of r to))"
    using assms
  proof (induction rs)
    case Nil
    then show ?case by (simp add: flatRefs_def)
  next
    case (Cons p rs)
    obtain s r where p: "p = (s, r)" by fastforce
    have fl: "flatRefs (p # rs) = map (\<lambda>(to, from). ((s, to), from)) r @ flatRefs rs" by (simp add: flatRefs_def p)
    have m1: "map_of (map (\<lambda>(to, from). ((s, to), from)) r) (spec, to) = (if spec = s then map_of r to else None)" for spec to
      by (induction r) auto
    have d1: "distinct (map fst (map (\<lambda>(to, from). ((s, to), from)) r))"
      using Cons.prems(2) p by (auto simp: distinct_map inj_on_def comp_def case_prod_unfold)
    have ih: "distinct (map fst (flatRefs rs))" "\<And>spec to. map_of (flatRefs rs) (spec, to) = (case map_of rs spec of None \<Rightarrow> None | Some r \<Rightarrow> map_of r to)"
      using Cons by auto
    have "map_of rs s = None" using Cons.prems(1) p by (simp add: map_of_eq_None_iff)
    then have "map_of (flatRefs rs) (s, to) = None" for to using ih(2) by simp
    then have "(s, to) \<notin> set (map fst (flatRefs rs))" for to using map_of_eq_None_iff [of "flatRefs rs"] by simp
    then have "distinct (map fst (flatRefs (p # rs)))" unfolding fl using d1 ih(1) by force
    moreover have "map_of (flatRefs (p # rs)) (spec, to) = (case map_of (p # rs) spec of None \<Rightarrow> None | Some r \<Rightarrow> map_of r to)" for spec to
      unfolding fl map_of_append map_add_def m1 ih(2) using \<open>map_of rs s = None\<close> p by (auto split: option.splits)
    ultimately show ?case by blast
  qed
  then show "distinct (map fst (flatRefs rs))" "map_of (flatRefs rs) (spec, to) = (case map_of rs spec of None \<Rightarrow> None | Some r \<Rightarrow> map_of r to)"
    by blast+
qed

text \<open>
  References are one finite function: updating them with others replaces what the others name, place by place and
  row by row, an empty list deletes, everything else stays, and no empty part is stored afterwards.
\<close>

theorem UpdateReferences_refines:
  assumes "wfRefs rs" and "gm_ok other" and "list_all (\<lambda>(spec, r). gm_ok r) other"
  shows "wfRefs (UpdateReferences other rs)
    \<and> referencing (UpdateReferences other rs) spec to
      = (case map_of other spec of None \<Rightarrow> referencing rs spec to
         | Some r \<Rightarrow> (case map_of r to of None \<Rightarrow> referencing rs spec to | Some from \<Rightarrow> from))"
proof -
  note k = flatRefs_keys [OF assms(2,3)]
  show ?thesis
    using refs.batch_ok [OF assms(1), of "flatRefs other"] refs.look_batch [OF assms(1) k(1), of "(spec, to)"]
    unfolding UpdateReferences_flat [symmetric] k(2) by (auto split: option.splits)
qed

theorem UpdateReferences_refines_witness:
  "referencing (UpdateReferences [(\<lparr>ToTable = ''A'', FromTable = ''B'', FromColumn = ''c'', FromValue = False\<rparr>, [(''x'', []), (''y'', [''b2''])])]
       [(\<lparr>ToTable = ''A'', FromTable = ''B'', FromColumn = ''c'', FromValue = False\<rparr>, [(''x'', [''b1''])])])
     \<lparr>ToTable = ''A'', FromTable = ''B'', FromColumn = ''c'', FromValue = False\<rparr> ''x'' = []"
  by (subst UpdateReferences_refines [THEN conjunct2]) (simp_all add: wfRefs_def)

lemma GetReferences_spec:
  assumes "gm_ok rs"
  shows "referencing (GetReferences rs table uuid) spec to = (if ToTable spec = table \<and> to = uuid then referencing rs spec to else [])"
proof -
  define f where "f = (\<lambda>(spec :: ReferenceSpec, values :: Reference) (refs :: References). if ToTable spec \<noteq> table then refs
       else case map_of values uuid of None \<Rightarrow> refs | Some from \<Rightarrow> AList.update spec [(uuid, from)] refs)"
  have "map_of (fold f rs acc) spec = (case map_of rs spec of None \<Rightarrow> map_of acc spec
      | Some r \<Rightarrow> if ToTable spec = table \<and> map_of r uuid \<noteq> None then Some [(uuid, the (map_of r uuid))] else map_of acc spec)" for acc
    using assms
  proof (induction rs arbitrary: acc)
    case (Cons p rs)
    obtain s r where p: "p = (s, r)" by fastforce
    have n: "map_of rs s = None" using Cons.prems p by (simp add: map_of_eq_None_iff)
    have "map_of (f p acc) spec = (if spec = s \<and> ToTable spec = table \<and> map_of r uuid \<noteq> None then Some [(uuid, the (map_of r uuid))] else map_of acc spec)"
      by (auto simp: f_def p split: option.splits)
    then show ?case using Cons.IH [of "f p acc"] Cons.prems n p by (auto split: option.splits)
  qed simp
  then show ?thesis unfolding GetReferences_def f_def [symmetric]
    by (auto simp: referencing_def split: option.splits)
qed

end
