(* ===== verification/RefTracker.thy ===== *)
theory RefTracker
  imports References
begin

text \<open>
  Referential integrity (\<open>updates/references.go\<close>). The tracker goes over a set of updates, keeps the references
  they change, deletes the rows outside the root set that nothing refers to strongly any more, removes weak
  references to deleted rows, and repeats with the updates it made until there are none. The database is a
  \<open>ReferenceProvider\<close>, a parameter here; the in-memory database provides it. The order in which the code goes over
  maps is the order of the association lists. Slices of references are values: the model does not follow
  the sharing of their backing arrays with the provider.
\<close>

section \<open>References in a row\<close>

record ReferenceProvider =
  prGetReferences :: "string \<Rightarrow> string \<Rightarrow> string \<Rightarrow> References result"
  prGet :: "string \<Rightarrow> string \<Rightarrow> string \<Rightarrow> Model option result"

definition refInfo :: "DatabaseModel \<Rightarrow> string \<Rightarrow> string \<Rightarrow> bool \<Rightarrow> (ExtendedType \<times> int \<times> RefType \<times> string) result" where
  "refInfo db table column mapValue =
     (case Table (dbSchema db) table of
        None \<Rightarrow> Inl (Panic ''unexpected schema error: no schema for table'')
      | Some tSchema \<Rightarrow> (case Column tSchema column of
          None \<Rightarrow> Inl (Panic ''unexpected schema error: no schema for column'')
        | Some cSchema \<Rightarrow> (case TypeObj cSchema of
            None \<Rightarrow> Inr (TypeOther [], 0, RefOther [], [])
          | Some ct \<Rightarrow> (case (if mapValue then Value ct else Key ct) of
              None \<Rightarrow> Inl (Panic ''unexpected schema error: no schema for map value'')
            | Some bt \<Rightarrow>
                if bType bt \<noteq> TypeUUID then Inr (TypeOther [], 0, RefOther [], [])
                else let extendedType = (if cType cSchema = TypeSet \<and> Min ct = 0 \<and> Max ct = 1 then TypeUUID else cType cSchema)
                     in bindR (BaseRefType bt) (\<lambda>rType. bindR (RefTable bt) (\<lambda>rTable. Inr (extendedType, Min ct, rType, rTable)))))))"

definition refTable :: "DatabaseModel \<Rightarrow> string \<Rightarrow> string \<Rightarrow> bool \<Rightarrow> string result" where
  "refTable db table column mapValue = bindR (refInfo db table column mapValue) (\<lambda>(_, _, _, t). Inr t)"

definition isRoot :: "DatabaseModel \<Rightarrow> string \<Rightarrow> bool result" where
  "isRoot db table = (case IsRoot (dbSchema db) table of Inl _ \<Rightarrow> Inl (Panic ''unexpected schema error'') | Inr b \<Rightarrow> Inr b)"

definition isStrong :: "DatabaseModel \<Rightarrow> ReferenceSpec \<Rightarrow> bool result" where
  "isStrong db spec = bindR (refInfo db (FromTable spec) (FromColumn spec) (FromValue spec)) (\<lambda>(_, _, rt, _). Inr (rt = Strong))"

definition refSpec :: "string \<Rightarrow> string \<Rightarrow> string \<Rightarrow> bool \<Rightarrow> ReferenceSpec" where
  "refSpec to table column v = \<lparr>ToTable = to, FromTable = table, FromColumn = column, FromValue = v\<rparr>"

definition getReferenceModificationsFromAtom ::
  "DatabaseModel \<Rightarrow> string \<Rightarrow> string \<Rightarrow> string \<Rightarrow> string \<Rightarrow> string \<Rightarrow> References result" where
  "getReferenceModificationsFromAtom db table uuid column modify old =
     bindR (refTable db table column False) (\<lambda>rt.
       if rt = [] then Inr []
       else Inr [(refSpec rt table column False,
                  if old \<noteq> [] then AList.update old [uuid] [(modify, [uuid])] else [(modify, [uuid])])])"

definition addTo :: "string \<Rightarrow> atom \<Rightarrow> Reference \<Rightarrow> Reference" where
  "addTo from v r = (case v of AUUID to \<Rightarrow> AList.update to ((case map_of r to of None \<Rightarrow> [] | Some f \<Rightarrow> f) @ [from]) r | _ \<Rightarrow> r)"

definition getReferenceModificationsFromSet ::
  "DatabaseModel \<Rightarrow> string \<Rightarrow> string \<Rightarrow> string \<Rightarrow> atom list \<Rightarrow> atom list \<Rightarrow> References result" where
  "getReferenceModificationsFromSet db table uuid column modify old =
     (let value = (if modify = [] then old else modify) in
      if value = [] then Inr []
      else bindR (refTable db table column False) (\<lambda>rt.
        if rt = [] then Inr [] else Inr [(refSpec rt table column False, fold (addTo uuid) value [])]))"

text \<open>One key or value of a map: it is recorded once.\<close>

definition addMapRef :: "ReferenceSpec \<Rightarrow> string \<Rightarrow> atom \<Rightarrow> References \<Rightarrow> References" where
  "addMapRef spec from v refs =
     (if ToTable spec = [] then refs
      else case v of
        AUUID to \<Rightarrow>
          (case map_of refs spec of
             None \<Rightarrow> AList.update spec [(to, [from])] refs
           | Some r \<Rightarrow> if map_of r to = None then AList.update spec (AList.update to [from] r) refs else refs)
      | _ \<Rightarrow> refs)"

definition getReferenceModificationsFromMap ::
  "DatabaseModel \<Rightarrow> string \<Rightarrow> string \<Rightarrow> string \<Rightarrow> (atom, atom) gomap \<Rightarrow> References result" where
  "getReferenceModificationsFromMap db table uuid column value =
     (if value = [] then Inr []
      else bindR (refTable db table column False) (\<lambda>keyRefTable. bindR (refTable db table column True) (\<lambda>valueRefTable.
        if keyRefTable = [] \<and> valueRefTable = [] then Inr []
        else Inr (fold (\<lambda>(k, v) refs. addMapRef (refSpec valueRefTable table column True) uuid v
                                        (addMapRef (refSpec keyRefTable table column False) uuid k refs)) value []))))"

definition getReferenceModificationsFromColumn ::
  "DatabaseModel \<Rightarrow> string \<Rightarrow> string \<Rightarrow> string \<Rightarrow> any \<Rightarrow> any \<Rightarrow> References result" where
  "getReferenceModificationsFromColumn db table uuid column modify old =
     (case modify of
        VAtom (AUUID v) \<Rightarrow>
          (case old of
             VNil \<Rightarrow> getReferenceModificationsFromAtom db table uuid column v []
           | VAtom (AUUID u) \<Rightarrow> getReferenceModificationsFromAtom db table uuid column v u
           | _ \<Rightarrow> Inl (Panic ''interface conversion''))
      | VOvsSet s \<Rightarrow>
          (case old of
             VNil \<Rightarrow> getReferenceModificationsFromSet db table uuid column (elems s) []
           | VOvsSet t \<Rightarrow> getReferenceModificationsFromSet db table uuid column (elems s) (elems t)
           | _ \<Rightarrow> Inl (Panic ''interface conversion''))
      | VOvsMap m \<Rightarrow> getReferenceModificationsFromMap db table uuid column (elems m)
      | _ \<Rightarrow> Inr [])"

definition getReferenceModificationsFromRow ::
  "DatabaseModel \<Rightarrow> string \<Rightarrow> string \<Rightarrow> Row option \<Rightarrow> Row option \<Rightarrow> References result" where
  "getReferenceModificationsFromRow db table uuid modify old =
     bindR (derefRow modify) (\<lambda>row.
       foldR (\<lambda>refs (column, value).
         bindR (getReferenceModificationsFromColumn db table uuid column value
                  (case old of None \<Rightarrow> VNil | Some o' \<Rightarrow> (case map_of o' column of None \<Rightarrow> VNil | Some x \<Rightarrow> x)))
           (\<lambda>crefs. Inr (UpdateReferences crefs refs))) [] row)"

text \<open>\<open>applyDifference\<close> on two slices of uuids, and the loop that applies it everywhere.\<close>

definition strOf :: "atom \<Rightarrow> string" where
  "strOf a = (case a of AStr s \<Rightarrow> s | _ \<Rightarrow> [])"

definition applyFrom :: "string list \<Rightarrow> string list \<Rightarrow> string list result" where
  "applyFrom a b =
     bindR (applyDifference (VSlice GString (Some (map AStr a))) (VSlice GString (Some (map AStr b)))) (\<lambda>(r, _).
       case r of VSlice _ x \<Rightarrow> Inr (map strOf (elems x)) | _ \<Rightarrow> Inl (Panic ''interface conversion''))"

definition applyReference :: "ReferenceSpec \<Rightarrow> References \<Rightarrow> string \<times> string list \<Rightarrow> References result" where
  "applyReference spec a = (\<lambda>(to, bfrom).
     case map_of a spec of
       None \<Rightarrow> Inr (AList.update spec [(to, bfrom)] a)
     | Some av \<Rightarrow> (case map_of av to of
         None \<Rightarrow> Inr (AList.update spec (AList.update to bfrom av) a)
       | Some afrom \<Rightarrow> bindR (applyFrom afrom bfrom) (\<lambda>r. Inr (AList.update spec (AList.update to r av) a))))"

definition applyReferenceModifications :: "References \<Rightarrow> References \<Rightarrow> References result" where
  "applyReferenceModifications a b = foldR (\<lambda>a (spec, bv). foldR (applyReference spec) a bv) a b"

section \<open>The tracker\<close>

record referenceTracker =
  rtUpdates :: ModelUpdates
  rtReferences :: References
  rtTracked :: "(string, string) gomap"
  rtAdded :: "(string, string) gomap"
  rtDeleted :: "(string, string) gomap"

definition sget :: "(string, string) gomap \<Rightarrow> string \<Rightarrow> string" where
  "sget m k = (case map_of m k of None \<Rightarrow> [] | Some v \<Rightarrow> v)"

definition dbName :: "DatabaseModel \<Rightarrow> string" where
  "dbName db = cdbName (dbClient db)"

definition initReferences :: "DatabaseModel \<Rightarrow> ReferenceProvider \<Rightarrow> string \<Rightarrow> string \<Rightarrow> referenceTracker \<Rightarrow> referenceTracker result" where
  "initReferences db pr table uuid rt =
     (if map_of (rtTracked rt) uuid \<noteq> None then Inr rt
      else bindR (prGetReferences pr (dbName db) table uuid) (\<lambda>existing.
        Inr (rt\<lparr>rtReferences := UpdateReferences existing (rtReferences rt), rtTracked := AList.update uuid table (rtTracked rt)\<rparr>)))"

definition initReferencesOfDeletedRows :: "DatabaseModel \<Rightarrow> ReferenceProvider \<Rightarrow> referenceTracker \<Rightarrow> referenceTracker result" where
  "initReferencesOfDeletedRows db pr rt = foldR (\<lambda>rt (uuid, table). initReferences db pr table uuid rt) rt (rtDeleted rt)"

definition trackerGetModel :: "DatabaseModel \<Rightarrow> ReferenceProvider \<Rightarrow> referenceTracker \<Rightarrow> string \<Rightarrow> string \<Rightarrow> Model option result" where
  "trackerGetModel db pr rt table uuid =
     (if map_of (rtDeleted rt) uuid \<noteq> None then Inr None
      else case GetModel (rtUpdates rt) table uuid of
        Some m \<Rightarrow> Inr (Some m)
      | None \<Rightarrow> prGet pr (dbName db) table uuid)"

definition trackerGetRow :: "DatabaseModel \<Rightarrow> ReferenceProvider \<Rightarrow> referenceTracker \<Rightarrow> string \<Rightarrow> string \<Rightarrow> Row option result" where
  "trackerGetRow db pr rt table uuid =
     (if map_of (rtDeleted rt) uuid \<noteq> None then Inr None
      else bindR (GetRow (rtUpdates rt) table uuid) (\<lambda>row.
        case row of
          Some r \<Rightarrow> Inr (Some r)
        | None \<Rightarrow> bindR (prGet pr (dbName db) table uuid) (\<lambda>m.
            bindR (modelInfo db m) (\<lambda>info. bindR (NewRow info) (\<lambda>r. Inr (Some r))))))"

definition rowExists :: "DatabaseModel \<Rightarrow> ReferenceProvider \<Rightarrow> referenceTracker \<Rightarrow> string \<Rightarrow> string \<Rightarrow> bool result" where
  "rowExists db pr rt table uuid = bindR (trackerGetModel db pr rt table uuid) (\<lambda>m. Inr (m \<noteq> None))"

text \<open>The references a row update changes; a deleted row and an inserted row outside the root set are noted.\<close>

definition rowUpdateRefs ::
  "DatabaseModel \<Rightarrow> string \<Rightarrow> referenceTracker \<Rightarrow> string \<Rightarrow> RowUpdate2 \<Rightarrow> (referenceTracker \<times> References) result" where
  "rowUpdateRefs db table rt uuid row =
     (if Delete row \<noteq> None then
        bindR (getReferenceModificationsFromRow db table uuid (Old row) (Old row)) (\<lambda>refs.
          Inr (rt\<lparr>rtDeleted := AList.update uuid table (rtDeleted rt)\<rparr>, refs))
      else if Modify row \<noteq> None then
        bindR (getReferenceModificationsFromRow db table uuid (Modify row) (Old row)) (\<lambda>refs. Inr (rt, refs))
      else if Insert row \<noteq> None then
        bindR (isRoot db table) (\<lambda>root.
        bindR (getReferenceModificationsFromRow db table uuid (Insert row) None) (\<lambda>refs.
          Inr (if root then rt
               else rt\<lparr>rtAdded := AList.update uuid table (rtAdded rt), rtTracked := AList.update uuid table (rtTracked rt)\<rparr>, refs)))
      else Inr (rt, []))"

definition processRowUpdate ::
  "DatabaseModel \<Rightarrow> ReferenceProvider \<Rightarrow> string \<Rightarrow> referenceTracker \<Rightarrow> string \<Rightarrow> RowUpdate2 \<Rightarrow> referenceTracker result" where
  "processRowUpdate db pr table rt uuid row =
     bindR (rowUpdateRefs db table rt uuid row) (\<lambda>(rt, updateRefs).
       bindR (foldR (\<lambda>rt (spec, refs). foldR (\<lambda>rt (to, _). initReferences db pr (ToTable spec) to rt) rt refs) rt updateRefs) (\<lambda>rt.
       bindR (applyReferenceModifications (rtReferences rt) updateRefs) (\<lambda>refs. Inr (rt\<lparr>rtReferences := refs\<rparr>))))"

definition processModelUpdates ::
  "DatabaseModel \<Rightarrow> ReferenceProvider \<Rightarrow> ModelUpdates \<Rightarrow> referenceTracker \<Rightarrow> referenceTracker result" where
  "processModelUpdates db pr u rt =
     foldR (\<lambda>rt table. ofS (ForEachRowUpdate u table (\<lambda>rt uuid row. toS rt (processRowUpdate db pr table rt uuid row)) rt))
       rt (GetUpdatedTables u)"

definition deleteRow ::
  "DatabaseModel \<Rightarrow> ReferenceProvider \<Rightarrow> string \<Rightarrow> string \<Rightarrow> referenceTracker \<Rightarrow> (referenceTracker \<times> ModelUpdates) result" where
  "deleteRow db pr table uuid rt =
     bindR (trackerGetModel db pr rt table uuid) (\<lambda>m.
     bindR (trackerGetRow db pr rt table uuid) (\<lambda>row.
     bindR (AddRowUpdate2 db table uuid m (emptyRU2\<lparr>Delete := Some [], Old := row\<rparr>) []) (\<lambda>u.
       Inr (rt\<lparr>rtDeleted := AList.update uuid table (rtDeleted rt)\<rparr>, u))))"

definition uuidCondition :: "string \<Rightarrow> Condition" where
  "uuidCondition uuid = \<lparr>cColumn = ''_uuid'', cFunction = ConditionEqual, cValue = VAtom (AUUID uuid)\<rparr>"

definition updateRow ::
  "DatabaseModel \<Rightarrow> ReferenceProvider \<Rightarrow> referenceTracker \<Rightarrow> string \<Rightarrow> string \<Rightarrow> Row \<Rightarrow> ModelUpdates result" where
  "updateRow db pr rt table uuid row =
     bindR (trackerGetModel db pr rt table uuid) (\<lambda>m.
       let mutations = map (\<lambda>(c, v). \<lparr>mColumn = c, mMutator = MutateOperationDelete, mValue = v\<rparr>) (filter (\<lambda>(c, v). v \<noteq> VNil) row);
           update = map (\<lambda>(c, v). (c, VOvsSet (Some []))) (filter (\<lambda>(c, v). v = VNil) row)
       in bindR (if mutations \<noteq> []
                 then AddOperation db table uuid m
                        (emptyOp\<lparr>Op := OperationMutate, opTable := table, Mutations := mutations, Where := [uuidCondition uuid]\<rparr>) []
                 else Inr []) (\<lambda>u.
            if update \<noteq> []
            then AddOperation db table uuid m
                   (emptyOp\<lparr>Op := OperationUpdate, opTable := table, opRow := update, Where := [uuidCondition uuid]\<rparr>) u
            else Inr u))"

section \<open>Strong references\<close>

definition strongStep ::
  "DatabaseModel \<Rightarrow> ReferenceProvider \<Rightarrow> referenceTracker \<Rightarrow> ReferenceSpec \<Rightarrow> (string, bool) gomap \<Rightarrow> string \<times> string list \<Rightarrow> (string, bool) gomap result" where
  "strongStep db pr rt spec isReferenced = (\<lambda>(to, from).
     bindR (rowExists db pr rt (ToTable spec) to) (\<lambda>exists.
       if \<not> exists
       then (if from \<noteq> [] then Inl (ReferentialIntegrityViolation ''references nonexistent or deleted row'') else Inr isReferenced)
       else Inr (AList.update to ((map_of isReferenced to = Some True) \<or> from \<noteq> []) isReferenced)))"

definition markAdded :: "(string, string) gomap \<Rightarrow> (string, bool) gomap \<Rightarrow> (string, bool) gomap" where
  "markAdded added isReferenced =
     fold (\<lambda>(uuid, _) r. if map_of r uuid = Some True then r else AList.update uuid False r) added isReferenced"

definition collectStep ::
  "DatabaseModel \<Rightarrow> ReferenceProvider \<Rightarrow> referenceTracker \<times> ModelUpdates \<Rightarrow> string \<times> bool \<Rightarrow> (referenceTracker \<times> ModelUpdates) result" where
  "collectStep db pr = (\<lambda>(rt, u) (uuid, isReferenced).
     if isReferenced then Inr (rt, u)
     else if sget (rtDeleted rt) uuid \<noteq> [] then Inr (rt, u)
     else let table = sget (rtTracked rt) uuid in
       bindR (isRoot db table) (\<lambda>root.
         if root then Inr (rt, u)
         else bindR (deleteRow db pr table uuid rt) (\<lambda>(rt', update).
              bindR (Merge db update u) (\<lambda>u'. Inr (rt', u')))))"

definition processStrongReferences ::
  "DatabaseModel \<Rightarrow> ReferenceProvider \<Rightarrow> referenceTracker \<Rightarrow> (referenceTracker \<times> ModelUpdates) result" where
  "processStrongReferences db pr rt =
     bindR (initReferencesOfDeletedRows db pr rt) (\<lambda>rt.
     bindR (foldR (\<lambda>isRef (spec, refs).
              bindR (isStrong db spec) (\<lambda>strong. if \<not> strong then Inr isRef else foldR (strongStep db pr rt spec) isRef refs))
            [] (rtReferences rt)) (\<lambda>isReferenced.
       foldR (collectStep db pr) (rt, []) (markAdded (rtAdded rt) isReferenced)))"

section \<open>Weak references\<close>

record weakState =
  wsTables :: "(string, string) gomap"
  wsOriginal :: "(string, Row) gomap"
  wsUpdated :: "(string, Row) gomap"

definition copyMapKeyValues ::
  "(atom, atom) gomap \<Rightarrow> (atom, atom) gomap \<Rightarrow> bool \<Rightarrow> string \<Rightarrow> (atom, atom) gomap result" where
  "copyMapKeyValues from to isKey keyValue =
     (if isKey then (case map_of from (AUUID keyValue) of
                       None \<Rightarrow> Inl (Errorf ''nil map value'')
                     | Some v \<Rightarrow> Inr (AList.update (AUUID keyValue) v to))
      else foldR (\<lambda>to (k, v). case v of
                    AUUID u \<Rightarrow> Inr (if u = keyValue then AList.update k v to else to)
                  | _ \<Rightarrow> Inl (Panic ''interface conversion'')) to from)"

definition rowMap :: "Row \<Rightarrow> string \<Rightarrow> (atom, atom) gomap result" where
  "rowMap row column = (case map_of row column of Some (VOvsMap m) \<Rightarrow> Inr (elems m) | _ \<Rightarrow> Inl (Panic ''interface conversion''))"

definition rowSet :: "Row \<Rightarrow> string \<Rightarrow> atom list result" where
  "rowSet row column = (case map_of row column of Some (VOvsSet s) \<Rightarrow> Inr (elems s) | _ \<Rightarrow> Inl (Panic ''interface conversion''))"

text \<open>The removal of one reference from the column of a row: the pending removals and the length the column will have.\<close>

definition weakColumn :: "ExtendedType \<Rightarrow> bool \<Rightarrow> ReferenceSpec \<Rightarrow> string \<Rightarrow> Row \<Rightarrow> Row \<Rightarrow> (Row \<times> int) result" where
  "weakColumn ty isEmptyAllowed spec to orig upd =
     (let column = FromColumn spec in
      case ty of
        TypeMap \<Rightarrow>
          bindR (rowMap orig column) (\<lambda>originalMap.
          bindR (if map_of upd column = None then Inr [] else rowMap upd column) (\<lambda>mutationMap.
          bindR (copyMapKeyValues originalMap mutationMap (\<not> FromValue spec) to) (\<lambda>mutationMap.
            Inr (AList.update column (VOvsMap (Some mutationMap)) upd,
                 if isEmptyAllowed then 0 else int (length originalMap) - int (length mutationMap)))))
      | TypeSet \<Rightarrow>
          bindR (if map_of upd column = None then Inr [] else rowSet upd column) (\<lambda>mutationSet.
            let mutationSet' = mutationSet @ [AUUID to] in
            bindR (if isEmptyAllowed then Inr 0
                   else bindR (rowSet orig column) (\<lambda>s. Inr (int (length s) - int (length mutationSet')))) (\<lambda>n.
              Inr (AList.update column (VOvsSet (Some mutationSet')) upd, n)))
      | TypeUUID \<Rightarrow> Inr (AList.update column VNil upd, 0)
      | _ \<Rightarrow> Inr (upd, 0))"

definition weakStep ::
  "DatabaseModel \<Rightarrow> ReferenceProvider \<Rightarrow> referenceTracker \<Rightarrow> ReferenceSpec \<Rightarrow> ExtendedType \<Rightarrow> int \<Rightarrow> string \<Rightarrow> weakState \<Rightarrow> string \<Rightarrow> weakState result" where
  "weakStep db pr rt spec ty minLen to w uuid =
     (let upd = (case map_of (wsUpdated w) uuid of None \<Rightarrow> [] | Some r \<Rightarrow> r);
          w1 = w\<lparr>wsUpdated := AList.update uuid upd (wsUpdated w)\<rparr>
      in if sget (rtDeleted rt) uuid \<noteq> [] then Inr w1
         else bindR (case map_of (wsOriginal w1) uuid of
                       Some r \<Rightarrow> Inr r
                     | None \<Rightarrow> bindR (trackerGetRow db pr rt (FromTable spec) uuid) (\<lambda>r.
                         case r of None \<Rightarrow> Inl (Errorf ''reference from non-existent model'') | Some r \<Rightarrow> Inr r)) (\<lambda>orig.
              bindR (weakColumn ty (minLen = 0) spec to orig upd) (\<lambda>(upd', becomesLen).
                if becomesLen < minLen then Inl (ConstraintViolation ''invalid length'')
                else Inr \<lparr>wsTables = AList.update uuid (FromTable spec) (wsTables w1),
                          wsOriginal = AList.update uuid orig (wsOriginal w1),
                          wsUpdated = AList.update uuid upd' (wsUpdated w1)\<rparr>)))"

definition weakRefs ::
  "DatabaseModel \<Rightarrow> ReferenceProvider \<Rightarrow> referenceTracker \<Rightarrow> weakState \<Rightarrow> ReferenceSpec \<times> Reference \<Rightarrow> weakState result" where
  "weakRefs db pr rt w = (\<lambda>(spec, refs).
     bindR (refInfo db (FromTable spec) (FromColumn spec) (FromValue spec)) (\<lambda>(ty, minLen, refType, _).
       if refType \<noteq> Weak then Inr w
       else foldR (\<lambda>w (to, from).
              if from = [] then Inr w
              else bindR (rowExists db pr rt (ToTable spec) to) (\<lambda>exists.
                if exists then Inr w else foldR (weakStep db pr rt spec ty minLen to) w from)) w refs))"

definition processWeakReferences ::
  "DatabaseModel \<Rightarrow> ReferenceProvider \<Rightarrow> referenceTracker \<Rightarrow> (referenceTracker \<times> ModelUpdates) result" where
  "processWeakReferences db pr rt =
     bindR (initReferencesOfDeletedRows db pr rt) (\<lambda>rt.
     bindR (foldR (weakRefs db pr rt) \<lparr>wsTables = [], wsOriginal = [], wsUpdated = []\<rparr> (rtReferences rt)) (\<lambda>w.
     bindR (foldR (\<lambda>u (uuid, rowUpdate).
              bindR (updateRow db pr rt (sget (wsTables w) uuid) uuid rowUpdate) (\<lambda>update. Merge db update u)) [] (wsUpdated w)) (\<lambda>u.
       Inr (rt, u))))"

section \<open>The loop\<close>

definition referenceRound ::
  "DatabaseModel \<Rightarrow> ReferenceProvider \<Rightarrow> referenceTracker \<Rightarrow> ModelUpdates \<Rightarrow> ModelUpdates \<Rightarrow> (referenceTracker \<times> ModelUpdates \<times> ModelUpdates) result" where
  "referenceRound db pr rt u referenceUpdates =
     bindR (processModelUpdates db pr u rt) (\<lambda>rt.
     bindR (processStrongReferences db pr rt) (\<lambda>(rt, updates).
     bindR (processWeakReferences db pr rt) (\<lambda>(rt, weakUpdates).
     bindR (Merge db weakUpdates updates) (\<lambda>updates.
     bindR (Merge db updates referenceUpdates) (\<lambda>referenceUpdates.
       Inr (rt, updates, referenceUpdates))))))"

text \<open>The loop ends when a round makes no update; a loop that never ends is \<open>None\<close>.\<close>

partial_function (option) processReferencesLoop ::
  "DatabaseModel \<Rightarrow> ReferenceProvider \<Rightarrow> referenceTracker \<Rightarrow> ModelUpdates \<Rightarrow> ModelUpdates \<Rightarrow> (referenceTracker \<times> ModelUpdates) result option" where
  "processReferencesLoop db pr rt u referenceUpdates =
     (if u = [] then Some (Inr (rt, referenceUpdates))
      else case referenceRound db pr rt u referenceUpdates of
        Inl e \<Rightarrow> Some (Inl e)
      | Inr (rt', u', referenceUpdates') \<Rightarrow> processReferencesLoop db pr rt' u' referenceUpdates')"

declare processReferencesLoop.simps [code]

definition ProcessReferences ::
  "DatabaseModel \<Rightarrow> ReferenceProvider \<Rightarrow> ModelUpdates \<Rightarrow> (ModelUpdates \<times> ModelUpdates \<times> References) result option" where
  "ProcessReferences db pr u =
     (case processReferencesLoop db pr \<lparr>rtUpdates = u, rtReferences = [], rtTracked = [], rtAdded = [], rtDeleted = []\<rparr> u [] of
        None \<Rightarrow> None
      | Some (Inl e) \<Rightarrow> Some (Inl e)
      | Some (Inr (rt, referenceUpdates)) \<Rightarrow>
          Some (bindR (Merge db referenceUpdates u) (\<lambda>u'. Inr (u', referenceUpdates, rtReferences rt))))"

text \<open>\<open>ForReferenceUpdates\<close> hands out a copy of the references.\<close>

definition ForReferenceUpdates :: "References \<Rightarrow> (References \<Rightarrow> 's result) \<Rightarrow> 's result" where
  "ForReferenceUpdates refs f = bindR (applyReferenceModifications [] refs) f"

section \<open>Strong references after the loop\<close>

text \<open>A row the tracker can still find is one it did not delete.\<close>

lemma rowExists_cong:
  assumes "rtUpdates rt' = rtUpdates rt" "map_of (rtDeleted rt') uuid = map_of (rtDeleted rt) uuid"
  shows "rowExists db pr rt' table uuid = rowExists db pr rt table uuid"
  using assms by (simp add: rowExists_def trackerGetModel_def)

definition strongOk :: "DatabaseModel \<Rightarrow> ReferenceProvider \<Rightarrow> referenceTracker \<Rightarrow> ReferenceSpec \<Rightarrow> (string, bool) gomap \<Rightarrow> string \<times> string list \<Rightarrow> bool" where
  "strongOk db pr rt spec isRef = (\<lambda>(to, from). from \<noteq> [] \<longrightarrow> rowExists db pr rt (ToTable spec) to = Inr True \<and> map_of isRef to = Some True)"

text \<open>What the search for referenced rows keeps: marks stay, and only rows that occur are marked.\<close>

definition marks :: "(string, bool) gomap \<Rightarrow> string set \<Rightarrow> (string, bool) gomap \<Rightarrow> bool" where
  "marks isRef new isRef' = ((\<forall>to. map_of isRef to = Some True \<longrightarrow> map_of isRef' to = Some True)
     \<and> dom (map_of isRef') \<subseteq> dom (map_of isRef) \<union> new \<and> (gm_ok isRef \<longrightarrow> gm_ok isRef'))"

lemma marks_refl [simp]: "marks r {} r"
  by (simp add: marks_def)

lemma marks_trans: "marks a m b \<Longrightarrow> marks b n c \<Longrightarrow> marks a (m \<union> n) c"
  unfolding marks_def by blast

lemma marks_mono: "marks a m b \<Longrightarrow> m \<subseteq> n \<Longrightarrow> marks a n b"
  unfolding marks_def by blast

lemma strongOk_mono: "strongOk db pr rt spec isRef p \<Longrightarrow> marks isRef new isRef' \<Longrightarrow> strongOk db pr rt spec isRef' p"
  by (auto simp: strongOk_def marks_def)

lemma strongStep_spec:
  assumes "strongStep db pr rt spec isRef p = Inr isRef'"
  shows "strongOk db pr rt spec isRef' p" "marks isRef {fst p} isRef'"
proof -
  obtain u fr b where p: "p = (u, fr)" "rowExists db pr rt (ToTable spec) u = Inr b"
      "(if \<not> b then fr = [] \<and> isRef' = isRef else isRef' = AList.update u (map_of isRef u = Some True \<or> fr \<noteq> []) isRef)"
    using assms by (cases p) (auto simp: strongStep_def resR split: if_splits)
  show "strongOk db pr rt spec isRef' p" using p by (auto simp: strongOk_def split: if_splits)
  show "marks isRef {fst p} isRef'" using p by (auto simp: marks_def split: if_splits)
qed

lemma strongStep_loop:
  assumes "foldR (strongStep db pr rt spec) isRef refs = Inr isRef'"
  shows "(\<forall>p \<in> set refs. strongOk db pr rt spec isRef' p) \<and> marks isRef (fst ` set refs) isRef'"
  using assms
proof (induction refs arbitrary: isRef)
  case (Cons p refs)
  obtain r1 where r1: "strongStep db pr rt spec isRef p = Inr r1" "foldR (strongStep db pr rt spec) r1 refs = Inr isRef'"
    using Cons.prems by (auto simp: resR)
  note s = strongStep_spec [OF r1(1)] and ih = Cons.IH [OF r1(2)]
  have "strongOk db pr rt spec isRef' p" using strongOk_mono [OF s(1)] ih by blast
  then show ?case using ih marks_trans [OF s(2), of "fst ` set refs" isRef'] by simp
qed simp

definition strongRound ::
  "DatabaseModel \<Rightarrow> ReferenceProvider \<Rightarrow> referenceTracker \<Rightarrow> (string, bool) gomap \<Rightarrow> ReferenceSpec \<times> Reference \<Rightarrow> (string, bool) gomap result" where
  "strongRound db pr rt isRef = (\<lambda>(spec, refs).
     bindR (isStrong db spec) (\<lambda>strong. if \<not> strong then Inr isRef else foldR (strongStep db pr rt spec) isRef refs))"

definition targets :: "References \<Rightarrow> string set" where
  "targets rs = (\<Union>(spec, r) \<in> set rs. fst ` set r)"

lemma strongRound_loop:
  assumes "foldR (strongRound db pr rt) isRef rs = Inr isRef'"
  shows "(\<forall>spec refs. (spec, refs) \<in> set rs \<longrightarrow> isStrong db spec = Inr True \<longrightarrow> (\<forall>p \<in> set refs. strongOk db pr rt spec isRef' p))
    \<and> marks isRef (targets rs) isRef'"
  using assms
proof (induction rs arbitrary: isRef)
  case (Cons q rs)
  obtain spec refs where q: "q = (spec, refs)" by fastforce
  obtain r1 where r1: "strongRound db pr rt isRef q = Inr r1" "foldR (strongRound db pr rt) r1 rs = Inr isRef'"
    using Cons.prems by (auto simp: resR)
  note ih = Cons.IH [OF r1(2)]
  obtain strong where strong: "isStrong db spec = Inr strong"
      "if strong then foldR (strongStep db pr rt spec) isRef refs = Inr r1 else r1 = isRef"
    using r1(1) by (auto simp: resR strongRound_def q split: if_splits)
  have s: "strong \<Longrightarrow> \<forall>p \<in> set refs. strongOk db pr rt spec r1 p" "marks isRef (fst ` set refs) r1"
    using strong(2) strongStep_loop [of db pr rt spec isRef refs r1] by (auto split: if_splits intro: marks_mono [OF marks_refl])
  have t: "targets (q # rs) = fst ` set refs \<union> targets rs" by (simp add: targets_def q)
  have "strong \<Longrightarrow> \<forall>p \<in> set refs. strongOk db pr rt spec isRef' p" using s(1) ih strongOk_mono by blast
  then show ?case using ih marks_trans [OF s(2), of "targets rs" isRef'] strong(1) q unfolding t by auto
qed (simp add: targets_def)

lemma markAdded_marks: "marks r (fst ` set added) (markAdded added r)"
proof (induction added arbitrary: r)
  case (Cons p added)
  obtain u t where p: "p = (u, t)" by fastforce
  define r1 where "r1 = (if map_of r u = Some True then r else AList.update u False r)"
  have "markAdded (p # added) r = markAdded added r1" by (simp add: markAdded_def r1_def p)
  moreover have "marks r {u} r1" by (auto simp: marks_def r1_def)
  ultimately show ?case using marks_trans [OF _ Cons.IH, of r "{u}" r1] p by simp
qed (simp add: markAdded_def)

section \<open>Collecting garbage\<close>

text \<open>What collecting keeps: only unreferenced rows outside the root set are deleted.\<close>

definition collected :: "DatabaseModel \<Rightarrow> (string \<times> bool) list \<Rightarrow> referenceTracker \<Rightarrow> referenceTracker \<Rightarrow> bool" where
  "collected db xs rt rt' = (rtUpdates rt' = rtUpdates rt \<and> rtReferences rt' = rtReferences rt \<and> rtTracked rt' = rtTracked rt \<and> rtAdded rt' = rtAdded rt
     \<and> (\<forall>u. map_of (rtDeleted rt') u = map_of (rtDeleted rt) u
          \<or> (u, False) \<in> set xs \<and> map_of (rtDeleted rt') u = Some (sget (rtTracked rt) u) \<and> IsRoot (dbSchema db) (sget (rtTracked rt) u) = Inr False))"

lemma collectStep_spec:
  assumes "collectStep db pr (rt, u) p = Inr (rt', u')"
  shows "collected db [p] rt rt'"
proof -
  obtain uuid b where p: "p = (uuid, b)" by fastforce
  show ?thesis
  proof (cases "b \<or> sget (rtDeleted rt) uuid \<noteq> []")
    case True
    then have "rt' = rt" using assms by (auto simp: collectStep_def p split: if_splits)
    then show ?thesis by (simp add: collected_def)
  next
    case False
    obtain root where root: "isRoot db (sget (rtTracked rt) uuid) = Inr root"
      using assms False by (auto simp: collectStep_def p resR Let_def)
    show ?thesis
    proof (cases root)
      case True
      then have "rt' = rt" using assms False root by (auto simp: collectStep_def p Let_def)
      then show ?thesis by (simp add: collected_def)
    next
      case nr: False
      then have r: "IsRoot (dbSchema db) (sget (rtTracked rt) uuid) = Inr False" using root by (auto simp: isRoot_def split: sum.splits)
      have "rt' = rt\<lparr>rtDeleted := AList.update uuid (sget (rtTracked rt) uuid) (rtDeleted rt)\<rparr>"
        using assms False root nr by (auto simp: collectStep_def p deleteRow_def resR Let_def)
      then show ?thesis using r False p by (auto simp: collected_def)
    qed
  qed
qed

lemma collected_trans: "collected db xs rt rt1 \<Longrightarrow> collected db ys rt1 rt2 \<Longrightarrow> collected db (xs @ ys) rt rt2"
  unfolding collected_def by (metis Un_iff set_append)

lemma collectStep_loop:
  assumes "foldR (collectStep db pr) (rt, u) xs = Inr (rt', u')"
  shows "collected db xs rt rt'"
  using assms
proof (induction xs arbitrary: rt u)
  case Nil
  then show ?case by (simp add: collected_def)
next
  case (Cons p xs)
  obtain rt1 u1 where r1: "collectStep db pr (rt, u) p = Inr (rt1, u1)" "foldR (collectStep db pr) (rt1, u1) xs = Inr (rt', u')"
    using Cons.prems by (auto simp: resR)
  show ?case using collected_trans [OF collectStep_spec [OF r1(1)] Cons.IH [OF r1(2)]] by simp
qed

section \<open>Every referenced row is tracked\<close>

lemma targets_simps [simp]: "targets [] = {}" "targets ((spec, r) # rs) = fst ` set r \<union> targets rs"
  by (simp_all add: targets_def)

lemma targets_entry: "map_of rs spec = Some r \<Longrightarrow> fst ` set r \<subseteq> targets rs"
  by (force simp: targets_def dest: map_of_SomeD)

lemma targets_update: "targets (AList.update spec r rs) \<subseteq> fst ` set r \<union> targets rs"
  using set_update_subset [of spec r rs] by (force simp: targets_def)

lemma targets_delete: "targets (AList.delete spec rs) \<subseteq> targets rs"
  by (force simp: targets_def AList.delete_eq)

lemma fst_update: "fst ` set (AList.update k v m) = insert k (fst ` set m)"
  using set_keys_update [of k v m] by simp

lemma fst_delete: "fst ` set (AList.delete k m) \<subseteq> fst ` set m"
  by (auto simp: AList.delete_eq)

lemma targets_updateReference: "targets (updateReference spec to fr rs) \<subseteq> insert to (targets rs)"
proof (cases "map_of rs spec")
  case None
  then show ?thesis using targets_update [of spec "[(to, fr)]" rs] targets_delete [of spec rs]
    by (auto simp: updateReference_def Let_def)
next
  case (Some r)
  have 1: "targets (AList.update spec (AList.update to fr r) rs) \<subseteq> insert to (fst ` set r) \<union> targets rs"
    using targets_update [of spec "AList.update to fr r" rs] unfolding fst_update .
  have 2: "targets (AList.update spec (AList.delete to r) rs) \<subseteq> insert to (fst ` set r) \<union> targets rs"
    using targets_update [of spec "AList.delete to r" rs] fst_delete [of to r] by blast
  have "updateReference spec to fr rs \<in> {AList.update spec (AList.update to fr r) rs, AList.update spec (AList.delete to r) rs, AList.delete spec rs}"
    using Some by (simp add: updateReference_def Let_def)
  then have "targets (updateReference spec to fr rs) \<subseteq> insert to (fst ` set r) \<union> targets rs"
    using 1 2 targets_delete [of spec rs] by (elim insertE emptyE) auto
  then show ?thesis using targets_entry [OF Some] by blast
qed

lemma targets_UpdateReferences: "targets (UpdateReferences other rs) \<subseteq> targets other \<union> targets rs"
proof -
  have inner: "targets (fold (\<lambda>(to, fr) rs. updateReference spec to fr rs) r rs) \<subseteq> fst ` set r \<union> targets rs" for spec r rs
  proof (induction r arbitrary: rs)
    case (Cons p r)
    show ?case using Cons.IH [of "updateReference spec (fst p) (snd p) rs"] targets_updateReference [of spec "fst p" "snd p" rs]
      by (simp add: case_prod_unfold) blast
  qed simp
  show ?thesis unfolding UpdateReferences_def
  proof (induction other arbitrary: rs)
    case (Cons p other)
    obtain spec r where p: "p = (spec, r)" by fastforce
    show ?case using Cons.IH [of "fold (\<lambda>(to, fr) rs. updateReference spec to fr rs) r rs"] inner [of spec r rs] unfolding p by auto
  qed simp
qed

lemma targets_applyReference: "applyReference spec a p = Inr a' \<Longrightarrow> targets a' \<subseteq> insert (fst p) (targets a)"
proof -
  assume a: "applyReference spec a p = Inr a'"
  obtain to fr where p: "p = (to, fr)" by fastforce
  show ?thesis
  proof (cases "map_of a spec")
    case None
    then show ?thesis using a targets_update [of spec "[(to, fr)]" a] by (auto simp: applyReference_def p)
  next
    case (Some r)
    then obtain v where "a' = AList.update spec (AList.update to v r) a" using a by (auto simp: applyReference_def p resR split: option.splits)
    then show ?thesis
      using targets_update [of spec "AList.update to v r" a] fst_update [of to v r] targets_entry [OF Some] p by auto
  qed
qed

lemma targets_applyReferenceModifications:
  assumes "applyReferenceModifications a b = Inr a'"
  shows "targets a' \<subseteq> targets a \<union> targets b"
proof -
  have inner: "targets a2 \<subseteq> targets a1 \<union> fst ` set r" if "foldR (applyReference spec) a1 r = Inr a2" for spec r a1 a2
  proof (rule foldR_invariant [OF that])
    show "targets a1 \<subseteq> targets a1 \<union> fst ` set r" by blast
    fix s x s'
    assume x: "x \<in> set r" "targets s \<subseteq> targets a1 \<union> fst ` set r" "applyReference spec s x = Inr s'"
    then show "targets s' \<subseteq> targets a1 \<union> fst ` set r" using targets_applyReference [OF x(3)] by auto
  qed
  show ?thesis
  proof (rule foldR_invariant [OF assms [unfolded applyReferenceModifications_def]])
    show "targets a \<subseteq> targets a \<union> targets b" by blast
    fix s x s'
    assume x: "x \<in> set b" "targets s \<subseteq> targets a \<union> targets b" "(case x of (spec, bv) \<Rightarrow> foldR (applyReference spec) s bv) = Inr s'"
    obtain spec bv where sp: "x = (spec, bv)" by fastforce
    have "fst ` set bv \<subseteq> targets b" using x(1) sp by (force simp: targets_def)
    moreover have "targets s' \<subseteq> targets s \<union> fst ` set bv" using inner [of spec s bv s'] x(3) sp by simp
    ultimately show "targets s' \<subseteq> targets a \<union> targets b" using x(2) by blast
  qed
qed

definition rtInv :: "referenceTracker \<Rightarrow> bool" where
  "rtInv rt = (targets (rtReferences rt) \<subseteq> dom (map_of (rtTracked rt)) \<and> dom (map_of (rtAdded rt)) \<subseteq> dom (map_of (rtTracked rt)))"

text \<open>Every row that is strongly referenced by what the tracker knows exists.\<close>

definition strongIntegrity :: "DatabaseModel \<Rightarrow> ReferenceProvider \<Rightarrow> referenceTracker \<Rightarrow> bool" where
  "strongIntegrity db pr rt = (\<forall>spec r to fr. (spec, r) \<in> set (rtReferences rt) \<longrightarrow> isStrong db spec = Inr True \<longrightarrow> (to, fr) \<in> set r \<longrightarrow> fr \<noteq> []
     \<longrightarrow> rowExists db pr rt (ToTable spec) to = Inr True)"

text \<open>What the tracker relies on in its provider: asked for the references to a row, it gives references to that row only.\<close>

definition localRefs :: "ReferenceProvider \<Rightarrow> bool" where
  "localRefs pr = (\<forall>d table uuid rs. prGetReferences pr d table uuid = Inr rs \<longrightarrow> targets rs \<subseteq> {uuid})"

locale reference_provider =
  fixes pr :: ReferenceProvider
  assumes only_row: "prGetReferences pr d table uuid = Inr rs \<Longrightarrow> targets rs \<subseteq> {uuid}"
begin

lemma initReferences_spec:
  assumes "initReferences db pr table uuid rt = Inr rt'" "rtInv rt"
  shows "rtInv rt'" "rtUpdates rt' = rtUpdates rt" "rtDeleted rt' = rtDeleted rt" "dom (map_of (rtTracked rt')) = insert uuid (dom (map_of (rtTracked rt)))"
proof -
  have "rtInv rt' \<and> rtUpdates rt' = rtUpdates rt \<and> rtDeleted rt' = rtDeleted rt \<and> dom (map_of (rtTracked rt')) = insert uuid (dom (map_of (rtTracked rt)))"
  proof (cases "map_of (rtTracked rt) uuid = None")
    case True
    then obtain rs where rs: "prGetReferences pr (dbName db) table uuid = Inr rs"
        "rt' = rt\<lparr>rtReferences := UpdateReferences rs (rtReferences rt), rtTracked := AList.update uuid table (rtTracked rt)\<rparr>"
      using assms(1) by (auto simp: initReferences_def resR)
    have "targets (UpdateReferences rs (rtReferences rt)) \<subseteq> insert uuid (targets (rtReferences rt))"
      using only_row [OF rs(1)] targets_UpdateReferences [of rs "rtReferences rt"] by blast
    then show ?thesis using rs(2) assms(2) by (auto simp: rtInv_def)
  next
    case False
    then have "rt' = rt" using assms(1) by (simp add: initReferences_def)
    then show ?thesis using assms(2) False by auto
  qed
  then show "rtInv rt'" "rtUpdates rt' = rtUpdates rt" "rtDeleted rt' = rtDeleted rt" "dom (map_of (rtTracked rt')) = insert uuid (dom (map_of (rtTracked rt)))"
    by simp_all
qed

lemma initMany_spec:
  assumes "foldR (\<lambda>rt (t, u). initReferences db pr t u rt) rt xs = Inr rt'" "rtInv rt"
  shows "rtInv rt' \<and> rtUpdates rt' = rtUpdates rt \<and> rtDeleted rt' = rtDeleted rt \<and> dom (map_of (rtTracked rt')) = snd ` set xs \<union> dom (map_of (rtTracked rt))"
  using assms
proof (induction xs arbitrary: rt)
  case (Cons p xs)
  obtain t u where p: "p = (t, u)" by fastforce
  obtain rt1 where r1: "initReferences db pr t u rt = Inr rt1" "foldR (\<lambda>rt (t, u). initReferences db pr t u rt) rt1 xs = Inr rt'"
    using Cons.prems(1) p by (auto simp: resR)
  note i = initReferences_spec [OF r1(1) Cons.prems(2)]
  show ?case using Cons.IH [OF r1(2) i(1)] i p by auto
qed simp

lemma initDeleted_spec:
  assumes "initReferencesOfDeletedRows db pr rt = Inr rt'" "rtInv rt"
  shows "rtInv rt' \<and> rtUpdates rt' = rtUpdates rt \<and> rtDeleted rt' = rtDeleted rt \<and> dom (map_of (rtDeleted rt)) \<subseteq> dom (map_of (rtTracked rt'))"
proof -
  have "foldR (\<lambda>rt (t, u). initReferences db pr t u rt) s (map prod.swap xs) = foldR (\<lambda>rt (u, t). initReferences db pr t u rt) s xs" for s xs
    by (induction xs arbitrary: s) (auto simp: bindR_def split: sum.splits)
  then have "foldR (\<lambda>rt (t, u). initReferences db pr t u rt) rt (map prod.swap (rtDeleted rt)) = Inr rt'"
    using assms(1) by (simp add: initReferencesOfDeletedRows_def)
  note m = initMany_spec [OF this assms(2)]
  have "snd ` set (map prod.swap (rtDeleted rt)) = dom (map_of (rtDeleted rt))"
    unfolding dom_map_of_conv_image_fst by (simp add: image_image)
  then show ?thesis using m by auto
qed

lemma initTargets_spec:
  assumes "foldR (\<lambda>rt (spec, refs). foldR (\<lambda>rt (to, _). initReferences db pr (ToTable spec) to rt) rt refs) rt us = Inr rt'" "rtInv rt"
  shows "rtInv rt' \<and> rtUpdates rt' = rtUpdates rt \<and> rtDeleted rt' = rtDeleted rt \<and> dom (map_of (rtTracked rt')) = targets us \<union> dom (map_of (rtTracked rt))"
  using assms
proof (induction us arbitrary: rt)
  case (Cons p us)
  obtain spec refs where p: "p = (spec, refs)" by fastforce
  have swap: "foldR (\<lambda>rt (to, _). initReferences db pr (ToTable spec) to rt) s refs
      = foldR (\<lambda>rt (t, u). initReferences db pr t u rt) s (map (\<lambda>x. (ToTable spec, fst x)) refs)" for s refs
    by (induction refs arbitrary: s) (auto simp: bindR_def split: sum.splits)
  obtain rt1 where r1: "foldR (\<lambda>rt (t, u). initReferences db pr t u rt) rt (map (\<lambda>x. (ToTable spec, fst x)) refs) = Inr rt1"
      "foldR (\<lambda>rt (spec, refs). foldR (\<lambda>rt (to, _). initReferences db pr (ToTable spec) to rt) rt refs) rt1 us = Inr rt'"
  proof -
    obtain rt1 where "foldR (\<lambda>rt (to, _). initReferences db pr (ToTable spec) to rt) rt refs = Inr rt1"
      "foldR (\<lambda>rt (spec, refs). foldR (\<lambda>rt (to, _). initReferences db pr (ToTable spec) to rt) rt refs) rt1 us = Inr rt'"
      using Cons.prems(1) p by (auto simp: resR)
    then show thesis using that unfolding swap [of rt refs] by blast
  qed
  note i = initMany_spec [OF r1(1) Cons.prems(2)]
  show ?case using Cons.IH [OF r1(2)] i p by (auto simp: image_image)
qed simp

lemma processRowUpdate_spec:
  assumes "processRowUpdate db pr table rt uuid row = Inr rt'" "rtInv rt"
  shows "rtInv rt' \<and> rtUpdates rt' = rtUpdates rt"
proof -
  obtain rt1 us rt2 refs where h: "rowUpdateRefs db table rt uuid row = Inr (rt1, us)"
    and r2: "foldR (\<lambda>rt (spec, refs). foldR (\<lambda>rt (to, _). initReferences db pr (ToTable spec) to rt) rt refs) rt1 us = Inr rt2"
      "applyReferenceModifications (rtReferences rt2) us = Inr refs" "rt' = rt2\<lparr>rtReferences := refs\<rparr>"
    using assms(1) by (auto simp: processRowUpdate_def resR)
  have "rtInv (rt\<lparr>rtDeleted := d\<rparr>)"
    "rtInv (rt\<lparr>rtAdded := AList.update uuid table (rtAdded rt), rtTracked := AList.update uuid table (rtTracked rt)\<rparr>)" for d
    using assms(2) by (auto simp: rtInv_def)
  then have r1: "rtInv rt1" "rtUpdates rt1 = rtUpdates rt"
    using h assms(2) by (auto simp: rowUpdateRefs_def resR split: if_splits)
  note t = initTargets_spec [OF r2(1) r1(1)]
  have "targets refs \<subseteq> dom (map_of (rtTracked rt2))"
    using targets_applyReferenceModifications [OF r2(2)] t unfolding rtInv_def by blast
  moreover have "dom (map_of (rtAdded rt2)) \<subseteq> dom (map_of (rtTracked rt2))" "rtUpdates rt2 = rtUpdates rt1"
    using t unfolding rtInv_def by blast+
  ultimately show ?thesis using r1(2) r2(3) by (simp add: rtInv_def)
qed

lemma processModelUpdates_spec:
  assumes "processModelUpdates db pr u rt = Inr rt'" "rtInv rt"
  shows "rtInv rt' \<and> rtUpdates rt' = rtUpdates rt"
proof -
  have inner: "rtInv s' \<and> rtUpdates s' = rtUpdates rt"
    if "ofS (ForEachRowUpdate u table (\<lambda>rt uuid row. toS rt (processRowUpdate db pr table rt uuid row)) s) = Inr s'" "rtInv s \<and> rtUpdates s = rtUpdates rt" for table s s'
  proof -
    define g where "g = (\<lambda>s (uuid, mu :: modelUpdate). case muRow mu of None \<Rightarrow> Inl (Panic ''nil pointer dereference'') | Some r \<Rightarrow> processRowUpdate db pr table s uuid r)"
    have "(\<lambda>s (uuid, mu). case muRow mu of None \<Rightarrow> (s, Some (Panic ''nil pointer dereference'')) | Some r \<Rightarrow> toS s (processRowUpdate db pr table s uuid r))
        = (\<lambda>s p. toS s (g s p))"
      by (auto simp: fun_eq_iff g_def toS_def split: option.splits)
    then have "foldR g s (tableUpdates u table) = Inr s'" using that(1) by (simp add: ForEachRowUpdate_def)
    then show ?thesis
    proof (rule foldR_invariant)
      show "rtInv s \<and> rtUpdates s = rtUpdates rt" by (rule that(2))
      fix s1 x s2
      assume "rtInv s1 \<and> rtUpdates s1 = rtUpdates rt" "g s1 x = Inr s2"
      then show "rtInv s2 \<and> rtUpdates s2 = rtUpdates rt"
        using processRowUpdate_spec [of db table s1 "fst x" _ s2] by (auto simp: g_def split: prod.splits option.splits)
    qed
  qed
  show ?thesis
    by (rule foldR_invariant [OF assms(1) [unfolded processModelUpdates_def]]) (use assms(2) inner in blast)+
qed

end

lemma reference_provider_localRefs: "localRefs pr \<Longrightarrow> reference_provider pr"
  by unfold_locales (simp add: localRefs_def)

context reference_provider
begin

text \<open>After the strong references are processed, every row still referenced strongly exists, and all deleted rows are tracked.\<close>

lemma processStrong_spec:
  assumes "processStrongReferences db pr rt = Inr (rt', u)" "rtInv rt"
  obtains rt1 isRef where "initReferencesOfDeletedRows db pr rt = Inr rt1" "rtInv rt1" "collected db isRef rt1 rt'" "gm_ok isRef"
    "\<And>spec r to fr. (spec, r) \<in> set (rtReferences rt1) \<Longrightarrow> isStrong db spec = Inr True \<Longrightarrow> (to, fr) \<in> set r \<Longrightarrow> fr \<noteq> []
      \<Longrightarrow> rowExists db pr rt1 (ToTable spec) to = Inr True \<and> map_of isRef to = Some True"
    "dom (map_of isRef) \<subseteq> dom (map_of (rtTracked rt1))" "dom (map_of (rtDeleted rt1)) \<subseteq> dom (map_of (rtTracked rt1))"
    "rtUpdates rt1 = rtUpdates rt" "rtDeleted rt1 = rtDeleted rt"
proof -
  obtain rt1 where r1: "initReferencesOfDeletedRows db pr rt = Inr rt1" using assms(1) by (auto simp: processStrongReferences_def resR)
  note d = initDeleted_spec [OF r1 assms(2)]
  have rounds: "(\<lambda>isRef (spec, refs). bindR (isStrong db spec) (\<lambda>strong. if \<not> strong then Inr isRef else foldR (strongStep db pr rt1 spec) isRef refs)) = strongRound db pr rt1"
    by (auto simp: strongRound_def fun_eq_iff)
  obtain isRef0 where r2: "foldR (strongRound db pr rt1) [] (rtReferences rt1) = Inr isRef0"
      "foldR (collectStep db pr) (rt1, []) (markAdded (rtAdded rt1) isRef0) = Inr (rt', u)"
    using assms(1) r1 unfolding processStrongReferences_def by (auto simp: resR rounds)
  note s = strongRound_loop [OF r2(1)]
  note m = markAdded_marks [of isRef0 "rtAdded rt1"]
  define isRef where "isRef = markAdded (rtAdded rt1) isRef0"
  have mk: "marks [] (targets (rtReferences rt1) \<union> fst ` set (rtAdded rt1)) isRef" unfolding isRef_def using marks_trans s m by blast
  show thesis
  proof (rule that [OF r1 _ collectStep_loop [OF r2(2)]])
    show "rtInv rt1" "dom (map_of (rtDeleted rt1)) \<subseteq> dom (map_of (rtTracked rt1))" "rtUpdates rt1 = rtUpdates rt" "rtDeleted rt1 = rtDeleted rt"
      using d by simp_all
    show "gm_ok (markAdded (rtAdded rt1) isRef0)" "dom (map_of (markAdded (rtAdded rt1) isRef0)) \<subseteq> dom (map_of (rtTracked rt1))"
    proof -
      have t: "targets (rtReferences rt1) \<union> fst ` set (rtAdded rt1) \<subseteq> dom (map_of (rtTracked rt1))"
        using d unfolding rtInv_def dom_map_of_conv_image_fst by blast
      have "gm_ok isRef" "dom (map_of isRef) \<subseteq> targets (rtReferences rt1) \<union> fst ` set (rtAdded rt1)"
        using mk unfolding marks_def by simp_all
      then show "gm_ok (markAdded (rtAdded rt1) isRef0)" "dom (map_of (markAdded (rtAdded rt1) isRef0)) \<subseteq> dom (map_of (rtTracked rt1))"
        using t unfolding isRef_def by blast+
    qed
    fix spec r to fr
    assume a: "(spec, r) \<in> set (rtReferences rt1)" "isStrong db spec = Inr True" "(to, fr) \<in> set r" "fr \<noteq> []"
    have "strongOk db pr rt1 spec (markAdded (rtAdded rt1) isRef0) (to, fr)" using s a(1-3) strongOk_mono [OF _ m] by blast
    then show "rowExists db pr rt1 (ToTable spec) to = Inr True \<and> map_of (markAdded (rtAdded rt1) isRef0) to = Some True"
      using a(4) by (simp add: strongOk_def)
  qed
qed

lemma processStrong_integrity:
  assumes "processStrongReferences db pr rt = Inr (rt', u)" "rtInv rt"
  shows "strongIntegrity db pr rt'" "rtInv rt'" "dom (map_of (rtDeleted rt')) \<subseteq> dom (map_of (rtTracked rt'))" "rtUpdates rt' = rtUpdates rt"
proof -
  obtain rt1 isRef where p: "rtInv rt1" "collected db isRef rt1 rt'" "gm_ok isRef"
    "\<And>spec r to fr. (spec, r) \<in> set (rtReferences rt1) \<Longrightarrow> isStrong db spec = Inr True \<Longrightarrow> (to, fr) \<in> set r \<Longrightarrow> fr \<noteq> []
      \<Longrightarrow> rowExists db pr rt1 (ToTable spec) to = Inr True \<and> map_of isRef to = Some True"
    "dom (map_of isRef) \<subseteq> dom (map_of (rtTracked rt1))" "dom (map_of (rtDeleted rt1)) \<subseteq> dom (map_of (rtTracked rt1))" "rtUpdates rt1 = rtUpdates rt"
    by (rule processStrong_spec [OF assms]) (rule that)
  have same: "rtUpdates rt' = rtUpdates rt1" "rtReferences rt' = rtReferences rt1" "rtTracked rt' = rtTracked rt1" "rtAdded rt' = rtAdded rt1"
      "\<And>v. map_of (rtDeleted rt') v = map_of (rtDeleted rt1) v \<or> (v, False) \<in> set isRef"
    using p(2) by (auto simp: collected_def)
  show "rtUpdates rt' = rtUpdates rt" using same(1) p(7) by simp
  show "rtInv rt'" using p(1) same by (simp add: rtInv_def)
  show "strongIntegrity db pr rt'" unfolding strongIntegrity_def
  proof (intro allI impI)
    fix spec r to fr
    assume "(spec, r) \<in> set (rtReferences rt')" "isStrong db spec = Inr True" "(to, fr) \<in> set r" "fr \<noteq> []"
    then have e: "rowExists db pr rt1 (ToTable spec) to = Inr True" "map_of isRef to = Some True" using p(4) same(2) by auto
    have "(to, False) \<notin> set isRef" using e(2) map_of_in_iff [OF p(3), of to False] by simp
    then show "rowExists db pr rt' (ToTable spec) to = Inr True"
      using e(1) same(5) [of to] rowExists_cong [OF same(1), of to] by simp
  qed
  show "dom (map_of (rtDeleted rt')) \<subseteq> dom (map_of (rtTracked rt'))"
  proof
    fix v
    assume "v \<in> dom (map_of (rtDeleted rt'))"
    then consider "v \<in> dom (map_of (rtDeleted rt1))" | "(v, False) \<in> set isRef" using same(5) [of v] by (metis domD domI)
    then show "v \<in> dom (map_of (rtTracked rt'))"
    proof cases
      case 2
      then have "v \<in> dom (map_of isRef)" using map_of_in_iff [OF p(3)] by blast
      then show ?thesis using p(5) same(3) by auto
    qed (use p(6) same(3) in auto)
  qed
qed

lemma initTracked:
  assumes "dom (map_of (rtDeleted rt)) \<subseteq> dom (map_of (rtTracked rt))"
  shows "initReferencesOfDeletedRows db pr rt = Inr rt"
proof -
  have "foldR (\<lambda>rt (uuid, table). initReferences db pr table uuid rt) rt xs = Inr rt" if "fst ` set xs \<subseteq> dom (map_of (rtTracked rt))" for xs
    using that by (induction xs) (auto simp: initReferences_def)
  then show ?thesis using assms by (simp add: initReferencesOfDeletedRows_def dom_map_of_conv_image_fst)
qed

lemma round_integrity:
  assumes "referenceRound db pr rt u ru = Inr (rt', u', ru')" "rtInv rt"
  shows "strongIntegrity db pr rt' \<and> rtInv rt'"
proof -
  obtain rt1 rt2 s w where r: "processModelUpdates db pr u rt = Inr rt1" "processStrongReferences db pr rt1 = Inr (rt2, s)"
      "processWeakReferences db pr rt2 = Inr (rt', w)"
    using assms(1) by (auto simp: referenceRound_def resR)
  have "rtInv rt1" using processModelUpdates_spec [OF r(1) assms(2)] by simp
  note p = processStrong_integrity [OF r(2) this]
  have "rt' = rt2" using r(3) initTracked [OF p(3)] by (auto simp: processWeakReferences_def resR)
  then show ?thesis using p(1,2) by simp
qed

lemma loop_integrity:
  assumes "processReferencesLoop db pr rt u ru = Some (Inr (rt', ru'))" "rtInv rt" "u \<noteq> [] \<or> strongIntegrity db pr rt"
  shows "strongIntegrity db pr rt'"
proof -
  let ?P = "\<lambda>db p rt (u :: ModelUpdates) (ru :: ModelUpdates) (y :: (referenceTracker \<times> ModelUpdates) result). p = pr \<longrightarrow> (\<forall>rt' ru'. y = Inr (rt', ru') \<longrightarrow> rtInv rt \<longrightarrow> u \<noteq> [] \<or> strongIntegrity db pr rt \<longrightarrow> strongIntegrity db pr rt')"
  have "?P db pr rt u ru (Inr (rt', ru'))"
  proof (rule processReferencesLoop.raw_induct [where P = ?P])
    show "processReferencesLoop db pr rt u ru = Some (Inr (rt', ru'))" by (rule assms(1))
  next
    fix loop db p rt u ru y
    assume ih: "\<And>db p rt u ru y. loop db p rt u ru = Some y \<Longrightarrow> ?P db p rt u ru y"
      and step: "(if u = [] then Some (Inr (rt, ru)) else case referenceRound db p rt u ru of Inl e \<Rightarrow> Some (Inl e)
          | Inr (rt', u', ru') \<Rightarrow> loop db p rt' u' ru') = Some y"
    show "?P db p rt u ru y"
    proof (intro impI allI)
      fix rt' ru'
      assume a: "p = pr" "y = Inr (rt', ru')" "rtInv rt" "u \<noteq> [] \<or> strongIntegrity db pr rt"
      show "strongIntegrity db pr rt'"
      proof (cases "u = []")
        case True
        then show ?thesis using step a(2,4) by simp
      next
        case False
        then obtain rt1 u1 ru1 where r: "referenceRound db pr rt u ru = Inr (rt1, u1, ru1)" "loop db pr rt1 u1 ru1 = Some (Inr (rt', ru'))"
          using step a(1,2) by (auto split: sum.splits)
        then show ?thesis using ih [OF r(2)] round_integrity [OF r(1) a(3)] by blast
      qed
    qed
  qed
  then show ?thesis using assms(2,3) by blast
qed

end


section \<open>Applying reference modifications\<close>

lemma applyFrom_spec:
  assumes "distinct a" "distinct b"
  obtains r where "applyFrom a b = Inr r" "distinct r" "set r = (set a - set b) \<union> (set b - set a)"
proof -
  let ?v = "\<lambda>xs. VSlice GString (Some (map AStr xs))"
  have cv: "colVal (RSlice GString) (?v xs)" if "distinct xs" for xs
    using that by (auto simp: colVal_def distinctVal_def distinct_map inj_on_def list_all_iff)
  obtain r ch where r: "applyDifference (?v a) (?v b) = Inr (r, ch)" "colVal (RSlice GString) r" "absV r = absApply (absV (?v a)) (absV (?v b))"
    by (rule applyDifference_spec [OF cv [OF assms(1)] cv [OF assms(2)]]) (rule that)
  obtain x where x: "r = VSlice GString x" "distinct (elems x)" "\<forall>y \<in> set (elems x). atomType y = GString"
    using r(2) by (cases r) (auto simp: colVal_def distinctVal_def list_all_iff)
  have str: "\<exists>s. y = AStr s" if "y \<in> set (elems x)" for y using x(3) that by (cases y) auto
  have inj: "inj_on strOf (set (elems x))"
  proof (rule inj_onI)
    fix y z
    assume "y \<in> set (elems x)" "z \<in> set (elems x)" "strOf y = strOf z"
    then show "y = z" using str [of y] str [of z] by (auto simp: strOf_def)
  qed
  have s: "set (elems x) = AStr ` ((set a - set b) \<union> (set b - set a))"
    using r(3) unfolding x(1) by (auto simp: absV_def)
  show thesis
  proof (rule that [of "map strOf (elems x)"])
    show "applyFrom a b = Inr (map strOf (elems x))" using r(1) x(1) by (simp add: applyFrom_def)
    show "distinct (map strOf (elems x))" using x(2) inj by (simp add: distinct_map)
    have "strOf ` AStr ` S = S" for S by (force simp: strOf_def image_image)
    then show "set (map strOf (elems x)) = (set a - set b) \<union> (set b - set a)" using s by simp
  qed
qed

definition distinctRefs :: "References \<Rightarrow> bool" where
  "distinctRefs rs = (\<forall>spec to. distinct (referencing rs spec to))"

lemma applyReference_spec:
  assumes "distinctRefs a" "distinct fr"
  obtains a' where "applyReference spec a (to, fr) = Inr a'" "distinctRefs a'"
    "\<And>s t. set (referencing a' s t) = (if s = spec \<and> t = to then (set (referencing a s t) - set fr) \<union> (set fr - set (referencing a s t)) else set (referencing a s t))"
proof -
  have "\<exists>a' l. applyReference spec a (to, fr) = Inr a' \<and> distinct l \<and> set l = (set (referencing a spec to) - set fr) \<union> (set fr - set (referencing a spec to))
      \<and> (\<forall>s t. referencing a' s t = (if s = spec \<and> t = to then l else referencing a s t))"
  proof (cases "map_of a spec")
    case None
    then show ?thesis using assms(2) by (intro exI [of _ "AList.update spec [(to, fr)] a"] exI [of _ fr]) (auto simp: applyReference_def referencing_def)
  next
    case (Some av)
    show ?thesis
    proof (cases "map_of av to")
      case None
      then show ?thesis using Some assms(2)
        by (intro exI [of _ "AList.update spec (AList.update to fr av) a"] exI [of _ fr]) (auto simp: applyReference_def referencing_def)
    next
      case af: (Some af)
      then have rf: "referencing a spec to = af" using Some by (simp add: referencing_def)
      then have "distinct af" using assms(1) by (auto simp: distinctRefs_def)
      from applyFrom_spec [OF this assms(2)] obtain r where r: "applyFrom af fr = Inr r" "distinct r" "set r = (set af - set fr) \<union> (set fr - set af)" .
      then show ?thesis using Some af rf
        by (intro exI [of _ "AList.update spec (AList.update to r av) a"] exI [of _ r]) (auto simp: applyReference_def referencing_def)
    qed
  qed
  then obtain a' l where l: "applyReference spec a (to, fr) = Inr a'" "distinct l"
      "set l = (set (referencing a spec to) - set fr) \<union> (set fr - set (referencing a spec to))"
      "\<And>s t. referencing a' s t = (if s = spec \<and> t = to then l else referencing a s t)" by blast
  show thesis by (rule that [OF l(1)]) (use l assms(1) in \<open>auto simp: distinctRefs_def\<close>)
qed

lemma applyReferenceModifications_flat:
  "applyReferenceModifications a b = foldR (\<lambda>a ((spec, to), fr). applyReference spec a (to, fr)) a (flatRefs b)"
proof -
  have inner: "foldR (applyReference spec) a r = foldR (\<lambda>a ((spec, to), fr). applyReference spec a (to, fr)) a (map (\<lambda>(to, fr). ((spec, to), fr)) r)" for spec r a
    by (induction r arbitrary: a) (auto simp: bindR_def split: sum.splits)
  show ?thesis unfolding applyReferenceModifications_def flatRefs_def
    by (induction b arbitrary: a) (auto simp: inner foldR_append bindR_def split: sum.splits)
qed

lemma applyReferenceModifications_spec:
  assumes "distinctRefs a" "gm_ok b" "list_all (\<lambda>(spec, r). gm_ok r) b" "distinctRefs b"
  obtains a' where "applyReferenceModifications a b = Inr a'" "distinctRefs a'"
    "\<And>s t. set (referencing a' s t) = (set (referencing a s t) - set (referencing b s t)) \<union> (set (referencing b s t) - set (referencing a s t))"
proof -
  have ex: "\<exists>a'. foldR (\<lambda>a ((spec, to), fr). applyReference spec a (to, fr)) a xs = Inr a' \<and> distinctRefs a'
      \<and> (\<forall>s t. set (referencing a' s t) = (let B = (case map_of xs (s, t) of None \<Rightarrow> {} | Some l \<Rightarrow> set l) in
           (set (referencing a s t) - B) \<union> (B - set (referencing a s t))))"
    if "distinctRefs a" "distinct (map fst xs)" "\<forall>p \<in> set xs. distinct (snd p)" for xs a
    using that
  proof (induction xs arbitrary: a)
    case (Cons p xs)
    obtain spec to fr where p: "p = ((spec, to), fr)" by (cases p) auto
    obtain a1 where a1: "applyReference spec a (to, fr) = Inr a1" "distinctRefs a1"
      "\<And>s t. set (referencing a1 s t) = (if s = spec \<and> t = to then (set (referencing a s t) - set fr) \<union> (set fr - set (referencing a s t)) else set (referencing a s t))"
      by (rule applyReference_spec [OF Cons.prems(1), of fr spec to]) (use Cons.prems(3) p in auto)
    have n: "map_of xs (spec, to) = None" using Cons.prems(2) p by (simp add: map_of_eq_None_iff)
    obtain a2 where a2: "foldR (\<lambda>a ((spec, to), fr). applyReference spec a (to, fr)) a1 xs = Inr a2" "distinctRefs a2"
      "\<And>s t. set (referencing a2 s t) = (let B = (case map_of xs (s, t) of None \<Rightarrow> {} | Some l \<Rightarrow> set l) in
           (set (referencing a1 s t) - B) \<union> (B - set (referencing a1 s t)))"
      using Cons.IH [OF a1(2)] Cons.prems(2,3) by auto
    have "set (referencing a2 s t) = (let B = (case map_of (p # xs) (s, t) of None \<Rightarrow> {} | Some l \<Rightarrow> set l) in
           (set (referencing a s t) - B) \<union> (B - set (referencing a s t)))" for s t
    proof (cases "s = spec \<and> t = to")
      case True
      then show ?thesis using a2(3) [of s t] a1(3) [of s t] n p by (simp add: Let_def)
    next
      case False
      then have "map_of (p # xs) (s, t) = map_of xs (s, t)" "referencing a1 s t = referencing a1 s t" using p by auto
      then show ?thesis using a2(3) [of s t] a1(3) [of s t] False by (simp only: Let_def if_False)
    qed
    then show ?case using a1(1) a2(1,2) p by auto
  qed simp
  note k = flatRefs_keys [OF assms(2,3)]
  have d: "\<forall>p \<in> set (flatRefs b). distinct (snd p)"
  proof
    fix p
    assume p: "p \<in> set (flatRefs b)"
    obtain spec to fr where e: "p = ((spec, to), fr)" by (cases p) auto
    have "map_of (flatRefs b) (spec, to) = Some fr" using p e map_of_eq_Some_iff [OF k(1)] by simp
    then have "referencing b spec to = fr" using k(2) [of spec to] by (auto simp: referencing_def split: option.splits)
    then show "distinct (snd p)" using assms(4) e by (auto simp: distinctRefs_def)
  qed
  obtain a' where a': "applyReferenceModifications a b = Inr a'" "distinctRefs a'"
      "\<And>s t. set (referencing a' s t) = (let B = (case map_of (flatRefs b) (s, t) of None \<Rightarrow> {} | Some l \<Rightarrow> set l) in
           (set (referencing a s t) - B) \<union> (B - set (referencing a s t)))"
    using ex [OF assms(1) k(1) d] unfolding applyReferenceModifications_flat by blast
  have "(case map_of (flatRefs b) (s, t) of None \<Rightarrow> {} | Some l \<Rightarrow> set l) = set (referencing b s t)" for s t
    unfolding k(2) by (auto simp: referencing_def split: option.splits)
  then show thesis using a' by (intro that [OF a'(1,2)]) (simp add: Let_def)
qed

lemma addTo_AUUID: "addTo f (AUUID u) r = AList.update u ((case map_of r u of None \<Rightarrow> [] | Some g \<Rightarrow> g) @ [f]) r"
  by (simp add: addTo_def)

lemma addTo_set:
  assumes "distinct vs" "\<forall>v \<in> set vs. \<exists>u. v = AUUID u"
  shows "gm_ok (fold (addTo uuid) vs []) \<and> (\<forall>to. map_of (fold (addTo uuid) vs []) to = (if AUUID to \<in> set vs then Some [uuid] else None))"
  using assms
proof (induction vs rule: rev_induct)
  case (snoc v vs)
  then obtain u where v: "v = AUUID u" by auto
  have ih: "gm_ok (fold (addTo uuid) vs [])" "\<And>to. map_of (fold (addTo uuid) vs []) to = (if AUUID to \<in> set vs then Some [uuid] else None)"
    using snoc by auto
  have "AUUID u \<notin> set vs" using snoc.prems(1) v by simp
  then show ?case using ih by (simp add: addTo_AUUID v)
qed simp

text \<open>
  Claim C27. Reference tracking is exact on set columns: when the tracked references agree with the old value of a column of
  references and the column is changed by a non-empty difference, then extracting the reference modifications of the row and
  applying them succeeds, the row refers afterwards to exactly the rows of the new value, and the references of other rows and
  of other columns do not change.
\<close>

theorem set_references_exact:
  assumes "refTable db table column False = Inr rt" and "rt \<noteq> []"
    and "distinct D" and "D \<noteq> []" and "\<forall>v \<in> set D. \<exists>u. v = AUUID u" and "distinctRefs a"
    and "\<forall>to. uuid \<in> set (referencing a (refSpec rt table column False) to) \<longleftrightarrow> AUUID to \<in> set S"
  shows "\<exists>refs a'. getReferenceModificationsFromRow db table uuid (Some [(column, VOvsSet (Some D))]) (Some [(column, VOvsSet (Some S))]) = Inr refs
    \<and> applyReferenceModifications a refs = Inr a'
    \<and> (\<forall>to. uuid \<in> set (referencing a' (refSpec rt table column False) to) \<longleftrightarrow> AUUID to \<in> (set S - set D) \<union> (set D - set S))
    \<and> (\<forall>spec to u. u \<noteq> uuid \<or> spec \<noteq> refSpec rt table column False \<longrightarrow> u \<in> set (referencing a' spec to) \<longleftrightarrow> u \<in> set (referencing a spec to))"
proof -
  let ?spec = "refSpec rt table column False" and ?r = "fold (addTo uuid) D []"
  note r = addTo_set [OF assms(3,5), of uuid]
  obtain v vs where D: "D = v # vs" using assms(4) by (cases D) auto
  have ne: "?r \<noteq> []" using r assms(5) D by (metis list.set_intros(1) map_of.simps(1) option.distinct(1))
  have cref: "getReferenceModificationsFromColumn db table uuid column (VOvsSet (Some D)) (VOvsSet (Some S)) = Inr [(?spec, ?r)]"
    using assms(1,2,4) by (simp add: getReferenceModificationsFromColumn_def getReferenceModificationsFromSet_def)
  have fr: "referencing [(?spec, ?r)] s t = (if s = ?spec \<and> AUUID t \<in> set D then [uuid] else [])" for s t
    using r by (simp add: referencing_def)
  obtain refs where refs: "refs = UpdateReferences [(?spec, ?r)] []" by simp
  have w: "wfRefs refs" "referencing refs s t = (if s = ?spec \<and> AUUID t \<in> set D then [uuid] else [])" for s t
  proof -
    have k: "distinct (map fst (flatRefs [(?spec, ?r)]))"
        "map_of (flatRefs [(?spec, ?r)]) (s, t) = (case map_of [(?spec, ?r)] s of None \<Rightarrow> None | Some r \<Rightarrow> map_of r t)" for s t
      using flatRefs_keys [of "[(?spec, ?r)]"] r by auto
    have wf: "wfRefs []" by (simp add: wfRefs_def)
    show "wfRefs refs" unfolding refs UpdateReferences_flat by (rule refs.batch_ok [OF wf])
    show "referencing refs s t = (if s = ?spec \<and> AUUID t \<in> set D then [uuid] else [])"
      using refs.look_batch [OF wf k(1), of "(s, t)"] r unfolding UpdateReferences_flat [symmetric] refs k(2)
      by (auto simp: referencing_def)
  qed
  have row: "getReferenceModificationsFromRow db table uuid (Some [(column, VOvsSet (Some D))]) (Some [(column, VOvsSet (Some S))]) = Inr refs"
    using cref by (simp add: getReferenceModificationsFromRow_def derefRow_def refs)
  have gr: "gm_ok refs" "list_all (\<lambda>(spec, r). gm_ok r) refs" using w(1) by (auto simp: wfRefs_def list_all_iff)
  have dr: "distinctRefs refs" using w(2) by (simp add: distinctRefs_def)
  obtain a' where a': "applyReferenceModifications a refs = Inr a'"
      "\<And>s t. set (referencing a' s t) = (set (referencing a s t) - set (referencing refs s t)) \<union> (set (referencing refs s t) - set (referencing a s t))"
    by (rule applyReferenceModifications_spec [OF assms(6) gr dr]) (rule that)
  show ?thesis
    by (intro exI [of _ refs] exI [of _ a'] conjI row a'(1)) (use assms(7) in \<open>auto simp: a'(2) w(2)\<close>)
qed

lemma targets_GetReferences: "targets (GetReferences rs table uuid) \<subseteq> {uuid}"
proof -
  have "targets (fold (\<lambda>(spec, values) refs. if ToTable spec \<noteq> table then refs
       else case map_of values uuid of None \<Rightarrow> refs | Some fr \<Rightarrow> AList.update spec [(uuid, fr)] refs) rs acc) \<subseteq> {uuid}" if "targets acc \<subseteq> {uuid}" for acc
    using that
  proof (induction rs arbitrary: acc)
    case (Cons p rs)
    obtain spec vs where p: "p = (spec, vs)" by fastforce
    have "targets (AList.update spec [(uuid, fr)] acc) \<subseteq> {uuid}" for fr using Cons.prems targets_update [of spec "[(uuid, fr)]" acc] by auto
    then show ?case using Cons p by (auto split: option.splits)
  qed simp
  then show ?thesis unfolding GetReferences_def by simp
qed


section \<open>An example\<close>

text \<open>
  A parent table in the root set that refers to rows of a child table, strongly and weakly, by sets, by optional values and by
  the keys of a map. The children are not in the root set and may refer to a next child.
\<close>

definition refBase :: "RefType \<Rightarrow> BaseType" where
  "refBase rt = (exBase TypeUUID)\<lparr>refTableP := Some ''Child'', refTypeP := Some rt\<rparr>"

definition setOf :: "RefType \<Rightarrow> ColumnSchema" where
  "setOf rt = \<lparr>cType = TypeSet, TypeObj = Some \<lparr>Key = Some (refBase rt), Value = None, minP = Some 0, maxP = Some Unlimited\<rparr>, ephemeral = None, mutable = None\<rparr>"

definition optOf :: "RefType \<Rightarrow> ColumnSchema" where
  "optOf rt = \<lparr>cType = TypeSet, TypeObj = Some \<lparr>Key = Some (refBase rt), Value = None, minP = Some 0, maxP = Some 1\<rparr>, ephemeral = None, mutable = None\<rparr>"

definition keyMapOf :: "RefType \<Rightarrow> ColumnSchema" where
  "keyMapOf rt = \<lparr>cType = TypeMap, TypeObj = Some \<lparr>Key = Some (refBase rt), Value = Some (exBase TypeString), minP = Some 0, maxP = Some Unlimited\<rparr>, ephemeral = None, mutable = None\<rparr>"

definition parentTable :: TableSchema where
  "parentTable = \<lparr>Columns = [(''children'', setOf Strong), (''first'', optOf Strong), (''notes'', keyMapOf Strong), (''seen'', setOf Weak), (''last'', optOf Weak)],
     Indexes = [], IsRootF = True\<rparr>"

definition childTable :: TableSchema where
  "childTable = \<lparr>Columns = [(''next'', optOf Strong)], Indexes = [], IsRootF = False\<rparr>"

definition parentStruct :: StructType where
  "parentStruct = \<lparr>sName = ''Parent'', sFields = [
     \<lparr>fName = ''UUID'', fTag = ''_uuid'', fType = RAtom GString\<rparr>,
     \<lparr>fName = ''Children'', fTag = ''children'', fType = RSlice GString\<rparr>,
     \<lparr>fName = ''First'', fTag = ''first'', fType = RPtr GString\<rparr>,
     \<lparr>fName = ''Notes'', fTag = ''notes'', fType = RMap GString GString\<rparr>,
     \<lparr>fName = ''Seen'', fTag = ''seen'', fType = RSlice GString\<rparr>,
     \<lparr>fName = ''Last'', fTag = ''last'', fType = RPtr GString\<rparr>]\<rparr>"

definition childStruct :: StructType where
  "childStruct = \<lparr>sName = ''Child'', sFields = [
     \<lparr>fName = ''UUID'', fTag = ''_uuid'', fType = RAtom GString\<rparr>,
     \<lparr>fName = ''Next'', fTag = ''next'', fType = RPtr GString\<rparr>]\<rparr>"

definition refSchema :: DatabaseSchema where
  "refSchema = \<lparr>Name = ''db'', Version = ''1.0'', Tables = [(''Parent'', parentTable), (''Child'', childTable)], allTablesRoot = None\<rparr>"

definition refClient :: ClientDBModel where
  "refClient = \<lparr>cdbName = ''db'', cdbTypes = [(''Parent'', parentStruct), (''Child'', childStruct)], cdbIndexes = []\<rparr>"

definition refDb :: DatabaseModel where
  "refDb = (case NewDatabaseModel refSchema refClient of Inr (Inr db) \<Rightarrow> db | _ \<Rightarrow> exDb)"

definition parentModel :: "string list \<Rightarrow> string option \<Rightarrow> string list \<Rightarrow> string option \<Rightarrow> Model" where
  "parentModel cs fst1 seen lst = \<lparr>mType = parentStruct, mObj = [(''UUID'', VAtom (AStr ''p'')),
     (''Children'', VSlice GString (Some (map AStr cs))), (''First'', VPtr GString (map_option AStr fst1)),
     (''Notes'', VMap GString GString None), (''Seen'', VSlice GString (Some (map AStr seen))), (''Last'', VPtr GString (map_option AStr lst))]\<rparr>"

definition childModel :: "string \<Rightarrow> string option \<Rightarrow> Model" where
  "childModel u nxt = \<lparr>mType = childStruct, mObj = [(''UUID'', VAtom (AStr u)), (''Next'', VPtr GString (map_option AStr nxt))]\<rparr>"

text \<open>A provider that holds some references and some rows.\<close>

definition refProvider :: "References \<Rightarrow> (string, Model) gomap \<Rightarrow> ReferenceProvider" where
  "refProvider rs ms = \<lparr>prGetReferences = (\<lambda>_ table uuid. Inr (GetReferences rs table uuid)), prGet = (\<lambda>_ _ uuid. Inr (map_of ms uuid))\<rparr>"

definition emptyTracker :: "ModelUpdates \<Rightarrow> referenceTracker" where
  "emptyTracker u = \<lparr>rtUpdates = u, rtReferences = [], rtTracked = [], rtAdded = [], rtDeleted = []\<rparr>"

text \<open>The parent has the child \<open>a\<close>, whose next is \<open>b\<close>, and has seen both; an update operation empties its set of children.\<close>

definition chainRefs :: References where
  "chainRefs = [(refSpec ''Child'' ''Parent'' ''children'' False, [(''a'', [''p''])]), (refSpec ''Child'' ''Child'' ''next'' False, [(''b'', [''a''])]),
     (refSpec ''Child'' ''Parent'' ''seen'' False, [(''a'', [''p'']), (''b'', [''p''])])]"

definition chainProvider :: ReferenceProvider where
  "chainProvider = refProvider chainRefs [(''p'', parentModel [''a''] None [''a'', ''b''] None), (''a'', childModel ''a'' (Some ''b'')), (''b'', childModel ''b'' None)]"

definition chainUpdate :: ModelUpdates where
  "chainUpdate = (case AddOperation refDb ''Parent'' ''p'' (Some (parentModel [''a''] None [''a'', ''b''] None))
     (emptyOp\<lparr>Op := OperationUpdate, opTable := ''Parent'', opRow := [(''children'', VOvsSet (Some []))]\<rparr>) [] of Inr u \<Rightarrow> u | Inl _ \<Rightarrow> [])"

definition finished :: "'a result option \<Rightarrow> bool" where
  "finished r = (case r of Some (Inr _) \<Rightarrow> True | _ \<Rightarrow> False)"

lemma refProvider_local: "localRefs (refProvider rs ms)"
  using targets_GetReferences [of rs] by (auto simp: localRefs_def refProvider_def)

lemma chain_finished: "finished (processReferencesLoop refDb chainProvider (emptyTracker chainUpdate) chainUpdate [])"
  by code_simp


definition orphan :: referenceTracker where
  "orphan = (emptyTracker [])\<lparr>rtReferences := [(refSpec ''Child'' ''Parent'' ''children'' False, [(''b'', [])])], rtTracked := [(''b'', ''Child'')]\<rparr>"

lemma orphan_deleted: "case processStrongReferences refDb chainProvider orphan of Inr (rt', u) \<Rightarrow> map_of (rtDeleted rt') ''b'' = Some ''Child'' | _ \<Rightarrow> False"
  by code_simp


lemma refTable_ex: "refTable refDb ''Parent'' ''children'' False = Inr ''Child''"
  by code_simp

theorem set_references_exact_witness:
  "\<exists>refs a'. getReferenceModificationsFromRow refDb ''Parent'' ''p'' (Some [(''children'', VOvsSet (Some [AUUID ''a'', AUUID ''c'']))]) (Some [(''children'', VOvsSet (Some [AUUID ''a'']))]) = Inr refs
    \<and> applyReferenceModifications chainRefs refs = Inr a'
    \<and> (\<forall>to. ''p'' \<in> set (referencing a' (refSpec ''Child'' ''Parent'' ''children'' False) to) \<longleftrightarrow> AUUID to \<in> {AUUID ''c''})"
proof -
  have d: "distinctRefs chainRefs" by (simp add: distinctRefs_def referencing_def chainRefs_def)
  have c: "\<forall>to. ''p'' \<in> set (referencing chainRefs (refSpec ''Child'' ''Parent'' ''children'' False) to) \<longleftrightarrow> AUUID to \<in> set [AUUID ''a'']"
    by (auto simp: referencing_def chainRefs_def)
  have "set [AUUID ''a''] - set [AUUID ''a'', AUUID ''c''] \<union> (set [AUUID ''a'', AUUID ''c''] - set [AUUID ''a'']) = {AUUID ''c''}" by auto
  then show ?thesis
    using set_references_exact [OF refTable_ex _ _ _ _ d c, of "[AUUID ''a'', AUUID ''c'']"] by auto
qed

text \<open>
  The second of two weak reference removals of a row is computed from the row as it was before the first: the parent
  has seen \<open>a\<close> and \<open>b\<close>, which are collected one after the other, and the notification removes both, but the row that is
  stored keeps the reference to the deleted \<open>a\<close>.
\<close>

theorem weak_removal_lost_across_rounds:
  "case ProcessReferences refDb chainProvider chainUpdate of
     Some (Inr (u', ru, refs)) \<Rightarrow>
       GetModel u' ''Child'' ''a'' = None \<and> map_of (tableUpdates u' ''Child'') ''a'' \<noteq> None
       \<and> (case map_of (tableUpdates u' ''Parent'') ''p'' of
            Some mu \<Rightarrow> map_option (\<lambda>m. map_of (mObj m) ''Seen'') (muNew mu) = Some (Some (VSlice GString (Some [AStr ''a''])))
              \<and> (case muRow mu of Some ru2 \<Rightarrow> (case Modify ru2 of Some d \<Rightarrow> map_of d ''seen'' = Some (VOvsSet (Some [AUUID ''a'', AUUID ''b''])) | None \<Rightarrow> False) | None \<Rightarrow> False)
          | None \<Rightarrow> False)
   | _ \<Rightarrow> False"
  by code_simp

text \<open>
  Two kinds of weak references to one deleted row: the removal from the set and the clearing of the optional
  column start from the same row, so the stored row keeps the reference in the set.
\<close>

theorem weak_set_removal_lost:
  "case updateRow refDb (refProvider [] [(''p'', parentModel [] None [''a'', ''b''] (Some ''a''))]) (emptyTracker []) ''Parent'' ''p''
       [(''seen'', VOvsSet (Some [AUUID ''a''])), (''last'', VNil)] of
     Inr u \<Rightarrow> GetModel u ''Parent'' ''p'' = Some (parentModel [] None [''a'', ''b''] None)
   | Inl _ \<Rightarrow> False"
  by code_simp

text \<open>
  A changed optional reference keeps its old target: the modification extracted from the change of \<open>first\<close> from \<open>a\<close>
  to \<open>b\<close> adds the reference to \<open>b\<close> and leaves the one to \<open>a\<close>.
\<close>

theorem optional_reference_change_stale:
  "bindR (NewModelInfo refDb (parentModel [] (Some ''a'') [] None)) (\<lambda>i.
     bindR (updateModel refDb ''Parent'' i [(''first'', VOvsSet (Some [AUUID ''b'']))] (Some [])) (\<lambda>(changed, i', delta). Inr delta))
     = Inr (Some [(''first'', VOvsSet (Some [AUUID ''b'']))])
   \<and> bindR (getReferenceModificationsFromRow refDb ''Parent'' ''p'' (Some [(''first'', VOvsSet (Some [AUUID ''b'']))]) (Some [(''first'', VOvsSet (Some [AUUID ''a'']))]))
     (applyReferenceModifications [(refSpec ''Child'' ''Parent'' ''first'' False, [(''a'', [''p''])])])
   = Inr [(refSpec ''Child'' ''Parent'' ''first'' False, [(''a'', [''p'']), (''b'', [''p''])])]"
  by (rule conjI) code_simp+

text \<open>
  A changed map value drops the reference of its key: the difference of two maps holds the changed entry, and its key is
  taken as a reference that was removed although the new map has it too.
\<close>

theorem map_key_reference_dropped:
  "difference (VMap GString GString (Some [(AStr ''a'', AStr ''x'')])) (VMap GString GString (Some [(AStr ''a'', AStr ''y'')]))
     = Inr (VMap GString GString (Some [(AStr ''a'', AStr ''y'')]), True)
   \<and> bindR (getReferenceModificationsFromRow refDb ''Parent'' ''p'' (Some [(''notes'', VOvsMap (Some [(AUUID ''a'', AStr ''y'')]))]) (Some [(''notes'', VOvsMap (Some [(AUUID ''a'', AStr ''x'')]))]))
       (applyReferenceModifications [(refSpec ''Child'' ''Parent'' ''notes'' False, [(''a'', [''p''])])])
     = Inr [(refSpec ''Child'' ''Parent'' ''notes'' False, [(''a'', [])])]"
  by (rule conjI) code_simp+

end
