(* ===== verification/Database.thy ===== *)
theory Database
  imports TableCache RefTracker
begin

text \<open>
  The in-memory database of the server (\<open>database/inmemory/inmemory.go\<close>): a table cache and the references for every
  database by its name. It is the database of the transactions and the \<open>ReferenceProvider\<close> of the reference
  tracker. Its caches have no event handlers; their channels fill up and drop what does not fit. The lemmas show that a
  commit refines the pointwise update of the contents, touches one database only and keeps the others as they are.
\<close>

record inMemoryDatabase =
  imDatabases :: "(string, unit TableCache) gomap"
  imModels :: "(string, ClientDBModel) gomap"
  imReferences :: "(string, References) gomap"

definition NewDatabase :: "(string, ClientDBModel) gomap \<Rightarrow> inMemoryDatabase" where
  "NewDatabase models = \<lparr>imDatabases = [], imModels = models, imReferences = []\<rparr>"

definition CreateDatabase :: "string \<Rightarrow> DatabaseSchema \<Rightarrow> inMemoryDatabase \<Rightarrow> inMemoryDatabase result" where
  "CreateDatabase name schema db =
     (case map_of (imModels db) (Name schema) of
        None \<Rightarrow> Inl (Errorf ''no db model provided for schema with name'')
      | Some mo \<Rightarrow>
          bindR (NewDatabaseModel schema mo) (\<lambda>r. case r of
            Inl errs \<Rightarrow> Inl (Errorf ''failed to create DatabaseModel'')
          | Inr dbModel \<Rightarrow>
              bindR (NewTableCache dbModel []) (\<lambda>database.
                Inr (db\<lparr>imDatabases := AList.update name database (imDatabases db),
                        imReferences := AList.update name [] (imReferences db)\<rparr>))))"

definition Exists :: "inMemoryDatabase \<Rightarrow> string \<Rightarrow> bool" where
  "Exists db name = (map_of (imDatabases db) name \<noteq> None)"

text \<open>
  An update to commit has the updates of the rows and those of the references (\<open>DatabaseUpdate\<close> in \<open>updates/references.go\<close>).
  \<open>Commit\<close> keeps what the failed update of the cache changed before its error. An assignment to the references of a
  database that has none panics; the code creates them together with the database.
\<close>

record DatabaseUpdate =
  duUpdates :: ModelUpdates
  duReferences :: References

definition Commit :: "string \<Rightarrow> DatabaseUpdate \<Rightarrow> inMemoryDatabase \<Rightarrow> inMemoryDatabase \<times> err option" where
  "Commit database update db =
     (case map_of (imDatabases db) database of
        None \<Rightarrow> (db, Some (Errorf ''db does not exist''))
      | Some targetDb \<Rightarrow>
          (let (targetDb', e) = ApplyCacheUpdate (duUpdates update) targetDb;
               db' = db\<lparr>imDatabases := AList.update database targetDb' (imDatabases db)\<rparr>
           in case e of
                Some e \<Rightarrow> (db', Some e)
              | None \<Rightarrow> toS db' (ForReferenceUpdates (duReferences update) (\<lambda>references.
                  case map_of (imReferences db') database of
                    None \<Rightarrow> if references = [] then Inr db' else Inl (Panic ''assignment to entry in nil map'')
                  | Some rs \<Rightarrow> Inr (db'\<lparr>imReferences := AList.update database (UpdateReferences references rs) (imReferences db')\<rparr>)))))"

definition CheckIndexes :: "inMemoryDatabase \<Rightarrow> string \<Rightarrow> string \<Rightarrow> Model \<Rightarrow> err option" where
  "CheckIndexes db database table m =
     (case map_of (imDatabases db) database of
        None \<Rightarrow> None
      | Some targetDb \<Rightarrow> (case cacheTable targetDb table of
          None \<Rightarrow> Some (Panic ''nil pointer dereference'')
        | Some targetTable \<Rightarrow> (case IndexExists targetTable m of Inl e \<Rightarrow> Some e | Inr _ \<Rightarrow> None)))"

definition dbTable :: "inMemoryDatabase \<Rightarrow> string \<Rightarrow> string \<Rightarrow> RowCache result" where
  "dbTable db database table =
     (case map_of (imDatabases db) database of
        None \<Rightarrow> Inl (Errorf ''db does not exist'')
      | Some targetDb \<Rightarrow> (case cacheTable targetDb table of
          None \<Rightarrow> Inl (Errorf ''table does not exist'')
        | Some targetTable \<Rightarrow> Inr targetTable))"

definition ListRows :: "inMemoryDatabase \<Rightarrow> string \<Rightarrow> string \<Rightarrow> Condition list \<Rightarrow> (string, Model option) gomap result" where
  "ListRows db database table conditions = bindR (dbTable db database table) (\<lambda>t. RowsByCondition t conditions)"

definition GetRowModel :: "inMemoryDatabase \<Rightarrow> string \<Rightarrow> string \<Rightarrow> string \<Rightarrow> Model option result" where
  "GetRowModel db database table uuid = bindR (dbTable db database table) (\<lambda>t. Inr (rowByUUID t uuid))"

definition dbGetReferences :: "inMemoryDatabase \<Rightarrow> string \<Rightarrow> string \<Rightarrow> string \<Rightarrow> References result" where
  "dbGetReferences db database table row =
     (if \<not> Exists db database then Inl (Errorf ''db does not exist'')
      else Inr (GetReferences (case map_of (imReferences db) database of None \<Rightarrow> [] | Some rs \<Rightarrow> rs) table row))"

definition dbProvider :: "inMemoryDatabase \<Rightarrow> ReferenceProvider" where
  "dbProvider db = \<lparr>prGetReferences = dbGetReferences db, prGet = GetRowModel db\<rparr>"

section \<open>Properties\<close>

interpretation inmemory: reference_provider "dbProvider db" for db
proof
  fix d table uuid rs
  assume "prGetReferences (dbProvider db) d table uuid = Inr rs"
  then show "targets rs \<subseteq> {uuid}"
    using targets_GetReferences by (auto simp: dbProvider_def dbGetReferences_def split: if_splits)
qed

lemma dbProvider_local: "localRefs (dbProvider db)"
  using inmemory.only_row by (simp add: localRefs_def)

text \<open>The copy of the references that a commit gets has the entries of the original.\<close>

definition refEntry :: "References \<Rightarrow> ReferenceSpec \<times> string \<Rightarrow> string list option" where
  "refEntry rs = (\<lambda>(spec, to). case map_of rs spec of None \<Rightarrow> None | Some r \<Rightarrow> map_of r to)"

definition okRefs :: "References \<Rightarrow> bool" where
  "okRefs rs = (gm_ok rs \<and> list_all (\<lambda>(spec, r). gm_ok r) rs)"

lemma okRefs_entry: "okRefs rs \<Longrightarrow> map_of rs spec = Some r \<Longrightarrow> gm_ok r"
  by (auto simp: okRefs_def list_all_iff dest!: map_of_SomeD)

lemma okRefs_update: "okRefs rs \<Longrightarrow> gm_ok r \<Longrightarrow> okRefs (AList.update spec r rs)"
  by (auto simp: okRefs_def intro!: list_all_update)

lemma applyReference_new:
  assumes "okRefs a" "refEntry a (spec, to) = None"
  obtains a' where "applyReference spec a (to, fr) = Inr a'" "okRefs a'" "refEntry a' = (refEntry a)((spec, to) \<mapsto> fr)"
proof (cases "map_of a spec")
  case None
  show thesis
    by (rule that [of "AList.update spec [(to, fr)] a"])
      (use None assms in \<open>auto simp: applyReference_def refEntry_def fun_eq_iff intro!: okRefs_update\<close>)
next
  case (Some r)
  show thesis
    by (rule that [of "AList.update spec (AList.update to fr r) a"])
      (use Some assms okRefs_entry [OF assms(1) Some] in \<open>auto simp: applyReference_def refEntry_def fun_eq_iff intro!: okRefs_update\<close>)
qed

lemma copy_loop:
  assumes "okRefs a" "distinct (map fst xs)" "\<forall>k \<in> set (map fst xs). refEntry a k = None"
  shows "\<exists>a'. foldR (\<lambda>a ((spec, to), fr). applyReference spec a (to, fr)) a xs = Inr a' \<and> okRefs a' \<and> refEntry a' = refEntry a ++ map_of xs"
  using assms
proof (induction xs arbitrary: a)
  case (Cons p xs)
  obtain spec to fr where p: "p = ((spec, to), fr)" by (cases p) auto
  obtain a1 where a1: "applyReference spec a (to, fr) = Inr a1" "okRefs a1" "refEntry a1 = (refEntry a)((spec, to) \<mapsto> fr)"
    by (rule applyReference_new [OF Cons.prems(1), of spec to fr]) (use Cons.prems(3) p in auto)
  have "\<forall>k \<in> set (map fst xs). refEntry a1 k = None" using Cons.prems(2,3) p a1(3) by (auto simp: rev_image_eqI)
  then obtain a2 where a2: "foldR (\<lambda>a ((spec, to), fr). applyReference spec a (to, fr)) a1 xs = Inr a2" "okRefs a2" "refEntry a2 = refEntry a1 ++ map_of xs"
    using Cons.IH [OF a1(2)] Cons.prems(2) by auto
  have "map_of xs (spec, to) = None" using Cons.prems(2) p by (simp add: map_of_eq_None_iff)
  then have "refEntry a2 = refEntry a ++ map_of (p # xs)" using a2(3) a1(3) p by (auto simp: fun_eq_iff map_add_def split: option.splits)
  moreover have "foldR (\<lambda>a ((spec, to), fr). applyReference spec a (to, fr)) a (p # xs) = Inr a2" using a1(1) a2(1) p by simp
  ultimately show ?case using a2(2) by blast
qed simp

lemma ForReferenceUpdates_copy:
  assumes "okRefs refs"
  obtains c where "applyReferenceModifications [] refs = Inr c" "okRefs c" "refEntry c = refEntry refs"
proof -
  note k = flatRefs_keys [OF assms [unfolded okRefs_def, THEN conjunct1] assms [unfolded okRefs_def, THEN conjunct2]]
  have e: "refEntry refs = map_of (flatRefs refs)" using k(2) by (auto simp: refEntry_def fun_eq_iff)
  have "okRefs []" "refEntry [] = Map.empty" by (auto simp: okRefs_def refEntry_def)
  then obtain c where "applyReferenceModifications [] refs = Inr c" "okRefs c" "refEntry c = refEntry refs"
    using copy_loop [of "[]" "flatRefs refs"] k(1) e unfolding applyReferenceModifications_flat by auto
  then show thesis by (rule that)
qed

text \<open>
  Claim C10. A commit refines the pointwise update of one database: every row that the update names has its new model or is
  gone, every other row stays, the references are those of the update where it names them and the old ones elsewhere, and the rows
  and references of the other databases are the same.
\<close>

theorem Commit_refines:
  assumes "Commit database update db = (db', None)" and "map_of (imDatabases db) database = Some t" and "map_of (imReferences db) database = Some rs"
    and "wfUpdates (duUpdates update)" and "wfRefs rs" and "okRefs (duReferences update)"
  shows "\<exists>t' rs'. map_of (imDatabases db') = (map_of (imDatabases db))(database \<mapsto> t') \<and> map_of (imReferences db') = (map_of (imReferences db))(database \<mapsto> rs')
    \<and> (\<forall>table uuid. contents t' (table, uuid) = (case map_of (tableUpdates (duUpdates update) table) uuid of None \<Rightarrow> contents t (table, uuid) | Some mu \<Rightarrow> muNew mu))
    \<and> wfRefs rs' \<and> (\<forall>spec to. referencing rs' spec to = (case refEntry (duReferences update) (spec, to) of None \<Rightarrow> referencing rs spec to | Some fr \<Rightarrow> fr))"
proof -
  obtain c where c: "applyReferenceModifications [] (duReferences update) = Inr c" "okRefs c" "refEntry c = refEntry (duReferences update)"
    by (rule ForReferenceUpdates_copy [OF assms(6)])
  obtain t' e where t': "ApplyCacheUpdate (duUpdates update) t = (t', e)" by fastforce
  with assms(1-3) c(1) have e: "e = None"
      "db' = db\<lparr>imDatabases := AList.update database t' (imDatabases db), imReferences := AList.update database (UpdateReferences c rs) (imReferences db)\<rparr>"
    by (auto simp: Commit_def toS_def ForReferenceUpdates_def Let_def split: option.splits)
  note k = flatRefs_keys [OF c(2) [unfolded okRefs_def, THEN conjunct1] c(2) [unfolded okRefs_def, THEN conjunct2]]
  have ref: "referencing (UpdateReferences c rs) spec to = (case refEntry (duReferences update) (spec, to) of None \<Rightarrow> referencing rs spec to | Some fr \<Rightarrow> fr)" for spec to
    using refs.look_batch [OF assms(5) k(1), of "(spec, to)"]
    unfolding UpdateReferences_flat [symmetric] k(2) c(3) [symmetric] by (auto simp: refEntry_def split: option.splits)
  have "wfRefs (UpdateReferences c rs)" using refs.batch_ok [OF assms(5), of "flatRefs c"] unfolding UpdateReferences_flat [symmetric] .
  then show ?thesis
    using ApplyCacheUpdate_ok(1) [OF t' [unfolded e(1)] assms(4)] ref
    by (intro exI [of _ t'] exI [of _ "UpdateReferences c rs"]) (simp add: e(2))
qed

definition exDatabase :: inMemoryDatabase where
  "exDatabase = \<lparr>imDatabases = [(''db'', exTC)], imModels = [(''db'', exClient)], imReferences = [(''db'', [])]\<rparr>"

definition exCommit :: DatabaseUpdate where
  "exCommit = \<lparr>duUpdates = exDelete, duReferences = []\<rparr>"

theorem Commit_refines_witness:
  "\<exists>t'. map_of (imDatabases (fst (Commit ''db'' exCommit exDatabase))) ''db'' = Some t' \<and> contents exTC (''Bridge'', ''u'') \<noteq> None \<and> contents t' (''Bridge'', ''u'') = None"
proof -
  have ok: "Commit ''db'' exCommit exDatabase = (fst (Commit ''db'' exCommit exDatabase), None)"
    using ApplyCacheUpdate_ex(1)
    by (auto simp: Commit_def exCommit_def exDatabase_def toS_def ForReferenceUpdates_def applyReferenceModifications_def Let_def split: prod.split)
  have "\<exists>t' rs'. map_of (imDatabases (fst (Commit ''db'' exCommit exDatabase))) = (map_of (imDatabases exDatabase))(''db'' \<mapsto> t')
      \<and> map_of (imReferences (fst (Commit ''db'' exCommit exDatabase))) = (map_of (imReferences exDatabase))(''db'' \<mapsto> rs')
    \<and> (\<forall>table uuid. contents t' (table, uuid) = (case map_of (tableUpdates (duUpdates exCommit) table) uuid of None \<Rightarrow> contents exTC (table, uuid) | Some mu \<Rightarrow> muNew mu))
    \<and> wfRefs rs' \<and> (\<forall>spec to. referencing rs' spec to = (case refEntry (duReferences exCommit) (spec, to) of None \<Rightarrow> referencing [] spec to | Some fr \<Rightarrow> fr))"
    by (rule Commit_refines [OF ok]) (use ApplyCacheUpdate_ex(2) in \<open>simp_all add: exDatabase_def exCommit_def wfRefs_def okRefs_def\<close>)
  then obtain t' where "map_of (imDatabases (fst (Commit ''db'' exCommit exDatabase))) ''db'' = Some t'"
      "contents t' (''Bridge'', ''u'') = (case map_of (tableUpdates exDelete ''Bridge'') ''u'' of None \<Rightarrow> contents exTC (''Bridge'', ''u'') | Some mu \<Rightarrow> muNew mu)"
    by (auto simp: exCommit_def)
  then show ?thesis by (simp add: exDelete_def tableUpdates_def contents_def exTC_def exCache_def)
qed

end
