(* ===== verification/NamedUuid.thy ===== *)
theory NamedUuid
  imports Schema
begin

text \<open>
  UUIDs and named UUIDs (\<open>ovsdb/uuid.go\<close>, \<open>ovsdb/named_uuid.go\<close>): the format of a UUID, and the expansion of the names
  that the insert operations of a transaction give their rows. The expansion changes the operations in place and
  returns them; an error drops them. An operation value is the value that \<open>any\<close> holds, in the wire or in the native notation.
\<close>

section \<open>The format of a UUID\<close>

definition hexLower :: "char \<Rightarrow> bool" where
  "hexLower c = (c \<in> set ''0123456789abcdef'')"

text \<open>The regular expression \<open>validUUID\<close>: groups of 8, 4, 4, 4 and 12 lower case hexadecimal digits, separated by dashes.\<close>

fun hexGroups :: "nat list \<Rightarrow> string \<Rightarrow> bool" where
  "hexGroups [] s = (s = [])"
| "hexGroups [n] s = (length s = n \<and> list_all hexLower s)"
| "hexGroups (n # m # ns) s =
     (list_all hexLower (take n s) \<and> length (take n s) = n \<and> (case drop n s of [] \<Rightarrow> False | c # s' \<Rightarrow> c = CHR ''-'' \<and> hexGroups (m # ns) s'))"

definition validUUID :: "string \<Rightarrow> bool" where
  "validUUID s = hexGroups [8, 4, 4, 4, 12] s"

definition ValidateUUID :: "string \<Rightarrow> unit result" where
  "ValidateUUID uuid =
     (if length uuid \<noteq> 36 then Inl (Errorf ''uuid exceeds 36 characters'')
      else if \<not> validUUID uuid then Inl (Errorf ''uuid does not match regexp'')
      else Inr ())"

definition IsNamedUUID :: "string \<Rightarrow> bool" where
  "IsNamedUUID uuid = (length uuid > 0 \<and> \<not> validUUID uuid)"

definition IsValidUUID :: "string \<Rightarrow> bool" where
  "IsValidUUID uuid = isOk (ValidateUUID uuid)"

section \<open>Expansion of a value\<close>

type_synonym uuidMap = "(string, string) gomap"

definition expandNamedUUIDAtomic :: "ExtendedType \<Rightarrow> atom \<Rightarrow> uuidMap \<Rightarrow> atom option" where
  "expandNamedUUIDAtomic ty value namedUUIDs =
     (if ty = TypeUUID
      then (case value of
              AUUID u \<Rightarrow> map_option AUUID (map_of namedUUIDs u)
            | AStr u \<Rightarrow> map_option AStr (map_of namedUUIDs u)
            | _ \<Rightarrow> None)
      else None)"

definition expandElem :: "ExtendedType \<Rightarrow> uuidMap \<Rightarrow> atom \<Rightarrow> atom" where
  "expandElem t names x = (case expandNamedUUIDAtomic t x names of None \<Rightarrow> x | Some y \<Rightarrow> y)"

text \<open>
  One entry of a map with UUIDs as values. The loop of the code goes over the map while it adds and removes entries; the model
  goes over the keys that the map had at the start, an order that the language allows.
\<close>

definition expandEntry :: "ExtendedType \<Rightarrow> uuidMap \<Rightarrow> atom \<Rightarrow> (atom, atom) gomap \<Rightarrow> (atom, atom) gomap" where
  "expandEntry kt names k m =
     (case map_of m k of
        None \<Rightarrow> m
      | Some v \<Rightarrow>
          (let (m, k) = (case expandNamedUUIDAtomic kt k names of
                           None \<Rightarrow> (m, k)
                         | Some k' \<Rightarrow> (AList.delete k (AList.update k' v m), k'))
           in case expandNamedUUIDAtomic TypeUUID v names of None \<Rightarrow> m | Some v' \<Rightarrow> AList.update k v' m))"

definition expandTypes :: "ColumnSchema \<Rightarrow> (ExtendedType \<times> ExtendedType) result" where
  "expandTypes column =
     (case cType column of
        TypeUUID \<Rightarrow> Inr (TypeUUID, TypeOther [])
      | TypeSet \<Rightarrow> bindR (keyType column) (\<lambda>k. Inr (k, TypeOther []))
      | TypeMap \<Rightarrow> bindR (keyType column) (\<lambda>k. bindR (valueType column) (\<lambda>v. Inr (k, v)))
      | _ \<Rightarrow> Inr (TypeOther [], TypeOther []))"

definition expandNamedUUID :: "ColumnSchema \<Rightarrow> any \<Rightarrow> uuidMap \<Rightarrow> any result" where
  "expandNamedUUID column value namedUUIDs =
     bindR (expandTypes column) (\<lambda>(kt, vt).
       if vt = TypeUUID
       then (case value of
               VOvsMap (Some m) \<Rightarrow> Inr (VOvsMap (Some (fold (expandEntry kt namedUUIDs) (keys m) m)))
             | _ \<Rightarrow> Inr value)
       else if kt = TypeUUID
       then (case value of
               VOvsSet (Some s) \<Rightarrow> Inr (VOvsSet (Some (map (expandElem kt namedUUIDs) s)))
             | VSlice GString (Some s) \<Rightarrow> Inr (VSlice GString (Some (map (expandElem kt namedUUIDs) s)))
             | VSlice GUUID (Some s) \<Rightarrow> Inr (VSlice GUUID (Some (map (expandElem kt namedUUIDs) s)))
             | VAtom a \<Rightarrow> Inr (VAtom (expandElem kt namedUUIDs a))
             | _ \<Rightarrow> Inr value)
       else Inr value)"

definition expandColumnNamedUUIDs :: "TableSchema \<Rightarrow> string \<Rightarrow> any \<Rightarrow> uuidMap \<Rightarrow> any result" where
  "expandColumnNamedUUIDs tableSchema columnName value uuidMap =
     (case Column tableSchema columnName of
        None \<Rightarrow> Inl (Errorf ''column not found in table'')
      | Some column \<Rightarrow> expandNamedUUID column value uuidMap)"

section \<open>Expansion of the operations\<close>

text \<open>Pass 1.\<close>

definition nameOperation :: "uuidMap \<Rightarrow> Operation \<Rightarrow> (uuidMap \<times> Operation) result" where
  "nameOperation uuidMap op =
     (if Op op \<noteq> OperationInsert then Inr (uuidMap, op)
      else case ValidateUUID (opUUID op) of
        Inl _ \<Rightarrow> Inl (Errorf ''operation UUID invalid'')
      | Inr _ \<Rightarrow>
          if UUIDName op \<noteq> []
          then (case map_of uuidMap (UUIDName op) of
                  Some uuid \<Rightarrow>
                    if opUUID op \<noteq> [] \<and> opUUID op \<noteq> uuid then Inl (Errorf ''named UUID maps to UUID but found existing UUID'')
                    else Inr (uuidMap, op\<lparr>opUUID := uuid, UUIDName := []\<rparr>)
                | None \<Rightarrow> Inr (AList.update (UUIDName op) (opUUID op) uuidMap, op\<lparr>UUIDName := []\<rparr>))
          else Inr (uuidMap, op))"

definition nameOperations :: "Operation list \<Rightarrow> (uuidMap \<times> Operation list) result" where
  "nameOperations ops =
     foldR (\<lambda>(uuidMap, done) op. bindR (nameOperation uuidMap op) (\<lambda>(uuidMap, op'). Inr (uuidMap, done @ [op']))) ([], []) ops"

text \<open>Pass 2.\<close>

definition expandRow :: "TableSchema \<Rightarrow> uuidMap \<Rightarrow> Row \<Rightarrow> Row result" where
  "expandRow t uuidMap row = mapR (\<lambda>(k, v). bindR (expandColumnNamedUUIDs t k v uuidMap) (\<lambda>v'. Inr (k, v'))) row"

definition expandOperation :: "DatabaseSchema \<Rightarrow> uuidMap \<Rightarrow> Operation \<Rightarrow> Operation result" where
  "expandOperation schema uuidMap op =
     (case Table schema (opTable op) of
        None \<Rightarrow> Inl (Errorf ''table not found in schema'')
      | Some tableSchema \<Rightarrow>
          bindR (mapR (\<lambda>c. bindR (expandColumnNamedUUIDs tableSchema (cColumn c) (cValue c) uuidMap) (\<lambda>v. Inr (c\<lparr>cValue := v\<rparr>))) (Where op)) (\<lambda>where'.
          bindR (mapR (\<lambda>m. bindR (expandColumnNamedUUIDs tableSchema (mColumn m) (mValue m) uuidMap) (\<lambda>v. Inr (m\<lparr>mValue := v\<rparr>))) (Mutations op)) (\<lambda>mutations'.
          bindR (mapR (expandRow tableSchema uuidMap) (opRows op)) (\<lambda>rows'.
          bindR (expandRow tableSchema uuidMap (opRow op)) (\<lambda>row'.
            Inr (op\<lparr>Where := where', Mutations := mutations', opRows := rows', opRow := row'\<rparr>))))))"

definition ExpandNamedUUIDs :: "Operation list \<Rightarrow> DatabaseSchema \<Rightarrow> Operation list result" where
  "ExpandNamedUUIDs ops schema =
     bindR (nameOperations ops) (\<lambda>(uuidMap, ops). mapR (expandOperation schema uuidMap) ops)"

section \<open>Properties\<close>

lemma hexGroups_length: "hexGroups ns s \<Longrightarrow> length s = sum_list ns + (length ns - 1)"
proof (induction ns s rule: hexGroups.induct)
  case (3 n m ns s)
  obtain s' where s': "drop n s = CHR ''-'' # s'" "hexGroups (m # ns) s'" "min (length s) n = n" using 3(2) by (cases "drop n s") simp_all
  have "length (drop n s) = Suc (length s')" using s'(1) by simp
  then have "length s = n + Suc (length s')" using s'(3) by (simp add: min_def split: if_splits)
  then show ?case using 3(1) [OF s'(1)] s'(2) by simp
qed auto

lemma validUUID_length: "validUUID u \<Longrightarrow> length u = 36"
  unfolding validUUID_def by (drule hexGroups_length) simp

lemma IsValidUUID_iff: "IsValidUUID u \<longleftrightarrow> validUUID u"
  by (auto simp: IsValidUUID_def ValidateUUID_def isOk_iff dest: validUUID_length)

lemma ValidateUUID_iff: "ValidateUUID u = Inr x \<longleftrightarrow> IsValidUUID u"
  by (cases "ValidateUUID u") (auto simp: IsValidUUID_def isOk_iff)

text \<open>A name and a UUID exclude each other: the second check of \<open>ValidateUUID\<close> makes the first one redundant.\<close>

lemma IsNamedUUID_iff: "u \<noteq> [] \<Longrightarrow> IsNamedUUID u \<longleftrightarrow> \<not> IsValidUUID u"
  by (simp add: IsNamedUUID_def IsValidUUID_iff)

definition named :: "Operation \<Rightarrow> bool" where
  "named op = (Op op = OperationInsert \<and> UUIDName op \<noteq> [])"

definition pass1 :: "Operation \<Rightarrow> Operation \<Rightarrow> bool" where
  "pass1 op op' = (if Op op = OperationInsert then IsValidUUID (opUUID op) \<and> op' = op\<lparr>UUIDName := []\<rparr> else op' = op)"

lemma nameOperation_spec:
  assumes "nameOperation m op = Inr (m', op')"
  shows "pass1 op op'" "map_of m \<subseteq>\<^sub>m map_of m'" "named op \<Longrightarrow> map_of m' (UUIDName op) = Some (opUUID op)"
    "map_of m' n \<noteq> None \<Longrightarrow> map_of m n \<noteq> None \<or> (named op \<and> UUIDName op = n)"
proof -
  have "pass1 op op' \<and> map_of m \<subseteq>\<^sub>m map_of m' \<and> (named op \<longrightarrow> map_of m' (UUIDName op) = Some (opUUID op))
      \<and> (map_of m' n \<noteq> None \<longrightarrow> map_of m n \<noteq> None \<or> (named op \<and> UUIDName op = n))"
    using assms
    by (auto simp: nameOperation_def pass1_def named_def ValidateUUID_iff map_le_def dom_def split: if_splits sum.splits option.splits)
      (auto simp: ValidateUUID_def IsValidUUID_def)
  then show "pass1 op op'" "map_of m \<subseteq>\<^sub>m map_of m'" "named op \<Longrightarrow> map_of m' (UUIDName op) = Some (opUUID op)"
    "map_of m' n \<noteq> None \<Longrightarrow> map_of m n \<noteq> None \<or> (named op \<and> UUIDName op = n)" by blast+
qed

lemma nameOperations_loop:
  assumes "foldR (\<lambda>(uuidMap, done) op. bindR (nameOperation uuidMap op) (\<lambda>(uuidMap, op'). Inr (uuidMap, done @ [op']))) (m, done0) ops = Inr (m', ops')"
  shows "\<exists>ops1. ops' = done0 @ ops1 \<and> list_all2 pass1 ops ops1 \<and> map_of m \<subseteq>\<^sub>m map_of m'
    \<and> (\<forall>op \<in> set ops. named op \<longrightarrow> map_of m' (UUIDName op) = Some (opUUID op))
    \<and> (\<forall>n. map_of m' n \<noteq> None \<longrightarrow> map_of m n \<noteq> None \<or> (\<exists>op \<in> set ops. named op \<and> UUIDName op = n))"
  using assms
proof (induction ops arbitrary: m done0)
  case (Cons op ops)
  obtain m1 op1 where 1: "nameOperation m op = Inr (m1, op1)"
      "foldR (\<lambda>(uuidMap, done) op. bindR (nameOperation uuidMap op) (\<lambda>(uuidMap, op'). Inr (uuidMap, done @ [op']))) (m1, done0 @ [op1]) ops = Inr (m', ops')"
    using Cons.prems by (auto simp: resR)
  obtain ops1 where 2: "ops' = (done0 @ [op1]) @ ops1" "list_all2 pass1 ops ops1" "map_of m1 \<subseteq>\<^sub>m map_of m'"
      "\<forall>op \<in> set ops. named op \<longrightarrow> map_of m' (UUIDName op) = Some (opUUID op)"
      "\<forall>n. map_of m' n \<noteq> None \<longrightarrow> map_of m1 n \<noteq> None \<or> (\<exists>op \<in> set ops. named op \<and> UUIDName op = n)"
    using Cons.IH [OF 1(2)] by blast
  note s = nameOperation_spec [OF 1(1)]
  have "map_of m' (UUIDName op) = Some (opUUID op)" if "named op" using s(3) [OF that] 2(3) by (metis domI map_le_def)
  moreover have "map_of m \<subseteq>\<^sub>m map_of m'" using s(2) 2(3) by (rule map_le_trans)
  ultimately show ?case using 2 s(1,4) by (intro exI [of _ "op1 # ops1"]) auto
qed auto

lemma nameOperations_spec:
  assumes "nameOperations ops = Inr (m, ops')"
  shows "list_all2 pass1 ops ops'" "\<And>op. op \<in> set ops \<Longrightarrow> named op \<Longrightarrow> map_of m (UUIDName op) = Some (opUUID op)"
    "\<And>n u. map_of m n = Some u \<Longrightarrow> \<exists>op \<in> set ops. named op \<and> UUIDName op = n \<and> opUUID op = u"
proof -
  obtain l: "list_all2 pass1 ops ops'" "\<forall>op \<in> set ops. named op \<longrightarrow> map_of m (UUIDName op) = Some (opUUID op)"
      "\<forall>n. map_of m n \<noteq> None \<longrightarrow> (\<exists>op \<in> set ops. named op \<and> UUIDName op = n)"
    using nameOperations_loop [OF assms [unfolded nameOperations_def]] by auto
  then show "list_all2 pass1 ops ops'" "\<And>op. op \<in> set ops \<Longrightarrow> named op \<Longrightarrow> map_of m (UUIDName op) = Some (opUUID op)" by blast+
  show "\<exists>op \<in> set ops. named op \<and> UUIDName op = n \<and> opUUID op = u" if "map_of m n = Some u" for n u using l that by (metis option.distinct(1) option.inject)
qed

lemma expandOperation_keeps:
  assumes "expandOperation schema m op = Inr op'"
  shows "Op op' = Op op" "opTable op' = opTable op" "opUUID op' = opUUID op" "UUIDName op' = UUIDName op" "Table schema (opTable op') \<noteq> None"
  using assms by (auto simp: expandOperation_def resR split: option.splits)

text \<open>
  Claim C39. After the expansion every operation is on a table of the schema, every insert has a valid UUID, the one it had
  before, and no name any more, and two inserts under one name have one UUID.
\<close>

theorem ExpandNamedUUIDs_inserts:
  assumes "ExpandNamedUUIDs ops schema = Inr ops'"
  shows "list_all2 (\<lambda>op op'. Op op' = Op op \<and> opTable op' = opTable op \<and> opUUID op' = opUUID op \<and> Table schema (opTable op') \<noteq> None
      \<and> (Op op = OperationInsert \<longrightarrow> IsValidUUID (opUUID op') \<and> UUIDName op' = [])) ops ops'
    \<and> (\<forall>op \<in> set ops. \<forall>op2 \<in> set ops. named op \<and> named op2 \<and> UUIDName op = UUIDName op2 \<longrightarrow> opUUID op = opUUID op2)"
proof -
  obtain m ops1 where 1: "nameOperations ops = Inr (m, ops1)" "mapR (expandOperation schema m) ops1 = Inr ops'"
    using assms by (auto simp: ExpandNamedUUIDs_def resR)
  note s = nameOperations_spec [OF 1(1)]
  have "list_all2 (\<lambda>op op'. Op op' = Op op \<and> opTable op' = opTable op \<and> opUUID op' = opUUID op \<and> UUIDName op' = UUIDName op \<and> Table schema (opTable op') \<noteq> None) ops1 ops'"
    using 1(2) unfolding mapR_eq_Inr by (rule list_all2_mono) (intro conjI; erule expandOperation_keeps)
  with s(1) have "list_all2 (\<lambda>op op'. Op op' = Op op \<and> opTable op' = opTable op \<and> opUUID op' = opUUID op \<and> Table schema (opTable op') \<noteq> None
      \<and> (Op op = OperationInsert \<longrightarrow> IsValidUUID (opUUID op') \<and> UUIDName op' = [])) ops ops'"
    by (rule list_all2_trans [rotated]) (auto simp: pass1_def split: if_splits)
  moreover have "opUUID op = opUUID op2" if "op \<in> set ops" "op2 \<in> set ops" "named op" "named op2" "UUIDName op = UUIDName op2" for op op2
    using s(2) [OF that(1,3)] s(2) [OF that(2,4)] that(5) by simp
  ultimately show ?thesis by blast
qed


text \<open>No atom of the value is a name that the expansion of the column would replace.\<close>

definition unnamedAtom :: "uuidMap \<Rightarrow> ExtendedType \<Rightarrow> atom \<Rightarrow> bool" where
  "unnamedAtom names t a = (expandNamedUUIDAtomic t a names = None)"

definition unnamed :: "uuidMap \<Rightarrow> ExtendedType \<Rightarrow> ExtendedType \<Rightarrow> any \<Rightarrow> bool" where
  "unnamed names kt vt v =
     (case v of
        VAtom a \<Rightarrow> vt = TypeUUID \<or> unnamedAtom names kt a
      | VSlice t (Some s) \<Rightarrow> vt = TypeUUID \<or> t \<notin> {GString, GUUID} \<or> list_all (unnamedAtom names kt) s
      | VOvsSet (Some s) \<Rightarrow> vt = TypeUUID \<or> list_all (unnamedAtom names kt) s
      | VOvsMap (Some m) \<Rightarrow> vt \<noteq> TypeUUID \<or> (\<forall>k v. map_of m k = Some v \<longrightarrow> unnamedAtom names kt k \<and> unnamedAtom names TypeUUID v)
      | _ \<Rightarrow> True)"

definition freshNames :: "uuidMap \<Rightarrow> bool" where
  "freshNames names = (\<forall>n u. map_of names n = Some u \<longrightarrow> map_of names u = None)"

lemma expandNamedUUIDAtomic_unnamed: "freshNames names \<Longrightarrow> expandNamedUUIDAtomic t a names = Some b \<Longrightarrow> unnamedAtom names t b"
  by (auto simp: expandNamedUUIDAtomic_def unnamedAtom_def freshNames_def split: if_splits atom.splits)

lemma expandElem_unnamed: "freshNames names \<Longrightarrow> unnamedAtom names t (expandElem t names a)"
  by (auto simp: expandElem_def unnamedAtom_def expandNamedUUIDAtomic_unnamed [unfolded unnamedAtom_def] split: option.splits)

lemma expandElem_id: "unnamedAtom names t a \<Longrightarrow> expandElem t names a = a"
  by (simp add: expandElem_def unnamedAtom_def)

definition doneEntries :: "uuidMap \<Rightarrow> ExtendedType \<Rightarrow> atom set \<Rightarrow> (atom, atom) gomap \<Rightarrow> bool" where
  "doneEntries names kt K m = (\<forall>k v. map_of m k = Some v \<longrightarrow> k \<in> K \<or> unnamedAtom names kt k \<and> unnamedAtom names TypeUUID v)"

lemma expandEntry_done:
  assumes "freshNames names" "doneEntries names kt (insert k K) m"
  shows "doneEntries names kt K (expandEntry kt names k m)"
proof (cases "map_of m k")
  case None
  then have "expandEntry kt names k m = m" "\<And>x y. map_of m x = Some y \<Longrightarrow> x \<noteq> k" by (auto simp: expandEntry_def)
  then show ?thesis using assms(2) unfolding doneEntries_def by (metis insertE)
next
  case (Some v)
  define k' where "k' = (case expandNamedUUIDAtomic kt k names of None \<Rightarrow> k | Some k' \<Rightarrow> k')"
  define v' where "v' = (case expandNamedUUIDAtomic TypeUUID v names of None \<Rightarrow> v | Some v' \<Rightarrow> v')"
  have u: "unnamedAtom names kt k'" "unnamedAtom names TypeUUID v'"
    using expandElem_unnamed [OF assms(1)] by (auto simp: k'_def v'_def expandElem_def)
  have "map_of (expandEntry kt names k m) x = Some y \<Longrightarrow> (x = k' \<and> y = v') \<or> (x \<noteq> k \<and> map_of m x = Some y) \<or> (x = k' \<and> x = k)" for x y
    using Some by (auto simp: expandEntry_def k'_def v'_def Let_def split: option.splits if_splits)
  moreover have "map_of (expandEntry kt names k m) k = Some y \<Longrightarrow> k' = k \<Longrightarrow> y = v'" for y
    using Some by (auto simp: expandEntry_def k'_def v'_def Let_def split: option.splits if_splits)
  ultimately have "map_of (expandEntry kt names k m) x = Some y \<Longrightarrow> (x = k' \<and> y = v') \<or> (x \<noteq> k \<and> map_of m x = Some y)" for x y by blast
  then show ?thesis using assms(2) u unfolding doneEntries_def by blast
qed

lemma expandEntries_done:
  "freshNames names \<Longrightarrow> doneEntries names kt (set ks \<union> K) m \<Longrightarrow> doneEntries names kt K (fold (expandEntry kt names) ks m)"
  by (induction ks arbitrary: m) (auto intro: expandEntry_done)

lemma expandEntries_id:
  assumes "doneEntries names kt {} m"
  shows "fold (expandEntry kt names) ks m = m"
  using assms
  by (induction ks) (auto simp: expandEntry_def doneEntries_def unnamedAtom_def split: option.splits)

text \<open>
  The expansion of a value leaves no name in it and is idempotent, provided no name is used as the UUID of another: the result
  has no atom left that the type of its column makes a reference and whose name stands for a row, and expanding again changes nothing.
\<close>

theorem expandNamedUUID_idempotent:
  assumes "freshNames names" and "expandTypes column = Inr (kt, vt)"
  shows "\<exists>v'. expandNamedUUID column v names = Inr v' \<and> unnamed names kt vt v' \<and> expandNamedUUID column v' names = Inr v'"
proof -
  have l: "list_all (unnamedAtom names t) (map (expandElem t names) s)" for s t using expandElem_unnamed [OF assms(1)] by (simp add: list_all_iff)
  have i: "map (expandElem t names) (map (expandElem t names) s) = map (expandElem t names) s" for s t
    using expandElem_id [OF expandElem_unnamed [OF assms(1)]] by simp
  have n: "unnamedAtom names kt a" if "kt \<noteq> TypeUUID" for a using that by (simp add: unnamedAtom_def expandNamedUUIDAtomic_def)
  have d: "doneEntries names kt {} (fold (expandEntry kt names) (keys m) m)" for m
    by (rule expandEntries_done [OF assms(1)]) (auto simp: doneEntries_def)
  show ?thesis
  proof (cases v)
    case (VAtom a)
    then show ?thesis using assms n expandElem_unnamed [OF assms(1)] expandElem_id [OF expandElem_unnamed [OF assms(1)]]
      by (simp add: expandNamedUUID_def unnamed_def)
  next
    case (VSlice t s)
    then show ?thesis using assms n l i by (cases s; cases t) (simp_all add: expandNamedUUID_def unnamed_def list_all_iff)
  next
    case (VOvsSet s)
    then show ?thesis using assms n l i by (cases s) (simp_all add: expandNamedUUID_def unnamed_def list_all_iff)
  next
    case (VOvsMap s)
    then show ?thesis using assms d expandEntries_id [OF d]
      by (cases s) (simp_all add: expandNamedUUID_def unnamed_def doneEntries_def)
  qed (use assms in \<open>simp_all add: expandNamedUUID_def unnamed_def\<close>)
qed


definition exUuid :: string where "exUuid = ''2f77b348-9768-4866-b761-89d5177ecda0''"

definition uuidBase :: BaseType where
  "uuidBase = \<lparr>bType = TypeUUID, bEnum = None, minReal = None, maxReal = None, minInteger = None, maxInteger = None,
     minLength = None, maxLength = None, refTableP = None, refTypeP = None\<rparr>"

definition uuidKeyMap :: "BaseType \<Rightarrow> ColumnSchema" where
  "uuidKeyMap b = \<lparr>cType = TypeMap, TypeObj = Some \<lparr>Key = Some uuidBase, Value = Some b, minP = Some 0, maxP = Some (-1)\<rparr>, ephemeral = None, mutable = None\<rparr>"

definition uuidSetColumn :: ColumnSchema where
  "uuidSetColumn = \<lparr>cType = TypeSet, TypeObj = Some \<lparr>Key = Some uuidBase, Value = None, minP = Some 0, maxP = Some (-1)\<rparr>, ephemeral = None, mutable = None\<rparr>"

definition linkSchema :: DatabaseSchema where
  "linkSchema = \<lparr>Name = ''db'', Version = [], Tables = [(''T'', \<lparr>Columns = [(''links'', uuidSetColumn)], Indexes = [], IsRootF = True\<rparr>)], allTablesRoot = None\<rparr>"

definition linkOps :: "Operation list" where
  "linkOps = [emptyOp\<lparr>Op := OperationInsert, opTable := ''T'', opUUID := exUuid, UUIDName := ''row1''\<rparr>,
     emptyOp\<lparr>Op := OperationUpdate, opTable := ''T'', opRow := [(''links'', VOvsSet (Some [AUUID ''row1'', AUUID ''other'']))]\<rparr>]"

lemma linkOps_expanded: "ExpandNamedUUIDs linkOps linkSchema = Inr [emptyOp\<lparr>Op := OperationInsert, opTable := ''T'', opUUID := exUuid\<rparr>,
     emptyOp\<lparr>Op := OperationUpdate, opTable := ''T'', opRow := [(''links'', VOvsSet (Some [AUUID exUuid, AUUID ''other'']))]\<rparr>]"
  by code_simp

theorem ExpandNamedUUIDs_inserts_witness:
  "\<exists>ops'. ExpandNamedUUIDs linkOps linkSchema = Inr ops' \<and> IsValidUUID (opUUID (ops' ! 0)) \<and> UUIDName (ops' ! 0) = []"
  using ExpandNamedUUIDs_inserts [OF linkOps_expanded] linkOps_expanded by (simp add: linkOps_def)

theorem expandNamedUUID_idempotent_witness:
  "\<exists>v'. expandNamedUUID (uuidKeyMap uuidBase) (VOvsMap (Some [(AUUID ''row1'', AUUID ''row1'')])) [(''row1'', exUuid)] = Inr v'
    \<and> unnamed [(''row1'', exUuid)] TypeUUID TypeUUID v' \<and> expandNamedUUID (uuidKeyMap uuidBase) v' [(''row1'', exUuid)] = Inr v'"
  by (rule expandNamedUUID_idempotent) (simp_all add: freshNames_def exUuid_def expandTypes_def uuidKeyMap_def keyType_def valueType_def typeObj_def uuidBase_def)

text \<open>
  A name used as the key of a map whose values are no UUIDs is not expanded: the row that refers to it keeps the name.
\<close>

theorem map_key_name_not_expanded:
  "expandNamedUUID (uuidKeyMap (uuidBase\<lparr>bType := TypeString\<rparr>)) (VOvsMap (Some [(AUUID ''row1'', AStr ''x'')])) [(''row1'', exUuid)]
     = Inr (VOvsMap (Some [(AUUID ''row1'', AStr ''x'')]))"
  by code_simp

end
