(* ===== verification/OpErrors.thy ===== *)
theory OpErrors
  imports Schema
begin

text \<open>
  Operation errors (\<open>ovsdb/error.go\<close>): the error kinds of RFC 7047, their conversion to and from operation
  results, and the check of the results of a transaction. The lemmas show that an error survives the way through a
  result, and what \<open>CheckOperationResults\<close> makes of the results.
\<close>

datatype errorKind = EReferentialIntegrityViolation | EConstraintViolation | EResourcesExhausted | EIOError
  | EDuplicateUUIDName | EDomainError | ERangeError | ETimedOut | ENotSupported | EAborted | ENotOwner | EError string

record OperationError =
  oeKind :: errorKind
  oeDetails :: string
  oeOperation :: "Operation option"

text \<open>The names of the kinds, as they stand in a result.\<close>

definition errorName :: "errorKind \<Rightarrow> string" where
  "errorName k = (case k of
     EReferentialIntegrityViolation \<Rightarrow> ''referential integrity violation''
   | EConstraintViolation \<Rightarrow> ''constraint violation''
   | EResourcesExhausted \<Rightarrow> ''resources exhausted''
   | EIOError \<Rightarrow> ''I/O error''
   | EDuplicateUUIDName \<Rightarrow> ''duplicate uuid name''
   | EDomainError \<Rightarrow> ''domain error''
   | ERangeError \<Rightarrow> ''range error''
   | ETimedOut \<Rightarrow> ''timed out''
   | ENotSupported \<Rightarrow> ''not supported''
   | EAborted \<Rightarrow> ''aborted''
   | ENotOwner \<Rightarrow> ''not owner''
   | EError name \<Rightarrow> name)"

text \<open>The switch of \<open>errorFromResult\<close>, in its order.\<close>

definition kindFromName :: "string \<Rightarrow> errorKind" where
  "kindFromName s =
     (case find (\<lambda>k. errorName k = s) [EReferentialIntegrityViolation, EConstraintViolation, EResourcesExhausted, EIOError,
          EDuplicateUUIDName, EDomainError, ERangeError, ETimedOut, ENotSupported, EAborted, ENotOwner] of
        Some k \<Rightarrow> k | None \<Rightarrow> EError s)"

definition errorFromResult :: "Operation option \<Rightarrow> OperationResult \<Rightarrow> OperationError option" where
  "errorFromResult op r =
     (if rError r = [] then None
      else Some \<lparr>oeKind = kindFromName (rError r), oeDetails = rDetails r, oeOperation = op\<rparr>)"

definition errorMessage :: "OperationError \<Rightarrow> string" where
  "errorMessage e = (if oeDetails e \<noteq> [] then errorName (oeKind e) @ '': '' @ oeDetails e else errorName (oeKind e))"

text \<open>
  \<open>ResultFromError\<close>: an error of one of the kinds keeps its name and its details, the text of any other becomes the
  name. The texts of the model's other errors are the fixed parts of the messages.
\<close>

definition kindOfErr :: "err \<Rightarrow> (errorKind \<times> string) option" where
  "kindOfErr e = (case e of
     ReferentialIntegrityViolation d \<Rightarrow> Some (EReferentialIntegrityViolation, d)
   | ConstraintViolation d \<Rightarrow> Some (EConstraintViolation, d)
   | ResourcesExhausted d \<Rightarrow> Some (EResourcesExhausted, d)
   | IOError d \<Rightarrow> Some (EIOError, d)
   | DuplicateUUIDName d \<Rightarrow> Some (EDuplicateUUIDName, d)
   | DomainError d \<Rightarrow> Some (EDomainError, d)
   | RangeError d \<Rightarrow> Some (ERangeError, d)
   | TimedOut d \<Rightarrow> Some (ETimedOut, d)
   | NotSupported d \<Rightarrow> Some (ENotSupported, d)
   | Aborted d \<Rightarrow> Some (EAborted, d)
   | NotOwner d \<Rightarrow> Some (ENotOwner, d)
   | _ \<Rightarrow> None)"

definition errText :: "err \<Rightarrow> string" where
  "errText e = (case e of
     ErrWrongType _ \<Rightarrow> ''wrong type''
   | ErrColumnNotFound _ _ \<Rightarrow> ''column not found''
   | ErrCacheInconsistent _ _ \<Rightarrow> ''cache inconsistent''
   | ErrIndexExists _ _ _ _ _ \<Rightarrow> ''cannot insert: index exists''
   | ErrNotFound \<Rightarrow> ''object not found''
   | ErrNotConnected \<Rightarrow> ''not connected''
   | ErrAlreadyConnected \<Rightarrow> ''already connected''
   | Errorf s \<Rightarrow> s
   | _ \<Rightarrow> [])"

definition ResultFromError :: "err \<Rightarrow> OperationResult" where
  "ResultFromError e =
     (case kindOfErr e of
        Some (k, d) \<Rightarrow> emptyResult\<lparr>rError := errorName k, rDetails := d\<rparr>
      | None \<Rightarrow> emptyResult\<lparr>rError := errText e\<rparr>)"

text \<open>
  \<open>CheckOperationResults\<close>: the failed operations, and the error it returns. The error of an additional result is returned
  as it is, so a result without an error there is no error.
\<close>

datatype checkError = TooFewResults nat nat | CommitError OperationError | OperationsFailed nat

fun checkLoop :: "OperationResult list \<Rightarrow> Operation list \<Rightarrow> OperationError list \<Rightarrow> OperationError list \<times> checkError option" where
  "checkLoop [] ops errs = (if errs \<noteq> [] then (errs, Some (OperationsFailed (length errs))) else ([], None))"
| "checkLoop (r # rs) [] errs = (errs, map_option CommitError (errorFromResult None r))"
| "checkLoop (r # rs) (op # ops) errs =
     checkLoop rs ops (case errorFromResult (Some op) r of None \<Rightarrow> errs | Some e \<Rightarrow> errs @ [e])"

definition CheckOperationResults :: "OperationResult list \<Rightarrow> Operation list \<Rightarrow> OperationError list \<times> checkError option" where
  "CheckOperationResults result ops =
     (if length result < length ops then ([], Some (TooFewResults (length ops) (length result))) else checkLoop result ops [])"

section \<open>Properties\<close>

lemma kindFromName_errorName:
  assumes "\<forall>s. k \<noteq> EError s"
  shows "kindFromName (errorName k) = k" "errorName k \<noteq> []"
  using assms by (cases k; simp add: kindFromName_def errorName_def)+

text \<open>
  An operation error survives the way over the wire: the error that a client reads from the result a server made
  of an error has the same kind and the same details, for each of the eleven kinds of the protocol.
\<close>

theorem errorFromResult_roundtrip:
  assumes "kindOfErr e = Some (k, d)"
  shows "errorFromResult op (ResultFromError e) = Some \<lparr>oeKind = k, oeDetails = d, oeOperation = op\<rparr>"
proof -
  have "\<forall>s. k \<noteq> EError s" using assms by (auto simp: kindOfErr_def split: err.splits)
  from kindFromName_errorName [OF this] show ?thesis using assms by (simp add: errorFromResult_def ResultFromError_def emptyResult_def)
qed

theorem errorFromResult_roundtrip_witness:
  "errorFromResult None (ResultFromError (ConstraintViolation ''index'')) = Some \<lparr>oeKind = EConstraintViolation, oeDetails = ''index'', oeOperation = None\<rparr>"
  by (rule errorFromResult_roundtrip) (simp add: kindOfErr_def)

lemma checkLoop_errs:
  assumes "length rs = length ops"
  shows "checkLoop rs ops errs = (let es = errs @ concat (map (\<lambda>(op, r). case errorFromResult (Some op) r of None \<Rightarrow> [] | Some e \<Rightarrow> [e]) (zip ops rs))
    in if es \<noteq> [] then (es, Some (OperationsFailed (length es))) else ([], None))"
  using assms by (induction rs ops arbitrary: errs rule: list_induct2) (auto simp: Let_def split: option.splits)

lemma failed_operations:
  "map oeOperation (concat (map (\<lambda>(op, r). case errorFromResult (Some op) r of None \<Rightarrow> [] | Some e \<Rightarrow> [e]) ps)) =
   map (Some \<circ> fst) (filter (\<lambda>(op, r). rError r \<noteq> []) ps)"
  by (induction ps) (auto simp: errorFromResult_def)

text \<open>
  With one result per operation, the check reports no error if and only if every operation succeeded, and
  otherwise the reported errors are those of the failed operations in their order, each with its operation.
\<close>

theorem CheckOperationResults_exact:
  assumes "length result = length ops"
  shows "(snd (CheckOperationResults result ops) = None \<longleftrightarrow> list_all (\<lambda>r. rError r = []) result)
    \<and> map oeOperation (fst (CheckOperationResults result ops)) = map (Some \<circ> fst) (filter (\<lambda>(op, r). rError r \<noteq> []) (zip ops result))"
proof -
  define es where "es = concat (map (\<lambda>(op, r). case errorFromResult (Some op) r of None \<Rightarrow> [] | Some e \<Rightarrow> [e]) (zip ops result))"
  have c: "CheckOperationResults result ops = (if es \<noteq> [] then (es, Some (OperationsFailed (length es))) else ([], None))"
    using assms by (simp add: CheckOperationResults_def checkLoop_errs es_def Let_def)
  have "map oeOperation es = map (Some \<circ> fst) (filter (\<lambda>(op, r). rError r \<noteq> []) (zip ops result))"
    unfolding es_def by (rule failed_operations)
  moreover have "es = [] \<longleftrightarrow> list_all (\<lambda>r. rError r = []) result"
    using assms unfolding es_def by (induction result ops rule: list_induct2) (auto simp: errorFromResult_def)
  ultimately show ?thesis unfolding c by auto
qed

theorem CheckOperationResults_exact_witness:
  "snd (CheckOperationResults [emptyResult, ResultFromError (TimedOut [])] [emptyOp, emptyOp\<lparr>Op := OperationWait\<rparr>]) \<noteq> None
   \<and> map oeOperation (fst (CheckOperationResults [emptyResult, ResultFromError (TimedOut [])] [emptyOp, emptyOp\<lparr>Op := OperationWait\<rparr>])) = [Some (emptyOp\<lparr>Op := OperationWait\<rparr>)]"
  using CheckOperationResults_exact [of "[emptyResult, ResultFromError (TimedOut [])]" "[emptyOp, emptyOp\<lparr>Op := OperationWait\<rparr>]"]
  by (simp add: ResultFromError_def kindOfErr_def emptyResult_def errorName_def)

end
