(* ===== verification/Transaction.thy ===== *)
theory Transaction
  imports Database NamedUuid OpErrors
begin

text \<open>
  Transactions (\<open>database/transaction/transaction.go\<close>) over the in-memory database. A transaction has a cache of the
  rows it has read or changed and the rows it deleted. Its operations return a result, which may be an error, and the
  updates to merge; a panic is an \<open>Inl\<close>. The fresh UUIDs of inserts and the clock of the wait operation are
  parameters: \<open>newUUID i\<close> is the UUID for the operation at position \<open>i\<close>, and \<open>elapsed n\<close> the nanoseconds that have passed at
  the end of the \<open>n\<close>-th round of a wait. The server runs one transaction at a time, so the database does not change
  meanwhile; a wait that never ends is \<open>None\<close>.
\<close>

record Transaction =
  tCache :: "unit TableCache option"
  tDeletedRows :: "string list"
  tModel :: DatabaseModel
  tDbName :: string

type_synonym modelRows = "(string, Model option) gomap"
type_synonym opResult = "(OperationResult \<times> ModelUpdates option) result"

definition noModel :: DatabaseModel where
  "noModel = NewPartialDatabaseModel \<lparr>cdbName = [], cdbTypes = [], cdbIndexes = []\<rparr>"

definition NewTransaction :: "inMemoryDatabase \<Rightarrow> string \<Rightarrow> Transaction" where
  "NewTransaction db name =
     \<lparr>tCache = None, tDeletedRows = [],
      tModel = (case map_of (imDatabases db) name of None \<Rightarrow> noModel | Some database \<Rightarrow> tcDb database), tDbName = name\<rparr>"

text \<open>\<open>ovsdb.ResultFromError(err), nil\<close>; a panic is no error value.\<close>

definition resultOf :: "opResult \<Rightarrow> opResult" where
  "resultOf r = (case r of Inl (Panic s) \<Rightarrow> Inl (Panic s) | Inl e \<Rightarrow> Inr (ResultFromError e, None) | Inr x \<Rightarrow> Inr x)"

text \<open>\<open>fmt.Errorf\<close> around an error.\<close>

definition wrapError :: "string \<Rightarrow> err \<Rightarrow> err" where
  "wrapError s e = (case e of Panic p \<Rightarrow> Panic p | _ \<Rightarrow> Errorf s)"

section \<open>The rows of a transaction\<close>

definition initializeCache :: "Transaction \<Rightarrow> Transaction \<times> err option" where
  "initializeCache t =
     (case tCache t of
        Some _ \<Rightarrow> (t, None)
      | None \<Rightarrow> (case NewTableCache (tModel t) [] of
          Inl e \<Rightarrow> (t, Some e)
        | Inr c \<Rightarrow> (t\<lparr>tCache := Some c\<rparr>, None)))"

definition txnTable :: "Transaction \<Rightarrow> string \<Rightarrow> RowCache result" where
  "txnTable t table =
     (case tCache t of
        None \<Rightarrow> Inl (Panic ''nil pointer dereference'')
      | Some c \<Rightarrow> (case cacheTable c table of
          None \<Rightarrow> Inl (Panic ''nil pointer dereference'')
        | Some r \<Rightarrow> Inr r))"

text \<open>\<open>t.Cache.Table(table).Create(uuid, row, false)\<close>.\<close>

definition createTxnRow :: "string \<Rightarrow> string \<Rightarrow> Model option \<Rightarrow> Transaction \<Rightarrow> Transaction result" where
  "createTxnRow table uuid row t =
     bindR (txnTable t table) (\<lambda>r.
       case row of
         None \<Rightarrow> if HasRow r uuid then Inl (ErrCacheInconsistent table uuid) else Inl (Panic ''nil pointer dereference'')
       | Some m \<Rightarrow> bindR (Create uuid m False r) (\<lambda>r'. Inr (t\<lparr>tCache := map_option (setTable table r') (tCache t)\<rparr>)))"

definition warmRow ::
  "string \<Rightarrow> Transaction \<times> modelRows \<times> modelRows \<Rightarrow> string \<times> Model option \<Rightarrow> (Transaction \<times> modelRows \<times> modelRows) \<times> err option" where
  "warmRow table = (\<lambda>(t, rows, txnRows) (uuid, row).
     case map_of txnRows uuid of
       Some txnRow \<Rightarrow> ((t, AList.update uuid txnRow rows, AList.delete uuid txnRows), None)
     | None \<Rightarrow> (case createTxnRow table uuid row t of
         Inl e \<Rightarrow> ((t, rows, txnRows), Some (wrapError ''failed warming transaction cache row'' e))
       | Inr t' \<Rightarrow> ((t', rows, txnRows), None)))"

definition rowsFromTransactionCacheAndDatabase ::
  "inMemoryDatabase \<Rightarrow> string \<Rightarrow> Condition list \<Rightarrow> Transaction \<Rightarrow> Transaction \<times> modelRows result" where
  "rowsFromTransactionCacheAndDatabase db table wh t =
     (case initializeCache t of
        (t, Some e) \<Rightarrow> (t, Inl e)
      | (t, None) \<Rightarrow>
          (case bindR (txnTable t table) (\<lambda>r. RowsByCondition r wh) of
             Inl e \<Rightarrow> (t, Inl (wrapError ''failed getting rows from transaction cache'' e))
           | Inr txnRows \<Rightarrow>
               (case ListRows db (tDbName t) table wh of
                  Inl e \<Rightarrow> (t, Inl (wrapError ''failed getting rows from database'' e))
                | Inr rows \<Rightarrow>
                    (case foldS (warmRow table) (t, rows, txnRows) rows of
                       ((t, _, _), Some e) \<Rightarrow> (t, Inl e)
                     | ((t, rows, txnRows), None) \<Rightarrow>
                         (t, Inr (fold AList.delete (tDeletedRows t) (gm_writeAll rows txnRows)))))))"

section \<open>Operations\<close>

definition InsertOp :: "Operation \<Rightarrow> Transaction \<Rightarrow> opResult" where
  "InsertOp op t =
     resultOf (bindR (ValidateUUID (opUUID op)) (\<lambda>_.
       bindR (AddOperation (tModel t) (opTable op) (opUUID op) None op []) (\<lambda>update.
         Inr (emptyResult\<lparr>rUUID := opUUID op\<rparr>, Some update))))"

definition SelectOp :: "inMemoryDatabase \<Rightarrow> Operation \<Rightarrow> Transaction \<Rightarrow> Transaction \<times> opResult" where
  "SelectOp db op t =
     (case rowsFromTransactionCacheAndDatabase db (opTable op) (Where op) t of
        (t, rows) \<Rightarrow> (t, resultOf (bindR rows (\<lambda>rows.
          bindR (mapR (\<lambda>(_, row). bindR (modelInfo (tModel t) row) NewRow) rows) (\<lambda>results.
            Inr (emptyResult\<lparr>rRows := results\<rparr>, None))))))"

text \<open>\<open>Update\<close> and \<open>Mutate\<close> have the same code.\<close>

definition updateRows :: "DatabaseModel \<Rightarrow> Operation \<Rightarrow> modelRows \<Rightarrow> ModelUpdates result" where
  "updateRows m op rows = foldR (\<lambda>update (uuid, old). AddOperation m (opTable op) uuid old op update) [] rows"

definition UpdateOp :: "inMemoryDatabase \<Rightarrow> Operation \<Rightarrow> Transaction \<Rightarrow> Transaction \<times> opResult" where
  "UpdateOp db op t =
     (case rowsFromTransactionCacheAndDatabase db (opTable op) (Where op) t of
        (t, rows) \<Rightarrow> (t, resultOf (bindR rows (\<lambda>rows. bindR (updateRows (tModel t) op rows) (\<lambda>update.
          Inr (emptyResult\<lparr>rCount := length rows\<rparr>, Some update))))))"

definition MutateOp :: "inMemoryDatabase \<Rightarrow> Operation \<Rightarrow> Transaction \<Rightarrow> Transaction \<times> opResult" where
  "MutateOp db op t =
     (case rowsFromTransactionCacheAndDatabase db (opTable op) (Where op) t of
        (t, rows) \<Rightarrow> (t, resultOf (bindR rows (\<lambda>rows. bindR (updateRows (tModel t) op rows) (\<lambda>update.
          Inr (emptyResult\<lparr>rCount := length rows\<rparr>, Some update))))))"

definition DeleteOp :: "inMemoryDatabase \<Rightarrow> Operation \<Rightarrow> Transaction \<Rightarrow> Transaction \<times> opResult" where
  "DeleteOp db op t =
     (case rowsFromTransactionCacheAndDatabase db (opTable op) (Where op) t of
        (t, Inl e) \<Rightarrow> (t, resultOf (Inl e))
      | (t, Inr rows) \<Rightarrow>
          (case foldS (\<lambda>(t, update) (uuid, row).
                   case AddOperation (tModel t) (opTable op) uuid row op update of
                     Inl e \<Rightarrow> ((t, update), Some e)
                   | Inr update' \<Rightarrow> ((t\<lparr>tDeletedRows := List.insert uuid (tDeletedRows t)\<rparr>, update'), None)) (t, []) rows of
             ((t, _), Some e) \<Rightarrow> (t, resultOf (Inl e))
           | ((t, update), None) \<Rightarrow> (t, Inr (emptyResult\<lparr>rCount := length rows\<rparr>, Some update))))"

text \<open>
  The wait operation. The model that the given rows are read into is made once, so a column that a row does not give has
  the value of the row before.
\<close>

definition waitField :: "DatabaseModel \<Rightarrow> Info \<Rightarrow> string \<Rightarrow> Model \<times> bool \<Rightarrow> Row \<Rightarrow> (Model \<times> bool) result" where
  "waitField db info column = (\<lambda>(model, foundMatch) r.
     bindR (NewModelInfo db model) (\<lambda>i.
     bindR (GetRowData (Some r) i) (\<lambda>i.
     bindR (FieldByColumn i column) (\<lambda>x.
     bindR (case Column (mTableSchema (iMeta info)) column of None \<Rightarrow> Inl (Panic ''nil pointer dereference'') | Some c \<Rightarrow> IsDefaultValue c x) (\<lambda>isDefault.
       if isDefault then Inr (Obj i, foundMatch)
       else bindR (FieldByColumn info column) (\<lambda>y. Inr (Obj i, if deepEqual x y then foundMatch else False)))))))"

definition waitRow :: "DatabaseModel \<Rightarrow> Operation \<Rightarrow> Model \<times> Row list \<Rightarrow> string \<times> Model option \<Rightarrow> (Model \<times> Row list) result" where
  "waitRow db op = (\<lambda>(model, filteredRows) (_, rowModel).
     bindR (modelInfo db rowModel) (\<lambda>info.
     bindR (foldR (\<lambda>s column. foldR (waitField db info column) s (opRows op)) (model, True) (opColumns op)) (\<lambda>(model, foundMatch).
       if foundMatch then bindR (NewRow info) (\<lambda>row. Inr (model, filteredRows @ [row])) else Inr (model, filteredRows))))"

definition waitRound :: "inMemoryDatabase \<Rightarrow> Operation \<Rightarrow> Model \<Rightarrow> Transaction \<Rightarrow> Transaction \<times> (Model \<times> bool) result" where
  "waitRound db op model t =
     (case rowsFromTransactionCacheAndDatabase db (opTable op) (Where op) t of
        (t, found) \<Rightarrow> (t, bindR found (\<lambda>found. bindR (foldR (waitRow (tModel t) op) (model, []) found) (\<lambda>(model, filteredRows).
          Inr (model, (Until op = ''=='' \<and> length filteredRows = length (opRows op)) \<or> (Until op = ''!='' \<and> length filteredRows \<noteq> length (opRows op)))))))"

text \<open>\<open>time.Since(start) > time.Duration(*timeout)*time.Millisecond\<close>, with the product in 64 bits.\<close>

definition timedOut :: "int option \<Rightarrow> int \<Rightarrow> bool" where
  "timedOut timeout since = (case timeout of None \<Rightarrow> False | Some ms \<Rightarrow> since > sint (word_of_int ms * 1000000 :: 64 word))"

partial_function (option) waitLoop ::
  "inMemoryDatabase \<Rightarrow> (nat \<Rightarrow> int) \<Rightarrow> Operation \<Rightarrow> nat \<Rightarrow> Model \<Rightarrow> Transaction \<Rightarrow> (Transaction \<times> opResult) option" where
  "waitLoop db elapsed op n model t =
     (case waitRound db op model t of
        (t', Inl e) \<Rightarrow> Some (t', resultOf (Inl e))
      | (t', Inr (model', held)) \<Rightarrow>
          if held then Some (t', Inr (emptyResult, None))
          else if timedOut (Timeout op) (elapsed n) then Some (t', resultOf (Inl (TimedOut [])))
          else waitLoop db elapsed op (Suc n) model' t')"

declare waitLoop.simps [code]

definition Wait :: "inMemoryDatabase \<Rightarrow> (nat \<Rightarrow> int) \<Rightarrow> Operation \<Rightarrow> Transaction \<Rightarrow> (Transaction \<times> opResult) option" where
  "Wait db elapsed op t =
     (if Until op \<noteq> ''!='' \<and> Until op \<noteq> ''=='' then Some (t, resultOf (Inl (NotSupported [])))
      else case Table (dbSchema (tModel t)) (opTable op) of
        None \<Rightarrow> Some (t, resultOf (Inl (NotSupported [])))
      | Some _ \<Rightarrow> (case NewModel (tModel t) (opTable op) of
          Inl e \<Rightarrow> Some (t, resultOf (Inl e))
        | Inr model \<Rightarrow> waitLoop db elapsed op 0 model t))"

text \<open>\<open>Commit\<close>, \<open>Abort\<close>, \<open>Comment\<close> and \<open>Assert\<close>, called with a dereferenced argument.\<close>

definition notSupported :: "'a option \<Rightarrow> opResult" where
  "notSupported arg = (case arg of None \<Rightarrow> Inl (Panic ''nil pointer dereference'') | Some _ \<Rightarrow> resultOf (Inl (NotSupported [])))"

definition runOperation :: "inMemoryDatabase \<Rightarrow> (nat \<Rightarrow> int) \<Rightarrow> Operation \<Rightarrow> Transaction \<Rightarrow> (Transaction \<times> opResult) option" where
  "runOperation db elapsed op t =
     (case Op op of
        OperationInsert \<Rightarrow> Some (t, InsertOp op t)
      | OperationSelect \<Rightarrow> Some (SelectOp db op t)
      | OperationUpdate \<Rightarrow> Some (UpdateOp db op t)
      | OperationMutate \<Rightarrow> Some (MutateOp db op t)
      | OperationDelete \<Rightarrow> Some (DeleteOp db op t)
      | OperationWait \<Rightarrow> Wait db elapsed op t
      | OperationCommit \<Rightarrow> Some (t, notSupported (Durable op))
      | OperationAbort \<Rightarrow> Some (t, notSupported (Some ()))
      | OperationComment \<Rightarrow> Some (t, notSupported (Comment op))
      | OperationAssert \<Rightarrow> Some (t, notSupported (Lock op))
      | OperationOther _ \<Rightarrow> Some (t, resultOf (Inl (NotSupported []))))"

section \<open>The transaction\<close>

text \<open>The result of an operation after its update is merged and applied; \<open>Merge\<close> keeps what it merged before an error.\<close>

definition mergeUpdates :: "DatabaseModel \<Rightarrow> ModelUpdates \<Rightarrow> ModelUpdates \<Rightarrow> ModelUpdates \<times> err option" where
  "mergeUpdates db newUpdates u =
     foldS (\<lambda>u (table, models). foldS (\<lambda>u (uuid, update). toS u (addUpdate db table uuid update u)) u models) u newUpdates"

definition settle :: "OperationResult \<Rightarrow> err option \<Rightarrow> OperationResult result" where
  "settle r e = (case e of None \<Rightarrow> Inr r | Some (Panic s) \<Rightarrow> Inl (Panic s) | Some e \<Rightarrow> Inr (ResultFromError e))"

definition applyOperation ::
  "OperationResult \<Rightarrow> ModelUpdates option \<Rightarrow> ModelUpdates \<Rightarrow> Transaction \<Rightarrow> (Transaction \<times> ModelUpdates \<times> OperationResult) result" where
  "applyOperation r u update t =
     (case u of
        None \<Rightarrow> Inr (t, update, r)
      | Some u \<Rightarrow>
          if rError r \<noteq> [] then Inr (t, update, r)
          else let (update', e1) = mergeUpdates (tModel t) u update in
               bindR (settle r e1) (\<lambda>r.
               (case tCache t of
                  None \<Rightarrow> Inl (Panic ''nil pointer dereference'')
                | Some c \<Rightarrow> (let (c', e2) = ApplyCacheUpdate u c in
                    bindR (settle r e2) (\<lambda>r. Inr (t\<lparr>tCache := Some c'\<rparr>, update', r))))))"

fun transactLoop ::
  "inMemoryDatabase \<Rightarrow> (nat \<Rightarrow> nat \<Rightarrow> int) \<Rightarrow> nat \<Rightarrow> Operation list \<Rightarrow> Transaction \<times> ModelUpdates \<times> OperationResult list
     \<Rightarrow> (Transaction \<times> ModelUpdates \<times> OperationResult list) result option" where
  "transactLoop db elapsed i [] s = Some (Inr s)"
| "transactLoop db elapsed i (op # ops) (t, update, results) =
     (case runOperation db (elapsed i) op t of
        None \<Rightarrow> None
      | Some (t, Inl e) \<Rightarrow> Some (Inl e)
      | Some (t, Inr (r, u)) \<Rightarrow> (case applyOperation r u update t of
          Inl e \<Rightarrow> Some (Inl e)
        | Inr (t, update, r) \<Rightarrow>
            if rError r \<noteq> [] then Some (Inr (t, update, results @ [r]))
            else transactLoop db elapsed (Suc i) ops (t, update, results @ [r])))"

text \<open>The fixed parts of the details of a violated index.\<close>

definition newIndexExistsDetails :: string where
  "newIndexExistsDetails = ''operation would cause rows to have identical values for index''"

definition checkRow :: "inMemoryDatabase \<Rightarrow> Transaction \<Rightarrow> string \<Rightarrow> RowCache \<Rightarrow> Model \<Rightarrow> unit result" where
  "checkRow db t table tc row =
     bindR (IndexExists tc row) (\<lambda>_.
       case CheckIndexes db (tDbName t) table row of
         None \<Rightarrow> Inr ()
       | Some (ErrIndexExists tb v idx new uuids) \<Rightarrow>
           if list_ex (\<lambda>u. u \<notin> set (tDeletedRows t) \<and> \<not> HasRow tc u) uuids
           then Inl (ErrIndexExists tb v idx new uuids) else Inr ()
       | Some e \<Rightarrow> Inl e)"

definition checkIndexes :: "inMemoryDatabase \<Rightarrow> Transaction \<Rightarrow> unit result" where
  "checkIndexes db t =
     (case tCache t of
        None \<Rightarrow> Inl (Panic ''nil pointer dereference'')
      | Some c \<Rightarrow> foldR (\<lambda>_ table.
          bindR (txnTable t table) (\<lambda>tc. foldR (\<lambda>_ (_, row). checkRow db t table tc row) () (RowsShallow tc))) () (cacheTables c))"

definition referenceUpdate ::
  "inMemoryDatabase \<Rightarrow> string \<Rightarrow> Transaction \<Rightarrow> string \<Rightarrow> Model option \<Rightarrow> Model option \<Rightarrow> Transaction \<times> err option" where
  "referenceUpdate db table t uuid old newModel =
     (let t = (if old \<noteq> None \<and> newModel = None then t\<lparr>tDeletedRows := List.insert uuid (tDeletedRows t)\<rparr> else t)
      in if old = None then (t, None)
         else toS t (bindR (txnTable t table) (\<lambda>r.
           if HasRow r uuid then Inr t
           else bindR (GetRowModel db (tDbName t) table uuid) (\<lambda>row. createTxnRow table uuid row t))))"

definition applyReferenceUpdates :: "inMemoryDatabase \<Rightarrow> ModelUpdates \<Rightarrow> Transaction \<Rightarrow> Transaction \<times> err option" where
  "applyReferenceUpdates db update t =
     (case foldS (\<lambda>t table. ForEachModelUpdate update table (referenceUpdate db table) t) t (GetUpdatedTables update) of
        (t, Some e) \<Rightarrow> (t, Some e)
      | (t, None) \<Rightarrow> (case tCache t of
          None \<Rightarrow> (t, Some (Panic ''nil pointer dereference''))
        | Some c \<Rightarrow> (let (c', e) = ApplyCacheUpdate update c in (t\<lparr>tCache := Some c'\<rparr>, e))))"

text \<open>The validation after all operations succeeded: references, then indexes.\<close>

definition failWith ::
  "Transaction \<Rightarrow> DatabaseUpdate \<Rightarrow> OperationResult option list \<Rightarrow> err \<Rightarrow> (Transaction \<times> OperationResult option list \<times> DatabaseUpdate) result" where
  "failWith t u results e = bindR (settle emptyResult (Some e)) (\<lambda>r. Inr (t, results @ [Some r], u))"

definition validateTransaction ::
  "inMemoryDatabase \<Rightarrow> Transaction \<Rightarrow> ModelUpdates \<Rightarrow> OperationResult option list
     \<Rightarrow> (Transaction \<times> OperationResult option list \<times> DatabaseUpdate) result option" where
  "validateTransaction db t update results =
     (case ProcessReferences (tModel t) (dbProvider db) update of
        None \<Rightarrow> None
      | Some (Inl e) \<Rightarrow> Some (failWith t \<lparr>duUpdates = [], duReferences = []\<rparr> results e)
      | Some (Inr (update, refUpdates, refs)) \<Rightarrow>
          (let u = \<lparr>duUpdates = update, duReferences = refs\<rparr> in
           case applyReferenceUpdates db refUpdates t of
             (t, Some e) \<Rightarrow> Some (failWith t u results e)
           | (t, None) \<Rightarrow> (case checkIndexes db t of
               Inl (ErrIndexExists _ _ _ _ _) \<Rightarrow> Some (failWith t u results (ConstraintViolation newIndexExistsDetails))
             | Inl e \<Rightarrow> Some (failWith t u results e)
             | Inr _ \<Rightarrow> Some (Inr (t, results, u)))))"

definition assignUUIDs :: "(nat \<Rightarrow> string) \<Rightarrow> Operation list \<Rightarrow> Operation list" where
  "assignUUIDs newUUID ops =
     map (\<lambda>(i, op). if Op op = OperationInsert \<and> opUUID op = [] then op\<lparr>opUUID := newUUID i\<rparr> else op) (zip [0..<length ops] ops)"

text \<open>\<open>results[0] = &r\<close> in an early return; without operations the slice is empty.\<close>

definition earlyFail ::
  "Transaction \<Rightarrow> nat \<Rightarrow> err \<Rightarrow> (Transaction \<times> OperationResult option list \<times> DatabaseUpdate) result option" where
  "earlyFail t n e =
     Some (bindR (settle emptyResult (Some e)) (\<lambda>r.
       if n = 0 then Inl (Panic ''index out of range'')
       else Inr (t, Some r # replicate (n - 1) None, \<lparr>duUpdates = [], duReferences = []\<rparr>)))"

definition Transact ::
  "inMemoryDatabase \<Rightarrow> (nat \<Rightarrow> string) \<Rightarrow> (nat \<Rightarrow> nat \<Rightarrow> int) \<Rightarrow> Operation list \<Rightarrow> Transaction
     \<Rightarrow> (Transaction \<times> OperationResult option list \<times> DatabaseUpdate) result option" where
  "Transact db newUUID elapsed operations t =
     (if \<not> Exists db (tDbName t) then earlyFail t (length operations) (Errorf ''database does not exist'')
      else case initializeCache t of
        (t, Some e) \<Rightarrow> earlyFail t (length operations) e
      | (t, None) \<Rightarrow> (case ExpandNamedUUIDs (assignUUIDs newUUID operations) (dbSchema (tModel t)) of
          Inl e \<Rightarrow> earlyFail t (length operations) e
        | Inr ops \<Rightarrow> (case transactLoop db elapsed 0 ops (t, [], []) of
            None \<Rightarrow> None
          | Some (Inl e) \<Rightarrow> Some (Inl e)
          | Some (Inr (t, update, rs)) \<Rightarrow>
              (let results = map Some rs @ replicate (length operations - length rs) None in
               if rs \<noteq> [] \<and> rError (last rs) \<noteq> [] then Some (Inr (t, results, \<lparr>duUpdates = update, duReferences = []\<rparr>))
               else if GetUpdatedTables update = [] then Some (Inr (t, results, \<lparr>duUpdates = update, duReferences = []\<rparr>))
               else validateTransaction db t update results))))"

section \<open>What a transaction reads\<close>

lemma createTxnRow_ok:
  assumes "createTxnRow table uuid row t = Inr t'" "tCache t = Some c"
  obtains c' where "t' = t\<lparr>tCache := Some c'\<rparr>" "contents c (table, uuid) = None" "contents c' = (contents c)((table, uuid) := row)" "row \<noteq> None"
proof -
  obtain r m r' where r: "map_of (tcCache c) table = Some r" "row = Some m" "Create uuid m False r = Inr r'" "t' = t\<lparr>tCache := Some (setTable table r' c)\<rparr>"
    using assms by (auto simp: createTxnRow_def txnTable_def cacheTable_def resR split: option.splits if_splits)
  note k = rs.create_rows [OF r(3)]
  have c: "contents c (table, x) = map_of (rcCache r) x" for x using r(1) by (simp add: contents_def)
  show thesis
    by (rule that [OF r(4)]) (use k r(2) c in \<open>auto simp: contents_setTable fun_eq_iff\<close>)
qed

lemma warmRow_loop:
  assumes "foldS (warmRow table) (t, rows, txn) xs = ((t', rows', txn'), None)" "gm_ok xs" "gm_ok txn" "tCache t = Some c"
  shows "gm_ok txn' \<and> (\<forall>u. map_of txn' u = (if u \<in> set (keys xs) then None else map_of txn u))
    \<and> (\<forall>u. map_of rows' u = (if u \<in> set (keys xs) \<and> map_of txn u \<noteq> None then map_of txn u else map_of rows u))
    \<and> (\<exists>c'. t' = t\<lparr>tCache := Some c'\<rparr> \<and> (\<forall>tb u. contents c' (tb, u) = (if tb = table \<and> u \<in> set (keys xs) \<and> map_of txn u = None then the (map_of xs u) else contents c (tb, u))))
    \<and> (\<forall>u. u \<in> set (keys xs) \<and> map_of txn u = None \<longrightarrow> contents c (table, u) = None)"
  using assms
proof (induction xs arbitrary: t rows txn c)
  case Nil
  then show ?case by (auto intro!: exI [of _ c])
next
  case (Cons x xs)
  obtain uuid row where x: "x = (uuid, row)" by fastforce
  have fresh: "uuid \<notin> set (keys xs)" "gm_ok xs" using Cons.prems(2) x by auto
  obtain s1 where s1: "warmRow table (t, rows, txn) x = (s1, None)" "foldS (warmRow table) s1 xs = ((t', rows', txn'), None)"
    using Cons.prems(1) unfolding foldS_ok_Cons by blast
  show ?case
  proof (cases "map_of txn uuid")
    case (Some m)
    then have "s1 = (t, AList.update uuid m rows, AList.delete uuid txn)" using s1(1) by (simp add: warmRow_def x)
    note ih = Cons.IH [OF s1(2) [unfolded this] fresh(2) gm_ok_delete [OF Cons.prems(3)] Cons.prems(4)]
    then obtain c2 where c2: "t' = t\<lparr>tCache := Some c2\<rparr>"
      "\<And>tb u. contents c2 (tb, u) = (if tb = table \<and> u \<in> set (keys xs) \<and> map_of (AList.delete uuid txn) u = None then the (map_of xs u) else contents c (tb, u))" by blast
    have "contents c2 (tb, u) = (if tb = table \<and> u \<in> set (keys (x # xs)) \<and> map_of txn u = None then the (map_of (x # xs) u) else contents c (tb, u))" for tb u
      using c2(2) [of tb u] Some fresh(1) by (auto simp: x)
    moreover have "\<forall>u. u \<in> set (keys (x # xs)) \<and> map_of txn u = None \<longrightarrow> contents c (table, u) = None" using ih Some by (auto simp: x)
    moreover have "\<forall>u. map_of txn' u = (if u \<in> set (keys (x # xs)) then None else map_of txn u)" using ih by (auto simp: x)
    moreover have "\<forall>u. map_of rows' u = (if u \<in> set (keys (x # xs)) \<and> map_of txn u \<noteq> None then map_of txn u else map_of rows u)"
      using ih Some fresh(1) by (auto simp: x)
    ultimately show ?thesis using ih c2(1) by blast
  next
    case None
    then obtain t1 where t1: "createTxnRow table uuid row t = Inr t1" "s1 = (t1, rows, txn)"
      using s1(1) by (auto simp: warmRow_def x split: sum.splits)
    obtain c1 where c1: "t1 = t\<lparr>tCache := Some c1\<rparr>" "contents c (table, uuid) = None" "contents c1 = (contents c)((table, uuid) := row)" "row \<noteq> None"
      by (rule createTxnRow_ok [OF t1(1) Cons.prems(4)])
    have "tCache t1 = Some c1" using c1(1) by simp
    note ih = Cons.IH [OF s1(2) [unfolded t1(2)] fresh(2) Cons.prems(3) this]
    then obtain c2 where c2: "t' = t1\<lparr>tCache := Some c2\<rparr>"
      "\<And>tb u. contents c2 (tb, u) = (if tb = table \<and> u \<in> set (keys xs) \<and> map_of txn u = None then the (map_of xs u) else contents c1 (tb, u))" by blast
    have "t' = t\<lparr>tCache := Some c2\<rparr>" using c2(1) c1(1) by simp
    moreover have "contents c2 (tb, u) = (if tb = table \<and> u \<in> set (keys (x # xs)) \<and> map_of txn u = None then the (map_of (x # xs) u) else contents c (tb, u))" for tb u
      using c2(2) [of tb u] c1(3) None fresh(1) by (auto simp: x)
    moreover have "contents c (table, u) = None" if "u \<in> set (keys (x # xs))" "map_of txn u = None" for u
    proof (cases "u = uuid")
      case False
      then have "contents c1 (table, u) = None" using ih that by (simp add: x)
      then show ?thesis using c1(3) False by simp
    qed (simp add: c1(2))
    moreover have "\<forall>u. map_of txn' u = (if u \<in> set (keys (x # xs)) then None else map_of txn u)" using ih None by (auto simp: x)
    moreover have "\<forall>u. map_of rows' u = (if u \<in> set (keys (x # xs)) \<and> map_of txn u \<noteq> None then map_of txn u else map_of rows u)" using ih None by (auto simp: x)
    ultimately show ?thesis using ih by blast
  qed
qed

lemma map_of_fold_delete: "map_of (fold AList.delete ks m) u = (if u \<in> set ks then None else map_of m u)"
  by (induction ks arbitrary: m) auto

text \<open>
  Claim C4. A transaction reads its own writes: the rows that an operation works on are the matching rows of the transaction, or else
  those of the database, without the rows that the transaction deleted. The rows read from the database are in the transaction's
  cache afterwards, which holds what it held before of every other row, and the database had none of them in another state.
\<close>

theorem transaction_reads_its_writes:
  assumes "tCache t = Some c" and "cacheTable c table = Some r" and "RowsByCondition r wh = Inr txnRows" and "gm_ok txnRows"
    and "ListRows db (tDbName t) table wh = Inr dbRows" and "gm_ok dbRows"
    and "rowsFromTransactionCacheAndDatabase db table wh t = (t', Inr rows)"
  shows "(\<forall>u. map_of rows u = (if u \<in> set (tDeletedRows t) then None else if map_of txnRows u \<noteq> None then map_of txnRows u else map_of dbRows u))
    \<and> (\<exists>c'. t' = t\<lparr>tCache := Some c'\<rparr> \<and> (\<forall>tb u. contents c' (tb, u) = (if tb = table \<and> map_of dbRows u \<noteq> None \<and> map_of txnRows u = None then the (map_of dbRows u) else contents c (tb, u))))
    \<and> (\<forall>u. map_of dbRows u \<noteq> None \<and> map_of txnRows u = None \<longrightarrow> contents c (table, u) = None)"
proof -
  have "initializeCache t = (t, None)" using assms(1) by (simp add: initializeCache_def)
  moreover have "txnTable t table = Inr r" using assms(1,2) by (simp add: txnTable_def)
  ultimately obtain rows' txn' where w: "foldS (warmRow table) (t, dbRows, txnRows) dbRows = ((t', rows', txn'), None)"
      "rows = fold AList.delete (tDeletedRows t') (gm_writeAll rows' txn')"
    using assms(3,5,7) by (auto simp: rowsFromTransactionCacheAndDatabase_def split: prod.splits option.splits)
  note l = warmRow_loop [OF w(1) assms(6,4,1)]
  have k: "u \<in> set (keys dbRows) \<longleftrightarrow> map_of dbRows u \<noteq> None" for u using map_of_key_iff [of u dbRows] by auto
  have "tDeletedRows t' = tDeletedRows t" using l by auto
  then have "map_of rows u = (if u \<in> set (tDeletedRows t) then None else (map_of rows' ++ map_of txn') u)" for u
    using l by (simp add: w(2) map_of_fold_delete map_of_writeAll)
  then show ?thesis using l unfolding k by (auto simp: map_add_def split: option.splits)
qed

section \<open>Results\<close>

lemma transactLoop_results:
  assumes "transactLoop db elapsed i ops (t, u, res) = Some (Inr (t', u', rs))"
  shows "\<exists>oks rest. rs = res @ oks @ rest \<and> list_all (\<lambda>r. rError r = []) oks
    \<and> (rest = [] \<and> length oks = length ops \<or> (\<exists>e. rest = [e] \<and> rError e \<noteq> [] \<and> length oks < length ops))"
  using assms
proof (induction ops arbitrary: i t u res)
  case Nil
  then show ?case by auto
next
  case (Cons op ops)
  obtain t1 u1 r where 1: "if rError r \<noteq> [] then Some (Inr (t1, u1, res @ [r])) = Some (Inr (t', u', rs))
      else transactLoop db elapsed (Suc i) ops (t1, u1, res @ [r]) = Some (Inr (t', u', rs))"
    using Cons.prems by (fastforce split: option.splits prod.splits sum.splits if_splits)
  show ?case
  proof (cases "rError r = []")
    case True
    then have "transactLoop db elapsed (Suc i) ops (t1, u1, res @ [r]) = Some (Inr (t', u', rs))" using 1 by simp
    from Cons.IH [OF this] obtain oks rest where "rs = (res @ [r]) @ oks @ rest" "list_all (\<lambda>r. rError r = []) oks"
        "rest = [] \<and> length oks = length ops \<or> (\<exists>e. rest = [e] \<and> rError e \<noteq> [] \<and> length oks < length ops)"
      by blast
    then show ?thesis using True by (intro exI [of _ "r # oks"] exI [of _ rest]) auto
  next
    case False
    then show ?thesis using 1 by (intro exI [of _ "[]"] exI [of _ "[r]"]) auto
  qed
qed

lemma failWith_results: "failWith t u results e = Inr (t', results', u') \<Longrightarrow> \<exists>r. results' = results @ [Some r]"
  by (auto simp: failWith_def resR)

lemma validate_results:
  assumes "validateTransaction db t update results = Some (Inr (t', results', u'))"
  shows "results' = results \<or> (\<exists>r. results' = results @ [Some r])"
  using assms
  by (auto simp: validateTransaction_def Let_def dest: failWith_results split: option.splits sum.splits prod.splits err.splits)

lemma Transact_shape:
  assumes "Exists db (tDbName t)" and "initializeCache t = (t0, None)"
    and "ExpandNamedUUIDs (assignUUIDs newUUID ops) (dbSchema (tModel t0)) = Inr ops'"
    and "Transact db newUUID elapsed ops t = Some (Inr (t', results, u))"
  shows "\<exists>oks rest. results = map Some oks @ rest \<and> list_all (\<lambda>r. rError r = []) oks
    \<and> (rest = [] \<and> length oks = length ops
       \<or> (\<exists>e. rest = Some e # replicate (length ops - Suc (length oks)) None \<and> length oks \<le> length ops \<and> (length oks < length ops \<longrightarrow> rError e \<noteq> [])))"
proof -
  have "list_all2 (\<lambda>_ _. True) (assignUUIDs newUUID ops) ops'"
    using assms(3) by (auto simp: ExpandNamedUUIDs_def resR list_all2_conv_all_nth dest!: mapR_length nameOperations_spec(1) list_all2_lengthD)
  then have len: "length ops' = length ops" by (auto simp: assignUUIDs_def dest: list_all2_lengthD)
  obtain t1 update rs where l: "transactLoop db elapsed 0 ops' (t0, [], []) = Some (Inr (t1, update, rs))"
      "let res = map Some rs @ replicate (length ops - length rs) None in
        results = res \<or> (\<not> (rs \<noteq> [] \<and> rError (last rs) \<noteq> []) \<and> validateTransaction db t1 update res = Some (Inr (t', results, u)))"
    using assms by (fastforce simp: Transact_def Let_def split: option.splits sum.splits prod.splits if_splits)
  obtain oks rest where o: "rs = oks @ rest" "list_all (\<lambda>r. rError r = []) oks"
      "rest = [] \<and> length oks = length ops \<or> (\<exists>e. rest = [e] \<and> rError e \<noteq> [] \<and> length oks < length ops)"
    using transactLoop_results [OF l(1)] len by auto
  from o(3) show ?thesis
  proof (elim disjE exE conjE)
    assume r: "rest = []" "length oks = length ops"
    then have "results = map Some oks \<or> (\<exists>r. results = map Some oks @ [Some r])"
      using l(2) o(1) by (auto simp: Let_def dest: validate_results)
    then show ?thesis using r(2) o(2) by (elim disjE exE) (auto intro!: exI [of _ oks])
  next
    fix e
    assume r: "rest = [e]" "rError e \<noteq> []" "length oks < length ops"
    then have "results = map Some oks @ Some e # replicate (length ops - Suc (length oks)) None" using l(2) o(1) by (simp add: Let_def)
    then show ?thesis using r o(2) by (auto intro!: exI [of _ oks])
  qed
qed

text \<open>
  Claim C28. The results of a transaction whose operations could be expanded: one for every operation that was run, all but the last of
  them without an error; the operations after a failed one have none. When all operations succeed there is at most one more result, that
  of the validation.
\<close>

theorem Transact_results:
  assumes "Exists db (tDbName t)" and "initializeCache t = (t0, None)"
    and "ExpandNamedUUIDs (assignUUIDs newUUID ops) (dbSchema (tModel t0)) = Inr ops'"
    and "Transact db newUUID elapsed ops t = Some (Inr (t', results, u))"
  shows "\<exists>oks rest. results = map Some oks @ rest \<and> list_all (\<lambda>r. rError r = []) oks
    \<and> (rest = [] \<and> length oks = length ops
       \<or> (\<exists>e. rest = Some e # replicate (length ops - Suc (length oks)) None \<and> length oks \<le> length ops \<and> (length oks < length ops \<longrightarrow> rError e \<noteq> [])))"
  by (rule Transact_shape [OF assms])

section \<open>Waiting\<close>

lemma waitLoop_returns:
  assumes "timedOut (Timeout op) (elapsed (n + k))"
  shows "\<exists>r. waitLoop db elapsed op n model t = Some r"
  using assms
proof (induction k arbitrary: n model t)
  case 0
  then show ?case by (subst waitLoop.simps) (auto split: prod.splits sum.splits)
next
  case (Suc k)
  then have "timedOut (Timeout op) (elapsed (Suc n + k))" by simp
  from Suc.IH [OF this] show ?case by (subst waitLoop.simps) (fastforce split: prod.splits sum.splits)
qed



section \<open>Index constraints\<close>

lemma foldR_unit: "foldR (\<lambda>_ x. f x) () xs = Inr () \<longleftrightarrow> (\<forall>x \<in> set xs. f x = Inr ())"
  by (induction xs) (auto simp: resR)

lemma IndexExists_ok:
  assumes "IndexExists r m = Inr ()" "NewModelInfo (rcDb r) m = Inr i" "FieldByColumn i ''_uuid'' = Inr (VAtom (AStr uuid))"
    and "spec \<in> set (takeWhile isSchemaIndex (rcSpecs r))" "rowKey (rcDb r) spec m = Some v"
  shows "\<not> conflicts r True spec v uuid"
proof -
  have "existsConflict r i uuid spec = Inr ()"
    using assms(1-4) by (simp add: IndexExists_def stringField_def foldR_unit)
  then show ?thesis using assms(2,5) by (auto simp: existsConflict_def rowKey_def indexKey_def resR split: sum.splits if_splits err.splits)
qed

lemma checkIndexes_rows:
  assumes "checkIndexes db t = Inr ()" "tCache t = Some c" "map_of (tcCache c) table = Some r" "(u, m) \<in> set (rcCache r)"
  shows "IndexExists r m = Inr ()"
proof -
  have "table \<in> set (cacheTables c)" using assms(3) by (force simp: cacheTables_def dest: map_of_SomeD)
  moreover have "txnTable t table = Inr r" using assms(2,3) by (simp add: txnTable_def cacheTable_def)
  moreover have "\<forall>table \<in> set (cacheTables c). bindR (txnTable t table) (\<lambda>tc. foldR (\<lambda>_ (_, row). checkRow db t table tc row) () (RowsShallow tc)) = Inr ()"
    using assms(1,2) unfolding checkIndexes_def by (simp only: option.case foldR_unit)
  ultimately have "foldR (\<lambda>_ (_, row). checkRow db t table r row) () (RowsShallow r) = Inr ()" by fastforce
  then have "checkRow db t table r m = Inr ()"
    using assms(4) foldR_unit [of "\<lambda>(_, row). checkRow db t table r row" "RowsShallow r"] by (auto simp: RowsShallow_def split_def)
  then show ?thesis by (auto simp: checkRow_def resR)
qed


section \<open>Examples\<close>

text \<open>Transactions on a database with one bridge of the name \<open>br0\<close>; the name of a bridge is an index.\<close>

definition freshUUID :: "nat \<Rightarrow> string" where
  "freshUUID i = ''2f77b348-9768-4866-b761-89d5177ecda'' @ [if i = 0 then CHR ''0'' else if i = 1 then CHR ''1'' else CHR ''2'']"

definition nameIs :: "string \<Rightarrow> Condition" where
  "nameIs n = \<lparr>cColumn = ''name'', cFunction = ConditionEqual, cValue = VAtom (AStr n)\<rparr>"

definition uuidIs :: "string \<Rightarrow> Condition" where
  "uuidIs u = \<lparr>cColumn = ''_uuid'', cFunction = ConditionEqual, cValue = VAtom (AUUID u)\<rparr>"

definition insertBridge :: "string \<Rightarrow> Operation" where
  "insertBridge n = emptyOp\<lparr>Op := OperationInsert, opTable := ''Bridge'', opRow := [(''name'', VAtom (AStr n))]\<rparr>"

definition renameBridge :: "Condition \<Rightarrow> string \<Rightarrow> Operation" where
  "renameBridge c n = emptyOp\<lparr>Op := OperationUpdate, opTable := ''Bridge'', Where := [c], opRow := [(''name'', VAtom (AStr n))]\<rparr>"

definition bridgeOp :: "OpKind \<Rightarrow> Condition \<Rightarrow> Operation" where
  "bridgeOp k c = emptyOp\<lparr>Op := k, opTable := ''Bridge'', Where := [c]\<rparr>"

definition exRun :: "Operation list \<Rightarrow> (Transaction \<times> OperationResult option list \<times> DatabaseUpdate) result option" where
  "exRun ops = Transact exDatabase freshUUID (\<lambda>i n. int n * 200000000) ops (NewTransaction exDatabase ''db'')"

text \<open>The errors in the results, and the names of the bridges after the update.\<close>

definition errorsAndNames :: "(Transaction \<times> OperationResult option list \<times> DatabaseUpdate) result option \<Rightarrow> string option list \<times> any option option list" where
  "errorsAndNames r = (case r of
     Some (Inr (t, rs, u)) \<Rightarrow> (map (map_option rError) rs, map (\<lambda>(_, mu). map_option (\<lambda>m. map_of (mObj m) ''Name'') (muNew mu)) (tableUpdates (duUpdates u) ''Bridge''))
   | _ \<Rightarrow> ([], []))"

text \<open>
  An update makes the rows it changes unusable for the rest of the transaction under their old values: a row renamed by
  the first operation is still found in the database under its old name by the second, which then fails to add it to the cache of the transaction
  although no row has that name any more.
\<close>

theorem renamed_row_fails_second_operation:
  "errorsAndNames (exRun [renameBridge (nameIs ''br0'') ''br1'', renameBridge (nameIs ''br0'') ''br2''])
     = ([Some [], Some ''failed warming transaction cache row''], [Some (Some (VAtom (AStr ''br1'')))])"
  by code_simp

text \<open>
  A deleted row comes back: replacing a row by one with the same index value is accepted, but with a select in the same
  transaction that matches the row in the database the deleted row is in the transaction's cache again and counts as a duplicate.
\<close>

theorem replaced_row_rejected_after_select:
  "fst (errorsAndNames (exRun [bridgeOp OperationDelete (nameIs ''br0''), insertBridge ''br0''])) = [Some [], Some []]
   \<and> fst (errorsAndNames (exRun [bridgeOp OperationDelete (nameIs ''br0''), insertBridge ''br0'', bridgeOp OperationSelect (nameIs ''br0'')]))
     = [Some [], Some [], Some [], Some ''constraint violation'']"
  by (rule conjI) code_simp+

text \<open>
  The check of the indexes misses duplicates when the entry of the index is gone: of three rows inserted with one name the
  last has the entry of the index, renaming it removes the entry, and the transaction is accepted with two rows of that name.
\<close>

theorem duplicate_index_accepted:
  "errorsAndNames (exRun [insertBridge ''a'', insertBridge ''a'', insertBridge ''a'', renameBridge (uuidIs (freshUUID 2)) ''b''])
     = ([Some [], Some [], Some [], Some []], [Some (Some (VAtom (AStr ''a''))), Some (Some (VAtom (AStr ''a''))), Some (Some (VAtom (AStr ''b'')))])"
  by code_simp

section \<open>Witnesses\<close>

definition exTxn :: "(string, Model) gomap \<Rightarrow> (ivalue, uuidset) gomap \<Rightarrow> Transaction" where
  "exTxn rows idx = \<lparr>tCache = Some \<lparr>tcCache = [(''Bridge'', exCache rows idx)], tcEvents = newEventProcessor 1, tcDb = exDb\<rparr>,
     tDeletedRows = [], tModel = exDb, tDbName = ''db''\<rparr>"

lemma exTxn_reads: "isOk (snd (rowsFromTransactionCacheAndDatabase exDatabase ''Bridge'' [] (exTxn [] [])))"
  by code_simp

theorem transaction_reads_its_writes_witness:
  "\<exists>t' rows. rowsFromTransactionCacheAndDatabase exDatabase ''Bridge'' [] (exTxn [] []) = (t', Inr rows)
    \<and> map_of rows ''u'' = Some (Some (exModel ''u'' ''br0'')) \<and> map_of rows ''v'' = None"
proof -
  obtain t' rows where r: "rowsFromTransactionCacheAndDatabase exDatabase ''Bridge'' [] (exTxn [] []) = (t', Inr rows)"
    using exTxn_reads by (cases "rowsFromTransactionCacheAndDatabase exDatabase ''Bridge'' [] (exTxn [] [])") (auto simp: isOk_iff)
  have l: "ListRows exDatabase (tDbName (exTxn [] [])) ''Bridge'' [] = Inr [(''u'', Some (exModel ''u'' ''br0''))]"
    by (simp add: ListRows_def dbTable_def exDatabase_def exTxn_def cacheTable_def exTC_def RowsByCondition_def rowByUUID_def Clone_def)
      (simp add: exCache_def Clone_def)
  have "map_of rows u = map_of [(''u'', Some (exModel ''u'' ''br0''))] u" for u
    using transaction_reads_its_writes [OF _ _ _ _ l _ r, of _ "exCache [] []" "[]"] by (simp add: exTxn_def cacheTable_def RowsByCondition_def exCache_def)
  then show ?thesis using r by simp
qed

definition exOps :: "Operation list" where
  "exOps = [renameBridge (nameIs ''br0'') ''br1'', bridgeOp OperationAbort (nameIs ''br1''), insertBridge ''br2'']"

lemma exOps_run: "case exRun exOps of Some (Inr _) \<Rightarrow> True | _ \<Rightarrow> False" "snd (initializeCache (NewTransaction exDatabase ''db'')) = None"
  "isOk (ExpandNamedUUIDs (assignUUIDs freshUUID exOps) (dbSchema (tModel (fst (initializeCache (NewTransaction exDatabase ''db''))))))" "Exists exDatabase ''db''"
  by code_simp+

theorem Transact_results_witness:
  "\<exists>t' results u oks rest. exRun exOps = Some (Inr (t', results, u)) \<and> results = map Some oks @ rest \<and> list_all (\<lambda>r. rError r = []) oks"
proof -
  obtain t' results u where r: "exRun exOps = Some (Inr (t', results, u))" using exOps_run(1) by (auto split: option.splits sum.splits)
  obtain ops' where o: "ExpandNamedUUIDs (assignUUIDs freshUUID exOps) (dbSchema (tModel (fst (initializeCache (NewTransaction exDatabase ''db''))))) = Inr ops'"
    using exOps_run(3) by (auto simp: isOk_iff)
  have i: "initializeCache (NewTransaction exDatabase ''db'') = (fst (initializeCache (NewTransaction exDatabase ''db'')), None)"
    using exOps_run(2) by (simp add: prod_eq_iff)
  have "tDbName (NewTransaction exDatabase ''db'') = ''db''" by (simp add: NewTransaction_def)
  then show ?thesis using Transact_results [OF _ i o r [unfolded exRun_def]] exOps_run(4) r by auto
qed

definition exWait :: Operation where
  "exWait = (bridgeOp OperationWait (nameIs ''br0''))\<lparr>Timeout := Some 100, Until := ''=='', opColumns := [''name''], opRows := [[(''name'', VAtom (AStr ''br7''))]]\<rparr>"


definition exTwo :: Transaction where
  "exTwo = exTxn [(''u1'', exModel ''u1'' ''x''), (''u2'', exModel ''u2'' ''y'')] [(IVal (VAtom (AStr ''x'')), [''u1'']), (IVal (VAtom (AStr ''y'')), [''u2''])]"

definition exTwoCache :: RowCache where
  "exTwoCache = exCache [(''u1'', exModel ''u1'' ''x''), (''u2'', exModel ''u2'' ''y'')] [(IVal (VAtom (AStr ''x'')), [''u1'']), (IVal (VAtom (AStr ''y'')), [''u2''])]"

lemma exTwo_ok: "checkIndexes exDatabase exTwo = Inr ()"
  by code_simp


end
