(* ===== verification/ClientApi.thy ===== *)
theory ClientApi
  imports Transaction
begin

text \<open>
  The client's API (\<open>client/condition.go\<close>, \<open>client/api.go\<close>, \<open>client/validation.go\<close>): conditions over the cached rows
  of a table, reading the cache, and turning models into operations. A \<open>Conditional\<close> has the data its Go type has, less the
  pointer to the cache: the pointer is shared with the \<open>api\<close> that uses it, so both read the cache as it is at the
  time of the call, the field \<open>aCache\<close>. The struct validator is a third-party package, the parameter \<open>Validator\<close>; the tracing
  spans, the logger and the read lock hook of the \<open>api\<close> struct are left out. An argument that may have any Go type is a datatype of
  the cases the code tells apart. The identifier of an operation's query, which is never sent, is the field by which
  \<open>ClientOp\<close> extends \<open>Operation\<close>.
\<close>

section \<open>Conditionals\<close>

record ModelCondition =
  mcField :: FieldPtr
  mcFunction :: ConditionFunction
  mcValue :: any

text \<open>A predicate argument: no function, a nil function, a function of another shape, or one from a model to bool.\<close>

datatype predicate =
    NotFunc
  | NilFunc
  | OtherFunc
  | PredFunc "StructType option" "Model \<Rightarrow> bool"

datatype Conditional =
    equalityConditional string "Model list"
  | explicitConditional string "Condition list list"
  | predicateConditional string "Model \<Rightarrow> bool" "string list option"
  | errorConditional err

definition generateConditionsFromModels :: "DatabaseModel \<Rightarrow> Model option list \<Rightarrow> Condition list list result" where
  "generateConditionsFromModels db models =
     mapR (\<lambda>m. case m of
       None \<Rightarrow> Inl (ErrWrongType ''NewModelInfo'')
     | Some m \<Rightarrow> bindR (NewModelInfo db m) (\<lambda>info. NewEqualityCondition info [])) models"

definition generateOvsdbConditionsFromModelConditions :: "Info \<Rightarrow> ModelCondition list \<Rightarrow> bool \<Rightarrow> Condition list list result" where
  "generateOvsdbConditionsFromModelConditions info conditions singleOp =
     foldR (\<lambda>anyConditions c.
       bindR (mapperNewCondition info (mcField c) (mcFunction c) (mcValue c)) (\<lambda>ovsdbCond.
         if singleOp then Inr (anyConditions[0 := anyConditions ! 0 @ [ovsdbCond]])
         else Inr (anyConditions @ [[ovsdbCond]])))
       (if singleOp then [[]] else []) conditions"

definition newErrorConditional :: "err \<Rightarrow> Conditional" where
  "newErrorConditional e = errorConditional (Errorf (''conditionerror: '' @ errText e))"

definition newExplicitConditional :: "string \<Rightarrow> 's TableCache \<Rightarrow> bool \<Rightarrow> Model \<Rightarrow> ModelCondition list \<Rightarrow> Conditional result" where
  "newExplicitConditional table cache matchAll m cond =
     bindR (NewModelInfo (tcDb cache) m) (\<lambda>info.
     bindR (generateOvsdbConditionsFromModelConditions info cond matchAll) (\<lambda>anyConditions.
       Inr (explicitConditional table anyConditions)))"

primrec condTable :: "Conditional \<Rightarrow> string" where
  "condTable (equalityConditional t _) = t"
| "condTable (explicitConditional t _) = t"
| "condTable (predicateConditional t _ _) = t"
| "condTable (errorConditional _) = []"

definition explicitMatches :: "RowCache \<Rightarrow> Condition list list \<Rightarrow> (string, Model option) gomap result" where
  "explicitMatches tableCache anyConditions =
     foldR (\<lambda>found allConditions.
       bindR (RowsByCondition tableCache allConditions) (\<lambda>models. Inr (gm_writeAll found models))) [] anyConditions"

definition predicateMatches :: "RowCache \<Rightarrow> (Model \<Rightarrow> bool) \<Rightarrow> string list option \<Rightarrow> (string, Model option) gomap" where
  "predicateMatches tableCache p candidates =
     map (\<lambda>(u, m). (u, Some (Clone m)))
       (filter (\<lambda>(u, m). p m)
         (case candidates of None \<Rightarrow> RowsShallow tableCache | Some us \<Rightarrow> RowsByUUIDsShallow tableCache us))"

definition Matches :: "'s TableCache \<Rightarrow> Conditional \<Rightarrow> (string, Model option) gomap result" where
  "Matches cache c =
     (case c of
        errorConditional e \<Rightarrow> Inl e
      | equalityConditional table models \<Rightarrow>
          (case cacheTable cache table of None \<Rightarrow> Inl ErrNotFound | Some tableCache \<Rightarrow> RowsByModels tableCache models)
      | explicitConditional table anyConditions \<Rightarrow>
          (case cacheTable cache table of None \<Rightarrow> Inl ErrNotFound | Some tableCache \<Rightarrow> explicitMatches tableCache anyConditions)
      | predicateConditional table p candidates \<Rightarrow>
          (case cacheTable cache table of None \<Rightarrow> Inl ErrNotFound | Some tableCache \<Rightarrow> Inr (predicateMatches tableCache p candidates)))"

text \<open>The models found, where \<open>ErrNotFound\<close> is the same as none.\<close>

definition foundModels :: "(string, Model option) gomap result \<Rightarrow> (string, Model option) gomap result" where
  "foundModels r = (case r of Inl e \<Rightarrow> if e = ErrNotFound then Inr [] else Inl e | Inr ms \<Rightarrow> Inr ms)"

definition Generate :: "'s TableCache \<Rightarrow> Conditional \<Rightarrow> Condition list list result" where
  "Generate cache c =
     (case c of
        errorConditional e \<Rightarrow> Inl e
      | equalityConditional table models \<Rightarrow>
          bindR (foundModels (Matches cache c)) (\<lambda>ms.
            if ms = [] then generateConditionsFromModels (tcDb cache) (map Some models)
            else generateConditionsFromModels (tcDb cache) (map snd ms))
      | explicitConditional table anyConditions \<Rightarrow>
          bindR (foundModels (Matches cache c)) (\<lambda>ms.
            if ms = [] then Inr anyConditions
            else generateConditionsFromModels (tcDb cache) (map snd ms))
      | predicateConditional table p candidates \<Rightarrow>
          bindR (Matches cache c) (\<lambda>ms. generateConditionsFromModels (tcDb cache) (map snd ms)))"

section \<open>Validation of models\<close>

record FieldError =
  feNamespace :: string
  feField :: string
  feValue :: string
  feActualTag :: string
  feParam :: string

datatype validatorErr = ValidationErrors "FieldError list" | InvalidValidation string

text \<open>The third-party validator (\<open>validate.Struct\<close>, \<open>validate.Var\<close>) and the \<open>validate\<close> tags of the user's structs.\<close>

record Validator =
  vStruct :: "Model \<Rightarrow> validatorErr option"
  vVar :: "any \<Rightarrow> string \<Rightarrow> validatorErr option"
  vTag :: "StructType \<Rightarrow> string \<Rightarrow> string"

definition joinWith :: "string \<Rightarrow> string list \<Rightarrow> string" where
  "joinWith sep xs = (case xs of [] \<Rightarrow> [] | y # ys \<Rightarrow> y @ concat (map (\<lambda>z. sep @ z) ys))"

definition targetField :: "FieldError \<Rightarrow> string" where
  "targetField fe = (if feNamespace fe \<noteq> [] then feNamespace fe else if feField fe \<noteq> [] then feField fe else ''<value>'')"

definition fieldMessage :: "FieldError \<Rightarrow> string" where
  "fieldMessage fe =
     ''field '' @ [CHR 0x27] @ targetField fe @ [CHR 0x27] @ '' (value: '' @ [CHR 0x27] @ feValue fe @ [CHR 0x27] @ '') failed on rule '' @
     [CHR 0x27] @ feActualTag fe @ [CHR 0x27] @ (if feParam fe \<noteq> [] then '' (param: '' @ feParam fe @ '')'' else [])"

definition formatValidationErrors :: "string \<Rightarrow> string \<Rightarrow> FieldError list \<Rightarrow> string" where
  "formatValidationErrors modelName context errs =
     ''validation error for model '' @ modelName @ (if context \<noteq> [] then '': '' @ context else []) @
     (if errs \<noteq> [] then ''; details: ['' @ joinWith '', '' (map fieldMessage errs) @ '']'' else [])"

text \<open>The text of \<open>%w\<close> on the validator's own errors is a parameter of the message that nothing reads; it is left out.\<close>

definition validateModel :: "Validator \<Rightarrow> Model \<Rightarrow> unit result" where
  "validateModel v m =
     (case vStruct v m of
        None \<Rightarrow> Inr ()
      | Some (ValidationErrors es) \<Rightarrow> Inl (Errorf (''model validation failed: '' @ formatValidationErrors (sName (mType m)) [] es))
      | Some (InvalidValidation s) \<Rightarrow> Inl (Errorf (''error while validating model of type '' @ sName (mType m))))"

record ModelMutation =
  mmField :: FieldPtr
  mmMutator :: Mutator
  mmValue :: any

definition validateMutation :: "Validator \<Rightarrow> Model \<Rightarrow> Info \<Rightarrow> ModelMutation \<Rightarrow> unit result" where
  "validateMutation v m info mutation =
     (case ColumnByPtr info (mmField mutation) of
        Inl (Panic s) \<Rightarrow> Inl (Panic s)
      | Inl e \<Rightarrow> Inl (Errorf ''could not get column for mutation field'')
      | Inr col \<Rightarrow>
          (case find (\<lambda>f. fTag f = col) (sFields (mType m)) of
             None \<Rightarrow> Inl (Errorf (''could not find struct field for column '' @ col))
           | Some structField \<Rightarrow>
               let validateTag = vTag v (mType m) (fName structField) in
               if validateTag = [] then Inr ()
               else case vVar v (mmValue mutation) validateTag of
                      None \<Rightarrow> Inr ()
                    | Some (ValidationErrors es) \<Rightarrow>
                        Inl (Errorf (''mutation validation failed: '' @
                          formatValidationErrors (sName (mType m)) (''mutation on column '' @ col) es))
                    | Some (InvalidValidation s) \<Rightarrow>
                        Inl (Errorf (''error while validating mutation for model of type '' @ sName (mType m) @ '' on column '' @ col))))"

definition validateMutations :: "Validator \<Rightarrow> Model \<Rightarrow> Info \<Rightarrow> ModelMutation list \<Rightarrow> unit result" where
  "validateMutations v m info mutations = foldR (\<lambda>_ mutation. validateMutation v m info mutation) () mutations"

section \<open>The API\<close>

record 's api =
  aCache :: "'s TableCache option"
  aCond :: "Conditional option"
  aValidateModel :: bool

record ClientOp = Operation +
  correlationID :: string

definition newAPI :: "'s TableCache option \<Rightarrow> bool \<Rightarrow> 's api" where
  "newAPI cache check = \<lparr>aCache = cache, aCond = None, aValidateModel = check\<rparr>"

definition newConditionalAPI :: "'s TableCache option \<Rightarrow> Conditional \<Rightarrow> bool \<Rightarrow> 's api" where
  "newConditionalAPI cache cond check = \<lparr>aCache = cache, aCond = Some cond, aValidateModel = check\<rparr>"

text \<open>
  The table of a type. A nil interface value and a value that is no pointer to a struct of the database model have
  no type in the model's type map: \<open>None\<close>.
\<close>

definition getTableFromType :: "'s api \<Rightarrow> StructType option \<Rightarrow> string result" where
  "getTableFromType a t =
     (case aCache a of
        None \<Rightarrow> Inl ErrNotConnected
      | Some cache \<Rightarrow>
          (case t of
             None \<Rightarrow> Inl (ErrWrongType ''Model not found in Database Model'')
           | Some st \<Rightarrow> let table = FindTable (tcDb cache) st in
               if table = [] then Inl (ErrWrongType ''Model not found in Database Model'') else Inr table))"

definition getTableFromModel :: "'s api \<Rightarrow> Model \<Rightarrow> string result" where
  "getTableFromModel a m = getTableFromType a (Some (mType m))"

definition getTableFromFunc :: "'s api \<Rightarrow> predicate \<Rightarrow> string result" where
  "getTableFromFunc a p =
     (case p of
        NotFunc \<Rightarrow> Inl (ErrWrongType ''Expected function'')
      | NilFunc \<Rightarrow> Inl (ErrWrongType ''Expected non-nil function'')
      | OtherFunc \<Rightarrow> Inl (ErrWrongType ''Expected func(Model) bool'')
      | PredFunc t _ \<Rightarrow> getTableFromType a t)"

text \<open>An error of the construction is delayed to the use of the conditional; a panic is not.\<close>

definition conditionOf :: "Conditional result \<Rightarrow> Conditional result" where
  "conditionOf r = (case r of
     Inl (Panic s) \<Rightarrow> Inl (Panic s)
   | Inl e \<Rightarrow> Inr (newErrorConditional e)
   | Inr c \<Rightarrow> Inr c)"

definition predicateFunc :: "predicate \<Rightarrow> Model \<Rightarrow> bool" where
  "predicateFunc p = (case p of PredFunc _ f \<Rightarrow> f | _ \<Rightarrow> (\<lambda>_. False))"

definition conditionFromFunc :: "'s api \<Rightarrow> predicate \<Rightarrow> Conditional result" where
  "conditionFromFunc a p = conditionOf (bindR (getTableFromFunc a p) (\<lambda>table.
     Inr (predicateConditional table (predicateFunc p) None)))"

definition conditionFromFuncByUUIDs :: "'s api \<Rightarrow> predicate \<Rightarrow> string list \<Rightarrow> Conditional result" where
  "conditionFromFuncByUUIDs a p uuids = conditionOf (bindR (getTableFromFunc a p) (\<lambda>table.
     Inr (predicateConditional table (predicateFunc p) (Some uuids))))"

definition conditionFromModels :: "'s api \<Rightarrow> Model list \<Rightarrow> Conditional result" where
  "conditionFromModels a models = conditionOf
     (case models of
        [] \<Rightarrow> Inl (Errorf ''at least one model required'')
      | m # _ \<Rightarrow> bindR (getTableFromModel a m) (\<lambda>tableName. Inr (equalityConditional tableName models)))"

definition conditionFromExplicitConditions :: "'s api \<Rightarrow> bool \<Rightarrow> Model \<Rightarrow> ModelCondition list \<Rightarrow> Conditional result" where
  "conditionFromExplicitConditions a matchAll m cond = conditionOf
     (if cond = [] then Inl (Errorf ''at least one condition is required'')
      else bindR (getTableFromModel a m) (\<lambda>tableName.
           case aCache a of
             None \<Rightarrow> Inl (Panic ''nil pointer dereference'')
           | Some cache \<Rightarrow> newExplicitConditional tableName cache matchAll m cond))"

definition withCond :: "'s api \<Rightarrow> Conditional result \<Rightarrow> 's api result" where
  "withCond a r = bindR r (\<lambda>c. Inr (newConditionalAPI (aCache a) c (aValidateModel a)))"

definition ApiWhere :: "'s api \<Rightarrow> Model list \<Rightarrow> 's api result" where
  "ApiWhere a models = withCond a (conditionFromModels a models)"

definition WhereAny :: "'s api \<Rightarrow> Model \<Rightarrow> ModelCondition list \<Rightarrow> 's api result" where
  "WhereAny a m cond = withCond a (conditionFromExplicitConditions a False m cond)"

definition WhereAll :: "'s api \<Rightarrow> Model \<Rightarrow> ModelCondition list \<Rightarrow> 's api result" where
  "WhereAll a m cond = withCond a (conditionFromExplicitConditions a True m cond)"

definition WhereCache :: "'s api \<Rightarrow> predicate \<Rightarrow> 's api result" where
  "WhereCache a p = withCond a (conditionFromFunc a p)"

definition WhereCacheByUUIDs :: "'s api \<Rightarrow> predicate \<Rightarrow> string list \<Rightarrow> 's api result" where
  "WhereCacheByUUIDs a p uuids = withCond a (conditionFromFuncByUUIDs a p uuids)"

section \<open>Reading the cache\<close>

text \<open>
  The argument of \<open>List\<close>: no pointer, a pointer to something else, or a pointer to a slice with an element
  type, its elements (\<open>None\<close> for a nil slice) and its capacity. \<open>List\<close> returns the slice as it leaves it.
\<close>

record resultSlice =
  slElem :: "StructType option"
  slItems :: "Model list option"
  slCap :: nat

datatype listArg = NotPtr | PtrToOther | PtrToSlice resultSlice

definition slLen :: "resultSlice \<Rightarrow> nat" where
  "slLen sl = (case slItems sl of None \<Rightarrow> 0 | Some xs \<Rightarrow> length xs)"

text \<open>Appending a nil model to a slice panics in \<open>reflect\<close>.\<close>

definition appendRow :: "Model list \<Rightarrow> Model option \<Rightarrow> Model list result" where
  "appendRow xs row = (case row of None \<Rightarrow> Inl (Panic ''reflect: call of reflect.Append on zero Value'') | Some m \<Rightarrow> Inr (xs @ [m]))"

fun fillSlice :: "nat \<Rightarrow> Model list \<Rightarrow> Model option list \<Rightarrow> Model list result" where
  "fillSlice maxCap xs [] = Inr xs"
| "fillSlice maxCap xs (row # rows) =
     (if length xs \<ge> maxCap then Inr xs else bindR (appendRow xs row) (\<lambda>xs. fillSlice maxCap xs rows))"

definition checkListCond :: "'s api \<Rightarrow> string \<Rightarrow> unit result" where
  "checkListCond a table =
     (case aCond a of
        None \<Rightarrow> Inr ()
      | Some (errorConditional e) \<Rightarrow> Inl e
      | Some c \<Rightarrow> if condTable c \<noteq> table then Inl (ErrWrongType ''Table derived from input type does not match Table from Condition'')
                 else Inr ())"

definition listRows :: "'s api \<Rightarrow> 's TableCache \<Rightarrow> string \<Rightarrow> Model option list result" where
  "listRows a cache table =
     (case cacheTable cache table of
        None \<Rightarrow> Inl ErrNotFound
      | Some tableCache \<Rightarrow>
          (case aCond a of
             Some c \<Rightarrow> bindR (Matches cache c) (\<lambda>rows. Inr (map snd rows))
           | None \<Rightarrow> Inr (map (Some \<circ> snd) (Rows tableCache))))"

definition ListInto :: "'s api \<Rightarrow> listArg \<Rightarrow> resultSlice result" where
  "ListInto a arg =
     (case arg of
        NotPtr \<Rightarrow> Inl (ErrWrongType ''Expected pointer to slice of valid Models'')
      | PtrToOther \<Rightarrow> Inl (ErrWrongType ''Expected pointer to slice of valid Models'')
      | PtrToSlice sl \<Rightarrow>
          bindR (getTableFromType a (slElem sl)) (\<lambda>table.
          bindR (checkListCond a table) (\<lambda>_.
            case aCache a of
              None \<Rightarrow> Inl (Panic ''nil pointer dereference'')
            | Some cache \<Rightarrow>
                bindR (listRows a cache table) (\<lambda>rows.
                  let sl' = (if slItems sl = None \<or> slCap sl = 0 then sl\<lparr>slItems := Some [], slCap := length rows\<rparr> else sl) in
                  bindR (fillSlice (slCap sl') (case slItems sl' of None \<Rightarrow> [] | Some xs \<Rightarrow> xs) rows) (\<lambda>xs.
                    Inr (sl'\<lparr>slItems := Some xs\<rparr>))))))"

text \<open>
  \<open>CloneInto\<close> for a model without its own copying method: the source is encoded as JSON and decoded over the
  destination, which keeps the entries of a map that is already there.
\<close>

definition cloneField :: "any \<Rightarrow> any option \<Rightarrow> any" where
  "cloneField src dst =
     (case (src, dst) of
        (VMap k v (Some m), Some (VMap _ _ (Some d))) \<Rightarrow> VMap k v (Some (gm_writeAll d m))
      | _ \<Rightarrow> src)"

definition CloneInto :: "Model \<Rightarrow> Model \<Rightarrow> Model" where
  "CloneInto src dst = dst\<lparr>mObj := map (\<lambda>(f, v). (f, cloneField v (map_of (mObj dst) f))) (mObj src)\<rparr>"

definition ApiGet :: "'s api \<Rightarrow> Model \<Rightarrow> Model result" where
  "ApiGet a m =
     bindR (getTableFromModel a m) (\<lambda>table.
       case aCache a of
         None \<Rightarrow> Inl (Panic ''nil pointer dereference'')
       | Some cache \<Rightarrow>
           (case cacheTable cache table of
              None \<Rightarrow> Inl ErrNotFound
            | Some tableCache \<Rightarrow>
                bindR (RowByModel tableCache m) (\<lambda>(_, found).
                  case found of None \<Rightarrow> Inl ErrNotFound | Some x \<Rightarrow> Inr (CloneInto x m))))"

section \<open>Building operations\<close>

definition cacheDb :: "'s api \<Rightarrow> DatabaseModel result" where
  "cacheDb a = (case aCache a of None \<Rightarrow> Inl (Panic ''nil pointer dereference'') | Some cache \<Rightarrow> Inr (tcDb cache))"

definition generated :: "'s api \<Rightarrow> Condition list list result" where
  "generated a = (case (aCache a, aCond a) of
     (Some cache, Some c) \<Rightarrow> Generate cache c
   | (None, Some (errorConditional e)) \<Rightarrow> Inl e
   | _ \<Rightarrow> Inl (Panic ''nil pointer dereference''))"

definition validated :: "Validator \<Rightarrow> 's api \<Rightarrow> Model \<Rightarrow> unit result" where
  "validated v a m = (if aValidateModel a then validateModel v m else Inr ())"

definition createUUIDs :: "Info \<Rightarrow> (string \<times> string) result" where
  "createUUIDs info =
     (case FieldByColumn info ''_uuid'' of
        Inl (Panic s) \<Rightarrow> Inl (Panic s)
      | Inl _ \<Rightarrow> Inl (Errorf ''error accessing _uuid field'')
      | Inr field \<Rightarrow> bindR (stringField field) (\<lambda>u.
          Inr (if IsNamedUUID u then ([], u) else if IsValidUUID u then (u, []) else ([], []))))"

definition createOp :: "Validator \<Rightarrow> 's api \<Rightarrow> string \<Rightarrow> Model \<Rightarrow> (string \<times> Operation) result" where
  "createOp v a tableName m =
     bindR (getTableFromModel a m) (\<lambda>currentTable.
     bindR (validated v a m) (\<lambda>_.
     bindR (if tableName = [] then Inr currentTable
            else if currentTable \<noteq> tableName then Inl (Errorf ''models must belong to the same table for a single Create operation'')
            else Inr tableName) (\<lambda>tableName.
     bindR (cacheDb a) (\<lambda>db.
     bindR (NewModelInfo db m) (\<lambda>info.
     bindR (createUUIDs info) (\<lambda>(realUUID, namedUUID).
     bindR (NewRow info) (\<lambda>row.
       Inr (tableName, emptyOp\<lparr>Op := OperationInsert, opTable := tableName, opRow := AList.delete ''_uuid'' row,
                               opUUID := realUUID, UUIDName := namedUUID\<rparr>))))))))"

definition ApiCreate :: "Validator \<Rightarrow> 's api \<Rightarrow> Model list \<Rightarrow> Operation list result" where
  "ApiCreate v a models =
     bindR (foldR (\<lambda>(tableName, ops) m.
       bindR (createOp v a tableName m) (\<lambda>(tableName, op). Inr (tableName, ops @ [op]))) ([], []) models) (\<lambda>(_, ops). Inr ops)"

definition newMutations :: "Info \<Rightarrow> ModelMutation list \<Rightarrow> Mutation list result" where
  "newMutations info mutationObjs =
     mapR (\<lambda>o'. case ColumnByPtr info (mmField o') of
        Inl (Panic s) \<Rightarrow> Inl (Panic s)
      | Inl _ \<Rightarrow> Inl (Errorf ''could not get column for mutation field'')
      | Inr col \<Rightarrow>
          (case NewMutation info col (mmMutator o') (mmValue o') of
             Inl (Panic s) \<Rightarrow> Inl (Panic s)
           | Inl _ \<Rightarrow> Inl (Errorf (''failed to create OVSDB mutation for column '' @ col))
           | Inr mutation \<Rightarrow> Inr mutation)) mutationObjs"

definition ApiMutate :: "Validator \<Rightarrow> 's api \<Rightarrow> Model \<Rightarrow> ModelMutation list \<Rightarrow> Operation list result" where
  "ApiMutate v a m mutationObjs =
     (if mutationObjs = [] then Inl (Errorf ''at least one Mutation must be provided'')
      else bindR (getTableFromModel a m) (\<lambda>tableName.
           bindR (cacheDb a) (\<lambda>db.
             case Table (dbSchema db) tableName of
               None \<Rightarrow> Inl (Errorf (''schema not found for table '' @ tableName))
             | Some _ \<Rightarrow>
                 bindR (NewModelInfo db m) (\<lambda>info.
                 bindR (if aValidateModel a then validateMutations v m info mutationObjs else Inr ()) (\<lambda>_.
                 bindR (newMutations info mutationObjs) (\<lambda>mutations.
                 bindR (generated a) (\<lambda>conditions.
                   Inr (map (\<lambda>condition. emptyOp\<lparr>Op := OperationMutate, opTable := tableName, Where := condition,
                                                  Mutations := mutations\<rparr>) conditions))))))))"

definition checkMutable :: "TableSchema option \<Rightarrow> Info \<Rightarrow> FieldPtr list \<Rightarrow> unit result" where
  "checkMutable tableSchema info fs =
     foldR (\<lambda>_ f. bindR (ColumnByPtr info f) (\<lambda>col.
       case Option.bind tableSchema (\<lambda>t. map_of (Columns t) col) of
         None \<Rightarrow> Inl (Panic ''nil pointer dereference'')
       | Some c \<Rightarrow> if \<not> Mutable c then Inl (Errorf (''unable to update field '' @ col @ '' as it is not mutable'')) else Inr ())) () fs"

definition dropImmutable :: "TableSchema \<Rightarrow> Row \<Rightarrow> Row" where
  "dropImmutable t row = AList.delete ''_uuid''
     (fold (\<lambda>(col, c) row. if Mutable c then row else AList.delete col row) (Columns t) row)"

definition ApiUpdate :: "Validator \<Rightarrow> 's api \<Rightarrow> Model \<Rightarrow> FieldPtr list \<Rightarrow> Operation list result" where
  "ApiUpdate v a m fs =
     bindR (getTableFromModel a m) (\<lambda>tableName.
     bindR (validated v a m) (\<lambda>_.
     bindR (cacheDb a) (\<lambda>db.
     bindR (NewModelInfo db m) (\<lambda>info.
     bindR (checkMutable (Table (dbSchema db) tableName) info fs) (\<lambda>_.
     bindR (NewRowF info fs) (\<lambda>row.
       case Table (dbSchema db) tableName of
         None \<Rightarrow> Inl (Panic ''nil pointer dereference'')
       | Some t \<Rightarrow>
           let row = dropImmutable t row in
           if row = [] then Inl (Errorf ''attempted to update using an empty row. please check that all fields you wish to update are mutable'')
           else bindR (generated a) (\<lambda>conditions.
             Inr (map (\<lambda>condition. emptyOp\<lparr>Op := OperationUpdate, opTable := tableName, opRow := row, Where := condition\<rparr>) conditions))))))))"

definition ApiDelete :: "'s api \<Rightarrow> Operation list result" where
  "ApiDelete a =
     bindR (generated a) (\<lambda>conditions.
       Inr (map (\<lambda>condition. emptyOp\<lparr>Op := OperationDelete,
         opTable := (case aCond a of None \<Rightarrow> [] | Some c \<Rightarrow> condTable c), Where := condition\<rparr>) conditions))"

definition ApiWait :: "'s api \<Rightarrow> string \<Rightarrow> int option \<Rightarrow> Model \<Rightarrow> FieldPtr list \<Rightarrow> Operation list result" where
  "ApiWait a untilConFun timeout m fs =
     bindR (generated a) (\<lambda>conditions.
     bindR (getTableFromModel a m) (\<lambda>table.
     bindR (cacheDb a) (\<lambda>db.
     bindR (NewModelInfo db m) (\<lambda>info.
     bindR (mapR (ColumnByPtr info) fs) (\<lambda>columnNames.
     bindR (NewRowF info fs) (\<lambda>row.
       Inr (map (\<lambda>condition. emptyOp\<lparr>Op := OperationWait, opTable := table, Where := condition, Until := untilConFun,
                                       opColumns := columnNames, opRows := [row], Timeout := timeout\<rparr>) conditions)))))))"

definition getColumns :: "DatabaseModel \<Rightarrow> Model \<Rightarrow> FieldPtr list \<Rightarrow> string list result" where
  "getColumns db m fs =
     (if fs = [] then Inr []
      else case NewModelInfo db m of
             Inl (Panic s) \<Rightarrow> Inl (Panic s)
           | Inl _ \<Rightarrow> Inl (Errorf ''failed to create model info for select'')
           | Inr info \<Rightarrow> ColumnsByPtrWithUUID info fs)"

text \<open>\<open>Select\<close> with the identifier that \<open>uuid.NewString\<close> gave.\<close>

definition ApiSelect :: "string \<Rightarrow> 's api \<Rightarrow> Model \<Rightarrow> FieldPtr list \<Rightarrow> ClientOp list result" where
  "ApiSelect cid a m fs =
     bindR (getTableFromModel a m) (\<lambda>tableName.
     bindR (case aCond a of None \<Rightarrow> Inr [[]] | Some _ \<Rightarrow> generated a) (\<lambda>conditions.
     bindR (cacheDb a) (\<lambda>db.
       if \<not> Valid db then Inl (Errorf ''database model/schema info not available for select'')
       else bindR (getColumns db m fs) (\<lambda>columnsToSelect.
         Inr (map (\<lambda>condition. Operation.extend
           (emptyOp\<lparr>Op := OperationSelect, opTable := tableName, Where := condition, opColumns := columnsToSelect\<rparr>)
           (ClientOp.fields cid)) conditions)))))"

section \<open>Conditions by UUID\<close>

definition uuidEq :: "string \<Rightarrow> Condition" where
  "uuidEq u = NewCondition ''_uuid'' ConditionEqual (VAtom (AUUID u))"

text \<open>A cached row whose object has the row's UUID, and a cache of such rows.\<close>

definition keyedRow :: "DatabaseModel \<Rightarrow> string \<Rightarrow> string \<Rightarrow> Model \<Rightarrow> bool" where
  "keyedRow db table u m = (tableModel db table m \<and> u \<noteq> [] \<and> u \<noteq> ''00000000-0000-0000-0000-000000000000''
     \<and> bindR (NewModelInfo db m) (\<lambda>i. FieldByColumn i ''_uuid'') = Inr (VAtom (AStr u)))"

definition keyedCache :: "RowCache \<Rightarrow> bool" where
  "keyedCache r = list_all (\<lambda>(u, m). keyedRow (rcDb r) (rcName r) u m) (rcCache r)"

lemma isValidColumn_total:
  assumes "wfInfo i"
  shows "\<exists>b. isValidColumn i c = Inr b"
proof (cases "map_of (Fields (iMeta i)) c")
  case None
  then show ?thesis by (auto simp: isValidColumn_def hasColumn_def)
next
  case (Some f)
  show ?thesis
  proof (rule wfInfo_field [OF assms Some])
    fix t col v
    assume v: "Column (mTableSchema (iMeta i)) c = Some col" "NativeType col = Inr t" "map_of (mObj (Obj i)) f = Some v"
      "typeOf v = Some t" "wfVal v" "wfColumn col"
    obtain b where "IsDefaultValue col v = Inr b" using IsDefaultValue_total [OF v(6,2,4,5)] by blast
    then show ?thesis using v Some by (auto simp: isValidColumn_def hasColumn_def FieldByColumn_def)
  qed
qed

lemma validIndex_total: "wfInfo i \<Longrightarrow> \<exists>b. validIndex i idx = Inr b"
proof (induction idx)
  case (Cons c idx)
  obtain b where b: "isValidColumn i c = Inr b" using isValidColumn_total [OF Cons.prems] by blast
  show ?case using Cons b by (cases b) auto
qed auto

lemma getValidIndexes_uuid:
  assumes "wfInfo i" and "FieldByColumn i ''_uuid'' = Inr (VAtom (AStr u))"
    and "u \<noteq> []" "u \<noteq> ''00000000-0000-0000-0000-000000000000''"
  shows "\<exists>rest. getValidIndexes i = Inr ([''_uuid''] # rest)"
proof -
  let ?step = "\<lambda>acc idx. bindR (validIndex i idx) (\<lambda>ok. Inr (if ok then acc @ [idx] else acc))"
  have h: "hasColumn i ''_uuid''" using assms(2) by (auto simp: FieldByColumn_def hasColumn_def split: option.splits)
  have c: "Column (mTableSchema (iMeta i)) ''_uuid'' = Some UUIDColumn" by (simp add: Column_def)
  have "validIndex i [''_uuid''] = Inr True"
    using assms(2-4) by (simp add: isValidColumn_def h c) (simp add: IsDefaultValue_def isDefaultBaseValue_def UUIDColumn_def)
  moreover have "\<exists>t. foldR ?step [[''_uuid'']] idxs = Inr t \<and> (\<exists>rest. t = [''_uuid''] # rest)" for idxs
  proof (rule foldR_total)
    fix acc :: "string list list" and idx
    assume "\<exists>rest. acc = [''_uuid''] # rest"
    then show "\<exists>acc'. ?step acc idx = Inr acc' \<and> (\<exists>rest. acc' = [''_uuid''] # rest)"
      using validIndex_total [OF assms(1), of idx] by auto
  qed simp
  ultimately show ?thesis by (auto simp: getValidIndexes_def)
qed

lemma keyedRow_condition:
  assumes "wfDb db" "keyedRow db table u m"
  shows "bindR (NewModelInfo db m) (\<lambda>i. NewEqualityCondition i []) = Inr [uuidEq u]"
proof -
  have k: "tableModel db table m" "u \<noteq> []" "u \<noteq> ''00000000-0000-0000-0000-000000000000''"
    "bindR (NewModelInfo db m) (\<lambda>i. FieldByColumn i ''_uuid'') = Inr (VAtom (AStr u))"
    using assms(2) by (auto simp: keyedRow_def)
  obtain i where i: "NewModelInfo db m = Inr i" "wfInfo i" using NewModelInfo_wf [OF assms(1) k(1)] by metis
  have f: "FieldByColumn i ''_uuid'' = Inr (VAtom (AStr u))" using k(4) i(1) by simp
  obtain rest where "getValidIndexes i = Inr ([''_uuid''] # rest)" using getValidIndexes_uuid [OF i(2) f k(2,3)] by blast
  moreover have "equalityCondition i ''_uuid'' = Inr (uuidEq u)"
    using f by (simp add: equalityCondition_def Column_def NativeToOvs_def NativeType_def UUIDColumn_def uuidEq_def)
  ultimately show ?thesis using i(1) by (simp add: NewEqualityCondition_def)
qed

text \<open>The server finds by such a condition the row itself, when it has it.\<close>

lemma RowsByCondition_uuidEq:
  assumes "Table (dbSchema (rcDb r)) (rcName r) = Some ts"
  shows "RowsByCondition r [uuidEq u] = Inr (if HasRow r u then [(u, rowByUUID r u)] else [])"
proof -
  have "nativeConditionValue r (uuidEq u) = Inr (VAtom (AStr u))"
    using assms by (simp add: nativeConditionValue_def uuidEq_def NewCondition_def Column_def) (simp add: OvsToNative_def UUIDColumn_def)
  then show ?thesis
    by (simp add: RowsByCondition_def uuidsByConditionsAsIndexes_def toIndexableCondition_def conditionMatches_def
        uuidEq_def NewCondition_def stringField_def usEmpty_def usOf_def)
qed

section \<open>The rows a conditional matches\<close>

text \<open>Rows of a cache by their UUIDs.\<close>

definition cachedRows :: "RowCache \<Rightarrow> (string, Model option) gomap \<Rightarrow> bool" where
  "cachedRows r ms = (gm_ok ms \<and> (\<forall>(u, x) \<in> set ms. HasRow r u \<and> x = rowByUUID r u))"

lemma cachedRows_update: "cachedRows r ms \<Longrightarrow> HasRow r u \<Longrightarrow> cachedRows r (AList.update u (rowByUUID r u) ms)"
proof -
  assume a: "cachedRows r ms" "HasRow r u"
  then have ok: "gm_ok (AList.update u (rowByUUID r u) ms)" by (simp add: cachedRows_def)
  show ?thesis unfolding cachedRows_def
  proof (intro conjI ok, clarify)
    fix w x assume "(w, x) \<in> set (AList.update u (rowByUUID r u) ms)"
    then have "map_of (AList.update u (rowByUUID r u) ms) w = Some x" using map_of_in_iff [OF ok] by blast
    then have "(w = u \<and> x = rowByUUID r u) \<or> (w, x) \<in> set ms" by (auto split: if_splits dest: map_of_SomeD)
    then show "HasRow r w \<and> x = rowByUUID r w" using a by (auto simp: cachedRows_def)
  qed
qed

lemma cachedRows_writeAll:
  assumes "cachedRows r found" "\<forall>(u, x) \<in> set ms. HasRow r u \<and> x = rowByUUID r u"
  shows "cachedRows r (gm_writeAll found ms)"
  using assms
proof (induction ms arbitrary: found)
  case (Cons p ms)
  obtain u x where p: "p = (u, x)" by fastforce
  then have "cachedRows r (AList.update u x found)" using cachedRows_update [OF Cons.prems(1)] Cons.prems(2) by auto
  then show ?case using Cons p by (simp add: gm_writeAll_def)
qed (simp add: gm_writeAll_def)

lemma satisfies_cached: "satisfies r u (c, v) \<Longrightarrow> HasRow r u"
  by (auto simp: satisfies_def HasRow_def modelInfo_def split: if_splits option.splits)

lemma RowsByCondition_cached:
  assumes "RowsByCondition r conds = Inr res"
  shows "\<forall>(u, x) \<in> set res. HasRow r u \<and> x = rowByUUID r u"
proof (cases "conds = []")
  case True
  then have "res = map (\<lambda>(u, _). (u, rowByUUID r u)) (rcCache r)" using assms by (simp add: RowsByCondition_def)
  moreover have "HasRow r u" if "(u, m) \<in> set (rcCache r)" for u m
    using that by (force simp: HasRow_def map_of_eq_None_iff)
  ultimately show ?thesis by auto
next
  case False
  then obtain vs m0 m where v: "mapR (nativeConditionValue r) conds = Inr vs" "conditionLoop r m0 (zip conds vs) = Inr m"
      "res = map (\<lambda>u. (u, rowByUUID r u)) (usOf m)"
    using assms by (auto simp: RowsByCondition_def resR)
  have ne: "zip conds vs \<noteq> []" using False mapR_length [OF v(1)] by (cases conds; cases vs) auto
  have "HasRow r u" if "u \<in> set (usOf m)" for u
  proof -
    obtain c v' where "(c, v') \<in> set (zip conds vs)" using ne by (cases "zip conds vs") auto
    then show ?thesis using conditionLoop_sound [OF v(2) that] ne satisfies_cached by blast
  qed
  then show ?thesis using v(3) by auto
qed

lemma explicitMatches_cached:
  assumes "explicitMatches r cs = Inr ms"
  shows "cachedRows r ms"
  using assms unfolding explicitMatches_def
proof (rule foldR_invariant)
  fix found conds found'
  assume f: "cachedRows r found" "bindR (RowsByCondition r conds) (\<lambda>models. Inr (gm_writeAll found models)) = Inr found'"
  then obtain models where "RowsByCondition r conds = Inr models" "found' = gm_writeAll found models" by (auto simp: resR)
  then show "cachedRows r found'" using cachedRows_writeAll [OF f(1) RowsByCondition_cached] by blast
qed (simp add: cachedRows_def)

lemma searchSpecs_cached:
  assumes "rcInv r" "searchSpecs r info useClient results specs = Inr ms" "cachedRows r results" "set specs \<subseteq> set (rcSpecs r)"
  shows "cachedRows r ms"
  using assms(2-4)
proof (induction specs)
  case (Cons spec specs)
  have keep: "cachedRows r (fold (\<lambda>u res. if map_of res u = None then AList.update u (rowByUUID r u) res else res) us res0)"
    if "cachedRows r res0" "\<forall>u \<in> set us. HasRow r u" for us res0
    using that by (induction us arbitrary: res0) (auto simp: cachedRows_update)
  have has: "HasRow r u" if "map_of (indexVals r (isIndex spec)) v = Some us" "u \<in> set us" for v us u
  proof -
    have "tracks (lookup spec (rcIndexes r)) (relOf r spec)" using assms(1) Cons.prems(3) by (auto simp: rcInv_def)
    then have "set (usOf (lookup spec (rcIndexes r) v)) = {u. relOf r spec u = Some v}" by (auto simp: tracks_def)
    moreover have "usOf (lookup spec (rcIndexes r) v) = us" using that(1) by (simp add: lookup_def indexVals_def usOf_def split: option.splits)
    ultimately have "relOf r spec u = Some v" using that(2) by auto
    then show ?thesis by (auto simp: relOf_def HasRow_def split: option.splits)
  qed
  show ?case
    using Cons.prems Cons.IH keep has
    by (auto simp: resR split: if_splits sum.splits err.splits option.splits)
qed simp

lemma rowsByModels_cached:
  assumes "rcInv r" "rowsByModels r models useClient = Inr ms"
  shows "cachedRows r ms"
  using assms(2) unfolding rowsByModels_def
proof (rule foldR_invariant)
  fix results m results'
  assume f: "cachedRows r results" "rowsByModelStep r useClient results m = Inr results'"
  then obtain info uuid where "(uuid \<noteq> [] \<and> map_of results uuid = None \<and> rowByUUID r uuid \<noteq> None \<and> results' = AList.update uuid (rowByUUID r uuid) results)
      \<or> searchSpecs r info useClient results (rcSpecs r) = Inr results'"
    by (fastforce simp: rowsByModelStep_def resR split: if_splits sum.splits)
  then show "cachedRows r results'"
    using cachedRows_update [OF f(1)] searchSpecs_cached [OF assms(1) _ f(1)] by (auto simp: rowByUUID_def HasRow_def)
qed (simp add: cachedRows_def)

lemma RowsByUUIDsShallow_ok:
  "gm_ok (RowsByUUIDsShallow r us)"
  "map_of (RowsByUUIDsShallow r us) u = (if u \<in> set us then map_of (rcCache r) u else None)"
proof -
  let ?f = "\<lambda>u res. case map_of (rcCache r) u of None \<Rightarrow> res | Some row \<Rightarrow> AList.update u row res"
  have "gm_ok res \<Longrightarrow> gm_ok (fold ?f us res)" for res
    by (induction us arbitrary: res) (auto split: option.splits)
  then show "gm_ok (RowsByUUIDsShallow r us)" by (simp add: RowsByUUIDsShallow_def)
  have "map_of (fold ?f us res) u = (if u \<in> set us \<and> map_of (rcCache r) u \<noteq> None then map_of (rcCache r) u else map_of res u)" for res
    by (induction us arbitrary: res) (auto split: option.splits)
  then show "map_of (RowsByUUIDsShallow r us) u = (if u \<in> set us then map_of (rcCache r) u else None)"
    by (simp add: RowsByUUIDsShallow_def)
qed

lemma gm_ok_filter: "gm_ok m \<Longrightarrow> gm_ok (filter P m)"
  by (induction m) auto

text \<open>A predicate matches exactly the cached rows that satisfy it, among the candidates when there are any.\<close>

lemma predicateMatches_exact:
  assumes "gm_ok (rcCache r)"
  shows "gm_ok (predicateMatches r p candidates)"
    and "(u, x) \<in> set (predicateMatches r p candidates) \<longleftrightarrow>
      (\<exists>m. map_of (rcCache r) u = Some m \<and> p m \<and> x = Some m \<and> (case candidates of None \<Rightarrow> True | Some us \<Rightarrow> u \<in> set us))"
proof -
  let ?rows = "case candidates of None \<Rightarrow> RowsShallow r | Some us \<Rightarrow> RowsByUUIDsShallow r us"
  have ok: "gm_ok ?rows" using assms RowsByUUIDsShallow_ok(1) by (simp add: RowsShallow_def split: option.split)
  have "keys (predicateMatches r p candidates) = keys (filter (\<lambda>(u, m). p m) ?rows)"
    by (simp add: predicateMatches_def comp_def split_def)
  then show "gm_ok (predicateMatches r p candidates)" using gm_ok_filter [OF ok] by metis
  have "(u, m) \<in> set ?rows \<longleftrightarrow> map_of (rcCache r) u = Some m \<and> (case candidates of None \<Rightarrow> True | Some us \<Rightarrow> u \<in> set us)" for m
    using map_of_in_iff [OF ok, of u m] RowsByUUIDsShallow_ok(2) by (auto simp: RowsShallow_def split: option.splits if_splits)
  then show "(u, x) \<in> set (predicateMatches r p candidates) \<longleftrightarrow>
      (\<exists>m. map_of (rcCache r) u = Some m \<and> p m \<and> x = Some m \<and> (case candidates of None \<Rightarrow> True | Some us \<Rightarrow> u \<in> set us))"
    unfolding predicateMatches_def Clone_def by force
qed

lemma predicateMatches_cached: "gm_ok (rcCache r) \<Longrightarrow> cachedRows r (predicateMatches r p candidates)"
  using predicateMatches_exact [of r] by (auto simp: cachedRows_def HasRow_def rowByUUID_def Clone_def)

lemma mapR_snd:
  assumes "\<And>u x. (u, x) \<in> set ms \<Longrightarrow> f x = Inr (g u)"
  shows "mapR f (map snd ms) = Inr (map (\<lambda>(u, _). g u) ms)"
  using assms
proof (induction ms)
  case (Cons p ms)
  have "f (snd p) = Inr (g (fst p))" using Cons.prems [of "fst p" "snd p"] by simp
  moreover have "mapR f (map snd ms) = Inr (map (\<lambda>(u, _). g u) ms)" using Cons.IH Cons.prems by simp
  ultimately show ?case by (simp add: split_def)
qed simp

text \<open>
  The interface \<open>Conditional\<close>: what it matches are rows of its table's cache, and when it matches any, the conditions it
  generates are those of the matched models. The operations of the API rely on no more.
\<close>

locale conditional =
  fixes matches :: "'s TableCache \<Rightarrow> 'c \<Rightarrow> (string, Model option) gomap result"
    and gen :: "'s TableCache \<Rightarrow> 'c \<Rightarrow> Condition list list result"
    and tab :: "'c \<Rightarrow> string"
  assumes matches_cached: "cacheTable cache (tab c) = Some r \<Longrightarrow> rcInv r \<Longrightarrow> matches cache c = Inr ms \<Longrightarrow> cachedRows r ms"
    and gen_found: "matches cache c = Inr ms \<Longrightarrow> ms \<noteq> [] \<Longrightarrow> gen cache c = generateConditionsFromModels (tcDb cache) (map snd ms)"
begin

lemma gen_by_uuid:
  assumes "wfDb (tcDb cache)" "cacheTable cache (tab c) = Some r" "rcInv r" "rcDb r = tcDb cache" "keyedCache r"
    and "matches cache c = Inr ms" "ms \<noteq> []"
  shows "gen cache c = Inr (map (\<lambda>(u, _). [uuidEq u]) ms)"
proof -
  have c: "cachedRows r ms" using matches_cached [OF assms(2,3,6)] .
  have "(case x of None \<Rightarrow> Inl (ErrWrongType ''NewModelInfo'') | Some m \<Rightarrow> bindR (NewModelInfo (tcDb cache) m) (\<lambda>info. NewEqualityCondition info []))
      = Inr [uuidEq u]" if mem: "(u, x) \<in> set ms" for u x
  proof -
    obtain m where m: "map_of (rcCache r) u = Some m" "x = Some m"
      using c mem by (auto simp: cachedRows_def HasRow_def rowByUUID_def Clone_def)
    then have "keyedRow (tcDb cache) (rcName r) u m" using assms(4,5) by (auto simp: keyedCache_def list_all_iff dest: map_of_SomeD)
    then show ?thesis using keyedRow_condition [OF assms(1)] m(2) by simp
  qed
  note mapR_snd [OF this]
  then show ?thesis using gen_found [OF assms(6,7)] by (simp add: generateConditionsFromModels_def)
qed

end

interpretation cond: conditional Matches Generate condTable
proof
  fix cache :: "'s TableCache" and c r ms
  assume a: "cacheTable cache (condTable c) = Some r" "rcInv r" "Matches cache c = Inr ms"
  show "cachedRows r ms"
  proof (cases c)
    case (equalityConditional table models)
    then show ?thesis using a rowsByModels_cached by (auto simp: Matches_def RowsByModels_def)
  next
    case (explicitConditional table cs)
    then show ?thesis using a explicitMatches_cached by (auto simp: Matches_def)
  next
    case (predicateConditional table p candidates)
    then have "ms = predicateMatches r p candidates" using a by (auto simp: Matches_def)
    then show ?thesis using a(2) predicateMatches_cached by (auto simp: rcInv_def)
  next
    case (errorConditional e)
    then show ?thesis using a by (simp add: Matches_def)
  qed
next
  fix cache :: "'s TableCache" and c and ms :: "(string, Model option) gomap"
  assume "Matches cache c = Inr ms" "ms \<noteq> []"
  then show "Generate cache c = generateConditionsFromModels (tcDb cache) (map snd ms)"
    by (cases c) (simp_all add: Generate_def foundModels_def Matches_def)
qed

section \<open>Properties\<close>

text \<open>
  Claim C14. The conditions a client generates from its cache name the matched rows one by one: on any server table
  of the same schema they select exactly those of the matched rows that the server has, whatever kind of conditional they
  came from.
\<close>

theorem Generate_selects_matches:
  assumes "wfDb (tcDb cache)" and "cacheTable cache (condTable c) = Some r" and "rcInv r" and "rcDb r = tcDb cache" and "keyedCache r"
    and "Matches cache c = Inr ms" and "ms \<noteq> []"
  shows "\<exists>conds. Generate cache c = Inr conds \<and> length conds = length ms
    \<and> (\<forall>r'. rcDb r' = rcDb r \<and> rcName r' = rcName r \<longrightarrow>
        mapR (RowsByCondition r') conds = Inr (map (\<lambda>(u, _). if HasRow r' u then [(u, rowByUUID r' u)] else []) ms))"
proof (intro exI conjI allI impI)
  show "Generate cache c = Inr (map (\<lambda>(u, _). [uuidEq u]) ms)" by (rule cond.gen_by_uuid [OF assms])
next
  fix r' :: RowCache
  assume r': "rcDb r' = rcDb r \<and> rcName r' = rcName r"
  obtain u x where "(u, x) \<in> set ms" using assms(7) by (cases ms) auto
  then obtain m where "(u, m) \<in> set (rcCache r)"
    using cond.matches_cached [OF assms(2,3,6)] by (fastforce simp: cachedRows_def HasRow_def dest: map_of_SomeD)
  then have "tableModel (rcDb r) (rcName r) m" using assms(5) by (auto simp: keyedCache_def list_all_iff keyedRow_def)
  then obtain ts where "Table (dbSchema (rcDb r')) (rcName r') = Some ts"
    using NewModelInfo_wf [OF assms(1)] assms(4) r' by metis
  then have "RowsByCondition r' [uuidEq u] = Inr (if HasRow r' u then [(u, rowByUUID r' u)] else [])" for u
    by (rule RowsByCondition_uuidEq)
  then show "mapR (RowsByCondition r') (map (\<lambda>(u, _). [uuidEq u]) ms) = Inr (map (\<lambda>(u, _). if HasRow r' u then [(u, rowByUUID r' u)] else []) ms)"
    by (induction ms) auto
qed simp

text \<open>The conditions of \<open>WhereAny\<close> are joined, those of one list must all hold.\<close>

lemma explicitMatches_loop:
  assumes "foldR (\<lambda>found conds. bindR (RowsByCondition r conds) (\<lambda>models. Inr (gm_writeAll found models))) found cs = Inr ms"
  shows "set (keys ms) = set (keys found) \<union> {u. \<exists>conds \<in> set cs. \<exists>res. RowsByCondition r conds = Inr res \<and> u \<in> set (keys res)}"
  using assms
proof (induction cs arbitrary: found)
  case (Cons conds cs)
  obtain res where res: "RowsByCondition r conds = Inr res" using Cons.prems by (auto simp: resR)
  have w: "set (keys (gm_writeAll m n)) = set (keys m) \<union> set (keys n)" for m n :: "(string, Model option) gomap"
    unfolding gm_writeAll_def by (induction n arbitrary: m) (auto simp: AList.dom_update split: prod.splits)
  have "set (keys ms) = set (keys (gm_writeAll found res)) \<union> {u. \<exists>conds \<in> set cs. \<exists>res. RowsByCondition r conds = Inr res \<and> u \<in> set (keys res)}"
    using Cons.IH Cons.prems res by simp
  then show ?case using res unfolding w by auto
qed auto

theorem explicitMatches_union:
  assumes "explicitMatches r cs = Inr ms"
  shows "cachedRows r ms \<and> set (keys ms) = {u. \<exists>conds \<in> set cs. \<exists>res. RowsByCondition r conds = Inr res \<and> u \<in> set (keys res)}"
  using explicitMatches_cached [OF assms] explicitMatches_loop [OF assms [unfolded explicitMatches_def]] by simp

section \<open>Listing\<close>

lemma fillSlice_take:
  "fillSlice n xs (map Some ms) = Inr (xs @ take (n - length xs) ms)"
proof (induction ms arbitrary: xs)
  case (Cons m ms)
  show ?case
  proof (cases "length xs \<ge> n")
    case False
    then have "n - length xs = Suc (n - Suc (length xs))" by simp
    then show ?thesis using Cons.IH [of "xs @ [m]"] False by (simp add: appendRow_def)
  qed simp
qed simp

text \<open>
  Listing: a nil slice, or one without capacity, takes every row; any other keeps its elements and is filled up to its
  capacity. The rows are those the condition matches, each at most once.
\<close>

theorem List_fills:
  assumes "getTableFromType a (slElem sl) = Inr table" and "checkListCond a table = Inr ()" and "aCache a = Some cache"
    and "listRows a cache table = Inr (map Some ms)"
  shows "\<exists>sl'. ListInto a (PtrToSlice sl) = Inr sl'
    \<and> slItems sl' = Some (if slItems sl = None \<or> slCap sl = 0 then ms else the (slItems sl) @ take (slCap sl - slLen sl) ms)
    \<and> slLen sl' \<le> max (slLen sl) (if slItems sl = None \<or> slCap sl = 0 then length ms else slCap sl)"
  using assms by (auto simp: ListInto_def Let_def fillSlice_take slLen_def)

lemma predicateMatches_Some: "\<exists>ms. map snd (predicateMatches r p candidates) = map Some ms"
proof -
  have "\<exists>ms. map snd (map (\<lambda>(u, m). (u, Some (Clone m))) xs) = map Some ms" for xs :: "(string, Model) gomap"
    by (rule exI [of _ "map (Clone \<circ> snd) xs"]) auto
  then show ?thesis unfolding predicateMatches_def by blast
qed

text \<open>
  \<open>WhereCacheByUUIDs\<close> followed by \<open>List\<close> into a nil slice returns exactly the cached rows with one of the given UUIDs
  that satisfy the predicate: a missing UUID is ignored, a repeated one is evaluated once, and no UUID at all matches nothing.
\<close>

theorem WhereCacheByUUIDs_List:
  assumes "aCache a = Some cache" and "FindTable (tcDb cache) st = table" and "table \<noteq> []"
    and "cacheTable cache table = Some r" and "gm_ok (rcCache r)"
  shows "\<exists>a' sl'. WhereCacheByUUIDs a (PredFunc (Some st) p) uuids = Inr a'
    \<and> ListInto a' (PtrToSlice \<lparr>slElem = Some st, slItems = None, slCap = n\<rparr>) = Inr sl'
    \<and> set (the (slItems sl')) = {m. \<exists>u \<in> set uuids. map_of (rcCache r) u = Some m \<and> p m}
    \<and> slLen sl' = card {u \<in> set uuids. \<exists>m. map_of (rcCache r) u = Some m \<and> p m}"
proof -
  let ?c = "predicateConditional table p (Some uuids)"
  let ?a = "newConditionalAPI (Some cache) ?c (aValidateModel a)"
  let ?ms = "predicateMatches r p (Some uuids)"
  have w: "WhereCacheByUUIDs a (PredFunc (Some st) p) uuids = Inr ?a"
    using assms(1-3) by (simp add: WhereCacheByUUIDs_def withCond_def conditionFromFuncByUUIDs_def conditionOf_def getTableFromFunc_def
        getTableFromType_def predicateFunc_def Let_def)
  obtain ms where ms: "map snd ?ms = map Some ms" using predicateMatches_Some by blast
  have t: "getTableFromType ?a (Some st) = Inr table" using assms(2,3) by (simp add: getTableFromType_def newConditionalAPI_def Let_def)
  have "listRows ?a cache table = Inr (map Some ms)"
    using assms(4) ms by (simp add: listRows_def newConditionalAPI_def Matches_def)
  then have l: "ListInto ?a (PtrToSlice \<lparr>slElem = Some st, slItems = None, slCap = n\<rparr>) = Inr \<lparr>slElem = Some st, slItems = Some ms, slCap = length ms\<rparr>"
    using t by (simp add: ListInto_def checkListCond_def Let_def fillSlice_take) (simp add: newConditionalAPI_def fillSlice_take)
  note e = predicateMatches_exact [OF assms(5), where p = p and candidates = "Some uuids"]
  have "Some ` set ms = snd ` set ?ms" using ms by (metis set_map)
  then have "Some m \<in> Some ` set ms \<longleftrightarrow> Some m \<in> snd ` set ?ms" for m by simp
  then have "m \<in> set ms \<longleftrightarrow> (\<exists>u. (u, Some m) \<in> set ?ms)" for m by (simp add: inj_image_mem_iff) (force simp: image_iff)
  then have "set ms = {m. \<exists>u \<in> set uuids. map_of (rcCache r) u = Some m \<and> p m}" using e(2) by auto
  moreover have "length ms = card (set (keys ?ms))" using e(1) ms by (metis distinct_card length_map)
  moreover have "u \<in> set (keys ?ms) \<longleftrightarrow> u \<in> {u \<in> set uuids. \<exists>m. map_of (rcCache r) u = Some m \<and> p m}" for u
  proof -
    have "u \<in> set (keys ?ms) \<longleftrightarrow> (\<exists>x. (u, x) \<in> set ?ms)" by (force simp: image_iff)
    then show ?thesis unfolding e(2) by auto
  qed
  then have "set (keys ?ms) = {u \<in> set uuids. \<exists>m. map_of (rcCache r) u = Some m \<and> p m}" by blast
  ultimately show ?thesis using w l by (intro exI conjI) (assumption, assumption, simp_all add: slLen_def)
qed

section \<open>Operations\<close>

lemma bindR_InrE: "bindR r f = Inr y \<Longrightarrow> (\<And>x. r = Inr x \<Longrightarrow> f x = Inr y \<Longrightarrow> P) \<Longrightarrow> P"
  by (cases r) auto

lemma newRowColumn_keys: "newRowColumn i fs row (c, col) = Inr row' \<Longrightarrow> set (keys row') \<subseteq> insert c (set (keys row))"
  by (auto simp: newRowColumn_def resR simp del: set_map split: sum.splits err.splits if_splits)

lemma NewRowF_keys:
  assumes "NewRowF i fs = Inr row"
  shows "set (keys row) \<subseteq> insert ''_uuid'' (set (keys (Columns (mTableSchema (iMeta i)))))"
  using assms unfolding NewRowF_def
proof (rule foldR_invariant)
  fix s x s'
  assume x: "x \<in> set (AList.update ''_uuid'' UUIDColumn (Columns (mTableSchema (iMeta i))))"
    and s: "set (keys s) \<subseteq> insert ''_uuid'' (set (keys (Columns (mTableSchema (iMeta i)))))" "newRowColumn i fs s x = Inr s'"
  obtain c col where p: "x = (c, col)" by fastforce
  have "c \<in> fst ` set (AList.update ''_uuid'' UUIDColumn (Columns (mTableSchema (iMeta i))))" using x p by force
  then have "c \<in> insert ''_uuid'' (set (keys (Columns (mTableSchema (iMeta i)))))" by (simp add: AList.dom_update)
  then show "set (keys s') \<subseteq> insert ''_uuid'' (set (keys (Columns (mTableSchema (iMeta i)))))"
    using newRowColumn_keys s p by blast
qed simp

lemma dropImmutable_keys:
  "set (keys (dropImmutable t row)) = set (keys row) - {''_uuid''} - {c. \<exists>col. (c, col) \<in> set (Columns t) \<and> \<not> Mutable col}"
proof -
  have "set (keys (fold (\<lambda>(col, c) row. if Mutable c then row else AList.delete col row) cs row))
      = set (keys row) - {c. \<exists>col. (c, col) \<in> set cs \<and> \<not> Mutable col}" for cs :: "(string, ColumnSchema) gomap" and row :: Row
    by (induction cs arbitrary: row) (auto simp del: set_map split: if_splits)
  then show ?thesis by (auto simp: dropImmutable_def simp del: set_map)
qed

text \<open>The metadata of a table that the client found.\<close>

lemma FindTable_type:
  assumes "wfDb db" "FindTable db st = table" "table \<noteq> []"
  shows "map_of (cdbTypes (dbClient db)) table = Some st"
proof -
  have "(table, st) \<in> set (cdbTypes (dbClient db))"
    using assms(2,3) by (auto simp: FindTable_def find_Some_iff split: option.splits) (metis nth_mem)
  then show ?thesis using assms(1) map_of_in_iff by (auto simp: wfDb_def)
qed

lemma api_table:
  assumes "wfDb (tcDb cache)" "aCache a = Some cache" "getTableFromModel a m = Inr table" "NewModelInfo (tcDb cache) m = Inr info"
  shows "Table (dbSchema (tcDb cache)) table = Some (mTableSchema (iMeta info))" "TableName (iMeta info) = table"
proof -
  have "FindTable (tcDb cache) (mType m) = table" "table \<noteq> []"
    using assms(2,3) by (auto simp: getTableFromModel_def getTableFromType_def Let_def split: if_splits)
  then have ty: "map_of (cdbTypes (dbClient (tcDb cache))) table = Some (mType m)" by (rule FindTable_type [OF assms(1)])
  obtain ts meta where t: "Table (dbSchema (tcDb cache)) table = Some ts" "map_of (dbMetadata (tcDb cache)) (mType m) = Some meta"
      "mTableSchema meta = ts" "TableName meta = table"
    by (rule wfDb_table [OF assms(1) ty])
  then show "Table (dbSchema (tcDb cache)) table = Some (mTableSchema (iMeta info))" "TableName (iMeta info) = table"
    using assms(4) by (auto simp: NewModelInfo_def)
qed

lemma ApiUpdate_shape:
  assumes "wfDb (tcDb cache)" "aCache a = Some cache" "ApiUpdate v a m fs = Inr ops"
  obtains table ts row conds where "Table (dbSchema (tcDb cache)) table = Some ts" "generated a = Inr conds" "row \<noteq> []"
    "set (keys row) \<subseteq> {c. \<exists>col. map_of (Columns ts) c = Some col \<and> Mutable col} - {''_uuid''}"
    "ops = map (\<lambda>condition. emptyOp\<lparr>Op := OperationUpdate, opTable := table, opRow := row, Where := condition\<rparr>) conds"
proof -
  obtain table info row ts conds where u: "getTableFromModel a m = Inr table" "NewModelInfo (tcDb cache) m = Inr info"
      "NewRowF info fs = Inr row" "Table (dbSchema (tcDb cache)) table = Some ts" "dropImmutable ts row \<noteq> []" "generated a = Inr conds"
      "ops = map (\<lambda>condition. emptyOp\<lparr>Op := OperationUpdate, opTable := table, opRow := dropImmutable ts row, Where := condition\<rparr>) conds"
    using assms(2,3) by (auto simp: ApiUpdate_def cacheDb_def Let_def elim!: bindR_InrE split: option.splits if_splits)
  have ts: "ts = mTableSchema (iMeta info)" using api_table(1) [OF assms(1,2) u(1,2)] u(4) by simp
  have wf: "wfTable ts" using assms(1) u(4) wfTable_Table by (auto simp: wfDb_def)
  have "set (keys (dropImmutable ts row)) \<subseteq> {c. \<exists>col. map_of (Columns ts) c = Some col \<and> Mutable col} - {''_uuid''}"
  proof
    fix c assume c: "c \<in> set (keys (dropImmutable ts row))"
    then have "c \<in> set (keys row)" "c \<noteq> ''_uuid''" and im: "\<And>col. (c, col) \<in> set (Columns ts) \<Longrightarrow> Mutable col"
      unfolding dropImmutable_keys by blast+
    then have "c \<in> set (keys (Columns ts))" using NewRowF_keys [OF u(3)] ts by blast
    then obtain col where "map_of (Columns ts) c = Some col" using map_of_key_iff by metis
    then show "c \<in> {c. \<exists>col. map_of (Columns ts) c = Some col \<and> Mutable col} - {''_uuid''}"
      using im \<open>c \<noteq> ''_uuid''\<close> by (auto dest: map_of_SomeD)
  qed
  then show thesis using that u(4-7) by blast
qed

text \<open>
  Claim C17. An update the API builds writes only mutable columns of the table, never \<open>_uuid\<close>, and never nothing; there is
  one operation for each generated condition list, and the client's own validation accepts them.
\<close>

theorem Update_writes_mutable:
  assumes "wfDb (tcDb cache)" and "aCache a = Some cache" and "ApiUpdate v a m fs = Inr ops"
  shows "\<exists>ts conds. generated a = Inr conds \<and> map Where ops = conds
    \<and> (\<forall>op \<in> set ops. Table (dbSchema (tcDb cache)) (opTable op) = Some ts \<and> Op op = OperationUpdate \<and> opRow op \<noteq> []
        \<and> (\<forall>c \<in> set (keys (opRow op)). c \<noteq> ''_uuid'' \<and> (\<exists>col. map_of (Columns ts) c = Some col \<and> Mutable col)))
    \<and> ValidateOperations (dbSchema (tcDb cache)) ops"
proof -
  obtain table ts row conds where u: "Table (dbSchema (tcDb cache)) table = Some ts" "generated a = Inr conds" "row \<noteq> []"
    "set (keys row) \<subseteq> {c. \<exists>col. map_of (Columns ts) c = Some col \<and> Mutable col} - {''_uuid''}"
    "ops = map (\<lambda>condition. emptyOp\<lparr>Op := OperationUpdate, opTable := table, opRow := row, Where := condition\<rparr>) conds"
    by (rule ApiUpdate_shape [OF assms])
  have "ValidateOperations (dbSchema (tcDb cache)) (map (\<lambda>condition. emptyOp\<lparr>Op := OperationUpdate, opTable := table, opRow := row, Where := condition\<rparr>) cs)" for cs
    using u(1,4) by (induction cs) (auto simp: validTableOp_def Table_def emptyOp_def list_all_iff knownColumn_def)
  then show ?thesis using u by (intro exI [of _ ts] exI [of _ conds]) (auto simp: comp_def)
qed

lemma ValidateOperations_append: "ValidateOperations s (xs @ ys) \<longleftrightarrow> ValidateOperations s xs \<and> ValidateOperations s ys"
  by (induction xs) auto

lemma keys_delete_subset: "set (keys (AList.delete c row)) \<subseteq> set (keys row)"
  by (auto simp: AList.delete_keys)

lemma knownColumns:
  assumes "set ks \<subseteq> insert ''_uuid'' (set (keys (Columns t)))"
  shows "list_all (knownColumn t) ks"
  unfolding list_all_iff
proof
  fix c assume "c \<in> set ks"
  then consider "c = ''_uuid''" | "c \<in> set (keys (Columns t))" using assms by blast
  then show "knownColumn t c"
  proof cases
    case 2
    then show ?thesis unfolding map_of_key_iff by (auto simp: knownColumn_def)
  qed (simp add: knownColumn_def)
qed

text \<open>What one model becomes.\<close>

lemma createOp_shape:
  assumes "wfDb (tcDb cache)" "aCache a = Some cache" "createOp v a t0 m = Inr (table, op)"
  obtains info row real name where "getTableFromModel a m = Inr table" "t0 = [] \<or> t0 = table" "NewModelInfo (tcDb cache) m = Inr info"
    "createUUIDs info = Inr (real, name)" "NewRow info = Inr row" "Table (dbSchema (tcDb cache)) table = Some (mTableSchema (iMeta info))"
    "op = emptyOp\<lparr>Op := OperationInsert, opTable := table, opRow := AList.delete ''_uuid'' row, opUUID := real, UUIDName := name\<rparr>"
    "validTableOp (dbSchema (tcDb cache)) op"
proof -
  obtain t1 where t1: "getTableFromModel a m = Inr t1" using assms(3) by (cases "getTableFromModel a m") (auto simp: createOp_def)
  have v: "validated v a m = Inr ()" using assms(3) t1 by (cases "validated v a m") (auto simp: createOp_def)
  have t0: "t0 = [] \<or> t0 = t1" using assms(3) t1 v by (auto simp: createOp_def split: if_splits)
  have r: "bindR (NewModelInfo (tcDb cache) m) (\<lambda>info. bindR (createUUIDs info) (\<lambda>(realUUID, namedUUID). bindR (NewRow info) (\<lambda>row.
      Inr (t1, emptyOp\<lparr>Op := OperationInsert, opTable := t1, opRow := AList.delete ''_uuid'' row, opUUID := realUUID, UUIDName := namedUUID\<rparr>)))) = Inr (table, op)"
    using assms(2,3) t1 v t0 by (auto simp: createOp_def cacheDb_def split: if_splits)
  obtain info where info: "NewModelInfo (tcDb cache) m = Inr info" using r by (cases "NewModelInfo (tcDb cache) m") auto
  obtain real name where u: "createUUIDs info = Inr (real, name)" using r info by (cases "createUUIDs info") auto
  obtain row where row: "NewRow info = Inr row" using r info u by (cases "NewRow info") auto
  have c: "getTableFromModel a m = Inr table" "t0 = [] \<or> t0 = table" "NewModelInfo (tcDb cache) m = Inr info"
      "createUUIDs info = Inr (real, name)" "NewRow info = Inr row"
      "op = emptyOp\<lparr>Op := OperationInsert, opTable := table, opRow := AList.delete ''_uuid'' row, opUUID := real, UUIDName := name\<rparr>"
    using r info u row t1 t0 by auto
  note t = api_table(1) [OF assms(1,2) c(1,3)]
  have "set (keys (AList.delete ''_uuid'' row)) \<subseteq> insert ''_uuid'' (set (keys (Columns (mTableSchema (iMeta info)))))"
    by (rule order_trans [OF keys_delete_subset NewRowF_keys [OF c(5) [unfolded NewRow_def]]])
  then have "list_all (knownColumn (mTableSchema (iMeta info))) (keys (AList.delete ''_uuid'' row))"
    by (rule knownColumns)
  then have "validTableOp (dbSchema (tcDb cache)) op"
    using t c(6) by (simp add: validTableOp_def Table_def emptyOp_def)
  then show thesis by (rule that [OF c(1-5) t c(6)])
qed

lemma ApiCreate_ops:
  assumes "wfDb (tcDb cache)" "aCache a = Some cache" "ApiCreate v a models = Inr ops"
  shows "list_all2 (\<lambda>m op. \<exists>t0. createOp v a t0 m = Inr (opTable op, op)) models ops" "ValidateOperations (dbSchema (tcDb cache)) ops"
proof -
  let ?step = "\<lambda>(tableName, ops) m. bindR (createOp v a tableName m) (\<lambda>(tableName, op). Inr (tableName, ops @ [op]))"
  let ?R = "\<lambda>m op. \<exists>t0. createOp v a t0 m = Inr (opTable op, op)"
  have loop: "\<exists>new. ops' = ops0 @ new \<and> list_all2 ?R ms new \<and> ValidateOperations (dbSchema (tcDb cache)) new"
    if "foldR ?step (t, ops0) ms = Inr (t', ops')" for t t' ops0 ops' ms
    using that
  proof (induction ms arbitrary: t ops0)
    case (Cons m ms)
    obtain t1 op where op: "createOp v a t m = Inr (t1, op)" "foldR ?step (t1, ops0 @ [op]) ms = Inr (t', ops')"
      using Cons.prems by (auto simp: resR split: prod.splits)
    obtain new where new: "ops' = (ops0 @ [op]) @ new" "list_all2 ?R ms new" "ValidateOperations (dbSchema (tcDb cache)) new"
      using Cons.IH [OF op(2)] by blast
    have "opTable op = t1" "validTableOp (dbSchema (tcDb cache)) op"
      by (rule createOp_shape [OF assms(1,2) op(1)], simp)+
    then have "ops' = ops0 @ (op # new) \<and> list_all2 ?R (m # ms) (op # new) \<and> ValidateOperations (dbSchema (tcDb cache)) (op # new)"
      using new op(1) by auto
    then show ?case by blast
  qed simp
  obtain t' where f: "foldR ?step ([], []) models = Inr (t', ops)"
  proof (rule bindR_InrE [OF assms(3) [unfolded ApiCreate_def]])
    fix p assume "foldR ?step ([], []) models = Inr p" "(\<lambda>(_, ops). Inr ops) p = Inr ops"
    then show thesis using that by (cases p) simp
  qed
  show "list_all2 ?R models ops" "ValidateOperations (dbSchema (tcDb cache)) ops" using loop [OF f] by simp_all
qed

text \<open>The row of the operation, read by the server.\<close>

lemma createOp_read:
  assumes "wfDb db" "tableModel db table m" "NewModelInfo db m = Inr info" "''_uuid'' \<notin> set (keys (Columns (mTableSchema (iMeta info))))"
    and "hasColumn info ''_uuid''" "NewRow info = Inr row" "uuid \<noteq> []"
  shows "\<exists>m' info'. CreateModel db table (Some (AList.delete ''_uuid'' row)) uuid = Inr m' \<and> NewModelInfo db m' = Inr info'
    \<and> FieldByColumn info' ''_uuid'' = Inr (VAtom (AStr uuid))
    \<and> (\<forall>c col t. map_of (Columns (mTableSchema (iMeta info))) c = Some col \<longrightarrow> colType info c = Some t \<longrightarrow>
         (\<exists>v. FieldByColumn info c = Inr v \<and> FieldByColumn info' c = Inr (readBack col t v)))"
proof -
  obtain i where i: "NewModelInfo db m = Inr i" "wfInfo i" "Obj i = m" "Table (dbSchema db) table = Some (mTableSchema (iMeta i))"
      "map_of (dbMetadata db) (mType m) = Some (iMeta i)"
    by (rule NewModelInfo_wf [OF assms(1,2)])
  have [simp]: "i = info" using i(1) assms(3) by simp
  have ty: "map_of (cdbTypes (dbClient db)) table = Some (mType m)" "distinct (map fName (sFields (mType (Obj info))))"
    using assms(2) i(3) by (auto simp: tableModel_def wfModel_def)
  obtain i1 where i1: "getRowData row (zeroInfo info) = Inr i1" "wfInfo i1" "iMeta i1 = iMeta info" "mType (Obj i1) = mType (Obj info)"
      "\<And>c col t. Column (mTableSchema (iMeta info)) c = Some col \<Longrightarrow> colType info c = Some t \<Longrightarrow> c \<noteq> ''_uuid'' \<or> map_of row c = None
       \<Longrightarrow> \<exists>v. FieldByColumn info c = Inr v \<and> FieldByColumn i1 c = Inr (readBack col t v)"
    by (rule NewRow_read [OF i(2) [unfolded \<open>i = info\<close>] ty(2) assms(4)]) (use assms(6) that in auto)
  have "getRowColumn (AList.delete ''_uuid'' row) s x = getRowColumn row s x"
    if "x \<in> set (Columns (mTableSchema (iMeta info)))" for s x
  proof -
    obtain name col where x: "x = (name, col)" by fastforce
    then have "name \<noteq> ''_uuid''" using that assms(4) by force
    then show ?thesis by (simp add: getRowColumn_def x)
  qed
  then have g: "getRowData (AList.delete ''_uuid'' row) (zeroInfo info) = Inr i1"
    using i1(1) unfolding getRowData_def by (simp add: zeroInfo_def cong: foldR_cong)
  have ct: "colType i1 ''_uuid'' = Some (RAtom GString)"
    using colType_native [OF _ _ assms(5), of UUIDColumn] i(2) colType_cong [OF i1(3,4)]
    by (simp add: Column_def NativeType_def UUIDColumn_def)
  obtain i2 where i2: "SetField i1 ''_uuid'' (VAtom (AStr uuid)) = Inr i2" "wfInfo i2"
      "\<And>c. FieldByColumn i2 c = (if c = ''_uuid'' then Inr (VAtom (AStr uuid)) else FieldByColumn i1 c)"
    using info.put_ok [OF i1(2) ct, of "VAtom (AStr uuid)"] by auto
  have meta: "iMeta i2 = iMeta info" "mType (Obj i2) = mType m"
    using i2(1) i1(3,4) i(3) by (auto simp: SetField_def split: option.splits if_splits)
  have z: "NewModel db table = Inr (zeroModel (mType m))" "NewModelInfo db (zeroModel (mType m)) = Inr (zeroInfo info)"
    using ty(1) i(3,5) by (simp_all add: NewModel_def NewModelInfo_def zeroInfo_def zeroModel_def)
  have "CreateModel db table (Some (AList.delete ''_uuid'' row)) uuid = Inr (Obj i2)"
    using assms(1,7) i(4) z g i2(1) by (simp add: CreateModel_def wfDb_def GetRowData_def)
  moreover have "NewModelInfo db (Obj i2) = Inr i2"
    using i(5) meta by (simp add: NewModelInfo_def) 
  moreover have "\<exists>v. FieldByColumn info c = Inr v \<and> FieldByColumn i2 c = Inr (readBack col t v)"
    if c: "map_of (Columns (mTableSchema (iMeta info))) c = Some col" "colType info c = Some t" for c col t
  proof -
    have "c \<noteq> ''_uuid''" using c(1) assms(4) by auto
    then show ?thesis using i1(5) [of c col t] i2(3) [of c] c by (simp add: Column_def)
  qed
  ultimately show ?thesis using i2(3) by (intro exI [of _ "Obj i2"] exI [of _ i2]) auto
qed

text \<open>The columns of one model as they come back after it was written to a row and read again.\<close>

definition restored :: "DatabaseModel \<Rightarrow> Model \<Rightarrow> Model \<Rightarrow> bool" where
  "restored db m m' = (\<exists>info info'. NewModelInfo db m = Inr info \<and> NewModelInfo db m' = Inr info'
    \<and> (\<forall>c col t. map_of (Columns (mTableSchema (iMeta info))) c = Some col \<longrightarrow> colType info c = Some t \<longrightarrow>
         (\<exists>v. FieldByColumn info c = Inr v \<and> FieldByColumn info' c = Inr (readBack col t v))))"

text \<open>
  Claim C15. Creation end to end: each model becomes one insert operation that the client's validation accepts, with the UUID of the
  model as its UUID or as its name but never both, and a server that stores the operation's row under any UUID has the model's
  columns back.
\<close>

theorem Create_roundtrip:
  assumes "wfDb (tcDb cache)" and "aCache a = Some cache" and "ApiCreate v a models = Inr ops" and "list_all wfModel models"
    and "list_all (\<lambda>(_, t). ''_uuid'' \<notin> set (keys (Columns t))) (Tables (dbSchema (tcDb cache)))"
  shows "ValidateOperations (dbSchema (tcDb cache)) ops
    \<and> list_all2 (\<lambda>m op. Op op = OperationInsert \<and> (opUUID op = [] \<or> UUIDName op = [])
        \<and> (\<forall>uuid. uuid \<noteq> [] \<longrightarrow> (\<exists>m'. CreateModel (tcDb cache) (opTable op) (Some (opRow op)) uuid = Inr m' \<and> restored (tcDb cache) m m'))) models ops"
proof -
  let ?db = "tcDb cache"
  have one: "Op op = OperationInsert \<and> (opUUID op = [] \<or> UUIDName op = [])
      \<and> (\<forall>uuid. uuid \<noteq> [] \<longrightarrow> (\<exists>m'. CreateModel ?db (opTable op) (Some (opRow op)) uuid = Inr m' \<and> restored ?db m m'))"
    if m: "createOp v a t0 m = Inr (opTable op, op)" "wfModel m" for m op t0
  proof (rule createOp_shape [OF assms(1,2) m(1)])
    fix info row real name
    assume c: "getTableFromModel a m = Inr (opTable op)" "NewModelInfo ?db m = Inr info" "createUUIDs info = Inr (real, name)" "NewRow info = Inr row"
      "Table (dbSchema ?db) (opTable op) = Some (mTableSchema (iMeta info))"
      "op = emptyOp\<lparr>Op := OperationInsert, opTable := opTable op, opRow := AList.delete ''_uuid'' row, opUUID := real, UUIDName := name\<rparr>"
    have ft: "FindTable ?db (mType m) = opTable op" "opTable op \<noteq> []"
      using c(1) assms(2) by (auto simp: getTableFromModel_def getTableFromType_def Let_def split: if_splits)
    have tm: "tableModel ?db (opTable op) m" using FindTable_type [OF assms(1) ft] m(2) by (simp add: tableModel_def)
    have nu: "''_uuid'' \<notin> set (keys (Columns (mTableSchema (iMeta info))))"
      using c(5) assms(5) by (auto simp: Table_def list_all_iff dest!: map_of_SomeD)
    have has: "hasColumn info ''_uuid''"
      using c(3) by (auto simp: createUUIDs_def FieldByColumn_def hasColumn_def split: option.splits)
    have un: "real = [] \<or> name = []"
      using c(3) by (auto simp: createUUIDs_def split: sum.splits err.splits if_splits elim!: bindR_InrE)
    have "opRow op = AList.delete ''_uuid'' row" "opUUID op = real" "UUIDName op = name" "Op op = OperationInsert"
      by (subst c(6), simp)+
    then show ?thesis
      using createOp_read [OF assms(1) tm c(2) nu has c(4)] c(2) un unfolding restored_def by metis
  qed
  note ops = ApiCreate_ops [OF assms(1-3)]
  have "list_all2 (\<lambda>m op. Op op = OperationInsert \<and> (opUUID op = [] \<or> UUIDName op = [])
      \<and> (\<forall>uuid. uuid \<noteq> [] \<longrightarrow> (\<exists>m'. CreateModel ?db (opTable op) (Some (opRow op)) uuid = Inr m' \<and> restored ?db m m'))) models ops"
    using ops(1)
  proof (rule list.rel_mono_strong)
    fix m op assume m: "m \<in> set models" "op \<in> set ops" "\<exists>t0. createOp v a t0 m = Inr (opTable op, op)"
    then show "Op op = OperationInsert \<and> (opUUID op = [] \<or> UUIDName op = [])
      \<and> (\<forall>uuid. uuid \<noteq> [] \<longrightarrow> (\<exists>m'. CreateModel ?db (opTable op) (Some (opRow op)) uuid = Inr m' \<and> restored ?db m m'))"
      using one assms(4) by (auto simp: list_all_iff)
  qed
  then show ?thesis using ops(2) by blast
qed

section \<open>Divergences\<close>

text \<open>Naming the \<open>_uuid\<close> field in \<open>Update\<close> reads a column schema that is not there.\<close>

lemma Update_uuid_field_panics:
  assumes "getTableFromModel a m = Inr table" "validated v a m = Inr ()" "aCache a = Some cache" "NewModelInfo (tcDb cache) m = Inr info"
    and "Table (dbSchema (tcDb cache)) table = Some ts" "''_uuid'' \<notin> set (keys (Columns ts))" "ColumnByPtr info p = Inr ''_uuid''"
  shows "ApiUpdate v a m (p # fs) = Inl (Panic ''nil pointer dereference'')"
proof -
  have "map_of (Columns ts) ''_uuid'' = None" using assms(6) by (simp add: map_of_eq_None_iff)
  then show ?thesis using assms by (simp add: ApiUpdate_def cacheDb_def checkMutable_def)
qed

text \<open>\<open>Get\<close> keeps the entries of a map the caller's model already had.\<close>

lemma CloneInto_keeps_entries:
  "CloneInto \<lparr>mType = st, mObj = [(''M'', VMap GString GString (Some [(AStr ''a'', AStr ''1'')]))]\<rparr>
             \<lparr>mType = st, mObj = [(''M'', VMap GString GString (Some [(AStr ''b'', AStr ''2'')]))]\<rparr>
   = \<lparr>mType = st, mObj = [(''M'', VMap GString GString (Some [(AStr ''b'', AStr ''2''), (AStr ''a'', AStr ''1'')]))]\<rparr>"
  by (simp add: CloneInto_def cloneField_def gm_writeAll_def)

section \<open>Witnesses\<close>

definition exApi :: "unit api" where
  "exApi = newAPI (Some exTC) False"

definition exValidator :: Validator where
  "exValidator = \<lparr>vStruct = (\<lambda>_. None), vVar = (\<lambda>_ _. None), vTag = (\<lambda>_ _. [])\<rparr>"

abbreviation exRC :: RowCache where
  "exRC \<equiv> exCache [(''u'', exModel ''u'' ''br0'')] [(IVal (VAtom (AStr ''br0'')), [''u''])]"

lemma exRC_inv: "rcInv exRC"
proof -
  have "relOf exRC exSpec u = (if u = ''u'' then Some (IVal (VAtom (AStr ''br0''))) else None)" for u
    by (simp add: relOf_def exCache_def rowKey_def NewModelInfo_ex exKey)
  then show ?thesis
    by (auto simp: rcInv_def tracks_def uniqueOn_def) (simp_all add: exCache_def lookup_def exSpec_def usOf_def split: if_splits)
qed

lemma exRC_keyed: "keyedCache exRC"
  by (simp add: keyedCache_def exCache_def keyedRow_def tableModel_def wfModel_exModel NewModelInfo_ex)
    (simp add: exDb_def exClient_def exModel_def exMeta_def FieldByColumn_def)

lemma exTC_facts: "tcDb exTC = exDb" "cacheTable exTC ''Bridge'' = Some exRC" "rcDb exRC = exDb" "rcName exRC = ''Bridge''" "gm_ok (rcCache exRC)"
  by (simp_all add: exTC_def cacheTable_def exCache_def)

theorem Generate_selects_matches_witness:
  "\<exists>conds. Generate exTC (predicateConditional ''Bridge'' (\<lambda>_. True) None) = Inr conds \<and> length conds = 1
     \<and> mapR (RowsByCondition exRC) conds = Inr [[(''u'', Some (exModel ''u'' ''br0''))]]"
proof -
  let ?c = "predicateConditional ''Bridge'' (\<lambda>_. True) None"
  have m: "Matches exTC ?c = Inr [(''u'', Some (exModel ''u'' ''br0''))]"
    by (simp add: Matches_def exTC_facts predicateMatches_def RowsShallow_def Clone_def) (simp add: exCache_def)
  have h: "HasRow exRC ''u''" "rowByUUID exRC ''u'' = Some (exModel ''u'' ''br0'')" by (simp_all add: HasRow_def rowByUUID_def exCache_def Clone_def)
  show ?thesis
    using Generate_selects_matches [of exTC ?c exRC "[(''u'', Some (exModel ''u'' ''br0''))]"] m h wfDb_exDb exRC_inv exRC_keyed
    by (auto simp: exTC_facts)
qed

theorem WhereCacheByUUIDs_List_witness:
  "\<exists>a' sl'. WhereCacheByUUIDs exApi (PredFunc (Some exStruct) (\<lambda>_. True)) [''u'', ''gone'', ''u''] = Inr a'
    \<and> ListInto a' (PtrToSlice \<lparr>slElem = Some exStruct, slItems = None, slCap = 0\<rparr>) = Inr sl'
    \<and> set (the (slItems sl')) = {exModel ''u'' ''br0''} \<and> slLen sl' = 1"
proof -
  have f: "FindTable (tcDb exTC) exStruct = ''Bridge''" by (simp add: exTC_facts FindTable_def exDb_def exClient_def)
  have c: "aCache exApi = Some exTC" by (simp add: exApi_def newAPI_def)
  have s: "{u \<in> set [''u'', ''gone'', ''u'']. \<exists>m. map_of (rcCache exRC) u = Some m \<and> True} = {''u''}"
      "{m. \<exists>u \<in> set [''u'', ''gone'', ''u'']. map_of (rcCache exRC) u = Some m \<and> True} = {exModel ''u'' ''br0''}"
    by (auto simp: exCache_def)
  show ?thesis
    using WhereCacheByUUIDs_List [OF c f _ exTC_facts(2,5), of "\<lambda>_. True" "[''u'', ''gone'', ''u'']" 0] unfolding s by simp
qed


theorem Create_roundtrip_witness:
  "\<exists>op m'. ApiCreate exValidator exApi [exModel ''br'' ''br1''] = Inr [op] \<and> UUIDName op = ''br'' \<and> ValidateOperations exSchema [op]
     \<and> CreateModel exDb (opTable op) (Some (opRow op)) ''u1'' = Inr m' \<and> restored exDb (exModel ''br'' ''br1'') m'"
proof -
  have "(case ApiCreate exValidator exApi [exModel ''br'' ''br1''] of Inr [op] \<Rightarrow> UUIDName op = ''br'' | _ \<Rightarrow> False)" by code_simp
  then obtain op where op: "ApiCreate exValidator exApi [exModel ''br'' ''br1''] = Inr [op]" "UUIDName op = ''br''"
    by (auto split: sum.splits list.splits)
  have c: "aCache exApi = Some exTC" by (simp add: exApi_def newAPI_def)
  have u: "list_all (\<lambda>(_, t). ''_uuid'' \<notin> set (keys (Columns t))) (Tables (dbSchema exDb))" by (simp add: exDb_def exSchema_def exTable_def)
  have s: "dbSchema exDb = exSchema" by (simp add: exDb_def)
  show ?thesis
    using Create_roundtrip [OF _ c op(1)] op wfDb_exDb u by (auto simp: exTC_facts wfModel_exModel s split: if_splits)
qed

definition exCondApi :: "unit api" where
  "exCondApi = newConditionalAPI (Some exTC) (predicateConditional ''Bridge'' (\<lambda>_. True) None) False"

theorem Update_writes_mutable_witness:
  "\<exists>op. ApiUpdate exValidator exCondApi (exModel [] ''br1'') [FieldAddr ''Name''] = Inr [op] \<and> opRow op \<noteq> [] \<and> ValidateOperations exSchema [op]"
proof -
  have "(case ApiUpdate exValidator exCondApi (exModel [] ''br1'') [FieldAddr ''Name''] of Inr [op] \<Rightarrow> True | _ \<Rightarrow> False)" by code_simp
  then obtain op where op: "ApiUpdate exValidator exCondApi (exModel [] ''br1'') [FieldAddr ''Name''] = Inr [op]"
    by (auto split: sum.splits list.splits)
  have c: "aCache exCondApi = Some exTC" by (simp add: exCondApi_def newConditionalAPI_def)
  have s: "dbSchema exDb = exSchema" by (simp add: exDb_def)
  show ?thesis using Update_writes_mutable [OF _ c op] op wfDb_exDb by (auto simp: exTC_facts s)
qed

end
