(* ===== verification/Server.thy ===== *)
theory Server
  imports Transaction
begin

text \<open>
  The server (\<open>server/server.go\<close>, \<open>server/monitor.go\<close>, \<open>ovsdb/monitor_select.go\<close>): the databases it has models for, the
  monitors of its clients and its handlers for the methods of the protocol, with the decoded arguments. A client is the number of its
  connection. A notification is recorded as the call that the monitor makes. The locks make the handlers atomic steps; sockets, the
  codec and the delays for tests are not modelled. The lemmas show that a transaction is applied as a whole or not at all, and what a
  monitor sends.
\<close>

section \<open>Monitor selection\<close>

record MonitorSelect =
  msInitial :: "bool option"
  msInsert :: "bool option"
  msDelete :: "bool option"
  msModify :: "bool option"

definition NewMonitorSelect :: "bool \<Rightarrow> bool \<Rightarrow> bool \<Rightarrow> bool \<Rightarrow> MonitorSelect" where
  "NewMonitorSelect withInitialState withInserts withDeletes withModifies =
     \<lparr>msInitial = Some withInitialState, msInsert = Some withInserts, msDelete = Some withDeletes, msModify = Some withModifies\<rparr>"

definition NewDefaultMonitorSelect :: MonitorSelect where
  "NewDefaultMonitorSelect = NewMonitorSelect True True True True"

definition selInitial :: "MonitorSelect \<Rightarrow> bool" where
  "selInitial m = (case msInitial m of None \<Rightarrow> True | Some b \<Rightarrow> b)"

definition selInsert :: "MonitorSelect \<Rightarrow> bool" where
  "selInsert m = (case msInsert m of None \<Rightarrow> True | Some b \<Rightarrow> b)"

definition selDelete :: "MonitorSelect \<Rightarrow> bool" where
  "selDelete m = (case msDelete m of None \<Rightarrow> True | Some b \<Rightarrow> b)"

definition selModify :: "MonitorSelect \<Rightarrow> bool" where
  "selModify m = (case msModify m of None \<Rightarrow> True | Some b \<Rightarrow> b)"

record MonitorRequest =
  mrColumns :: "string list"
  mrWhere :: "Condition list"
  mrSelect :: "MonitorSelect option"

section \<open>Monitors\<close>

type_synonym client = nat
type_synonym monitorRequests = "(string, MonitorRequest option) gomap"

datatype monitorKind = monitorKindOriginal | monitorKindConditional | monitorKindConditionalSince

record monitor =
  monId :: string
  monKind :: monitorKind
  monRequest :: monitorRequests
  monClient :: client

definition newMonitor :: "string \<Rightarrow> monitorRequests \<Rightarrow> client \<Rightarrow> monitor" where
  "newMonitor i request client = \<lparr>monId = i, monKind = monitorKindOriginal, monRequest = request, monClient = client\<rparr>"

definition newConditionalMonitor :: "string \<Rightarrow> monitorRequests \<Rightarrow> client \<Rightarrow> monitor" where
  "newConditionalMonitor i request client = \<lparr>monId = i, monKind = monitorKindConditional, monRequest = request, monClient = client\<rparr>"

definition newConditionalSinceMonitor :: "string \<Rightarrow> monitorRequests \<Rightarrow> client \<Rightarrow> monitor" where
  "newConditionalSinceMonitor i request client = \<lparr>monId = i, monKind = monitorKindConditional, monRequest = request, monClient = client\<rparr>"

definition filterColumns :: "Row option \<Rightarrow> string list \<Rightarrow> Row option" where
  "filterColumns row columns = map_option (filter (\<lambda>(k, v). k \<in> set columns)) row"

text \<open>A table is watched when it is requested, or when nothing is requested.\<close>

definition watched :: "monitor \<Rightarrow> string \<Rightarrow> bool" where
  "watched m table = (\<not> (monRequest m \<noteq> [] \<and> map_of (monRequest m) table = None))"

definition requestOf :: "monitor \<Rightarrow> string \<Rightarrow> MonitorRequest result" where
  "requestOf m table = (case map_of (monRequest m) table of Some (Some r) \<Rightarrow> Inr r | _ \<Rightarrow> Inl (Panic ''nil pointer dereference''))"

definition selectOf :: "MonitorRequest \<Rightarrow> MonitorSelect result" where
  "selectOf r = (case mrSelect r of Some s \<Rightarrow> Inr s | None \<Rightarrow> Inl (Panic ''nil pointer dereference''))"

text \<open>
  The three cases of the switch, of which the first two fall through to the third: the row is sent when one of the conditions holds, and the
  select of the request is read only for a kind that the row update has.
\<close>

definition selected3 :: "MonitorRequest \<Rightarrow> bool \<Rightarrow> bool \<Rightarrow> bool \<Rightarrow> bool result" where
  "selected3 r isInsert isModify isDelete =
     bindR (if isInsert then bindR (selectOf r) (\<lambda>s. Inr (selInsert s)) else Inr False) (\<lambda>b1.
     if b1 then Inr True
     else bindR (if isModify then bindR (selectOf r) (\<lambda>s. Inr (selModify s)) else Inr False) (\<lambda>b2.
     if b2 then Inr True
     else if isDelete then bindR (selectOf r) (\<lambda>s. Inr (selDelete s)) else Inr False))"

definition filterRow :: "MonitorRequest \<Rightarrow> (string, RowUpdate option) gomap \<Rightarrow> string \<Rightarrow> RowUpdate2 \<Rightarrow> (string, RowUpdate option) gomap result" where
  "filterRow r tu uuid ru2 =
     (let ru = FromRowUpdate2 ru2; cols = ''_uuid'' # mrColumns r in
      bindR (selected3 r (ruInsert ru) (ruModify ru) (ruDelete ru)) (\<lambda>b.
        if b then Inr (AList.update uuid (Some \<lparr>ruNew = filterColumns (ruNew ru) cols, ruOld = filterColumns (ruOld ru) cols\<rparr>) tu) else Inr tu))"

definition filterUpdate :: "monitor \<Rightarrow> ModelUpdates \<Rightarrow> TableUpdates result" where
  "filterUpdate m update =
     foldR (\<lambda>tus table.
       if \<not> watched m table then Inr tus
       else bindR (requestOf m table) (\<lambda>r.
            bindR (ofS (ForEachRowUpdate update table (\<lambda>tu uuid ru2. toS tu (filterRow r tu uuid ru2)) [])) (\<lambda>tu.
              Inr (AList.update table tu tus)))) [] (GetUpdatedTables update)"

definition filterRow2 :: "MonitorRequest \<Rightarrow> (string, RowUpdate2 option) gomap \<Rightarrow> string \<Rightarrow> RowUpdate2 \<Rightarrow> (string, RowUpdate2 option) gomap result" where
  "filterRow2 r tu2 uuid ru2 =
     (let cols = ''_uuid'' # mrColumns r in
      bindR (selected3 r (RowUpdate2.Insert ru2 \<noteq> None) (RowUpdate2.Modify ru2 \<noteq> None) (RowUpdate2.Delete ru2 \<noteq> None)) (\<lambda>b.
        if b then Inr (AList.update uuid (Some (ru2\<lparr>RowUpdate2.Insert := filterColumns (RowUpdate2.Insert ru2) cols,
            RowUpdate2.Modify := filterColumns (RowUpdate2.Modify ru2) cols, RowUpdate2.Delete := filterColumns (RowUpdate2.Delete ru2) cols\<rparr>)) tu2)
        else Inr tu2))"

definition filterUpdate2 :: "monitor \<Rightarrow> ModelUpdates \<Rightarrow> TableUpdates2 result" where
  "filterUpdate2 m update =
     foldR (\<lambda>tus table.
       if \<not> watched m table then Inr tus
       else bindR (requestOf m table) (\<lambda>r.
            bindR (ofS (ForEachRowUpdate update table (\<lambda>tu uuid ru2. toS tu (filterRow2 r tu uuid ru2)) [])) (\<lambda>tu.
              Inr (AList.update table tu tus)))) [] (GetUpdatedTables update)"

text \<open>The calls of the monitors: the client, the method, the identifier of the monitor, the transaction where the call has one, and the updates.\<close>

datatype payload = Updates TableUpdates | Updates2 TableUpdates2

record call =
  callClient :: client
  callMethod :: string
  callMonitor :: string
  callTxn :: "string option"
  callUpdates :: payload

definition mkCall :: "monitor \<Rightarrow> string option \<Rightarrow> payload \<Rightarrow> call" where
  "mkCall m txn p = \<lparr>callClient = monClient m, callMethod = ''update2'', callMonitor = monId m, callTxn = txn, callUpdates = p\<rparr>"

definition Send :: "monitor \<Rightarrow> ModelUpdates \<Rightarrow> call list result" where
  "Send m update = bindR (filterUpdate m update) (\<lambda>tu. if tu = [] then Inr [] else Inr [mkCall m None (Updates tu)])"

definition Send2 :: "monitor \<Rightarrow> ModelUpdates \<Rightarrow> call list result" where
  "Send2 m update = bindR (filterUpdate2 m update) (\<lambda>tu. if tu = [] then Inr [] else Inr [mkCall m None (Updates2 tu)])"

definition Send3 :: "monitor \<Rightarrow> string \<Rightarrow> ModelUpdates \<Rightarrow> call list result" where
  "Send3 m i update = bindR (filterUpdate2 m update) (\<lambda>tu. if tu = [] then Inr [] else Inr [mkCall m (Some i) (Updates2 tu)])"

section \<open>The server\<close>

record OvsdbServer =
  soDb :: inMemoryDatabase
  soModels :: "(string, DatabaseModel) gomap"
  soMonitors :: "(client, (string, monitor) gomap) gomap"
  soDoEcho :: bool

definition NewOvsdbServer :: "inMemoryDatabase \<Rightarrow> DatabaseModel list \<Rightarrow> OvsdbServer result" where
  "NewOvsdbServer db models =
     (let ms = fold (\<lambda>m ms. AList.update (Name (dbSchema m)) m ms) models [] in
      bindR (foldR (\<lambda>db (name, m). CreateDatabase name (dbSchema m) db) db ms) (\<lambda>db'.
        Inr \<lparr>soDb = db', soModels = ms, soMonitors = [], soDoEcho = True\<rparr>))"

definition DoEcho :: "bool \<Rightarrow> OvsdbServer \<Rightarrow> OvsdbServer" where
  "DoEcho ok o1 = o1\<lparr>soDoEcho := ok\<rparr>"

definition Echo :: "OvsdbServer \<Rightarrow> any list \<Rightarrow> any list result" where
  "Echo o1 args = (if \<not> soDoEcho o1 then Inl (Errorf ''no echo reply'') else Inr args)"

definition ListDatabases :: "OvsdbServer \<Rightarrow> string list" where
  "ListDatabases o1 = map (\<lambda>(_, m). Name (dbSchema m)) (soModels o1)"

definition GetSchema :: "OvsdbServer \<Rightarrow> string \<Rightarrow> DatabaseSchema result" where
  "GetSchema o1 name = (case map_of (soModels o1) name of None \<Rightarrow> Inl (Errorf ''database does not exist'') | Some m \<Rightarrow> Inr (dbSchema m))"

definition processMonitors :: "string \<Rightarrow> ModelUpdates \<Rightarrow> OvsdbServer \<Rightarrow> call list result" where
  "processMonitors i update o1 =
     foldR (\<lambda>calls (_, c). foldR (\<lambda>calls (_, m).
       bindR (case monKind m of
                monitorKindOriginal \<Rightarrow> Send m update
              | monitorKindConditional \<Rightarrow> Send2 m update
              | monitorKindConditionalSince \<Rightarrow> Send3 m i update) (\<lambda>new. Inr (calls @ new))) calls c) [] (soMonitors o1)"

text \<open>The loop over the response that looks for an error; a missing result before it is a nil pointer.\<close>

fun responseFailed :: "OperationResult option list \<Rightarrow> bool result" where
  "responseFailed [] = Inr False"
| "responseFailed (None # rs) = Inl (Panic ''nil pointer dereference'')"
| "responseFailed (Some r # rs) = (if rError r \<noteq> [] then Inr True else responseFailed rs)"

text \<open>
  \<open>Transact\<close>: the server afterwards, the reply, the calls of the monitors and the error that is returned. The monitors are served before the
  update is committed.
\<close>

record transactReply =
  trServer :: OvsdbServer
  trReply :: "OperationResult option list"
  trCalls :: "call list"
  trError :: "err option"

definition serverTransact ::
  "OvsdbServer \<Rightarrow> (nat \<Rightarrow> string) \<Rightarrow> (nat \<Rightarrow> nat \<Rightarrow> int) \<Rightarrow> string \<Rightarrow> string \<Rightarrow> Operation list \<Rightarrow> transactReply result option" where
  "serverTransact o1 newUUID elapsed transactionID name ops =
     (if ops = [] then Some (Inr \<lparr>trServer = o1, trReply = [], trCalls = [], trError = Some (Errorf ''not enough args'')\<rparr>)
      else case Transact (soDb o1) newUUID elapsed ops (NewTransaction (soDb o1) name) of
        None \<Rightarrow> None
      | Some (Inl e) \<Rightarrow> Some (Inl e)
      | Some (Inr (_, response, updates)) \<Rightarrow>
          Some (bindR (responseFailed response) (\<lambda>failed.
            if failed then Inr \<lparr>trServer = o1, trReply = response, trCalls = [], trError = None\<rparr>
            else bindR (processMonitors transactionID (duUpdates updates) o1) (\<lambda>calls.
              (let (db', e) = Commit name updates (soDb o1)
               in case e of
                    Some (Panic s) \<Rightarrow> Inl (Panic s)
                  | _ \<Rightarrow> Inr \<lparr>trServer = o1\<lparr>soDb := db'\<rparr>, trReply = response, trCalls = calls, trError = e\<rparr>)))))"

text \<open>\<open>Cancel\<close>, \<open>MonitorCancel\<close>, \<open>Lock\<close>, \<open>Steal\<close> and \<open>Unlock\<close>.\<close>

definition notImplemented :: err where
  "notImplemented = Errorf ''not implemented''"

text \<open>
  The three monitor handlers differ in the initial updates they send and in the monitor they register. The select operations for the requested
  tables run in one transaction.
\<close>

definition rowUuid :: "Row \<Rightarrow> string result" where
  "rowUuid row = (case map_of row ''_uuid'' of Some (VAtom (AUUID u)) \<Rightarrow> Inr u | _ \<Rightarrow> Inl (Panic ''interface conversion''))"

definition initialTable :: "(Row \<Rightarrow> 'u) \<Rightarrow> Row list \<Rightarrow> (string, 'u option) gomap result" where
  "initialTable mk rows = foldR (\<lambda>tu row. bindR (rowUuid row) (\<lambda>u. Inr (AList.update u (Some (mk row)) tu))) [] rows"

fun initialUpdates ::
  "inMemoryDatabase \<Rightarrow> (nat \<Rightarrow> string) \<Rightarrow> (nat \<Rightarrow> nat \<Rightarrow> int) \<Rightarrow> (Row \<Rightarrow> 'u) \<Rightarrow> monitorRequests \<Rightarrow> Transaction \<times> (string, (string, 'u option) gomap) gomap
     \<Rightarrow> (string, (string, 'u option) gomap) gomap result option" where
  "initialUpdates db newUUID elapsed mk [] (t, tus) = Some (Inr tus)"
| "initialUpdates db newUUID elapsed mk ((table, None) # rs) (t, tus) = Some (Inl (Panic ''nil pointer dereference''))"
| "initialUpdates db newUUID elapsed mk ((table, Some request) # rs) (t, tus) =
     (case Transact db newUUID elapsed [emptyOp\<lparr>Op := OperationSelect, opTable := table, opColumns := mrColumns request\<rparr>] t of
        None \<Rightarrow> None
      | Some (Inl e) \<Rightarrow> Some (Inl e)
      | Some (Inr (t, result, _)) \<Rightarrow>
          (case result of
             [] \<Rightarrow> initialUpdates db newUUID elapsed mk rs (t, tus)
           | None # _ \<Rightarrow> Some (Inl (Panic ''nil pointer dereference''))
           | Some r # _ \<Rightarrow>
               if rRows r = [] then initialUpdates db newUUID elapsed mk rs (t, tus)
               else (case initialTable mk (rRows r) of
                  Inl e \<Rightarrow> Some (Inl e)
                | Inr tu \<Rightarrow> initialUpdates db newUUID elapsed mk rs (t, AList.update table tu tus))))"

definition registerMonitor ::
  "(Row \<Rightarrow> 'u) \<Rightarrow> (string \<Rightarrow> monitorRequests \<Rightarrow> client \<Rightarrow> monitor) \<Rightarrow> (nat \<Rightarrow> string) \<Rightarrow> (nat \<Rightarrow> nat \<Rightarrow> int) \<Rightarrow> client \<Rightarrow> string \<Rightarrow> string \<Rightarrow> monitorRequests
     \<Rightarrow> OvsdbServer \<Rightarrow> (OvsdbServer \<times> (string, (string, 'u option) gomap) gomap) result option" where
  "registerMonitor mk new newUUID elapsed client name value request o1 =
     (if \<not> Exists (soDb o1) name then Some (Inl (Errorf ''db does not exist''))
      else let monitors = (case map_of (soMonitors o1) client of None \<Rightarrow> [] | Some c \<Rightarrow> c) in
        if map_of monitors value \<noteq> None then Some (Inl (Errorf ''monitor with that value already exists''))
        else (case initialUpdates (soDb o1) newUUID elapsed mk request (NewTransaction (soDb o1) name, []) of
                None \<Rightarrow> None
              | Some (Inl e) \<Rightarrow> Some (Inl e)
              | Some (Inr tus) \<Rightarrow>
                  Some (Inr (o1\<lparr>soMonitors := AList.update client (AList.update value (new value request client) monitors) (soMonitors o1)\<rparr>, tus))))"

definition Monitor where
  "Monitor = registerMonitor (\<lambda>row. \<lparr>ruNew = Some row, ruOld = None\<rparr> :: RowUpdate) newMonitor"

definition MonitorCond where
  "MonitorCond = registerMonitor (\<lambda>row. emptyRU2\<lparr>Initial := Some row\<rparr>) newConditionalMonitor"

definition MonitorCondSince where
  "MonitorCondSince = registerMonitor (\<lambda>row. emptyRU2\<lparr>Initial := Some row\<rparr>) newConditionalSinceMonitor"

section \<open>Properties\<close>

lemma responseFailed_spec:
  assumes "list_all (\<lambda>r. rError r = []) oks"
  shows "responseFailed (map Some oks @ rest) = responseFailed rest"
  using assms by (induction oks) auto

text \<open>
  The server finds the failed operation of a transaction without running into a missing result: when the operations could be
  expanded, the loop over the results ends with the answer whether one of them has an error, and if none has then no result is missing.
\<close>

theorem response_scanned:
  assumes "Exists db (tDbName t)" and "initializeCache t = (t0, None)"
    and "ExpandNamedUUIDs (assignUUIDs newUUID ops) (dbSchema (tModel t0)) = Inr ops'"
    and "Transact db newUUID elapsed ops t = Some (Inr (t', results, u))"
  shows "responseFailed results = Inr (\<exists>x. Some x \<in> set results \<and> rError x \<noteq> [])
    \<and> ((\<exists>x. Some x \<in> set results \<and> rError x \<noteq> []) \<or> None \<notin> set results)"
proof -
  obtain oks rest where r: "results = map Some oks @ rest" "list_all (\<lambda>r. rError r = []) oks"
      "rest = [] \<and> length oks = length ops
       \<or> (\<exists>e. rest = Some e # replicate (length ops - Suc (length oks)) None \<and> length oks \<le> length ops \<and> (length oks < length ops \<longrightarrow> rError e \<noteq> []))"
    using Transact_shape [OF assms] by blast
  have o: "(\<exists>x. Some x \<in> set results \<and> rError x \<noteq> []) \<longleftrightarrow> (\<exists>x. Some x \<in> set rest \<and> rError x \<noteq> [])"
    using r(1,2) by (auto simp: list_all_iff)
  have n: "None \<in> set results \<longleftrightarrow> None \<in> set rest" using r(1) by auto
  have f: "responseFailed results = responseFailed rest" using r(1) responseFailed_spec [OF r(2)] by simp
  from r(3) show ?thesis unfolding o n f
  proof (elim disjE exE conjE)
    assume "rest = []"
    then show "responseFailed rest = Inr (\<exists>x. Some x \<in> set rest \<and> rError x \<noteq> []) \<and> ((\<exists>x. Some x \<in> set rest \<and> rError x \<noteq> []) \<or> None \<notin> set rest)" by simp
  next
    fix e
    assume e: "rest = Some e # replicate (length ops - Suc (length oks)) None" "length oks \<le> length ops" "length oks < length ops \<longrightarrow> rError e \<noteq> []"
    show "responseFailed rest = Inr (\<exists>x. Some x \<in> set rest \<and> rError x \<noteq> []) \<and> ((\<exists>x. Some x \<in> set rest \<and> rError x \<noteq> []) \<or> None \<notin> set rest)"
    proof (cases "rError e = []")
      case True
      then have "length oks = length ops" using e by auto
      then have "rest = [Some e]" using e(1) by simp
      then show ?thesis using True by simp
    next
      case False
      then show ?thesis unfolding e(1) by auto
    qed
  qed
qed

lemma responseFailed_iff: "responseFailed rs = Inr b \<Longrightarrow> b \<longleftrightarrow> (\<exists>x. Some x \<in> set rs \<and> rError x \<noteq> [])"
  by (induction rs rule: responseFailed.induct) (auto split: if_splits)


section \<open>What a monitor sends\<close>

definition sent2 :: "MonitorRequest \<Rightarrow> RowUpdate2 \<Rightarrow> bool" where
  "sent2 r ru = (\<exists>s. mrSelect r = Some s \<and> (RowUpdate2.Insert ru \<noteq> None \<and> selInsert s \<or> RowUpdate2.Modify ru \<noteq> None \<and> selModify s \<or> RowUpdate2.Delete ru \<noteq> None \<and> selDelete s))"

definition project2 :: "MonitorRequest \<Rightarrow> RowUpdate2 \<Rightarrow> RowUpdate2" where
  "project2 r ru = (let cols = ''_uuid'' # mrColumns r in
     ru\<lparr>RowUpdate2.Insert := filterColumns (RowUpdate2.Insert ru) cols, RowUpdate2.Modify := filterColumns (RowUpdate2.Modify ru) cols, RowUpdate2.Delete := filterColumns (RowUpdate2.Delete ru) cols\<rparr>)"

lemma selected3_spec:
  "selected3 r a b c = Inr x \<Longrightarrow> x \<longleftrightarrow> (\<exists>s. mrSelect r = Some s \<and> (a \<and> selInsert s \<or> b \<and> selModify s \<or> c \<and> selDelete s))"
  by (auto simp: selected3_def selectOf_def resR split: if_splits option.splits)

lemma filterRow2_spec:
  assumes "filterRow2 r tu uuid ru = Inr tu'"
  shows "tu' = (if sent2 r ru then AList.update uuid (Some (project2 r ru)) tu else tu)"
proof -
  obtain b where b: "selected3 r (RowUpdate2.Insert ru \<noteq> None) (RowUpdate2.Modify ru \<noteq> None) (RowUpdate2.Delete ru \<noteq> None) = Inr b"
    using assms by (auto simp: filterRow2_def Let_def resR)
  have "sent2 r ru = b" unfolding sent2_def using selected3_spec [OF b] by (rule sym)
  then show ?thesis using assms b by (simp add: filterRow2_def Let_def project2_def split: if_splits)
qed

lemma filterRows2_spec:
  assumes "ofS (ForEachRowUpdate u table (\<lambda>tu uuid ru2. toS tu (filterRow2 r tu uuid ru2)) []) = Inr tu" "gm_ok (tableUpdates u table)"
  shows "map_of tu uuid = (case map_of (tableUpdates u table) uuid of None \<Rightarrow> None
    | Some mu \<Rightarrow> (case muRow mu of None \<Rightarrow> None | Some ru \<Rightarrow> if sent2 r ru then Some (Some (project2 r ru)) else None))"
proof -
  define f where "f = (\<lambda>(tu :: (string, RowUpdate2 option) gomap) (uuid :: string, mu :: modelUpdate). case muRow mu of None \<Rightarrow> Inl (Panic ''nil pointer dereference'') | Some ru \<Rightarrow> filterRow2 r tu uuid ru)"
  have e: "(\<lambda>s (uuid, mu). case muRow mu of None \<Rightarrow> (s, Some (Panic ''nil pointer dereference'')) | Some ru \<Rightarrow> toS s (filterRow2 r s uuid ru)) = (\<lambda>s x. toS s (f s x))"
    by (auto simp: f_def fun_eq_iff toS_def split: option.splits)
  have "foldR f tu0 xs = Inr tu \<Longrightarrow> gm_ok xs \<Longrightarrow> map_of tu uuid = (case map_of xs uuid of None \<Rightarrow> map_of tu0 uuid
    | Some mu \<Rightarrow> (case muRow mu of None \<Rightarrow> map_of tu0 uuid | Some ru \<Rightarrow> if sent2 r ru then Some (Some (project2 r ru)) else map_of tu0 uuid))" for xs tu0
  proof (induction xs arbitrary: tu0)
    case (Cons x xs)
    obtain v mu where x: "x = (v, mu)" by fastforce
    obtain tu1 where 1: "f tu0 x = Inr tu1" "foldR f tu1 xs = Inr tu" using Cons.prems(1) by (auto simp: resR)
    then obtain ru where ru: "muRow mu = Some ru" "filterRow2 r tu0 v ru = Inr tu1" by (auto simp: f_def x split: option.splits)
    have n: "map_of xs v = None" using Cons.prems(2) x by (simp add: map_of_eq_None_iff)
    note ih = Cons.IH [OF 1(2)]
    show ?case
    proof (cases "uuid = v")
      case True
      then show ?thesis using ih Cons.prems(2) n ru(1) filterRow2_spec [OF ru(2)] by (simp add: x)
    next
      case False
      then have "map_of tu1 uuid = map_of tu0 uuid" using filterRow2_spec [OF ru(2)] by simp
      then show ?thesis using ih Cons.prems(2) False by (simp add: x split: option.split)
    qed
  qed simp
  from this [of "[]" "tableUpdates u table"] show ?thesis
    using assms unfolding ForEachRowUpdate_def e ofS_foldS by (simp split: option.splits)
qed


lemma filterUpdate2_loop:
  assumes "foldR (\<lambda>tus table. if \<not> watched m table then Inr tus
       else bindR (requestOf m table) (\<lambda>r. bindR (ofS (ForEachRowUpdate u table (\<lambda>tu uuid ru2. toS tu (filterRow2 r tu uuid ru2)) [])) (\<lambda>tu.
              Inr (AList.update table tu tus)))) tus0 tables = Inr tus"
  shows "if table \<in> set tables \<and> watched m table
    then \<exists>r tu. requestOf m table = Inr r \<and> ofS (ForEachRowUpdate u table (\<lambda>tu uuid ru2. toS tu (filterRow2 r tu uuid ru2)) []) = Inr tu \<and> map_of tus table = Some tu
    else map_of tus table = map_of tus0 table"
  using assms
proof (induction tables arbitrary: tus0)
  case (Cons tb tables)
  show ?case
  proof (cases "watched m tb")
    case False
    then show ?thesis using Cons.IH [of tus0] Cons.prems by (auto split: if_splits)
  next
    case True
    then obtain r tu where r: "requestOf m tb = Inr r" "ofS (ForEachRowUpdate u tb (\<lambda>tu uuid ru2. toS tu (filterRow2 r tu uuid ru2)) []) = Inr tu"
        "foldR (\<lambda>tus table. if \<not> watched m table then Inr tus
       else bindR (requestOf m table) (\<lambda>r. bindR (ofS (ForEachRowUpdate u table (\<lambda>tu uuid ru2. toS tu (filterRow2 r tu uuid ru2)) [])) (\<lambda>tu.
              Inr (AList.update table tu tus)))) (AList.update tb tu tus0) tables = Inr tus"
      using Cons.prems by (auto simp: resR)
    show ?thesis using Cons.IH [OF r(3)] r(1,2) True by (cases "table = tb"; cases "table \<in> set tables") auto
  qed
qed simp


section \<open>From the server to a client\<close>

text \<open>The old and new rows of an update are not sent.\<close>

definition onTheWire :: "TableUpdates2 \<Rightarrow> TableUpdates2" where
  "onTheWire tus = map (\<lambda>(table, tu). (table, map (\<lambda>(uuid, ru). (uuid, map_option (\<lambda>r. r\<lparr>Old := None, New := None\<rparr>) ru)) tu)) tus"

lemma filterColumns_all: "set (keys d) \<subseteq> set cols \<Longrightarrow> filterColumns (Some d) cols = Some d"
  by (force simp: filterColumns_def filter_id_conv)

lemma filterUpdate2_modify:
  assumes "map_of (monRequest mon) table = Some (Some r)" "mrSelect r = Some s" "selModify s" "set (keys d) \<subseteq> set (''_uuid'' # mrColumns r)"
    and "muRow mu = Some (emptyRU2\<lparr>RowUpdate2.Modify := Some d, Old := a, New := b\<rparr>)"
  shows "\<exists>tus. filterUpdate2 mon [(table, [(uuid, mu)])] = Inr tus \<and> onTheWire tus = [(table, [(uuid, Some (emptyRU2\<lparr>RowUpdate2.Modify := Some d\<rparr>))])]"
proof -
  have w: "watched mon table" using assms(1) by (auto simp: watched_def)
  have s: "selected3 r False True False = Inr True" using assms(2,3) by (simp add: selected3_def selectOf_def)
  show ?thesis
    using w s assms filterColumns_all [OF assms(4)]
    by (simp add: filterUpdate2_def GetUpdatedTables_def requestOf_def ForEachRowUpdate_def tableUpdates_def filterRow2_def emptyRU2_def Let_def
        toS_def onTheWire_def) (simp add: filterColumns_def)
qed

text \<open>
  Claim C3. Replication from server to client: the server executes an update operation on a row that a client holds in the same state; the monitor
  of the client watches the table with the changed columns and modifications selected. Then what the monitor sends, as it arrives at the client, is
  applied to the client's cache without an error, the client's row has the column values of the server's new row, and nothing else changes there.
\<close>

theorem update_reaches_client:
  assumes "wfDb (tcDb t)" and "map_of (tcCache t) table = Some r" and "rcDb r = tcDb t" and "indexable r"
    and "map_of (rcCache r) uuid = Some m" and "tableModel (tcDb t) table m" and "NewModelInfo (tcDb t) m = Inr i" and "distinctFields i"
    and "gm_ok (opRow op)" and "distinctRow (mTableSchema (iMeta i)) (opRow op)"
    and "updateModel (tcDb t) table i (opRow op) (Some []) = Inr (True, i', Some d)"
    and "addUpdateOperation (tcDb t) table uuid (Some m) op [] = Inr u"
    and "map_of (monRequest mon) table = Some (Some req)" and "mrSelect req = Some s" and "selModify s" and "set (keys d) \<subseteq> set (''_uuid'' # mrColumns req)"
  shows "\<exists>tus t' j. filterUpdate2 mon u = Inr tus \<and> Populate2 (onTheWire tus) t = (t', None)
    \<and> contents t' = (contents t)((table, uuid) \<mapsto> Obj j) \<and> NewModelInfo (tcDb t) (Obj j) = Inr j \<and> (\<forall>c. sameField (FieldByColumn i' c) (FieldByColumn j c))
    \<and> GetModel u table uuid = Some (Obj i')"
proof -
  obtain a b where u: "addUpdate (tcDb t) table uuid
       \<lparr>muRow = Some (emptyRU2\<lparr>RowUpdate2.Modify := Some d, Old := Some a, New := Some b\<rparr>), muOld = Some m, muNew = Some (Obj i')\<rparr> [] = Inr u"
    using assms(7,11,12) by (auto simp: addUpdateOperation_def modelInfo_def cloneModel_def Clone_def resR)
  have u': "u = [(table, [(uuid, \<lparr>muRow = Some (emptyRU2\<lparr>RowUpdate2.Modify := Some d, Old := Some a, New := Some b\<rparr>), muOld = Some m, muNew = Some (Obj i')\<rparr>)])]"
    using u by (subst (asm) addUpdate_first) (simp_all add: pending_def tableUpdates_def)
  obtain tus where tus: "filterUpdate2 mon u = Inr tus" "onTheWire tus = [(table, [(uuid, Some (emptyRU2\<lparr>RowUpdate2.Modify := Some d\<rparr>))])]"
    using filterUpdate2_modify [OF assms(13-16)] unfolding u' by (metis modelUpdate.select_convs(1))
  have "GetModel u table uuid = Some (Obj i')" by (simp add: u' GetModel_def tableUpdates_def)
  then show ?thesis using Populate2_modify [OF assms(1-11)] tus by auto
qed

section \<open>Witnesses\<close>

definition exRequest :: MonitorRequest where
  "exRequest = \<lparr>mrColumns = [''name''], mrWhere = [], mrSelect = Some NewDefaultMonitorSelect\<rparr>"

definition exMonitor :: monitor where
  "exMonitor = newConditionalMonitor ''m'' [(''Bridge'', Some exRequest)] 1"

definition exServer :: OvsdbServer where
  "exServer = \<lparr>soDb = exDatabase, soModels = [(''db'', exDb)], soMonitors = [(1, [(''m'', exMonitor)])], soDoEcho = True\<rparr>"

definition failedResult :: "OperationResult option \<Rightarrow> bool" where
  "failedResult x = (case x of Some y \<Rightarrow> rError y \<noteq> [] | None \<Rightarrow> False)"

lemma exServer_run:
  "case serverTransact exServer freshUUID (\<lambda>i n. int n) ''txn'' ''db'' exOps of
     Some (Inr r) \<Rightarrow> list_ex failedResult (trReply r) | _ \<Rightarrow> False"
  by code_simp


theorem response_scanned_witness:
  "\<exists>t' results u b. exRun exOps = Some (Inr (t', results, u)) \<and> responseFailed results = Inr b"
proof -
  obtain t' results u where r: "exRun exOps = Some (Inr (t', results, u))" using exOps_run(1) by (auto split: option.splits sum.splits)
  obtain ops' where o: "ExpandNamedUUIDs (assignUUIDs freshUUID exOps) (dbSchema (tModel (fst (initializeCache (NewTransaction exDatabase ''db''))))) = Inr ops'"
    using exOps_run(3) by (auto simp: isOk_iff)
  have i: "initializeCache (NewTransaction exDatabase ''db'') = (fst (initializeCache (NewTransaction exDatabase ''db'')), None)"
    using exOps_run(2) by (simp add: prod_eq_iff)
  have "tDbName (NewTransaction exDatabase ''db'') = ''db''" by (simp add: NewTransaction_def)
  then show ?thesis using response_scanned [OF _ i o r [unfolded exRun_def]] exOps_run(4) r by auto
qed

definition exModify :: ModelUpdates where
  "exModify = [(''Bridge'', [(''u'', \<lparr>muRow = Some (emptyRU2\<lparr>Modify := Some [(''name'', VAtom (AStr ''br1'')), (''ports'', VOvsSet (Some [AInt 7]))]\<rparr>),
     muOld = Some (exModel ''u'' ''br0''), muNew = Some (exModel ''u'' ''br1'')\<rparr>)])]"


definition exRename :: Operation where
  "exRename = emptyOp\<lparr>Op := OperationUpdate, opTable := ''Bridge'', opRow := [(''name'', VAtom (AStr ''br1''))]\<rparr>"

lemma exRename_added: "isOk (addUpdateOperation exDb ''Bridge'' ''u'' (Some (exModel ''u'' ''br0'')) exRename [])"
  by code_simp

theorem update_reaches_client_witness:
  "\<exists>u tus t' j. addUpdateOperation exDb ''Bridge'' ''u'' (Some (exModel ''u'' ''br0'')) exRename [] = Inr u
    \<and> filterUpdate2 exMonitor u = Inr tus \<and> Populate2 (onTheWire tus) exTC = (t', None)
    \<and> (\<forall>c. sameField (FieldByColumn \<lparr>Obj = exModel ''u'' ''br1'', iMeta = exMeta\<rparr> c) (FieldByColumn j c))"
proof -
  obtain u where u: "addUpdateOperation exDb ''Bridge'' ''u'' (Some (exModel ''u'' ''br0'')) exRename [] = Inr u" using exRename_added by (auto simp: isOk_iff)
  have db: "tcDb exTC = exDb" by (simp add: exTC_def)
  have up: "updateModel exDb ''Bridge'' \<lparr>Obj = exModel ''u'' ''br0'', iMeta = exMeta\<rparr> (opRow exRename) (Some []) = Inr (True, \<lparr>Obj = exModel ''u'' ''br1'', iMeta = exMeta\<rparr>, Some [(''name'', VAtom (AStr ''br1''))])"
    using exUpdate by (simp add: exRename_def)
  note w = update_reaches_client [of exTC "''Bridge''" "exCache [(''u'', exModel ''u'' ''br0'')] [(IVal (VAtom (AStr ''br0'')), [''u''])]" "''u''"
      "exModel ''u'' ''br0''" "\<lparr>Obj = exModel ''u'' ''br0'', iMeta = exMeta\<rparr>" exRename, unfolded db, OF wfDb_exDb _ _ indexable_exCache _ _ NewModelInfo_ex _ _ _ up u,
      of exMonitor exRequest NewDefaultMonitorSelect]
  have "\<exists>tus t' j. filterUpdate2 exMonitor u = Inr tus \<and> Populate2 (onTheWire tus) exTC = (t', None)
    \<and> contents t' = (contents exTC)((''Bridge'', ''u'') \<mapsto> Obj j) \<and> NewModelInfo exDb (Obj j) = Inr j
    \<and> (\<forall>c. sameField (FieldByColumn \<lparr>Obj = exModel ''u'' ''br1'', iMeta = exMeta\<rparr> c) (FieldByColumn j c))
    \<and> GetModel u ''Bridge'' ''u'' = Some (Obj \<lparr>Obj = exModel ''u'' ''br1'', iMeta = exMeta\<rparr>)"
  proof (rule w)
    show "distinctFields \<lparr>Obj = exModel ''u'' ''br0'', iMeta = exMeta\<rparr>"
      by (simp add: distinctFields_def exMeta_def FieldByColumn_def exModel_def distinctVal_def)
    show "tableModel exDb ''Bridge'' (exModel ''u'' ''br0'')"
      by (simp add: tableModel_def exDb_def exClient_def wfModel_exModel) (simp add: exModel_def)
  qed (simp_all add: exTC_def exCache_def exMeta_def distinctRow_def exTable_def Column_def exNameColumn_def OvsToNative_def distinctVal_def exRename_def
      exMonitor_def newConditionalMonitor_def exRequest_def NewDefaultMonitorSelect_def NewMonitorSelect_def selModify_def)
  then show ?thesis using u by blast
qed

end
