(* ===== verification/Client.thy ===== *)
theory Client
  imports ClientApi Server
begin

text \<open>
  The client's connection (\<open>client/client.go\<close>, \<open>client/monitor.go\<close>, \<open>client/options.go\<close>): the endpoints and their order, connecting and
  reconnecting, the monitors with the fallback between the three monitor methods, the notifications that arrive before or
  after a monitor's reply, cancelling, transactions, leadership, errors, and the parsing of select results. A call of a
  method on the client is a function on the record \<open>ovsdbClient\<close>. The server at the other end answers through the parameter
  \<open>server\<close>, and a dialled address gives such a server or an error through the parameter \<open>network\<close>; neither is assumed to behave. A
  method that holds a lock for all of its effect is one step; a method that waits polls a list of the states it would see.
  The field \<open>modelReaders\<close> counts the read locks on a database's model that were taken and not released.
\<close>

section \<open>Monitors\<close>

definition MonitorRPC :: string where "MonitorRPC = ''monitor''"
definition ConditionalMonitorRPC :: string where "ConditionalMonitorRPC = ''monitor_cond''"
definition ConditionalMonitorSinceRPC :: string where "ConditionalMonitorSinceRPC = ''monitor_cond_since''"

lemmas rpc_names = MonitorRPC_def ConditionalMonitorRPC_def ConditionalMonitorSinceRPC_def

definition emptyUUID :: string where "emptyUUID = ''00000000-0000-0000-0000-000000000000''"

record TableMonitor =
  tmTable :: string
  tmConditions :: "Condition list"
  tmFields :: "string list"

record ClientMonitor =
  Method :: string
  monTables :: "TableMonitor list"
  Errors :: "err list"
  LastTransactionID :: string

record MonitorCookie =
  DatabaseName :: string
  cookieID :: string

definition clientNewMonitor :: ClientMonitor where
  "clientNewMonitor = \<lparr>Method = ConditionalMonitorSinceRPC, monTables = [], Errors = [], LastTransactionID = emptyUUID\<rparr>"

definition newTableMonitor :: "DatabaseModel \<Rightarrow> Model \<Rightarrow> ModelCondition list \<Rightarrow> FieldPtr list \<Rightarrow> TableMonitor result" where
  "newTableMonitor dbModel m conditions fs =
     (let tableName = FindTable dbModel (mType m) in
      if tableName = [] then Inl (Errorf ''object is not part of the ClientDBModel'')
      else if fs = [] \<and> conditions = [] then Inr \<lparr>tmTable = tableName, tmConditions = [], tmFields = []\<rparr>
      else case NewModelInfo dbModel m of
             Inl (Panic s) \<Rightarrow> Inl (Panic s)
           | Inl _ \<Rightarrow> Inl (Errorf ''unable to obtain info from model'')
           | Inr data \<Rightarrow>
               (case mapR (ColumnByPtr data) fs of
                  Inl (Panic s) \<Rightarrow> Inl (Panic s)
                | Inl _ \<Rightarrow> Inl (Errorf ''unable to obtain column from model'')
                | Inr columns \<Rightarrow>
                    (case mapR (\<lambda>c. mapperNewCondition data (mcField c) (mcFunction c) (mcValue c)) conditions of
                       Inl (Panic s) \<Rightarrow> Inl (Panic s)
                     | Inl _ \<Rightarrow> Inl (Errorf ''unable to convert condition'')
                     | Inr ovsdbConds \<Rightarrow> Inr \<lparr>tmTable = tableName, tmConditions = ovsdbConds, tmFields = columns\<rparr>)))"

text \<open>A \<open>MonitorOption\<close> changes the monitor or fails; \<open>NewMonitor\<close> keeps the errors for the call of \<open>Monitor\<close>.\<close>

type_synonym MonitorOption = "DatabaseModel \<Rightarrow> ClientMonitor \<Rightarrow> ClientMonitor result"

definition WithConditionalTable :: "Model \<Rightarrow> ModelCondition list \<Rightarrow> FieldPtr list \<Rightarrow> MonitorOption" where
  "WithConditionalTable m conditions fs dbModel mon =
     bindR (newTableMonitor dbModel m conditions fs) (\<lambda>tm. Inr (mon\<lparr>monTables := monTables mon @ [tm]\<rparr>))"

definition WithTable :: "Model \<Rightarrow> FieldPtr list \<Rightarrow> MonitorOption" where
  "WithTable m fs = WithConditionalTable m [] fs"

definition NewMonitor :: "DatabaseModel \<Rightarrow> MonitorOption list \<Rightarrow> ClientMonitor result" where
  "NewMonitor dbModel opts =
     foldR (\<lambda>m opt. case opt dbModel m of
       Inl (Panic s) \<Rightarrow> Inl (Panic s)
     | Inl e \<Rightarrow> Inr (m\<lparr>Errors := Errors m @ [e]\<rparr>)
     | Inr m' \<Rightarrow> Inr m') clientNewMonitor opts"

definition newMonitorRequest :: "Info \<Rightarrow> string list \<Rightarrow> Condition list \<Rightarrow> MonitorRequest" where
  "newMonitorRequest data fs conditions =
     \<lparr>mrColumns = (if fs \<noteq> [] then fs else keys (Columns (mTableSchema (iMeta data)))),
      mrWhere = conditions, mrSelect = Some NewDefaultMonitorSelect\<rparr>"

section \<open>The state\<close>

record bufferedUpdate =
  buUpdates :: "TableUpdates option"
  buUpdates2 :: "TableUpdates2 option"
  buLastTxnID :: string

record epInfo =
  epAddress :: string
  epServerID :: string

record 's database =
  dModel :: DatabaseModel
  dCache :: "'s TableCache option"
  monitors :: "(string, ClientMonitor) gomap"
  deferUpdates :: bool
  deferredUpdates :: "bufferedUpdate list"
  modelReaders :: nat

record options =
  optEndpoints :: "string list"
  optReconnect :: bool
  optLeaderOnly :: bool
  optValidateModel :: bool
  optInactivity :: bool

record 's ovsdbClient =
  opts :: options
  connected :: bool
  rpcClient :: bool
  rpcClosed :: bool
  endpoints :: "epInfo list"
  primaryDBName :: string
  databases :: "(string, 's database) gomap"
  errorCh :: "err list"
  shutdown :: bool
  disconnects :: nat

section \<open>The server at the other end\<close>

datatype rpcErr = ErrShutdown | RpcError string

text \<open>An error of a call: a closed connection is reported as \<open>ErrNotConnected\<close>.\<close>

definition rpcError :: "rpcErr \<Rightarrow> err" where
  "rpcError e = (case e of ErrShutdown \<Rightarrow> ErrNotConnected | RpcError s \<Rightarrow> Errorf s)"

type_synonym requests = "(string, MonitorRequest) gomap"

record server =
  srvListDbs :: "(rpcErr, string list) res"
  srvGetSchema :: "string \<Rightarrow> (rpcErr, DatabaseSchema) res"
  srvTransact :: "string \<Rightarrow> Operation list \<Rightarrow> (rpcErr, OperationResult list) res"
  srvMonitor :: "MonitorCookie \<Rightarrow> requests \<Rightarrow> (rpcErr, TableUpdates) res"
  srvMonitorCond :: "MonitorCookie \<Rightarrow> requests \<Rightarrow> (rpcErr, TableUpdates2) res"
  srvMonitorCondSince :: "MonitorCookie \<Rightarrow> requests \<Rightarrow> string \<Rightarrow> (rpcErr, bool \<times> string \<times> TableUpdates2) res"
  srvMonitorCancel :: "MonitorCookie \<Rightarrow> (rpcErr, OperationResult) res"
  srvEcho :: "string list \<Rightarrow> (rpcErr, string list) res"

text \<open>\<open>url.Parse\<close>: scheme, path and opaque part of an address; dialling a protocol and an address.\<close>

record URL =
  Scheme :: string
  Path :: string
  Opaque :: string

record network =
  netParse :: "string \<Rightarrow> URL result"
  netDial :: "string \<Rightarrow> string \<Rightarrow> server result"
  netDialTLS :: "string \<Rightarrow> server result"

section \<open>Creating a client\<close>

definition defaultUnixEndpoint :: string where "defaultUnixEndpoint = ''unix:/var/run/openvswitch/ovsdb.sock''"
definition defaultTCPEndpoint :: string where "defaultTCPEndpoint = ''tcp:127.0.0.1:6640''"
definition defaultSSLEndpoint :: string where "defaultSSLEndpoint = ''ssl:127.0.0.1:6640''"

type_synonym ClientOption = "options \<Rightarrow> options result"

definition WithEndpoint :: "(string \<Rightarrow> URL result) \<Rightarrow> string \<Rightarrow> ClientOption" where
  "WithEndpoint parse endpoint o' =
     bindR (parse endpoint) (\<lambda>ep.
       let ep' = (if Scheme ep = ''unix'' \<and> Path ep = [] then defaultUnixEndpoint
                  else if Scheme ep = ''tcp'' \<and> Opaque ep = [] then defaultTCPEndpoint
                  else if Scheme ep = ''ssl'' \<and> Opaque ep = [] then defaultSSLEndpoint
                  else endpoint)
       in Inr (o'\<lparr>optEndpoints := optEndpoints o' @ [ep']\<rparr>))"

definition WithLeaderOnly :: "bool \<Rightarrow> ClientOption" where
  "WithLeaderOnly b o' = Inr (o'\<lparr>optLeaderOnly := b\<rparr>)"

definition WithReconnect :: ClientOption where
  "WithReconnect o' = Inr (o'\<lparr>optReconnect := True\<rparr>)"

definition WithInactivityCheck :: "int \<Rightarrow> int \<Rightarrow> ClientOption" where
  "WithInactivityCheck inactivityTimeout reconnectTimeout o' =
     (if reconnectTimeout \<ge> inactivityTimeout
      then Inl (Errorf ''inactivity timeout value should be greater than reconnect timeout value'')
      else Inr (o'\<lparr>optReconnect := True, optInactivity := inactivityTimeout > 0\<rparr>))"

definition WithValidateModel :: ClientOption where
  "WithValidateModel o' = Inr (o'\<lparr>optValidateModel := True\<rparr>)"

definition newOptions :: "ClientOption list \<Rightarrow> options result" where
  "newOptions os =
     bindR (foldR (\<lambda>o' opt. opt o') \<lparr>optEndpoints = [], optReconnect = False, optLeaderOnly = False, optValidateModel = False, optInactivity = False\<rparr> os) (\<lambda>o'.
       Inr (if optEndpoints o' = [] then o'\<lparr>optEndpoints := [defaultUnixEndpoint]\<rparr> else o'))"

definition serverDB :: string where "serverDB = ''_Server''"

definition newDatabase :: "ClientDBModel \<Rightarrow> bool \<Rightarrow> 's database" where
  "newDatabase c defer = \<lparr>dModel = NewPartialDatabaseModel c, dCache = None, monitors = [], deferUpdates = defer,
     deferredUpdates = [], modelReaders = 0\<rparr>"

text \<open>The second argument is the model of the database \<open>_Server\<close>, which the generated package \<open>serverdb\<close> builds.\<close>

definition newOVSDBClient :: "ClientDBModel \<Rightarrow> ClientDBModel result \<Rightarrow> ClientOption list \<Rightarrow> 's ovsdbClient result" where
  "newOVSDBClient clientDBModel serverModel os =
     bindR (newOptions os) (\<lambda>o'.
     let dbs = [(cdbName clientDBModel, newDatabase clientDBModel True)];
         c = \<lparr>opts = o', connected = False, rpcClient = False, rpcClosed = False,
              endpoints = map (\<lambda>a. \<lparr>epAddress = a, epServerID = []\<rparr>) (optEndpoints o'),
              primaryDBName = cdbName clientDBModel, databases = dbs, errorCh = [], shutdown = False, disconnects = 0\<rparr>
     in if optLeaderOnly o'
        then (case serverModel of
                Inl e \<Rightarrow> Inl (Errorf ''could not initialize model _Server'')
              | Inr sm \<Rightarrow> Inr (c\<lparr>databases := AList.update serverDB (newDatabase sm False) dbs\<rparr>))
        else Inr c)"

section \<open>Databases of a client\<close>

definition setDb :: "string \<Rightarrow> 's database \<Rightarrow> 's ovsdbClient \<Rightarrow> 's ovsdbClient" where
  "setDb name db c = c\<lparr>databases := AList.update name db (databases c)\<rparr>"

definition primaryDB :: "'s ovsdbClient \<Rightarrow> 's database option" where
  "primaryDB c = map_of (databases c) (primaryDBName c)"

definition ClientSchema :: "'s ovsdbClient \<Rightarrow> DatabaseSchema option" where
  "ClientSchema c = map_option (dbSchema \<circ> dModel) (primaryDB c)"

definition Cache :: "'s ovsdbClient \<Rightarrow> 's TableCache option" where
  "Cache c = Option.bind (primaryDB c) dCache"

definition Connected :: "'s ovsdbClient \<Rightarrow> bool" where
  "Connected c = connected c"

definition CurrentEndpoint :: "'s ovsdbClient \<Rightarrow> string result" where
  "CurrentEndpoint c =
     (if \<not> rpcClient c then Inr []
      else case endpoints c of [] \<Rightarrow> Inl (Panic ''index out of range'') | e # _ \<Rightarrow> Inr (epAddress e))"

definition SetOption :: "ClientOption \<Rightarrow> 's ovsdbClient \<Rightarrow> 's ovsdbClient result" where
  "SetOption opt c =
     (if rpcClient c then Inl (Errorf ''cannot set option when client is connected'')
      else bindR (opt (opts c)) (\<lambda>o'. Inr (c\<lparr>opts := o'\<rparr>)))"

section \<open>Endpoints\<close>

definition moveEndpointFirst :: "nat \<Rightarrow> epInfo list \<Rightarrow> epInfo list" where
  "moveEndpointFirst i eps = (eps ! i) # (take i eps @ drop (i + 1) eps)"

definition moveEndpointLast :: "nat \<Rightarrow> epInfo list \<Rightarrow> epInfo list" where
  "moveEndpointLast i eps = (take i eps @ drop (i + 1) eps) @ [eps ! i]"

definition resetRPCClient :: "'s ovsdbClient \<Rightarrow> 's ovsdbClient" where
  "resetRPCClient c = c\<lparr>rpcClient := False\<rparr>"

text \<open>\<open>_disconnect\<close> closes the connection; what follows is up to \<open>handleDisconnectNotification\<close>.\<close>

definition disconnect :: "'s ovsdbClient \<Rightarrow> 's ovsdbClient" where
  "disconnect c = (if rpcClient c then c\<lparr>connected := False, rpcClosed := True\<rparr> else c\<lparr>connected := False\<rparr>)"

definition Disconnect :: "'s ovsdbClient \<Rightarrow> 's ovsdbClient" where
  "Disconnect c = disconnect c"

definition Close :: "'s ovsdbClient \<Rightarrow> 's ovsdbClient" where
  "Close c = (if rpcClient c then c\<lparr>connected := False, shutdown := True, rpcClosed := True\<rparr> else c\<lparr>connected := False\<rparr>)"

text \<open>The new endpoint for an address, with the server ID of the old one, and the index of the active one.\<close>

fun newEndpoints :: "epInfo list \<Rightarrow> nat \<Rightarrow> string list \<Rightarrow> epInfo list \<times> nat option" where
  "newEndpoints originEps i [] = ([], None)"
| "newEndpoints originEps i (address # rest) =
     (let (eps, active) = newEndpoints originEps (Suc i) rest;
          sid = (case find (\<lambda>e. epAddress e = address) originEps of None \<Rightarrow> [] | Some e \<Rightarrow> epServerID e);
          isActive = (case originEps of [] \<Rightarrow> False | e # _ \<Rightarrow> epAddress e = address)
      in (\<lparr>epAddress = address, epServerID = sid\<rparr> # eps,
          case active of Some j \<Rightarrow> Some j | None \<Rightarrow> if isActive then Some i else None))"

definition UpdateEndpoints :: "string list \<Rightarrow> 's ovsdbClient \<Rightarrow> 's ovsdbClient" where
  "UpdateEndpoints addrs c =
     (let addrs = (if addrs = [] then [defaultUnixEndpoint] else addrs);
          (newEps, activeIdx) = newEndpoints (endpoints c) 0 addrs;
          c = c\<lparr>opts := (opts c)\<lparr>optEndpoints := addrs\<rparr>, endpoints := newEps\<rparr>
      in case activeIdx of
           None \<Rightarrow> disconnect c
         | Some i \<Rightarrow> if i > 0 then c\<lparr>endpoints := moveEndpointFirst i newEps\<rparr> else c)"

section \<open>Monitor requests and replies\<close>

definition addRequest :: "DatabaseModel \<Rightarrow> requests \<Rightarrow> TableMonitor \<Rightarrow> requests result" where
  "addRequest dbModel rs tm =
     (if map_of (cdbTypes (dbClient dbModel)) (tmTable tm) = None
      then Inl (Errorf (''type for table '' @ tmTable tm @ '' does not exist in model''))
      else bindR (NewModel dbModel (tmTable tm)) (\<lambda>m.
           bindR (NewModelInfo dbModel m) (\<lambda>info.
             Inr (AList.update (tmTable tm) (newMonitorRequest info (tmFields tm) (tmConditions tm)) rs))))"

definition buildRequests :: "DatabaseModel \<Rightarrow> TableMonitor list \<Rightarrow> requests result" where
  "buildRequests dbModel tms = foldR (addRequest dbModel) [] tms"

text \<open>
  The reply of a monitor call by its method: the updates of \<open>monitor\<close>, or those of the conditional methods with the
  transaction the server knew, which only \<open>monitor_cond_since\<close> reports.
\<close>

datatype monitorReply = ReplyV1 TableUpdates | ReplyV2 "string option" TableUpdates2

definition callMonitor :: "server \<Rightarrow> MonitorCookie \<Rightarrow> requests \<Rightarrow> string \<Rightarrow> string \<Rightarrow> (rpcErr, monitorReply) res" where
  "callMonitor srv cookie rs txn m =
     (if m = MonitorRPC then bindR (srvMonitor srv cookie rs) (\<lambda>u. Inr (ReplyV1 u))
      else if m = ConditionalMonitorRPC then bindR (srvMonitorCond srv cookie rs) (\<lambda>u. Inr (ReplyV2 None u))
      else bindR (srvMonitorCondSince srv cookie rs txn) (\<lambda>(found, lastTxn, u). Inr (ReplyV2 (if found then Some lastTxn else None) u)))"

definition populateReply :: "monitorReply \<Rightarrow> 's TableCache \<Rightarrow> 's TableCache \<times> err option" where
  "populateReply r cache = (case r of ReplyV1 u \<Rightarrow> Populate u cache | ReplyV2 _ u \<Rightarrow> Populate2 u cache)"

definition replyFound :: "monitorReply \<Rightarrow> string option" where
  "replyFound r = (case r of ReplyV1 _ \<Rightarrow> None | ReplyV2 f _ \<Rightarrow> f)"

text \<open>One deferred update: both kinds it may carry, then the transaction it ends.\<close>

definition applyBuffered :: "bufferedUpdate \<Rightarrow> 's TableCache \<Rightarrow> 's TableCache \<times> err option" where
  "applyBuffered u cache =
     (case (case buUpdates u of None \<Rightarrow> (cache, None) | Some us \<Rightarrow> Populate us cache) of
        (cache, Some e) \<Rightarrow> (cache, Some e)
      | (cache, None) \<Rightarrow> (case buUpdates2 u of None \<Rightarrow> (cache, None) | Some us \<Rightarrow> Populate2 us cache))"

definition replayOne :: "string \<Rightarrow> 's TableCache \<times> (string, ClientMonitor) gomap \<Rightarrow> bufferedUpdate \<Rightarrow> ('s TableCache \<times> (string, ClientMonitor) gomap) \<times> err option" where
  "replayOne i = (\<lambda>(cache, mons) u.
     case applyBuffered u cache of
       (cache, Some e) \<Rightarrow> ((cache, mons), Some e)
     | (cache, None) \<Rightarrow>
         if buLastTxnID u = [] then ((cache, mons), None)
         else (case map_of mons i of
                 None \<Rightarrow> ((cache, mons), Some (Panic ''nil pointer dereference''))
               | Some m \<Rightarrow> ((cache, AList.update i (m\<lparr>LastTransactionID := buLastTxnID u\<rparr>) mons), None)))"

text \<open>
  What follows the reply, under the cache lock: on a reconnect the cache is purged unless this is the only monitor and the server
  knew its last transaction; the reply is put into the cache; then the deferred updates are, and the buffer is cleared.
\<close>

definition finishMonitor :: "bool \<Rightarrow> string \<Rightarrow> monitorReply \<Rightarrow> 's database \<Rightarrow> 's database \<times> err option" where
  "finishMonitor reconnecting i reply db =
     (case dCache db of
        None \<Rightarrow> (db, Some (Panic ''nil pointer dereference''))
      | Some cache \<Rightarrow>
          (case (if reconnecting \<and> (length (monitors db) > 1 \<or> replyFound reply = None) then Purge (dModel db) cache else Inr cache) of
             Inl e \<Rightarrow> (db, Some e)
           | Inr cache \<Rightarrow>
               (case populateReply reply cache of
                  (cache, Some e) \<Rightarrow> (db\<lparr>dCache := Some cache\<rparr>, Some e)
                | (cache, None) \<Rightarrow>
                    (case foldS (replayOne i) (cache, monitors db) (deferredUpdates db) of
                       ((cache, mons), Some e) \<Rightarrow> (db\<lparr>dCache := Some cache, monitors := mons, deferUpdates := False\<rparr>, Some e)
                     | ((cache, mons), None) \<Rightarrow>
                         (db\<lparr>dCache := Some cache, monitors := mons, deferUpdates := False, deferredUpdates := []\<rparr>, None)))))"

section \<open>Monitoring\<close>

definition joinErrors :: "err list \<Rightarrow> string" where
  "joinErrors es = joinWith ''. '' (map errText es)"

definition methodRank :: "string \<Rightarrow> nat" where
  "methodRank m = (if m = ConditionalMonitorSinceRPC then 2 else if m = ConditionalMonitorRPC then 1 else 0)"

text \<open>The next method to try when the server does not know one.\<close>

definition fallback :: "string \<Rightarrow> string option" where
  "fallback m = (if m = ConditionalMonitorSinceRPC then Some ConditionalMonitorRPC
                 else if m = ConditionalMonitorRPC then Some MonitorRPC else None)"

lemma fallback_rank: "fallback m = Some m' \<Longrightarrow> methodRank m' < methodRank m"
  by (auto simp: fallback_def methodRank_def rpc_names split: if_splits)

text \<open>
  \<open>monitor\<close> on the database of its cookie. The result has the database, the monitor as the call leaves it and the error.
  When reconnecting the monitor is the one registered under the cookie, so its changes show in the map; otherwise it is
  registered after the server answered. The read lock on the model is released only when all requests were built.
\<close>

definition storeMonitor :: "bool \<Rightarrow> string \<Rightarrow> ClientMonitor \<Rightarrow> 's database \<Rightarrow> 's database" where
  "storeMonitor reconnecting i m db = (if reconnecting then db\<lparr>monitors := AList.update i m (monitors db)\<rparr> else db)"

definition monitorTxn :: "bool \<Rightarrow> ClientMonitor \<Rightarrow> 's database \<Rightarrow> string" where
  "monitorTxn reconnecting m db = (if reconnecting \<and> length (monitors db) = 1 then LastTransactionID m else emptyUUID)"

function monitorDb :: "server \<Rightarrow> MonitorCookie \<Rightarrow> bool \<Rightarrow> ClientMonitor \<Rightarrow> 's database \<Rightarrow> 's database \<times> ClientMonitor \<times> err option" where
  "monitorDb srv cookie reconnecting m db =
     (if Errors m \<noteq> [] then (db, m, Some (Errorf (joinErrors (Errors m))))
      else if monTables m = [] then (db, m, Some (Errorf ''at least one table should be monitored''))
      else case buildRequests (dModel db) (monTables m) of
        Inl e \<Rightarrow> (db\<lparr>modelReaders := modelReaders db + 1\<rparr>, m, Some e)
      | Inr rs \<Rightarrow>
          if Method m \<notin> {MonitorRPC, ConditionalMonitorRPC, ConditionalMonitorSinceRPC}
          then (db, m, Some (Errorf (''unsupported monitor method: '' @ Method m)))
          else case callMonitor srv cookie rs (monitorTxn reconnecting m db) (Method m) of
            Inl e \<Rightarrow>
              (case (if e = RpcError ''unknown method'' then fallback (Method m) else None) of
                 None \<Rightarrow> (db, m, Some (rpcError e))
               | Some method \<Rightarrow>
                   let m = m\<lparr>Method := method\<rparr> in monitorDb srv cookie reconnecting m (storeMonitor reconnecting (cookieID cookie) m db))
          | Inr reply \<Rightarrow>
              let m = (case replyFound reply of None \<Rightarrow> m | Some txn \<Rightarrow> m\<lparr>LastTransactionID := txn\<rparr>);
                  db = storeMonitor True (cookieID cookie) m db;
                  (db, e) = finishMonitor reconnecting (cookieID cookie) reply db
              in (db, (case map_of (monitors db) (cookieID cookie) of None \<Rightarrow> m | Some m \<Rightarrow> m), e))"
  by pat_completeness auto
termination
  by (relation "measure (\<lambda>(srv, cookie, reconnecting, m, db). methodRank (Method m))")
    (auto split: if_splits dest: fallback_rank)

declare monitorDb.simps [simp del]

definition monitorCall :: "server \<Rightarrow> MonitorCookie \<Rightarrow> bool \<Rightarrow> ClientMonitor \<Rightarrow> 's ovsdbClient \<Rightarrow> 's ovsdbClient \<times> ClientMonitor \<times> err option" where
  "monitorCall srv cookie reconnecting m c =
     (if \<not> rpcClient c \<or> shutdown c then (c, m, Some ErrNotConnected)
      else case map_of (databases c) (DatabaseName cookie) of
        None \<Rightarrow> (if Errors m \<noteq> [] then (c, m, Some (Errorf (joinErrors (Errors m))))
                 else if monTables m = [] then (c, m, Some (Errorf ''at least one table should be monitored''))
                 else (c, m, Some (Panic ''nil pointer dereference'')))
      | Some db \<Rightarrow>
          (case monitorDb srv cookie reconnecting m db of (db, m, e) \<Rightarrow> (setDb (DatabaseName cookie) db c, m, e)))"

text \<open>\<open>Monitor\<close> and \<open>MonitorAll\<close> with the identifier that \<open>uuid.NewString\<close> gave.\<close>

definition MonitorStart :: "server \<Rightarrow> string \<Rightarrow> ClientMonitor \<Rightarrow> 's ovsdbClient \<Rightarrow> 's ovsdbClient \<times> ClientMonitor \<times> err option" where
  "MonitorStart srv i m c = monitorCall srv \<lparr>DatabaseName = primaryDBName c, cookieID = i\<rparr> False m c"

definition MonitorAll :: "server \<Rightarrow> string \<Rightarrow> 's ovsdbClient \<Rightarrow> 's ovsdbClient \<times> ClientMonitor \<times> err option" where
  "MonitorAll srv i c =
     MonitorStart srv i (clientNewMonitor\<lparr>monTables :=
       (case primaryDB c of None \<Rightarrow> [] | Some db \<Rightarrow>
          map (\<lambda>t. \<lparr>tmTable = t, tmConditions = [], tmFields = []\<rparr>) (keys (cdbTypes (dbClient (dModel db)))))\<rparr>) c"

definition MonitorCancel :: "server \<Rightarrow> MonitorCookie \<Rightarrow> 's ovsdbClient \<Rightarrow> 's ovsdbClient \<times> err option" where
  "MonitorCancel srv cookie c =
     (if \<not> rpcClient c \<or> shutdown c then (c, Some ErrNotConnected)
      else case srvMonitorCancel srv cookie of
        Inl e \<Rightarrow> (c, Some (rpcError e))
      | Inr reply \<Rightarrow>
          if rError reply \<noteq> [] then (c, Some (Errorf (''error while executing transaction: '' @ rError reply)))
          else case primaryDB c of
            None \<Rightarrow> (c, Some (Panic ''nil pointer dereference''))
          | Some db \<Rightarrow> (setDb (primaryDBName c) (db\<lparr>monitors := AList.delete (cookieID cookie) (monitors db)\<rparr>) c, None))"

section \<open>Notifications\<close>

text \<open>The parameters of a notification, as the decoder finds them.\<close>

datatype param = PCookie MonitorCookie | PUpdates TableUpdates | PUpdates2 TableUpdates2 | PString string | PInvalid

definition paramAt :: "param list \<Rightarrow> nat \<Rightarrow> param result" where
  "paramAt ps i = (if i < length ps then Inr (ps ! i) else Inl (Panic ''index out of range''))"

definition asCookie :: "param \<Rightarrow> MonitorCookie result" where
  "asCookie p = (case p of PCookie c \<Rightarrow> Inr c | _ \<Rightarrow> Inl (Errorf ''json: cannot unmarshal''))"

definition asUpdates :: "param \<Rightarrow> TableUpdates result" where
  "asUpdates p = (case p of PUpdates u \<Rightarrow> Inr u | _ \<Rightarrow> Inl (Errorf ''json: cannot unmarshal''))"

definition asUpdates2 :: "param \<Rightarrow> TableUpdates2 result" where
  "asUpdates2 p = (case p of PUpdates2 u \<Rightarrow> Inr u | _ \<Rightarrow> Inl (Errorf ''json: cannot unmarshal''))"

definition asString :: "param \<Rightarrow> string result" where
  "asString p = (case p of PString s \<Rightarrow> Inr s | _ \<Rightarrow> Inl (Errorf ''json: cannot unmarshal''))"

text \<open>Deferring, or updating the cache and reporting an error to the error handler.\<close>

definition deferOr :: "bufferedUpdate \<Rightarrow> ('s database \<Rightarrow> 's database \<times> err option) \<Rightarrow> 's database \<Rightarrow> 's database \<times> err option" where
  "deferOr u f db = (if deferUpdates db then (db\<lparr>deferredUpdates := deferredUpdates db @ [u]\<rparr>, None) else f db)"

definition inCache :: "('s TableCache \<Rightarrow> 's TableCache \<times> err option) \<Rightarrow> 's database \<Rightarrow> 's database \<times> err option" where
  "inCache f db = (case dCache db of
     None \<Rightarrow> (db, Some (Panic ''nil pointer dereference''))
   | Some cache \<Rightarrow> (case f cache of (cache, e) \<Rightarrow> (db\<lparr>dCache := Some cache\<rparr>, e)))"

definition reportTo :: "'s ovsdbClient \<times> err option \<Rightarrow> 's ovsdbClient \<times> err option" where
  "reportTo p = (case p of
     (c, None) \<Rightarrow> (c, None)
   | (c, Some (Panic s)) \<Rightarrow> (c, Some (Panic s))
   | (c, Some e) \<Rightarrow> (c\<lparr>errorCh := errorCh c @ [e]\<rparr>, Some e))"

definition onDatabase :: "string \<Rightarrow> ('s database \<Rightarrow> 's database \<times> err option) \<Rightarrow> 's ovsdbClient \<Rightarrow> 's ovsdbClient \<times> err option" where
  "onDatabase name f c = (case map_of (databases c) name of
     None \<Rightarrow> (c, Some (Errorf (''update: invalid database name: '' @ name @ '' unknown'')))
   | Some db \<Rightarrow> (case f db of (db, e) \<Rightarrow> (setDb name db c, e)))"

definition onParams :: "'a result \<Rightarrow> ('a \<Rightarrow> 's ovsdbClient \<Rightarrow> 's ovsdbClient \<times> err option) \<Rightarrow> 's ovsdbClient \<Rightarrow> 's ovsdbClient \<times> err option" where
  "onParams r f c = (case r of Inl e \<Rightarrow> (c, Some e) | Inr x \<Rightarrow> f x c)"

definition updateParams :: "param list \<Rightarrow> (MonitorCookie \<times> TableUpdates) result" where
  "updateParams ps =
     (if length ps > 2 then Inl (Errorf ''update requires exactly 2 args'')
      else bindR (paramAt ps 0) (\<lambda>p. bindR (asCookie p) (\<lambda>cookie.
           bindR (paramAt ps 1) (\<lambda>p. bindR (asUpdates p) (\<lambda>u. Inr (cookie, u))))))"

definition handleUpdate :: "param list \<Rightarrow> 's ovsdbClient \<Rightarrow> 's ovsdbClient \<times> err option" where
  "handleUpdate ps = onParams (updateParams ps) (\<lambda>(cookie, u) c.
     if map_of (databases c) (DatabaseName cookie) = None
     then onDatabase (DatabaseName cookie) (\<lambda>db. (db, None)) c
     else reportTo (onDatabase (DatabaseName cookie)
       (deferOr \<lparr>buUpdates = Some u, buUpdates2 = None, buLastTxnID = []\<rparr> (inCache (cacheUpdate u))) c))"

definition update2Params :: "param list \<Rightarrow> (MonitorCookie \<times> TableUpdates2) result" where
  "update2Params ps =
     (if length ps > 2 then Inl (Errorf ''update2 requires exactly 2 args'')
      else bindR (paramAt ps 0) (\<lambda>p. bindR (asCookie p) (\<lambda>cookie.
           bindR (paramAt ps 1) (\<lambda>p. bindR (asUpdates2 p) (\<lambda>u. Inr (cookie, u))))))"

definition handleUpdate2 :: "param list \<Rightarrow> 's ovsdbClient \<Rightarrow> 's ovsdbClient \<times> err option" where
  "handleUpdate2 ps = onParams (update2Params ps) (\<lambda>(cookie, u) c.
     if map_of (databases c) (DatabaseName cookie) = None
     then onDatabase (DatabaseName cookie) (\<lambda>db. (db, None)) c
     else reportTo (onDatabase (DatabaseName cookie)
       (deferOr \<lparr>buUpdates = None, buUpdates2 = Some u, buLastTxnID = []\<rparr> (inCache (cacheUpdate2 u))) c))"

definition update3Params :: "param list \<Rightarrow> (MonitorCookie \<times> string \<times> TableUpdates2) result" where
  "update3Params ps =
     (if length ps > 3 then Inl (Errorf ''update requires exactly 3 args'')
      else bindR (paramAt ps 0) (\<lambda>p. bindR (asCookie p) (\<lambda>cookie.
           bindR (paramAt ps 1) (\<lambda>p. bindR (asString p) (\<lambda>txn.
           bindR (paramAt ps 2) (\<lambda>p. bindR (asUpdates2 p) (\<lambda>u. Inr (cookie, txn, u))))))))"

definition setLastTxn :: "string \<Rightarrow> string \<Rightarrow> 's database \<times> err option \<Rightarrow> 's database \<times> err option" where
  "setLastTxn i txn p = (case p of
     (db, Some e) \<Rightarrow> (db, Some e)
   | (db, None) \<Rightarrow> (case map_of (monitors db) i of
       None \<Rightarrow> (db, Some (Panic ''nil pointer dereference''))
     | Some mon \<Rightarrow> (db\<lparr>monitors := AList.update i (mon\<lparr>LastTransactionID := txn\<rparr>) (monitors db)\<rparr>, None)))"

definition handleUpdate3 :: "param list \<Rightarrow> 's ovsdbClient \<Rightarrow> 's ovsdbClient \<times> err option" where
  "handleUpdate3 ps = onParams (update3Params ps) (\<lambda>(cookie, txn, u) c.
     onDatabase (DatabaseName cookie)
       (deferOr \<lparr>buUpdates = None, buUpdates2 = Some u, buLastTxnID = txn\<rparr>
         (\<lambda>db. setLastTxn (cookieID cookie) txn (inCache (cacheUpdate2 u) db))) c)"

section \<open>Transactions\<close>

text \<open>\<open>transact\<close> on a database whose schema is known and whose operations validate.\<close>

definition clientTransact :: "server \<Rightarrow> string \<Rightarrow> Operation list \<Rightarrow> 's ovsdbClient \<Rightarrow> OperationResult list result" where
  "clientTransact srv dbn operation c =
     (case map_of (databases c) dbn of
        None \<Rightarrow> Inl (Panic ''nil pointer dereference'')
      | Some db \<Rightarrow>
          let schema = dbSchema (dModel db) in
          if schema = emptySchema then Inl (Errorf (''cannot transact to database '' @ dbn @ '': schema unknown''))
          else if \<not> ValidateOperations schema operation then Inl (Errorf ''validation failed for the operation'')
          else if \<not> rpcClient c \<or> shutdown c then Inl ErrNotConnected
          else case srvTransact srv dbn operation of Inl e \<Rightarrow> Inl (rpcError e) | Inr reply \<Rightarrow> Inr reply)"

text \<open>
  \<open>Transact\<close>: without a connection it fails at once, or with the reconnect option it polls until there is one or its context
  ends. The list has the client as each tick finds it; when the list ends, the context does.
\<close>

primrec awaitConnected :: "'s ovsdbClient list \<Rightarrow> 's ovsdbClient result" where
  "awaitConnected [] = Inl (Errorf ''context done: while awaiting reconnection'')"
| "awaitConnected (c # cs) = (if rpcClient c \<and> connected c then Inr c else awaitConnected cs)"

definition ClientTransact :: "server \<Rightarrow> 's ovsdbClient list \<Rightarrow> Operation list \<Rightarrow> 's ovsdbClient \<Rightarrow> OperationResult list result" where
  "ClientTransact srv ticks operation c =
     bindR (if rpcClient c \<and> connected c then Inr c
            else if optReconnect (opts c) then awaitConnected ticks
            else Inl ErrNotConnected) (\<lambda>c.
       clientTransact srv (primaryDBName c) operation c)"

definition ClientEcho :: "server \<Rightarrow> 's ovsdbClient \<Rightarrow> unit result" where
  "ClientEcho srv c =
     (if \<not> rpcClient c \<or> shutdown c then Inl ErrNotConnected
      else case srvEcho srv [''libovsdb echo''] of
        Inl e \<Rightarrow> Inl (rpcError e)
      | Inr reply \<Rightarrow> if reply = [''libovsdb echo''] then Inr () else Inl (Errorf ''incorrect server response''))"

text \<open>The inactivity timer ran out: an echo that fails closes the connection.\<close>

definition inactivityProbe :: "server \<Rightarrow> 's ovsdbClient \<Rightarrow> 's ovsdbClient" where
  "inactivityProbe srv c = (if isOk (ClientEcho srv c) then c else Disconnect c)"

section \<open>Leadership\<close>

definition leaderRow :: "string \<Rightarrow> Row \<Rightarrow> (bool \<times> string) option result" where
  "leaderRow primary row =
     (case map_of row ''name'' of
        Some (VAtom (AStr dbn)) \<Rightarrow>
          if dbn \<noteq> primary then Inr None
          else (case map_of row ''model'' of
                  Some (VAtom (AStr mdl)) \<Rightarrow>
                    if mdl \<noteq> ''clustered'' then Inr (Some (True, []))
                    else (case map_of row ''sid'' of
                            Some (VAtom (AUUID sid)) \<Rightarrow>
                              (case map_of row ''leader'' of
                                 Some (VAtom (ABool leader)) \<Rightarrow> Inr (Some (leader, sid))
                               | _ \<Rightarrow> Inl (Errorf ''could not parse leader''))
                          | _ \<Rightarrow> Inl (Errorf ''could not parse server id''))
                | _ \<Rightarrow> Inl (Errorf ''could not parse model''))
      | _ \<Rightarrow> Inl (Errorf ''could not parse name''))"

primrec leaderRows :: "string \<Rightarrow> Row list \<Rightarrow> (bool \<times> string) result" where
  "leaderRows primary [] = Inr (True, [])"
| "leaderRows primary (row # rows) =
     bindR (leaderRow primary row) (\<lambda>r. case r of None \<Rightarrow> leaderRows primary rows | Some x \<Rightarrow> Inr x)"

definition isEndpointLeader :: "server \<Rightarrow> 's ovsdbClient \<Rightarrow> (bool \<times> string) result" where
  "isEndpointLeader srv c =
     (case clientTransact srv serverDB
             [emptyOp\<lparr>Op := OperationSelect, opTable := ''Database'', opColumns := [''name'', ''model'', ''leader'', ''sid'']\<rparr>] c of
        Inl (Panic s) \<Rightarrow> Inl (Panic s)
      | Inl _ \<Rightarrow> Inl (Errorf ''could not check if server was leader'')
      | Inr results \<Rightarrow> (case results of [result] \<Rightarrow> leaderRows (primaryDBName c) (rRows result) | _ \<Rightarrow> Inr (True, [])))"

text \<open>An update of a row of \<open>_Server\<close>'s table \<open>Database\<close>: the active endpoint that lost leadership goes last and the connection is closed.\<close>

record DatabaseInfo =
  diName :: string
  diModel :: string
  diSid :: "string option"
  diLeader :: bool

definition leaderChange :: "DatabaseInfo \<Rightarrow> 's ovsdbClient \<Rightarrow> 's ovsdbClient result" where
  "leaderChange dbInfo c =
     (let sid = (case diSid dbInfo of None \<Rightarrow> [] | Some s \<Rightarrow> s) in
      if diName dbInfo \<noteq> primaryDBName c \<or> diModel dbInfo \<noteq> ''clustered'' \<or> sid = [] then Inr c
      else if \<not> diLeader dbInfo \<and> connected c
      then (case endpoints c of
              [] \<Rightarrow> Inl (Panic ''index out of range'')
            | e # _ \<Rightarrow> if sid = epServerID e then Inr (disconnect (c\<lparr>endpoints := moveEndpointLast 0 (endpoints c)\<rparr>)) else Inr c)
      else Inr c)"

section \<open>Connecting\<close>

definition dialEndpoint :: "network \<Rightarrow> URL \<Rightarrow> server result" where
  "dialEndpoint net u =
     (case (if Scheme u = ''unix'' then netDial net (Scheme u) (Path u)
            else if Scheme u = ''tcp'' then netDial net (Scheme u) (Opaque u)
            else if Scheme u = ''ssl'' then netDialTLS net (Opaque u)
            else Inl (Errorf (''unknown network protocol '' @ Scheme u))) of
        Inl e \<Rightarrow> Inl (Errorf ''failed to open connection'')
      | Inr srv \<Rightarrow> Inr srv)"

text \<open>The model that a failed validation leaves behind: no schema, and no tables.\<close>

definition zeroDatabaseModel :: DatabaseModel where
  "zeroDatabaseModel = NewPartialDatabaseModel \<lparr>cdbName = [], cdbTypes = [], cdbIndexes = []\<rparr>"

text \<open>One requested database on a new connection: it must exist, its schema must fit the model, and it gets a cache once.\<close>

definition tryDatabase :: "server \<Rightarrow> string list \<Rightarrow> string \<Rightarrow> 's database \<Rightarrow> 's database \<times> err option" where
  "tryDatabase srv names dbn db =
     (if dbn \<notin> set names then (db, Some (Errorf (''target database '' @ dbn @ '' not found'')))
      else case srvGetSchema srv dbn of
        Inl e \<Rightarrow> (db, Some (rpcError e))
      | Inr schema \<Rightarrow>
          (case NewDatabaseModel schema (dbClient (dModel db)) of
             Inl e \<Rightarrow> (db, Some e)
           | Inr (Inl errs) \<Rightarrow> (db\<lparr>dModel := zeroDatabaseModel\<rparr>, Some (Errorf (''database '' @ dbn @ '' validation error'')))
           | Inr (Inr model) \<Rightarrow>
               let db = db\<lparr>dModel := model\<rparr> in
               (case dCache db of
                  Some _ \<Rightarrow> (db, None)
                | None \<Rightarrow> (case NewTableCache model [] of
                     Inl e \<Rightarrow> (db, Some e)
                   | Inr cache \<Rightarrow> (db\<lparr>dCache := Some cache\<rparr>, None)))))"

definition tryDatabases :: "server \<Rightarrow> string list \<Rightarrow> 's ovsdbClient \<Rightarrow> 's ovsdbClient \<times> err option" where
  "tryDatabases srv names c =
     foldS (\<lambda>c dbn. case map_of (databases c) dbn of
       None \<Rightarrow> (c, None)
     | Some db \<Rightarrow> (case tryDatabase srv names dbn db of (db, e) \<Rightarrow> (setDb dbn db c, e))) c (keys (databases c))"

definition tryEndpoint :: "network \<Rightarrow> URL \<Rightarrow> 's ovsdbClient \<Rightarrow> 's ovsdbClient \<times> (server \<times> string) result" where
  "tryEndpoint net u c =
     (case dialEndpoint net u of
        Inl e \<Rightarrow> (c, Inl e)
      | Inr srv \<Rightarrow>
          let c = c\<lparr>rpcClient := True, rpcClosed := False\<rparr> in
          (case srvListDbs srv of
             Inl e \<Rightarrow> (c, Inl (case e of ErrShutdown \<Rightarrow> ErrNotConnected | RpcError s \<Rightarrow> Errorf (''listdbs failure - '' @ s)))
           | Inr names \<Rightarrow>
               (case tryDatabases srv names c of
                  (c, Some e) \<Rightarrow> (c, Inl e)
                | (c, None) \<Rightarrow>
                    (c, if optLeaderOnly (opts c)
                        then bindR (isEndpointLeader srv c) (\<lambda>(leader, sid). if leader then Inr (srv, sid) else Inl (Errorf ''endpoint is not leader''))
                        else Inr (srv, [])))))"

text \<open>
  The endpoints in order. An address that does not parse ends the search with its error; one that fails is noted; the
  first that works is moved to the front with its server ID.
\<close>

datatype connectOutcome = ConnParse err | ConnFailed "err list" | ConnOk server

fun tryEndpoints :: "network \<Rightarrow> nat \<Rightarrow> epInfo list \<Rightarrow> err list \<Rightarrow> 's ovsdbClient \<Rightarrow> 's ovsdbClient \<times> connectOutcome" where
  "tryEndpoints net i [] errs c = (c, ConnFailed errs)"
| "tryEndpoints net i (ep # eps) errs c =
     (case netParse net (epAddress ep) of
        Inl e \<Rightarrow> (c, ConnParse e)
      | Inr u \<Rightarrow>
          (case tryEndpoint net u c of
             (c, Inl (Panic s)) \<Rightarrow> (c, ConnParse (Panic s))
           | (c, Inl e) \<Rightarrow> tryEndpoints net (Suc i) eps (errs @ [Errorf (''failed to connect to '' @ epAddress ep @ '': '' @ errText e)]) (resetRPCClient c)
           | (c, Inr (srv, sid)) \<Rightarrow>
               (c\<lparr>endpoints := moveEndpointFirst i ((endpoints c)[i := ep\<lparr>epServerID := sid\<rparr>])\<rparr>, ConnOk srv)))"

definition connectFailure :: "err list \<Rightarrow> err" where
  "connectFailure errs = (case errs of [e] \<Rightarrow> e | _ \<Rightarrow> Errorf (''unable to connect to any endpoints: '' @ joinErrors errs))"

text \<open>Restarting the monitors of one database after a reconnect; without any the cache is purged.\<close>

definition restartDb :: "server \<Rightarrow> string \<Rightarrow> 's ovsdbClient \<Rightarrow> 's ovsdbClient \<times> err option" where
  "restartDb srv dbn c =
     (case map_of (databases c) dbn of
        None \<Rightarrow> (c, None)
      | Some db \<Rightarrow>
          if monitors db = []
          then (case dCache db of
                  None \<Rightarrow> (c, Some (Panic ''nil pointer dereference''))
                | Some cache \<Rightarrow> (case Purge (dModel db) cache of
                    Inl e \<Rightarrow> (c, Some e)
                  | Inr cache \<Rightarrow> (setDb dbn (db\<lparr>dCache := Some cache\<rparr>) c, None)))
          else foldS (\<lambda>c i. case Option.bind (map_of (databases c) dbn) (\<lambda>db. map_of (monitors db) i) of
                 None \<Rightarrow> (c, None)
               | Some m \<Rightarrow> (case monitorCall srv \<lparr>DatabaseName = dbn, cookieID = i\<rparr> True m c of (c, _, e) \<Rightarrow> (c, e)))
               c (keys (monitors db)))"

definition restartMonitors :: "server \<Rightarrow> 's ovsdbClient \<Rightarrow> 's ovsdbClient \<times> err option" where
  "restartMonitors srv c = foldS (\<lambda>c dbn. restartDb srv dbn c) c (keys (databases c))"

definition connectTo :: "network \<Rightarrow> bool \<Rightarrow> 's ovsdbClient \<Rightarrow> 's ovsdbClient \<times> server result" where
  "connectTo net reconnect c =
     (if rpcClient c then (c, Inl ErrAlreadyConnected)
      else case tryEndpoints net 0 (endpoints c) [] c of
        (c, ConnParse e) \<Rightarrow> (c, Inl e)
      | (c, ConnFailed errs) \<Rightarrow> (c, Inl (connectFailure errs))
      | (c, ConnOk srv) \<Rightarrow>
          (case (if reconnect then restartMonitors srv c else (c, None)) of
             (c, Some (Panic s)) \<Rightarrow> (c, Inl (Panic s))
           | (c, Some e) \<Rightarrow> (resetRPCClient c, Inl e)
           | (c, None) \<Rightarrow> (c\<lparr>connected := True\<rparr>, Inr srv)))"

definition watchMonitor :: ClientMonitor where
  "watchMonitor = clientNewMonitor\<lparr>Method := ConditionalMonitorRPC, monTables := [\<lparr>tmTable = ''Database'', tmConditions = [], tmFields = []\<rparr>]\<rparr>"

text \<open>\<open>Connect\<close>; with the leader option it also monitors \<open>_Server\<close> under a new identifier.\<close>

definition Connect :: "network \<Rightarrow> string \<Rightarrow> 's ovsdbClient \<Rightarrow> 's ovsdbClient \<times> err option" where
  "Connect net i c =
     (case connectTo net False c of
        (c, Inl ErrAlreadyConnected) \<Rightarrow> (c, None)
      | (c, Inl e) \<Rightarrow> (c, Some e)
      | (c, Inr srv) \<Rightarrow>
          if optLeaderOnly (opts c)
          then (case monitorCall srv \<lparr>DatabaseName = serverDB, cookieID = i\<rparr> False watchMonitor c of (c, _, e) \<Rightarrow> (c, e))
          else (c, None))"

section \<open>Errors and disconnection\<close>

text \<open>One error taken by \<open>handleClientErrors\<close>: an inconsistent cache makes every monitor start afresh on the reconnect.\<close>

definition forgetTransactions :: "'s database \<Rightarrow> 's database" where
  "forgetTransactions db = db\<lparr>monitors := map (\<lambda>(i, m). (i, m\<lparr>LastTransactionID := emptyUUID\<rparr>)) (monitors db)\<rparr>"

definition handleClientError :: "'s ovsdbClient \<Rightarrow> 's ovsdbClient" where
  "handleClientError c =
     (case errorCh c of
        [] \<Rightarrow> c
      | e # rest \<Rightarrow>
          let c = c\<lparr>errorCh := rest\<rparr> in
          (case e of
             ErrCacheInconsistent _ _ \<Rightarrow> Disconnect (c\<lparr>databases := map (\<lambda>(n, db). (n, forgetTransactions db)) (databases c)\<rparr>)
           | ErrIndexExists _ _ _ _ _ \<Rightarrow> Disconnect (c\<lparr>databases := map (\<lambda>(n, db). (n, forgetTransactions db)) (databases c)\<rparr>)
           | _ \<Rightarrow> c))"

definition clearDeferred :: "'s database \<Rightarrow> 's database" where
  "clearDeferred db = db\<lparr>deferredUpdates := [], deferUpdates := True\<rparr>"

definition reconnectAttempt :: "network \<Rightarrow> 's ovsdbClient \<Rightarrow> 's ovsdbClient \<times> server result" where
  "reconnectAttempt net c = connectTo net True (c\<lparr>databases := map (\<lambda>(n, db). (n, clearDeferred db)) (databases c)\<rparr>)"

text \<open>The retries: the list has the network as each attempt finds it; when the list ends, the backoff gives up and the client panics.\<close>

fun retry :: "network list \<Rightarrow> 's ovsdbClient \<Rightarrow> 's ovsdbClient \<times> server result" where
  "retry [] c = (c, Inl (Panic ''unable to reconnect''))"
| "retry (net # nets) c =
     (case reconnectAttempt net c of
        (c, Inr srv) \<Rightarrow> (c, Inr srv)
      | (c, Inl (Panic s)) \<Rightarrow> (c, Inl (Panic s))
      | (c, Inl _) \<Rightarrow> retry nets c)"

definition clearDatabase :: "'s database \<Rightarrow> 's database" where
  "clearDatabase db = db\<lparr>dCache := None, deferUpdates := True, deferredUpdates := [],
     dModel := NewPartialDatabaseModel (dbClient (dModel db)), monitors := []\<rparr>"

definition handleDisconnectNotification :: "network list \<Rightarrow> 's ovsdbClient \<Rightarrow> 's ovsdbClient \<times> err option" where
  "handleDisconnectNotification nets c =
     (if optReconnect (opts c) \<and> \<not> shutdown c
      then (case retry nets (c\<lparr>rpcClient := False\<rparr>) of (c, Inl e) \<Rightarrow> (c, Some e) | (c, Inr _) \<Rightarrow> (c, None))
      else (c\<lparr>rpcClient := False, rpcClosed := False, databases := map (\<lambda>(n, db). (n, clearDatabase db)) (databases c),
              shutdown := False, disconnects := disconnects c + 1\<rparr>, None))"

section \<open>Reading a consistent cache\<close>

definition isCacheConsistent :: "'s database \<Rightarrow> bool" where
  "isCacheConsistent db = (\<not> deferUpdates db)"

definition hasMonitors :: "'s database \<Rightarrow> bool" where
  "hasMonitors db = (monitors db \<noteq> [])"

text \<open>The database as the reader gets it: when the list of ticks ends, its context has, and it reads what is there.\<close>

primrec pollConsistent :: "'s database \<Rightarrow> 's database list \<Rightarrow> 's database" where
  "pollConsistent final [] = final"
| "pollConsistent final (db # dbs) = (if isCacheConsistent db then db else pollConsistent final dbs)"

definition waitForCacheConsistent :: "'s database \<Rightarrow> 's database list \<Rightarrow> 's database \<Rightarrow> 's database" where
  "waitForCacheConsistent db ticks final =
     (if \<not> hasMonitors db then db else if isCacheConsistent db then db else pollConsistent final ticks)"

section \<open>Select results\<close>

definition mergeRow :: "(string, Row) gomap \<Rightarrow> Row \<Rightarrow> (string, Row) gomap result" where
  "mergeRow merged row =
     (case map_of row ''_uuid'' of
        None \<Rightarrow> Inl (Errorf ''failed to get UUID from row'')
      | Some (VAtom (AUUID u)) \<Rightarrow> Inr (AList.update u row merged)
      | Some _ \<Rightarrow> Inl (Errorf ''failed to cast UUID from row''))"

definition mergeRows :: "(string, Row) gomap \<Rightarrow> OperationResult \<Rightarrow> (string, Row) gomap result" where
  "mergeRows merged result =
     (if rError result \<noteq> [] then Inl (Errorf (''operation error: '' @ rError result @ '': '' @ rDetails result))
      else foldR mergeRow merged (rRows result))"

text \<open>The single pass over the operations, with the number of the current query and its identifier.\<close>

fun selectPass :: "string \<Rightarrow> int \<Rightarrow> int \<Rightarrow> string \<Rightarrow> (string, Row) gomap \<Rightarrow> (ClientOp \<times> OperationResult) list \<Rightarrow> (int \<times> (string, Row) gomap) result" where
  "selectPass table index current cid merged [] = Inr (current, merged)"
| "selectPass table index current cid merged ((op, result) # rest) =
     (if Op op \<noteq> OperationSelect \<or> opTable op \<noteq> table then selectPass table index current cid merged rest
      else let current' = (if correlationID op \<noteq> cid then current + 1 else current);
               cid' = (if correlationID op \<noteq> cid then correlationID op else cid)
           in if current' < index then selectPass table index current' cid' merged rest
              else if current' > index then Inr (current', merged)
              else bindR (mergeRows merged result) (\<lambda>merged. selectPass table index current' cid' merged rest))"

datatype selectTarget = NoPointer | NotSlice | SliceOf "StructType option"

definition selectModel :: "DatabaseModel \<Rightarrow> string \<Rightarrow> string \<times> Row \<Rightarrow> Model result" where
  "selectModel dbModel table = (\<lambda>(uuid, row). case CreateModel dbModel table (Some row) uuid of
     Inl (Panic s) \<Rightarrow> Inl (Panic s)
   | Inl _ \<Rightarrow> Inl (Errorf ''failed to create model'')
   | Inr m \<Rightarrow> Inr m)"

definition GetSelectResultsByIndex ::
  "DatabaseModel \<Rightarrow> ClientOp list \<Rightarrow> OperationResult list \<Rightarrow> selectTarget \<Rightarrow> int \<Rightarrow> Model list result" where
  "GetSelectResultsByIndex dbModel ops results target index =
     (if length ops \<noteq> length results then Inl (Errorf ''number of operations and results must match'')
      else case target of
        NoPointer \<Rightarrow> Inl (ErrWrongType ''target must be a non-nil pointer to a slice of models'')
      | NotSlice \<Rightarrow> Inl (ErrWrongType ''target must be a pointer to a slice of models'')
      | SliceOf None \<Rightarrow> Inl (ErrWrongType ''target must be a pointer to a slice of model pointers'')
      | SliceOf (Some st) \<Rightarrow>
          (case NewModelInfo dbModel (zeroModel st) of
             Inl (Panic s) \<Rightarrow> Inl (Panic s)
           | Inl _ \<Rightarrow> Inl (Errorf ''failed to get model info for target type'')
           | Inr info \<Rightarrow>
               bindR (selectPass (TableName (iMeta info)) index (-1) [] [] (zip ops results)) (\<lambda>(current, merged).
                 if current < index then Inl (Errorf ''index is out of range'')
                 else mapR (selectModel dbModel (TableName (iMeta info))) merged)))"

definition GetSelectResults :: "DatabaseModel \<Rightarrow> ClientOp list \<Rightarrow> OperationResult list \<Rightarrow> selectTarget \<Rightarrow> Model list result" where
  "GetSelectResults dbModel ops results target = GetSelectResultsByIndex dbModel ops results target 0"

end
