(* ===== verification/ClientProps.thy ===== *)
theory ClientProps
  imports Client "HOL-Library.Multiset"
begin

text \<open>
  What holds of the client's connection: the order of the endpoints, the invariant of every reachable state, the order of a monitor's
  reply and the notifications around it, the fallback between the monitor methods, the selection of a query's results, and the
  places where the client does not do what it means to. The reachable states are those of an inductive step relation
  with one rule per method and per event.
\<close>

section \<open>Endpoints\<close>

lemma moveEndpoint_mset:
  assumes "i < length eps"
  shows "mset (moveEndpointFirst i eps) = mset eps" "mset (moveEndpointLast i eps) = mset eps"
proof -
  have "eps = take i eps @ eps ! i # drop (i + 1) eps" using assms by (simp add: id_take_nth_drop)
  then have "mset eps = add_mset (eps ! i) (mset (take i eps) + mset (drop (i + 1) eps))" by (metis mset.simps(2) mset_append union_mset_add_mset_right)
  then show "mset (moveEndpointFirst i eps) = mset eps" "mset (moveEndpointLast i eps) = mset eps"
    by (simp_all add: moveEndpointFirst_def moveEndpointLast_def)
qed

lemma newEndpoints_spec:
  "map epAddress (fst (newEndpoints old i addrs)) = addrs"
  "snd (newEndpoints old i addrs) = Some j \<Longrightarrow>
     i \<le> j \<and> j < i + length addrs \<and> old \<noteq> [] \<and> fst (newEndpoints old i addrs) ! (j - i) = hd old"
  "snd (newEndpoints old i addrs) = None \<longleftrightarrow> old = [] \<or> epAddress (hd old) \<notin> set addrs"
proof (induction addrs arbitrary: i j)
  case (Cons a addrs)
  { case 1
    obtain eps active where e: "newEndpoints old (Suc i) addrs = (eps, active)" by fastforce
    show ?case using Cons.IH(1) [of "Suc i"] e by (simp add: Let_def) }
  { case 2
    obtain eps active where e: "newEndpoints old (Suc i) addrs = (eps, active)" by fastforce
    show ?case
    proof (cases active)
      case (Some j')
      then have "j' = j" using 2 e by (simp add: Let_def)
      then have "Suc i \<le> j \<and> j < Suc i + length addrs \<and> old \<noteq> [] \<and> eps ! (j - Suc i) = hd old" using Cons.IH(2) [of "Suc i" j] e Some by simp
      moreover from this have "j - i = Suc (j - Suc i)" by linarith
      ultimately show ?thesis using e by (simp add: Let_def)
    next
      case None
      then obtain o' rest where o: "old = o' # rest" "epAddress o' = a" "j = i"
        using 2 e by (auto simp: Let_def split: list.splits if_splits)
      then show ?thesis using e by (simp add: Let_def)
    qed }
  { case 3
    obtain eps active where e: "newEndpoints old (Suc i) addrs = (eps, active)" by fastforce
    show ?case using Cons.IH(3) [of "Suc i"] e by (cases old) (auto simp: Let_def split: option.splits) }
qed auto

text \<open>
  Claim C23. New endpoints: when the active one is among them it stays first, with its server ID, and the connection is kept; the
  list is the given one otherwise reordered in nothing but that. When it is not among them the connection is closed.
\<close>

theorem UpdateEndpoints_active:
  assumes "endpoints c \<noteq> []" and "addrs \<noteq> []"
  shows "mset (map epAddress (endpoints (UpdateEndpoints addrs c))) = mset addrs
    \<and> (if epAddress (hd (endpoints c)) \<in> set addrs
       then hd (endpoints (UpdateEndpoints addrs c)) = hd (endpoints c)
         \<and> connected (UpdateEndpoints addrs c) = connected c \<and> rpcClosed (UpdateEndpoints addrs c) = rpcClosed c
       else \<not> connected (UpdateEndpoints addrs c) \<and> (rpcClient c \<longrightarrow> rpcClosed (UpdateEndpoints addrs c)))"
proof -
  obtain eps active where e: "newEndpoints (endpoints c) 0 addrs = (eps, active)" by fastforce
  have m: "map epAddress eps = addrs" using newEndpoints_spec(1) [of "endpoints c" 0 addrs] e by simp
  then have mm: "image_mset epAddress (mset eps) = mset addrs" by (metis mset_map)
  show ?thesis
  proof (cases active)
    case None
    then have "epAddress (hd (endpoints c)) \<notin> set addrs" using newEndpoints_spec(3) [of "endpoints c" 0 addrs] e assms(1) by simp
    then show ?thesis using assms(2) e None mm by (simp add: UpdateEndpoints_def disconnect_def Let_def)
  next
    case (Some j)
    then have j: "j < length addrs" "eps ! j = hd (endpoints c)" using newEndpoints_spec(2) [of "endpoints c" 0 addrs j] e by simp_all
    have len: "length eps = length addrs" using m by (metis length_map)
    have act: "epAddress (hd (endpoints c)) \<in> set addrs" using newEndpoints_spec(3) [of "endpoints c" 0 addrs] e assms(1) Some by simp
    have "mset (map epAddress (moveEndpointFirst j eps)) = mset addrs"
      using moveEndpoint_mset(1) [of j eps] j(1) len m by (metis mset_map)
    moreover have "hd eps = hd (endpoints c)" if "j = 0" using that j len assms(2) by (cases eps) auto
    ultimately show ?thesis using assms(2) e Some act j mm by (simp add: UpdateEndpoints_def moveEndpointFirst_def Let_def)
  qed
qed

theorem UpdateEndpoints_active_witness:
  "let c = \<lparr>opts = \<lparr>optEndpoints = [], optReconnect = True, optLeaderOnly = False, optValidateModel = False, optInactivity = False\<rparr>,
            connected = True, rpcClient = True, rpcClosed = False,
            endpoints = [\<lparr>epAddress = ''tcp:a'', epServerID = ''s''\<rparr>, \<lparr>epAddress = ''tcp:b'', epServerID = []\<rparr>],
            primaryDBName = ''db'', databases = [] :: (string, unit database) gomap, errorCh = [], shutdown = False, disconnects = 0\<rparr>
   in hd (endpoints (UpdateEndpoints [''tcp:c'', ''tcp:a''] c)) = \<lparr>epAddress = ''tcp:a'', epServerID = ''s''\<rparr>
     \<and> mset (map epAddress (endpoints (UpdateEndpoints [''tcp:c'', ''tcp:a''] c))) = {#''tcp:c'', ''tcp:a''#}"
  unfolding Let_def by (use UpdateEndpoints_active [of "\<lparr>opts = \<lparr>optEndpoints = [], optReconnect = True, optLeaderOnly = False, optValidateModel = False, optInactivity = False\<rparr>,
            connected = True, rpcClient = True, rpcClosed = False,
            endpoints = [\<lparr>epAddress = ''tcp:a'', epServerID = ''s''\<rparr>, \<lparr>epAddress = ''tcp:b'', epServerID = []\<rparr>],
            primaryDBName = ''db'', databases = [] :: (string, unit database) gomap, errorCh = [], shutdown = False, disconnects = 0\<rparr>" "[''tcp:c'', ''tcp:a'']"] in simp)

section \<open>Choosing an endpoint\<close>

text \<open>An attempt touches neither the endpoints nor the options.\<close>

lemma setDb_simps [simp]:
  "endpoints (setDb n db c) = endpoints c" "opts (setDb n db c) = opts c" "rpcClient (setDb n db c) = rpcClient c"
  "primaryDBName (setDb n db c) = primaryDBName c" "connected (setDb n db c) = connected c" "shutdown (setDb n db c) = shutdown c"
  "databases (setDb n db c) = AList.update n db (databases c)"
  by (simp_all add: setDb_def)

lemma tryDatabases_keeps:
  "endpoints (fst (tryDatabases srv names c)) = endpoints c \<and> opts (fst (tryDatabases srv names c)) = opts c
   \<and> rpcClient (fst (tryDatabases srv names c)) = rpcClient c"
proof -
  have gen: "endpoints (fst (foldS f s xs)) = endpoints s \<and> opts (fst (foldS f s xs)) = opts s \<and> rpcClient (fst (foldS f s xs)) = rpcClient s"
    if "\<And>s x. endpoints (fst (f s x)) = endpoints s \<and> opts (fst (f s x)) = opts s \<and> rpcClient (fst (f s x)) = rpcClient s"
    for f :: "'s ovsdbClient \<Rightarrow> string \<Rightarrow> 's ovsdbClient \<times> err option" and s xs
    using foldS_invariant [where I = "\<lambda>c. endpoints c = endpoints s \<and> opts c = opts s \<and> rpcClient c = rpcClient s" and f = f and xs = xs and s = s] that by simp
  show ?thesis unfolding tryDatabases_def by (rule gen) (simp split: option.split prod.split)
qed

lemma tryEndpoint_keeps:
  "endpoints (fst (tryEndpoint net u c)) = endpoints c \<and> opts (fst (tryEndpoint net u c)) = opts c"
  using tryDatabases_keeps [where c = "c\<lparr>rpcClient := True, rpcClosed := False\<rparr>"]
  by (auto simp: tryEndpoint_def Let_def split: sum.splits prod.splits option.splits) (metis fst_conv)+

lemma tryEndpoints_found:
  assumes "tryEndpoints net i eps errs c = (c', ConnOk srv)" "drop i (endpoints c) = eps"
  obtains j sid where "i \<le> j" "j < length (endpoints c)"
    "endpoints c' = moveEndpointFirst j ((endpoints c)[j := (endpoints c ! j)\<lparr>epServerID := sid\<rparr>])"
  using assms
proof (induction eps arbitrary: i errs c thesis)
  case (Cons ep eps)
  have i: "i < length (endpoints c)" "endpoints c ! i = ep" "drop (Suc i) (endpoints c) = eps"
    using Cons.prems(3) by (metis drop_eq_Nil list.distinct(1) not_less, metis nth_via_drop, metis drop_Suc list.sel(3) tl_drop)
  obtain u where u: "netParse net (epAddress ep) = Inr u" using Cons.prems(2) by (auto split: sum.splits)
  obtain c1 r where t: "tryEndpoint net u c = (c1, r)" by fastforce
  have k: "endpoints c1 = endpoints c" using tryEndpoint_keeps [of net u c] t by simp
  show ?case
  proof (cases r)
    case (Inl e)
    then obtain errs' where l: "tryEndpoints net (Suc i) eps errs' (resetRPCClient c1) = (c', ConnOk srv)"
      using Cons.prems(2) u t by (cases e) auto
    have "drop (Suc i) (endpoints (resetRPCClient c1)) = eps" using i(3) k by (simp add: resetRPCClient_def)
    from Cons.IH [OF _ l this] show ?thesis using Cons.prems(1) k by (metis Suc_leD resetRPCClient_def ovsdbClient.select_convs(5) ovsdbClient.update_convs(3) ovsdbClient.surjective)
  next
    case (Inr p)
    obtain sv sid where p: "p = (sv, sid)" by fastforce
    have "endpoints c' = moveEndpointFirst i ((endpoints c)[i := ep\<lparr>epServerID := sid\<rparr>])"
      using Cons.prems(2) u t Inr p k by auto
    then show ?thesis using Cons.prems(1) i by blast
  qed
qed simp

section \<open>What the steps keep\<close>

definition cached :: "'s ovsdbClient \<Rightarrow> string \<Rightarrow> bool" where
  "cached c n = (case map_of (databases c) n of None \<Rightarrow> False | Some db \<Rightarrow> dCache db \<noteq> None)"

text \<open>A step that works on the databases only: none is added or removed and none loses its cache.\<close>

definition keeps :: "'s ovsdbClient \<Rightarrow> 's ovsdbClient \<Rightarrow> bool" where
  "keeps c c' = (endpoints c' = endpoints c \<and> primaryDBName c' = primaryDBName c \<and> rpcClient c' = rpcClient c
     \<and> keys (databases c') = keys (databases c) \<and> (\<forall>n. cached c n \<longrightarrow> cached c' n))"

lemma keeps_refl [simp]: "keeps c c" by (simp add: keeps_def)

lemma keeps_trans: "keeps a b \<Longrightarrow> keeps b c \<Longrightarrow> keeps a c" by (simp add: keeps_def)

lemma keeps_foldS:
  assumes "\<And>s x. keeps s (fst (f s x))"
  shows "keeps s (fst (foldS f s xs))"
  by (rule foldS_invariant [where I = "keeps s"]) (simp, rule keeps_trans [OF _ assms])

lemma update_same_keys: "k \<in> set (keys m) \<Longrightarrow> keys (AList.update k v m) = keys m"
  by (simp add: AList.update_keys)

lemma keeps_setDb:
  assumes "map_of (databases c) n = Some db" "dCache db \<noteq> None \<Longrightarrow> dCache db' \<noteq> None"
  shows "keeps c (setDb n db' c)"
proof -
  have "n \<in> set (keys (databases c))" using assms(1) by (rule map_of_SomeD_key)
  from update_same_keys [OF this] show ?thesis using assms by (simp add: keeps_def cached_def)
qed

text \<open>One step of a monitor call. Nothing in it but the end looks at the deferred updates.\<close>

lemma monitorDb_cases [case_names fail fall reply]:
  obtains
    (fail) e k where "\<And>ds. monitorDb srv cookie r m (db\<lparr>deferredUpdates := ds\<rparr>) = (db\<lparr>deferredUpdates := ds, modelReaders := k\<rparr>, m, Some e)"
  | (fall) nxt where "methodRank nxt < methodRank (Method m)"
      "\<And>ds. monitorDb srv cookie r m (db\<lparr>deferredUpdates := ds\<rparr>)
         = monitorDb srv cookie r (m\<lparr>Method := nxt\<rparr>) ((storeMonitor r (cookieID cookie) (m\<lparr>Method := nxt\<rparr>) db)\<lparr>deferredUpdates := ds\<rparr>)"
  | (reply) reply m' where
      "\<And>ds. monitorDb srv cookie r m (db\<lparr>deferredUpdates := ds\<rparr>) =
         (case finishMonitor r (cookieID cookie) reply ((storeMonitor True (cookieID cookie) m' db)\<lparr>deferredUpdates := ds\<rparr>) of
            (db', e) \<Rightarrow> (db', (case map_of (monitors db') (cookieID cookie) of None \<Rightarrow> m' | Some x \<Rightarrow> x), e))"
proof -
  let ?D = "\<lambda>ds. db\<lparr>deferredUpdates := ds\<rparr>"
  have st: "storeMonitor b i m' (?D ds) = (storeMonitor b i m' db)\<lparr>deferredUpdates := ds\<rparr>" for b i m' ds by (simp add: storeMonitor_def)
  have txn: "monitorTxn r m (?D ds) = monitorTxn r m db" for ds by (simp add: monitorTxn_def)
  note u = monitorDb.simps [of srv cookie r m "?D ds" for ds, unfolded txn st]
  show thesis
  proof (cases "Errors m \<noteq> [] \<or> monTables m = []")
    case True
    then show thesis using fail [of "modelReaders db"] by (cases "Errors m = []") (simp_all add: u)
  next
    case ok: False
    show thesis
    proof (cases "buildRequests (dModel db) (monTables m)")
      case (Inl e)
      then show thesis using ok fail [of "Suc (modelReaders db)" e] by (simp add: u)
    next
      case (Inr rs)
      show thesis
      proof (cases "Method m \<in> {MonitorRPC, ConditionalMonitorRPC, ConditionalMonitorSinceRPC}")
        case False
        then show thesis using ok Inr fail [of "modelReaders db"] by (simp add: u)
      next
        case meth: True
        show thesis
        proof (cases "callMonitor srv cookie rs (monitorTxn r m db) (Method m)")
          case (Inr rep)
          then show thesis using ok \<open>buildRequests (dModel db) (monTables m) = Inr rs\<close> meth
            reply [of "case replyFound rep of None \<Rightarrow> m | Some txn \<Rightarrow> m\<lparr>LastTransactionID := txn\<rparr>" rep]
            by (simp add: u Let_def)
        next
          case (Inl e)
          note i = ok \<open>buildRequests (dModel db) (monTables m) = Inr rs\<close> meth Inl
          show thesis
          proof (cases "if e = RpcError ''unknown method'' then fallback (Method m) else None")
            case None
            then show thesis using i fail [of "modelReaders db" "rpcError e"] by (simp add: u)
          next
            case (Some nxt)
            then have "methodRank nxt < methodRank (Method m)" by (auto split: if_splits dest: fallback_rank)
            then show thesis using i Some fall [of nxt] by (simp add: u Let_def)
          qed
        qed
      qed
    qed
  qed
qed

lemma deferred_self: "db\<lparr>deferredUpdates := deferredUpdates db\<rparr> = (db :: 's database)" by simp

lemma finishMonitor_cache: "dCache db \<noteq> None \<Longrightarrow> dCache (fst (finishMonitor r i reply db)) \<noteq> None"
  unfolding finishMonitor_def by (simp split: option.splits sum.splits prod.splits)

lemma storeMonitor_simps [simp]:
  "dCache (storeMonitor b i m db) = dCache db" "deferredUpdates (storeMonitor b i m db) = deferredUpdates db"
  "deferUpdates (storeMonitor b i m db) = deferUpdates db"
  "(storeMonitor b i m db)\<lparr>deferredUpdates := deferredUpdates db\<rparr> = storeMonitor b i m db"
  by (simp_all add: storeMonitor_def)

lemma monitorDb_cache: "dCache db \<noteq> None \<Longrightarrow> dCache (fst (monitorDb srv cookie r m db)) \<noteq> None"
proof (induction "methodRank (Method m)" arbitrary: m db rule: less_induct)
  case less
  show ?case
  proof (cases rule: monitorDb_cases [of srv cookie r m db])
    case (fail e k)
    from fail [of "deferredUpdates db"] show ?thesis using less.prems by simp
  next
    case (fall nxt)
    from fall(2) [of "deferredUpdates db"] show ?thesis using less.hyps [of "m\<lparr>Method := nxt\<rparr>"] fall(1) less.prems by simp
  next
    case (reply rep m')
    from reply [of "deferredUpdates db"] show ?thesis
      using finishMonitor_cache [of "storeMonitor True (cookieID cookie) m' db" r "cookieID cookie" rep] less.prems
      by (simp split: prod.splits)
  qed
qed

lemma monitorCall_keeps: "keeps c (fst (monitorCall srv cookie r m c))"
proof (cases "map_of (databases c) (DatabaseName cookie)")
  case (Some db)
  obtain db' m' e where d: "monitorDb srv cookie r m db = (db', m', e)" by (metis surj_pair)
  have "keeps c (setDb (DatabaseName cookie) db' c)" using keeps_setDb [OF Some, of db'] monitorDb_cache [of db srv cookie r m] d by simp
  then show ?thesis using Some d by (simp add: monitorCall_def)
qed (simp add: monitorCall_def)

lemma restartDb_keeps: "keeps c (fst (restartDb srv dbn c))"
proof (cases "map_of (databases c) dbn")
  case (Some db)
  show ?thesis
  proof (cases "monitors db = []")
    case True
    then show ?thesis using Some keeps_setDb [OF Some] by (simp add: restartDb_def split: option.splits sum.splits)
  next
    case False
    let ?f = "\<lambda>c i. case Option.bind (map_of (databases c) dbn) (\<lambda>db. map_of (monitors db) i) of
                 None \<Rightarrow> (c, None)
               | Some m \<Rightarrow> (case monitorCall srv \<lparr>DatabaseName = dbn, cookieID = i\<rparr> True m c of (c, _, e) \<Rightarrow> (c, e))"
    have "keeps s (fst (?f s i))" for s :: "'s ovsdbClient" and i
    proof (cases "Option.bind (map_of (databases s) dbn) (\<lambda>db. map_of (monitors db) i)")
      case (Some m)
      then show ?thesis using monitorCall_keeps [of s srv "\<lparr>DatabaseName = dbn, cookieID = i\<rparr>" True m] by (auto split: prod.splits)
    qed simp
    from keeps_foldS [of ?f, OF this] show ?thesis using Some False by (simp add: restartDb_def)
  qed
qed (simp add: restartDb_def)

lemma restartMonitors_keeps: "keeps c (fst (restartMonitors srv c))"
  unfolding restartMonitors_def using restartDb_keeps by (rule keeps_foldS)

lemma onDatabase_keeps:
  assumes "\<And>db. dCache db \<noteq> None \<Longrightarrow> dCache (fst (f db)) \<noteq> None"
  shows "keeps c (fst (onDatabase n f c))"
proof (cases "map_of (databases c) n")
  case (Some db)
  have "keeps c (setDb n (fst (f db)) c)" by (rule keeps_setDb [OF Some assms])
  then show ?thesis using Some by (cases "f db") (simp add: onDatabase_def)
qed (simp add: onDatabase_def)

lemma reportTo_keeps: "keeps c (fst p) \<Longrightarrow> keeps c (fst (reportTo p))"
proof (cases p)
  case (Pair c' e)
  have "keeps c' (c'\<lparr>errorCh := x\<rparr>)" for x by (simp add: keeps_def cached_def)
  moreover assume "keeps c (fst p)"
  ultimately show ?thesis using Pair keeps_trans by (auto simp: reportTo_def split: option.splits err.splits)
qed

lemma deferOr_cache: "(dCache db \<noteq> None \<Longrightarrow> dCache (fst (f db)) \<noteq> None) \<Longrightarrow> dCache db \<noteq> None \<Longrightarrow> dCache (fst (deferOr u f db)) \<noteq> None"
  by (simp add: deferOr_def)

lemma inCache_cache: "dCache db \<noteq> None \<Longrightarrow> dCache (fst (inCache f db)) \<noteq> None"
  by (auto simp: inCache_def split: prod.splits)

lemma setLastTxn_cache: "dCache (fst (setLastTxn i txn p)) = dCache (fst p)"
  by (cases p) (auto simp: setLastTxn_def split: option.splits)

lemma notification_keeps:
  "keeps c (fst (onDatabase n (deferOr u (inCache f)) c))"
  "keeps c (fst (onDatabase n (deferOr u (\<lambda>db. setLastTxn i txn (inCache f db))) c))"
  by (intro onDatabase_keeps deferOr_cache inCache_cache; assumption)
    (intro onDatabase_keeps deferOr_cache; simp add: setLastTxn_cache inCache_cache del: not_None_eq)

lemma onParams_keeps: "(\<And>x. keeps c (fst (f x c))) \<Longrightarrow> keeps c (fst (onParams r f c))"
  by (simp add: onParams_def split: sum.split)

lemma handlers_keep:
  "keeps c (fst (handleUpdate ps c))" "keeps c (fst (handleUpdate2 ps c))" "keeps c (fst (handleUpdate3 ps c))"
  unfolding handleUpdate_def handleUpdate2_def handleUpdate3_def
  by (rule onParams_keeps, simp add: reportTo_keeps notification_keeps onDatabase_keeps split: prod.split)+

section \<open>Connecting\<close>

text \<open>When every database passed, each has a cache.\<close>

lemma tryDatabase_cache:
  "dCache db \<noteq> None \<Longrightarrow> dCache (fst (tryDatabase srv names n db)) \<noteq> None"
  "tryDatabase srv names n db = (db', None) \<Longrightarrow> dCache db' \<noteq> None"
  by (auto simp: tryDatabase_def Let_def split: if_splits sum.splits option.splits)

lemma tryDatabases_ok:
  assumes "tryDatabases srv names c = (c', None)" "n \<in> set (keys (databases c))"
  shows "cached c' n"
proof -
  let ?f = "\<lambda>c dbn. case map_of (databases c) dbn of None \<Rightarrow> (c, None)
     | Some db \<Rightarrow> (case tryDatabase srv names dbn db of (db, e) \<Rightarrow> (setDb dbn db c, e))"
  have step: "keeps s (fst (?f s x))" for s :: "'s ovsdbClient" and x
  proof (cases "map_of (databases s) x")
    case (Some db)
    have "keeps s (setDb x (fst (tryDatabase srv names x db)) s)" by (rule keeps_setDb [OF Some tryDatabase_cache(1)])
    then show ?thesis using Some by (cases "tryDatabase srv names x db") simp
  qed simp
  have "foldS ?f s ns = (c', None) \<Longrightarrow> n \<in> set ns \<Longrightarrow> n \<in> set (keys (databases s)) \<Longrightarrow> cached c' n" for s ns
  proof (induction ns arbitrary: s)
    case (Cons x ns)
    obtain s1 where s1: "?f s x = (s1, None)" "foldS ?f s1 ns = (c', None)" using Cons.prems(1) unfolding foldS_ok_Cons by blast
    have k: "keeps s s1" using step [of s x] s1(1) by simp
    have n: "n \<in> set (keys (databases s1))" using Cons.prems(3) k by (simp add: keeps_def del: set_map)
    show ?case
    proof (cases "n = x")
      case True
      then obtain db where db: "map_of (databases s) x = Some db" using Cons.prems(3) map_of_key_iff by metis
      then have "cached s1 x" using s1(1) tryDatabase_cache(2) [of srv names x db] by (auto simp: cached_def split: prod.splits)
      moreover have "keeps s1 c'" using keeps_foldS [of ?f s1 ns, OF step] s1(2) by simp
      ultimately show ?thesis using True by (simp add: keeps_def)
    next
      case False
      then show ?thesis using Cons.IH [OF s1(2) _ n] Cons.prems(2) by simp
    qed
  qed simp
  then show ?thesis using assms by (auto simp: tryDatabases_def)
qed

lemma tryDatabases_keep: "keeps c (fst (tryDatabases srv names c))"
proof -
  have "keeps s (fst (case map_of (databases s) x of None \<Rightarrow> (s, None)
     | Some db \<Rightarrow> (case tryDatabase srv names x db of (db, e) \<Rightarrow> (setDb x db s, e))))" for s :: "'s ovsdbClient" and x
  proof (cases "map_of (databases s) x")
    case (Some db)
    have "keeps s (setDb x (fst (tryDatabase srv names x db)) s)" by (rule keeps_setDb [OF Some tryDatabase_cache(1)])
    then show ?thesis using Some by (cases "tryDatabase srv names x db") simp
  qed simp
  then show ?thesis unfolding tryDatabases_def by (rule keeps_foldS)
qed

text \<open>An attempt that keeps everything but the connection itself.\<close>

lemma tryEndpoint_step:
  assumes "tryEndpoint net u c = (c', r)"
  shows "endpoints c' = endpoints c \<and> primaryDBName c' = primaryDBName c \<and> keys (databases c') = keys (databases c)
    \<and> (\<forall>n. cached c n \<longrightarrow> cached c' n)"
    and "r = Inr p \<Longrightarrow> rpcClient c' \<and> (\<forall>n \<in> set (keys (databases c)). cached c' n)"
proof -
  let ?c = "c\<lparr>rpcClient := True, rpcClosed := False\<rparr>"
  have "keeps ?c (fst (tryDatabases srv names ?c))" for srv names by (rule tryDatabases_keep)
  moreover have "c' = c \<or> c' = ?c \<or> (\<exists>srv names. c' = fst (tryDatabases srv names ?c))"
    using assms by (auto simp: tryEndpoint_def Let_def split: sum.splits prod.splits option.splits) (metis fst_conv)+
  ultimately show "endpoints c' = endpoints c \<and> primaryDBName c' = primaryDBName c \<and> keys (databases c') = keys (databases c)
    \<and> (\<forall>n. cached c n \<longrightarrow> cached c' n)" by (auto simp: keeps_def cached_def)
  assume "r = Inr p"
  then obtain srv names where t: "tryDatabases srv names ?c = (c', None)"
    using assms by (auto simp: tryEndpoint_def Let_def split: sum.splits prod.splits option.splits)
  have "keeps ?c c'" using tryDatabases_keep [of ?c srv names] t by simp
  then show "rpcClient c' \<and> (\<forall>n \<in> set (keys (databases c)). cached c' n)"
    using tryDatabases_ok [OF t] by (simp add: keeps_def)
qed

definition clientInv :: "'s ovsdbClient \<Rightarrow> bool" where
  "clientInv c = (endpoints c \<noteq> [] \<and> primaryDBName c \<in> set (keys (databases c))
     \<and> (rpcClient c \<longrightarrow> (\<forall>n \<in> set (keys (databases c)). cached c n)))"

lemma keeps_inv: "keeps c c' \<Longrightarrow> clientInv c \<Longrightarrow> clientInv c'"
  by (auto simp: keeps_def clientInv_def simp del: set_map)

lemma moveEndpointFirst_nonempty [simp]: "moveEndpointFirst i eps \<noteq> []" "moveEndpointLast i eps \<noteq> []"
  by (simp_all add: moveEndpointFirst_def moveEndpointLast_def)

lemma tryEndpoints_inv:
  assumes "tryEndpoints net i eps errs c = (c', out)" "clientInv c" "\<not> rpcClient c"
  shows "((\<forall>s. out \<noteq> ConnParse (Panic s)) \<longrightarrow> clientInv c') \<and> ((\<exists>srv. out = ConnOk srv) \<longrightarrow> rpcClient c')"
  using assms
proof (induction eps arbitrary: i errs c)
  case (Cons ep eps)
  show ?case
  proof (cases "netParse net (epAddress ep)")
    case (Inl e)
    then show ?thesis using Cons.prems by auto
  next
    case (Inr u)
    obtain c1 r where t: "tryEndpoint net u c = (c1, r)" by fastforce
    have st: "endpoints c1 = endpoints c" "primaryDBName c1 = primaryDBName c" "keys (databases c1) = keys (databases c)"
      using tryEndpoint_step(1) [OF t] by simp_all
    show ?thesis
    proof (cases r)
      case (Inr p)
      then have c': "c' = c1\<lparr>endpoints := endpoints c'\<rparr>" "endpoints c' \<noteq> []" "\<exists>srv. out = ConnOk srv"
        using Cons.prems(1) t \<open>netParse net (epAddress ep) = Inr u\<close> by (auto split: prod.splits)
      have "cached c' n = cached c1 n" for n by (subst c'(1)) (simp add: cached_def)
      moreover have "databases c' = databases c1" "primaryDBName c' = primaryDBName c1" "rpcClient c' = rpcClient c1"
        by (subst c'(1), simp)+
      ultimately show ?thesis
        using tryEndpoint_step(2) [OF t Inr] c'(2) st Cons.prems(2) unfolding clientInv_def by simp
    next
      case (Inl e)
      show ?thesis
      proof (cases "\<exists>s. e = Panic s")
        case True
        then show ?thesis using Cons.prems(1) t Inl \<open>netParse net (epAddress ep) = Inr u\<close> by auto
      next
        case False
        then obtain errs' where l: "tryEndpoints net (Suc i) eps errs' (resetRPCClient c1) = (c', out)"
          using Cons.prems(1) t Inl \<open>netParse net (epAddress ep) = Inr u\<close> by (cases e) auto
        have "clientInv (resetRPCClient c1)" "\<not> rpcClient (resetRPCClient c1)"
          using st Cons.prems(2) by (simp_all add: clientInv_def resetRPCClient_def del: set_map)
        then show ?thesis using Cons.IH [OF l] by blast
      qed
    qed
  qed
qed auto

lemma connectTo_inv:
  assumes "connectTo net b c = (c', r)" "clientInv c" "\<forall>s. r \<noteq> Inl (Panic s)"
  shows "clientInv c'" and "r = Inr srv \<Longrightarrow> rpcClient c' \<and> connected c'"
proof -
  obtain c1 out where t: "tryEndpoints net 0 (endpoints c) [] c = (c1, out)" by fastforce
  have restart: "keeps c1 (fst (if b then restartMonitors s c1 else (c1, None)))" for s by (simp add: restartMonitors_keeps)
  have rst: "clientInv x \<Longrightarrow> clientInv (resetRPCClient x)" "clientInv x \<Longrightarrow> clientInv (x\<lparr>connected := y\<rparr>)" for x :: "'a ovsdbClient" and y
    by (auto simp: clientInv_def resetRPCClient_def cached_def simp del: set_map)
  have "clientInv c' \<and> (r = Inr srv \<longrightarrow> rpcClient c' \<and> connected c')"
  proof (cases "rpcClient c")
    case True
    then show ?thesis using assms by (auto simp: connectTo_def)
  next
    case False
    note inv = tryEndpoints_inv [OF t assms(2) False]
    show ?thesis
    proof (cases out)
      case (ConnOk s)
      obtain c2 e where r: "(if b then restartMonitors s c1 else (c1, None)) = (c2, e)" by fastforce
      have k: "keeps c1 c2" using restart [of s] r by simp
      have "clientInv c2" "rpcClient c2" using keeps_inv [OF k] inv ConnOk k by (auto simp: keeps_def)
      then show ?thesis using assms(1,3) False t ConnOk r rst by (auto simp: connectTo_def split: option.splits err.splits)
    qed (use inv assms(1,3) False t in \<open>auto simp: connectTo_def\<close>)
  qed
  then show "clientInv c'" "r = Inr srv \<Longrightarrow> rpcClient c' \<and> connected c'" by blast+
qed

section \<open>Reachable states\<close>

definition noPanic :: "err option \<Rightarrow> bool" where
  "noPanic e = (case e of Some (Panic _) \<Rightarrow> False | _ \<Rightarrow> True)"

text \<open>
  Every method of the client and every event that reaches it, with any server and any network: a step that panics has no
  state after it. \<open>serverCloses\<close> is the connection ending at the other side.
\<close>

inductive clientStep :: "'s ovsdbClient \<Rightarrow> 's ovsdbClient \<Rightarrow> bool" where
  connects: "Connect net i c = (c', e) \<Longrightarrow> noPanic e \<Longrightarrow> clientStep c c'"
| startsMonitor: "MonitorStart srv i m c = (c', m', e) \<Longrightarrow> noPanic e \<Longrightarrow> clientStep c c'"
| monitorsAll: "MonitorAll srv i c = (c', m', e) \<Longrightarrow> noPanic e \<Longrightarrow> clientStep c c'"
| cancelsMonitor: "MonitorCancel srv cookie c = (c', e) \<Longrightarrow> noPanic e \<Longrightarrow> clientStep c c'"
| getsUpdate: "handleUpdate ps c = (c', e) \<Longrightarrow> noPanic e \<Longrightarrow> clientStep c c'"
| getsUpdate2: "handleUpdate2 ps c = (c', e) \<Longrightarrow> noPanic e \<Longrightarrow> clientStep c c'"
| getsUpdate3: "handleUpdate3 ps c = (c', e) \<Longrightarrow> noPanic e \<Longrightarrow> clientStep c c'"
| updatesEndpoints: "clientStep c (UpdateEndpoints addrs c)"
| setsOption: "SetOption opt c = Inr c' \<Longrightarrow> clientStep c c'"
| changesLeader: "leaderChange info c = Inr c' \<Longrightarrow> clientStep c c'"
| probes: "clientStep c (inactivityProbe srv c)"
| handlesError: "clientStep c (handleClientError c)"
| disconnects: "clientStep c (Disconnect c)"
| closes: "clientStep c (Close c)"
| serverCloses: "rpcClient c \<Longrightarrow> clientStep c (c\<lparr>rpcClosed := True\<rparr>)"
| handlesDisconnect: "rpcClosed c \<Longrightarrow> handleDisconnectNotification nets c = (c', e) \<Longrightarrow> noPanic e \<Longrightarrow> clientStep c c'"

inductive clientReachable :: "'s ovsdbClient \<Rightarrow> bool" where
  created: "newOVSDBClient model serverModel os = Inr c \<Longrightarrow> clientReachable c"
| stepped: "clientReachable c \<Longrightarrow> clientStep c c' \<Longrightarrow> clientReachable c'"

lemma newOptions_endpoints: "newOptions os = Inr o' \<Longrightarrow> optEndpoints o' \<noteq> []"
  by (auto simp: newOptions_def elim!: bindR_InrE split: if_splits)

lemma newOVSDBClient_inv:
  assumes "newOVSDBClient model serverModel os = Inr c"
  shows "clientInv c"
  using assms newOptions_endpoints
  by (auto simp: newOVSDBClient_def clientInv_def Let_def elim!: bindR_InrE split: if_splits sum.splits)

text \<open>Steps that change neither the databases nor the connection object.\<close>

definition sameBase :: "'s ovsdbClient \<Rightarrow> 's ovsdbClient \<Rightarrow> bool" where
  "sameBase c c' = (databases c' = databases c \<and> primaryDBName c' = primaryDBName c \<and> rpcClient c' = rpcClient c
     \<and> (endpoints c \<noteq> [] \<longrightarrow> endpoints c' \<noteq> []))"

lemma sameBase_inv: "sameBase c c' \<Longrightarrow> clientInv c \<Longrightarrow> clientInv c'"
  by (auto simp: sameBase_def clientInv_def cached_def simp del: set_map)

lemma sameBase_simps [simp]:
  "sameBase c (disconnect c')  \<longleftrightarrow> sameBase c c'" "sameBase c (Disconnect c') \<longleftrightarrow> sameBase c c'" "sameBase c (Close c') \<longleftrightarrow> sameBase c c'" "sameBase c c"
  by (simp_all add: sameBase_def disconnect_def Disconnect_def Close_def)

lemma UpdateEndpoints_base: "sameBase c (UpdateEndpoints addrs c)"
proof -
  let ?a = "if addrs = [] then [defaultUnixEndpoint] else addrs"
  obtain eps active where e: "newEndpoints (endpoints c) 0 ?a = (eps, active)" by fastforce
  have "map epAddress eps = ?a" using newEndpoints_spec(1) [of "endpoints c" 0 ?a] e by simp
  then have "eps \<noteq> []" by (auto split: if_splits)
  then show ?thesis using e by (simp add: UpdateEndpoints_def Let_def split: option.split) (simp add: sameBase_def)
qed

lemma keeps_map:
  fixes f :: "'s database \<Rightarrow> 's database"
  assumes "\<And>db. dCache db \<noteq> None \<Longrightarrow> dCache (f db) \<noteq> None"
  shows "keeps c (c\<lparr>databases := map (\<lambda>(n, db). (n, f db)) (databases c)\<rparr>)"
proof -
  have "map_of (map (\<lambda>(n, db). (n, f db)) xs) n = map_option f (map_of xs n)" for xs :: "(string, 's database) gomap" and n
    by (induction xs) auto
  then show ?thesis using assms by (auto simp: keeps_def cached_def comp_def split_def split: option.splits)
qed

lemma handleClientError_inv: "clientInv c \<Longrightarrow> clientInv (handleClientError c)"
proof -
  assume c: "clientInv c"
  let ?f = "\<lambda>c :: 'a ovsdbClient. c\<lparr>databases := map (\<lambda>(n, db). (n, forgetTransactions db)) (databases c)\<rparr>"
  have b: "clientInv (c\<lparr>errorCh := x\<rparr>)" for x using c by (auto simp: clientInv_def cached_def simp del: set_map)
  have "keeps x (?f x)" for x by (rule keeps_map) (simp add: forgetTransactions_def)
  then have "clientInv (Disconnect (?f (c\<lparr>errorCh := x\<rparr>)))" for x
    using keeps_inv [OF _ b] sameBase_inv [of "?f (c\<lparr>errorCh := x\<rparr>)"] by (metis sameBase_simps(2,4))
  then show ?thesis using b c by (auto simp: handleClientError_def Let_def split: list.splits err.splits)
qed

lemma retry_inv: "retry nets c = (c', Inr srv) \<Longrightarrow> clientInv c \<Longrightarrow> clientInv c'"
proof (induction nets arbitrary: c)
  case (Cons net nets)
  let ?c = "c\<lparr>databases := map (\<lambda>(n, db). (n, clearDeferred db)) (databases c)\<rparr>"
  have "keeps c ?c" by (rule keeps_map) (simp add: clearDeferred_def)
  then have i: "clientInv ?c" using Cons.prems(2) keeps_inv by blast
  obtain c1 r where r: "connectTo net True ?c = (c1, r)" by fastforce
  show ?case
  proof (cases "\<exists>s. r = Inl (Panic s)")
    case True
    then show ?thesis using Cons.prems(1) r by (auto simp: reconnectAttempt_def)
  next
    case False
    then have "clientInv c1" using connectTo_inv(1) [OF r i] by blast
    then show ?thesis using Cons r False by (cases r) (auto simp: reconnectAttempt_def split: err.splits)
  qed
qed simp

lemma handleDisconnect_inv:
  assumes "handleDisconnectNotification nets c = (c', e)" "noPanic e" "clientInv c"
  shows "clientInv c'"
proof (cases "optReconnect (opts c) \<and> \<not> shutdown c")
  case True
  have "clientInv (c\<lparr>rpcClient := False\<rparr>)" using assms(3) by (auto simp: clientInv_def simp del: set_map)
  moreover obtain r where "retry nets (c\<lparr>rpcClient := False\<rparr>) = (c', r)" "e = (case r of Inl e \<Rightarrow> Some e | Inr _ \<Rightarrow> None)"
    using assms(1) True by (auto simp: handleDisconnectNotification_def split: prod.splits sum.splits)
  moreover have "\<exists>srv. r = Inr srv" if "retry nets x = (y, r)" "noPanic (case r of Inl e \<Rightarrow> Some e | Inr _ \<Rightarrow> None)" for x y :: "'a ovsdbClient" and r
    using that by (induction nets arbitrary: x) (auto simp: noPanic_def split: prod.splits sum.splits err.splits)
  ultimately show ?thesis using retry_inv assms(2) by blast
next
  case False
  have "fst \<circ> (\<lambda>(n, db). (n, clearDatabase db)) = (fst :: string \<times> 'a database \<Rightarrow> string)" by auto
  then show ?thesis using assms(1,3) False by (auto simp: handleDisconnectNotification_def clientInv_def simp del: set_map)
qed

lemma clientStep_inv: "clientStep c c' \<Longrightarrow> clientInv c \<Longrightarrow> clientInv c'"
proof (induction rule: clientStep.induct)
  case (connects net i c c' e)
  obtain c1 r where r: "connectTo net False c = (c1, r)" by fastforce
  have np: "\<forall>s. r \<noteq> Inl (Panic s)" using connects(1,2) r by (auto simp: Connect_def noPanic_def)
  have i: "clientInv c1" by (rule connectTo_inv(1) [OF r connects(3) np])
  have "c' = c1 \<or> (\<exists>srv. c' = fst (monitorCall srv \<lparr>DatabaseName = serverDB, cookieID = i\<rparr> False watchMonitor c1))"
    using connects(1) r by (auto simp: Connect_def split: sum.splits err.splits if_splits prod.splits) (metis fst_conv)
  then show ?case using i keeps_inv [OF monitorCall_keeps i] by blast
next
  case (startsMonitor srv i m c c' m' e)
  then show ?case using keeps_inv [OF monitorCall_keeps startsMonitor(3)] by (metis MonitorStart_def fst_conv)
next
  case (monitorsAll srv i c c' m' e)
  then show ?case using keeps_inv [OF monitorCall_keeps monitorsAll(3)] by (metis MonitorAll_def MonitorStart_def fst_conv)
next
  case (cancelsMonitor srv cookie c c' e)
  have "c' = c \<or> (\<exists>db. primaryDB c = Some db \<and> c' = setDb (primaryDBName c) (db\<lparr>monitors := AList.delete (cookieID cookie) (monitors db)\<rparr>) c)"
    using cancelsMonitor(1) by (auto simp: MonitorCancel_def split: if_splits sum.splits option.splits)
  then show ?case
  proof
    assume "\<exists>db. primaryDB c = Some db \<and> c' = setDb (primaryDBName c) (db\<lparr>monitors := AList.delete (cookieID cookie) (monitors db)\<rparr>) c"
    then obtain db where db: "map_of (databases c) (primaryDBName c) = Some db"
        "c' = setDb (primaryDBName c) (db\<lparr>monitors := AList.delete (cookieID cookie) (monitors db)\<rparr>) c" by (auto simp: primaryDB_def)
    have "keeps c c'" unfolding db(2) by (rule keeps_setDb [OF db(1)]) simp
    then show ?case using cancelsMonitor(3) keeps_inv by blast
  qed (use cancelsMonitor(3) in simp)
next
  case (getsUpdate ps c c' e)
  then show ?case using keeps_inv handlers_keep(1) [of c ps] by simp
next
  case (getsUpdate2 ps c c' e)
  then show ?case using keeps_inv handlers_keep(2) [of c ps] by simp
next
  case (getsUpdate3 ps c c' e)
  then show ?case using keeps_inv handlers_keep(3) [of c ps] by simp
next
  case (updatesEndpoints c addrs)
  then show ?case using sameBase_inv UpdateEndpoints_base by blast
next
  case (setsOption opt c c')
  then have "sameBase c c'" by (auto simp: SetOption_def sameBase_def elim!: bindR_InrE split: if_splits)
  then show ?case using sameBase_inv setsOption(2) by blast
next
  case (changesLeader info c c')
  then have "sameBase c c'" by (auto simp: leaderChange_def Let_def split: if_splits list.splits) (simp_all add: sameBase_def)
  then show ?case using sameBase_inv changesLeader(2) by blast
next
  case (handlesDisconnect c nets c' e)
  then show ?case using handleDisconnect_inv by blast
next
  case (serverCloses c)
  then show ?case using sameBase_inv [of c "c\<lparr>rpcClosed := True\<rparr>"] by (simp add: sameBase_def)
next
  case (probes c srv)
  then show ?case using sameBase_inv [of c "Disconnect c"] by (simp add: inactivityProbe_def)
next
  case (disconnects c)
  then show ?case using sameBase_inv [of c "Disconnect c"] by simp
next
  case (closes c)
  then show ?case using sameBase_inv [of c "Close c"] by simp
qed (simp add: handleClientError_inv)

lemma clientReachable_inv: "clientReachable c \<Longrightarrow> clientInv c"
  by (induction rule: clientReachable.induct) (simp_all add: newOVSDBClient_inv clientStep_inv)


section \<open>The order of a reply and a notification\<close>

lemma Populate_empty [simp]: "Populate [] t = (t, None)" "Populate2 [] t = (t, None)"
proof -
  have "foldS (\<lambda>t x. (t, None)) t xs = (t, None)" for xs :: "string list" by (induction xs) auto
  then show "Populate [] t = (t, None)" "Populate2 [] t = (t, None)" by (simp_all add: Populate_def Populate2_def)
qed

lemma cacheUpdate_Populate: "cacheUpdate u = Populate u" "cacheUpdate2 v = Populate2 v"
  by (auto simp: cacheUpdate_def cacheUpdate2_def fun_eq_iff)

text \<open>
  A notification of the third kind on the database: what \<open>update3\<close> does with it, now or by way of the buffer.
\<close>

definition notify3 :: "string \<Rightarrow> string \<Rightarrow> TableUpdates2 \<Rightarrow> 's database \<Rightarrow> 's database \<times> err option" where
  "notify3 i txn u = deferOr \<lparr>buUpdates = None, buUpdates2 = Some u, buLastTxnID = txn\<rparr> (\<lambda>db. setLastTxn i txn (inCache (cacheUpdate2 u) db))"

lemma handleUpdate3_notify:
  "handleUpdate3 [PCookie k, PString txn, PUpdates2 u] = onDatabase (DatabaseName k) (notify3 (cookieID k) txn u)"
  by (simp add: fun_eq_iff handleUpdate3_def update3Params_def paramAt_def asCookie_def asString_def asUpdates2_def onParams_def notify3_def)

lemma foldS_snoc: "foldS f s xs = (t, None) \<Longrightarrow> foldS f s (xs @ [x]) = (case f t x of (t', Some e) \<Rightarrow> (t', Some e) | (t', None) \<Rightarrow> (t', None))"
  by (simp add: foldS_append split: prod.split option.split)

lemma finishMonitor_order:
  assumes "finishMonitor r i reply db = (db1, None)" "notify3 i txn u db1 = (db2, None)" "txn \<noteq> []"
  shows "finishMonitor r i reply (db\<lparr>deferredUpdates := deferredUpdates db @ [\<lparr>buUpdates = None, buUpdates2 = Some u, buLastTxnID = txn\<rparr>]\<rparr>) = (db2, None)"
proof -
  let ?P = "\<lambda>cache. if r \<and> (length (monitors db) > 1 \<or> replyFound reply = None) then Purge (dModel db) cache else Inr cache"
  obtain c0 where c0: "dCache db = Some c0" using assms(1) by (cases "dCache db") (simp_all add: finishMonitor_def)
  obtain c1 where c1: "?P c0 = Inr c1" using assms(1) c0 by (cases "?P c0") (simp_all add: finishMonitor_def split: if_splits)
  obtain c2 where c2: "populateReply reply c1 = (c2, None)"
    using assms(1) c0 c1 by (cases "populateReply reply c1"; cases "snd (populateReply reply c1)") (auto simp: finishMonitor_def split: if_splits)
  obtain c3 mons where c3: "foldS (replayOne i) (c2, monitors db) (deferredUpdates db) = ((c3, mons), None)"
    using assms(1) c0 c1 c2 by (cases "foldS (replayOne i) (c2, monitors db) (deferredUpdates db)") (auto simp: finishMonitor_def split: if_splits option.splits)
  have db1: "db1 = db\<lparr>dCache := Some c3, monitors := mons, deferUpdates := False, deferredUpdates := []\<rparr>"
    using assms(1) c0 c1 c2 c3 by (auto simp: finishMonitor_def split: if_splits)
  obtain c4 e where p: "Populate2 u c3 = (c4, e)" by fastforce
  have n: "setLastTxn i txn (db1\<lparr>dCache := Some c4\<rparr>, e) = (db2, None)"
    using assms(2) p db1 by (simp add: notify3_def deferOr_def inCache_def cacheUpdate_Populate)
  obtain m where m: "e = None" "map_of mons i = Some m" "db2 = db1\<lparr>dCache := Some c4, monitors := AList.update i (m\<lparr>LastTransactionID := txn\<rparr>) mons\<rparr>"
    using n db1 by (auto simp: setLastTxn_def split: option.splits)
  have "replayOne i (c3, mons) \<lparr>buUpdates = None, buUpdates2 = Some u, buLastTxnID = txn\<rparr> = ((c4, AList.update i (m\<lparr>LastTransactionID := txn\<rparr>) mons), None)"
    using p m(1,2) assms(3) by (simp add: replayOne_def applyBuffered_def)
  then have "foldS (replayOne i) (c2, monitors db) (deferredUpdates db @ [\<lparr>buUpdates = None, buUpdates2 = Some u, buLastTxnID = txn\<rparr>])
      = ((c4, AList.update i (m\<lparr>LastTransactionID := txn\<rparr>) mons), None)"
    using foldS_snoc [OF c3] by simp
  then show ?thesis using c0 c1 c2 db1 m(3) by (auto simp: finishMonitor_def split: if_splits)
qed

lemma monitorDb_order:
  assumes "monitorDb srv cookie r m db = (db1, m1, None)" "notify3 (cookieID cookie) txn u db1 = (db2, None)" "txn \<noteq> []"
  shows "\<exists>m2. monitorDb srv cookie r m (db\<lparr>deferredUpdates := deferredUpdates db @ [\<lparr>buUpdates = None, buUpdates2 = Some u, buLastTxnID = txn\<rparr>]\<rparr>) = (db2, m2, None)"
  using assms(1)
proof (induction "methodRank (Method m)" arbitrary: m db rule: less_induct)
  case less
  let ?ds = "deferredUpdates db @ [\<lparr>buUpdates = None, buUpdates2 = Some u, buLastTxnID = txn\<rparr>]"
  show ?case
  proof (cases rule: monitorDb_cases [of srv cookie r m db])
    case (fail e k)
    from fail [of "deferredUpdates db"] show ?thesis using less.prems by simp
  next
    case (fall nxt)
    let ?db = "storeMonitor r (cookieID cookie) (m\<lparr>Method := nxt\<rparr>) db"
    have "monitorDb srv cookie r (m\<lparr>Method := nxt\<rparr>) ?db = (db1, m1, None)" using fall(2) [of "deferredUpdates db"] less.prems by simp
    from less.hyps [OF _ this] fall show ?thesis by simp
  next
    case (reply rep m')
    let ?db = "storeMonitor True (cookieID cookie) m' db"
    have "finishMonitor r (cookieID cookie) rep ?db = (db1, None)"
      using reply [of "deferredUpdates db"] less.prems by (auto split: prod.splits)
    from finishMonitor_order [OF this assms(2,3)] show ?thesis using reply [of ?ds] by simp
  qed
qed

lemma update_twice: "AList.update k v (AList.update k w m) = AList.update k v m"
  by (induction m) auto


section \<open>Falling back\<close>

text \<open>
  Claim C18. A server that knows only the plain \<open>monitor\<close> method is monitored with it: the call ends, with the state of a call
  that used this method from the start.
\<close>

theorem monitor_falls_back:
  assumes "\<And>k rs txn. srvMonitorCondSince srv k rs txn = Inl (RpcError ''unknown method'')"
    and "\<And>k rs. srvMonitorCond srv k rs = Inl (RpcError ''unknown method'')"
    and "Method m \<in> {ConditionalMonitorRPC, ConditionalMonitorSinceRPC}" and "Errors m = []" and "monTables m \<noteq> []"
    and "buildRequests (dModel db) (monTables m) = Inr rs"
  shows "monitorDb srv cookie False m db = monitorDb srv cookie False (m\<lparr>Method := MonitorRPC\<rparr>) db"
proof -
  have cond: "monitorDb srv cookie False m db = monitorDb srv cookie False (m\<lparr>Method := MonitorRPC\<rparr>) db"
    if "Method m = ConditionalMonitorRPC" "Errors m = []" "monTables m \<noteq> []" "buildRequests (dModel db) (monTables m) = Inr rs" for m
    by (subst monitorDb.simps) (simp add: that callMonitor_def assms(2) fallback_def rpc_names storeMonitor_def)
  show ?thesis
  proof (cases "Method m = ConditionalMonitorRPC")
    case False
    then have "Method m = ConditionalMonitorSinceRPC" using assms(3) by simp
    then have "monitorDb srv cookie False m db = monitorDb srv cookie False (m\<lparr>Method := ConditionalMonitorRPC\<rparr>) db"
      by (subst monitorDb.simps) (simp add: assms(1,4-6) callMonitor_def fallback_def rpc_names storeMonitor_def)
    then show ?thesis using cond [of "m\<lparr>Method := ConditionalMonitorRPC\<rparr>"] assms(4-6) by simp
  qed (use cond assms(4-6) in simp)
qed

section \<open>Select results\<close>

text \<open>The results of one query: its operations share an identifier, and its rows are merged by UUID.\<close>

definition relevant :: "string \<Rightarrow> ClientOp \<times> OperationResult \<Rightarrow> bool" where
  "relevant table p = (Op (fst p) = OperationSelect \<and> opTable (fst p) = table)"

lemma selectPass_filter: "selectPass table index cur cid merged ps = selectPass table index cur cid merged (filter (relevant table) ps)"
proof (induction ps arbitrary: cur cid merged)
  case (Cons p ps)
  show ?case by (cases p) (simp add: relevant_def Let_def Cons.IH [symmetric, unfolded relevant_def])
qed simp

lemma selectPass_same:
  assumes "\<forall>p \<in> set ps. relevant table p \<and> correlationID (fst p) = cid"
  shows "selectPass table cur cur cid merged (ps @ rest)
    = bindR (foldR (\<lambda>m p. mergeRows m (snd p)) merged ps) (\<lambda>merged. selectPass table cur cur cid merged rest)"
  using assms by (induction ps arbitrary: merged) (auto simp: relevant_def Let_def bindR_assoc)

lemma selectPass_skip:
  assumes "\<forall>p \<in> set ps. relevant table p \<and> correlationID (fst p) = cid" "cur < index"
  shows "selectPass table index cur cid merged (ps @ rest) = selectPass table index cur cid merged rest"
  using assms by (induction ps) (auto simp: relevant_def Let_def)

text \<open>Groups of operations, each with its own identifier.\<close>

definition goodGroup :: "string \<Rightarrow> string \<times> (ClientOp \<times> OperationResult) list \<Rightarrow> bool" where
  "goodGroup table g = (snd g \<noteq> [] \<and> (\<forall>p \<in> set (snd g). relevant table p \<and> correlationID (fst p) = fst g))"

lemma selectPass_enter:
  assumes "goodGroup table g" "fst g \<noteq> cid" "cur + 1 \<le> index"
  shows "selectPass table index cur cid merged (snd g @ rest) = selectPass table index (cur + 1) (fst g) merged (snd g @ rest)"
proof -
  obtain p ps where p: "snd g = p # ps" using assms(1) by (cases "snd g") (auto simp: goodGroup_def)
  then have "relevant table p" "correlationID (fst p) = fst g" using assms(1) by (auto simp: goodGroup_def)
  then show ?thesis using assms(2,3) p by (cases p) (simp add: relevant_def Let_def)
qed

lemma selectPass_groups:
  assumes "\<forall>g \<in> set gs. goodGroup table g" "distinct (cid # map fst gs)" "k < length gs"
  shows "bindR (selectPass table (cur + 1 + int k) cur cid [] (concat (map snd gs))) (\<lambda>(c, merged). Inr (c \<ge> cur + 1 + int k, merged))
    = bindR (foldR (\<lambda>m p. mergeRows m (snd p)) [] (snd (gs ! k))) (\<lambda>merged. Inr (True, merged))"
  using assms
proof (induction gs arbitrary: cid cur k)
  case (Cons g gs)
  have g: "goodGroup table g" "fst g \<noteq> cid" "\<forall>p \<in> set (snd g). relevant table p \<and> correlationID (fst p) = fst g"
    using Cons.prems by (auto simp: goodGroup_def)
  have rest: "\<forall>g \<in> set gs. goodGroup table g" "distinct (fst g # map fst gs)" using Cons.prems by auto
  show ?case
  proof (cases k)
    case 0
    have "selectPass table (cur + 1) (cur + 1) (fst g) merged (concat (map snd gs)) = Inr (cur + 1, merged)
        \<or> selectPass table (cur + 1) (cur + 1) (fst g) merged (concat (map snd gs)) = Inr (cur + 2, merged)" for merged
    proof (cases gs)
      case (Cons h hs)
      then have h: "goodGroup table h" "fst h \<noteq> fst g" using rest by auto
      obtain p ps where p: "snd h = p # ps" using h(1) by (cases "snd h") (auto simp: goodGroup_def)
      then have "relevant table p" "correlationID (fst p) = fst h" using h(1) by (auto simp: goodGroup_def)
      then show ?thesis using Cons p h(2) by (cases p) (simp add: relevant_def Let_def)
    qed simp
    then have e: "bindR (selectPass table (cur + 1) (cur + 1) (fst g) merged (concat (map snd gs))) (\<lambda>(c, merged). Inr (c \<ge> cur + 1, merged)) = Inr (True, merged)" for merged
      by (metis (mono_tags, lifting) bindR_simps(2) case_prod_conv add_left_mono one_le_numeral order_refl)
    show ?thesis
      using selectPass_enter [OF g(1,2), of cur "cur + 1"] selectPass_same [OF g(3), of "cur + 1" "[]"] e 0
      by (simp add: bindR_assoc)
  next
    case (Suc j)
    have "selectPass table (cur + 1 + int k) cur cid [] (concat (map snd (g # gs)))
        = selectPass table (cur + 1 + int k) (cur + 1) (fst g) [] (concat (map snd gs))"
      using selectPass_enter [OF g(1,2), of cur "cur + 1 + int k"] selectPass_skip [OF g(3), of "cur + 1" "cur + 1 + int k"] Suc by simp
    moreover have "cur + 1 + int k = cur + 1 + 1 + int j" using Suc by simp
    ultimately show ?thesis using Cons.IH [OF rest, of j "cur + 1"] Cons.prems(3) Suc by (simp add: algebra_simps)
  qed
qed simp


text \<open>
  Claim C24. The results of the select query number \<open>k\<close> of a transaction: when the queries of the target table have their own
  identifiers, the models are made of the rows of that query's operations and of no other, merged by UUID.
\<close>

theorem GetSelectResults_group:
  assumes "length ops = length results" and "NewModelInfo dbModel (zeroModel st) = Inr info" and "table = TableName (iMeta info)"
    and "filter (relevant table) (zip ops results) = concat (map snd gs)"
    and "\<forall>g \<in> set gs. goodGroup table g" and "distinct ([] # map fst gs)" and "k < length gs"
  shows "GetSelectResultsByIndex dbModel ops results (SliceOf (Some st)) (int k)
    = bindR (foldR (\<lambda>m p. mergeRows m (snd p)) [] (snd (gs ! k))) (mapR (selectModel dbModel table))"
proof -
  let ?S = "selectPass table (int k) (-1) [] [] (zip ops results)"
  have s: "?S = selectPass table (-1 + 1 + int k) (-1) [] [] (concat (map snd gs))"
    using selectPass_filter [of table "int k" "-1" "[]" "[]" "zip ops results"] assms(4) by simp
  have "GetSelectResultsByIndex dbModel ops results (SliceOf (Some st)) (int k)
      = bindR ?S (\<lambda>(current, merged). if current < int k then Inl (Errorf ''index is out of range'') else mapR (selectModel dbModel table) merged)"
    using assms(1,2) unfolding assms(3) by (simp add: GetSelectResultsByIndex_def)
  also have "\<dots> = bindR (bindR ?S (\<lambda>(c, merged). Inr (c \<ge> -1 + 1 + int k, merged)))
      (\<lambda>(b, merged). if \<not> b then Inl (Errorf ''index is out of range'') else mapR (selectModel dbModel table) merged)"
    unfolding bindR_assoc by (rule bindR_cong) auto
  also have "\<dots> = bindR (foldR (\<lambda>m p. mergeRows m (snd p)) [] (snd (gs ! k))) (mapR (selectModel dbModel table))"
    unfolding s selectPass_groups [OF assms(5,6,7), of "-1"] bindR_assoc by (rule bindR_cong) auto
  finally show ?thesis .
qed

section \<open>Divergences\<close>

text \<open>A table that is not in the model makes \<open>Monitor\<close> return without releasing the read lock.\<close>

lemma monitor_leaks_read_lock:
  assumes "rpcClient c" "\<not> shutdown c" "map_of (databases c) (DatabaseName cookie) = Some db" "Errors m = []"
    and "monTables m = tm # tms" "map_of (cdbTypes (dbClient (dModel db))) (tmTable tm) = None"
  shows "\<exists>c' m' e. monitorCall srv cookie r m c = (c', m', Some e)
    \<and> map_option modelReaders (map_of (databases c') (DatabaseName cookie)) = Some (modelReaders db + 1)"
proof -
  have "buildRequests (dModel db) (monTables m) = Inl (Errorf (''type for table '' @ tmTable tm @ '' does not exist in model''))"
    using assms(5,6) by (simp add: buildRequests_def addRequest_def)
  then show ?thesis using assms by (simp add: monitorCall_def monitorDb.simps)
qed

text \<open>A notification for a monitor that was cancelled dereferences nil once its updates are in the cache.\<close>

lemma update3_cancelled_monitor_panics:
  assumes "map_of (databases c) (DatabaseName k) = Some db" "\<not> deferUpdates db" "map_of (monitors db) (cookieID k) = None"
    and "dCache db = Some cache" "cacheUpdate2 u cache = (cache', None)"
  shows "\<exists>c'. handleUpdate3 [PCookie k, PString txn, PUpdates2 u] c = (c', Some (Panic ''nil pointer dereference''))"
  using assms by (simp add: handleUpdate3_notify onDatabase_def notify3_def deferOr_def inCache_def setLastTxn_def)

text \<open>A notification with too few parameters panics.\<close>

lemma update_short_params_panic:
  "handleUpdate [] c = (c, Some (Panic ''index out of range''))" "handleUpdate3 [PCookie k] c = (c, Some (Panic ''index out of range''))"
  by (simp_all add: handleUpdate_def updateParams_def handleUpdate3_def update3Params_def paramAt_def asCookie_def onParams_def)

text \<open>When a deferred update fails, the buffer is kept although updates are no longer deferred: the next monitor applies it again.\<close>

lemma failed_replay_keeps_buffer:
  assumes "finishMonitor r i reply db = (db', Some e)" "\<not> deferUpdates db'" "deferUpdates db"
  shows "deferredUpdates db' = deferredUpdates db"
  using assms by (auto simp: finishMonitor_def split: option.splits sum.splits prod.splits if_splits)

text \<open>After the server closed the connection of a client that does not reconnect, the client still reports to be connected.\<close>

lemma connected_after_server_close:
  assumes "connected c" "\<not> optReconnect (opts c)"
  shows "\<exists>c'. handleDisconnectNotification nets (c\<lparr>rpcClosed := True\<rparr>) = (c', None) \<and> Connected c' \<and> \<not> rpcClient c'"
  using assms by (simp add: handleDisconnectNotification_def Connected_def)

text \<open>An endpoint set by \<open>SetOption\<close> is never tried: the list of endpoints is built once.\<close>

lemma SetOption_endpoint_ignored: "SetOption (WithEndpoint parse a) c = Inr c' \<Longrightarrow> endpoints c' = endpoints c"
  by (auto simp: SetOption_def elim!: bindR_InrE split: if_splits)

text \<open>Cancelling looks for the monitor in the primary database, whatever database its cookie names.\<close>

lemma MonitorCancel_other_database:
  assumes "MonitorCancel srv cookie c = (c', None)" "n \<noteq> primaryDBName c"
  shows "map_of (databases c') n = map_of (databases c) n"
  using assms by (auto simp: MonitorCancel_def split: if_splits sum.splits option.splits)

text \<open>A server whose schema does not fit costs the client its model: no server will do afterwards.\<close>

lemma validation_failure_is_permanent:
  assumes "tryDatabase srv names n db = (db', Some e)" "NewDatabaseModel schema (dbClient (dModel db)) = Inr (Inl errs)"
    and "srvGetSchema srv n = Inr schema" "n \<in> set names"
    and "srvGetSchema srv' n = Inr schema'" "Name schema' \<noteq> []"
  shows "\<exists>db2 e2. tryDatabase srv' names' n db' = (db2, Some e2)"
proof -
  have d: "dbClient (dModel db') = \<lparr>cdbName = [], cdbTypes = [], cdbIndexes = []\<rparr>"
    using assms(1-4) by (auto simp: tryDatabase_def zeroDatabaseModel_def NewPartialDatabaseModel_def)
  have "\<exists>errs. NewDatabaseModel schema' (dbClient (dModel db')) = Inr (Inl errs)"
    using assms(6) by (simp add: d NewDatabaseModel_def validate_def)
  then show ?thesis using assms(5) by (auto simp: tryDatabase_def)
qed

section \<open>Witnesses\<close>

definition exInsert :: "string \<Rightarrow> string \<Rightarrow> TableUpdates2" where
  "exInsert u n = [(''Bridge'', [(u, Some (emptyRU2\<lparr>Insert := Some [(''name'', VAtom (AStr n))]\<rparr>))])]"

definition exPeer :: server where
  "exPeer = \<lparr>srvListDbs = Inr [''db''], srvGetSchema = (\<lambda>_. Inr exSchema), srvTransact = (\<lambda>_ _. Inr []),
     srvMonitor = (\<lambda>_ _. Inr []), srvMonitorCond = (\<lambda>k _. Inr (exInsert (cookieID k) (cookieID k))),
     srvMonitorCondSince = (\<lambda>k _ _. Inr (False, [], exInsert (cookieID k) (cookieID k))),
     srvMonitorCancel = (\<lambda>_. Inr emptyResult), srvEcho = (\<lambda>x. Inr x)\<rparr>"

definition exEmptyTC :: "unit TableCache" where
  "exEmptyTC = \<lparr>tcCache = [(''Bridge'', exCache [] [])], tcEvents = newEventProcessor 8, tcDb = exDb\<rparr>"

definition exMon :: ClientMonitor where
  "exMon = clientNewMonitor\<lparr>monTables := [\<lparr>tmTable = ''Bridge'', tmConditions = [], tmFields = []\<rparr>]\<rparr>"

definition exDbState :: "(string, ClientMonitor) gomap \<Rightarrow> unit database" where
  "exDbState ms = \<lparr>dModel = exDb, dCache = Some exEmptyTC, monitors = ms, deferUpdates = True, deferredUpdates = [], modelReaders = 0\<rparr>"

definition exConn :: "(string, ClientMonitor) gomap \<Rightarrow> unit ovsdbClient" where
  "exConn ms = \<lparr>opts = \<lparr>optEndpoints = [''tcp:a''], optReconnect = True, optLeaderOnly = False, optValidateModel = False, optInactivity = False\<rparr>,
     connected = True, rpcClient = True, rpcClosed = False, endpoints = [\<lparr>epAddress = ''tcp:a'', epServerID = []\<rparr>],
     primaryDBName = ''db'', databases = [(''db'', exDbState ms)], errorCh = [], shutdown = False, disconnects = 0\<rparr>"

abbreviation exCookie :: MonitorCookie where
  "exCookie \<equiv> \<lparr>DatabaseName = ''db'', cookieID = ''u1''\<rparr>"


definition exOldPeer :: server where
  "exOldPeer = exPeer\<lparr>srvMonitorCond := (\<lambda>_ _. Inl (RpcError ''unknown method'')), srvMonitorCondSince := (\<lambda>_ _ _. Inl (RpcError ''unknown method''))\<rparr>"

theorem monitor_falls_back_witness:
  "\<exists>db m. monitorDb exOldPeer exCookie False exMon (exDbState []) = (db, m, None) \<and> Method m = MonitorRPC \<and> \<not> deferUpdates db"
proof -
  have "isOk (buildRequests (dModel (exDbState [])) (monTables exMon))" by code_simp
  then obtain rs where rs: "buildRequests (dModel (exDbState [])) (monTables exMon) = Inr rs" by (auto simp: isOk_iff)
  have "monitorDb exOldPeer exCookie False exMon (exDbState []) = monitorDb exOldPeer exCookie False (exMon\<lparr>Method := MonitorRPC\<rparr>) (exDbState [])"
    by (rule monitor_falls_back [OF _ _ _ _ _ rs]) (simp_all add: exOldPeer_def exMon_def clientNewMonitor_def)
  moreover have "(case monitorDb exOldPeer exCookie False (exMon\<lparr>Method := MonitorRPC\<rparr>) (exDbState []) of
      (db, m, None) \<Rightarrow> Method m = MonitorRPC \<and> \<not> deferUpdates db | _ \<Rightarrow> False)" by code_simp
  ultimately show ?thesis by (auto split: prod.splits option.splits)
qed


definition exSelect :: "string \<Rightarrow> ClientOp" where
  "exSelect cid = Operation.extend (emptyOp\<lparr>Op := OperationSelect, opTable := ''Bridge''\<rparr>) (ClientOp.fields cid)"

definition exRows :: "string \<Rightarrow> OperationResult" where
  "exRows u = emptyResult\<lparr>rRows := [[(''_uuid'', VAtom (AUUID u)), (''name'', VAtom (AStr ''br0'')), (''ports'', VOvsSet (Some [AInt 7]))]]\<rparr>"

theorem GetSelectResults_group_witness:
  "GetSelectResultsByIndex exDb [exSelect ''q1'', exSelect ''q2''] [exRows ''v'', exRows ''u''] (SliceOf (Some exStruct)) (int 1)
     = Inr [exModel ''u'' ''br0'']"
proof -
  let ?gs = "[(''q1'', [(exSelect ''q1'', exRows ''v'')]), (''q2'', [(exSelect ''q2'', exRows ''u'')])]"
  have i: "NewModelInfo exDb (zeroModel exStruct) = Inr \<lparr>Obj = zeroModel exStruct, iMeta = exMeta\<rparr>"
    by (simp add: NewModelInfo_def exDb_def zeroModel_def)
  have r: "relevant ''Bridge'' (exSelect x, y)" "correlationID (exSelect x) = x" for x y
    by (simp_all add: relevant_def exSelect_def Operation.defs ClientOp.defs emptyOp_def)
  have "GetSelectResultsByIndex exDb [exSelect ''q1'', exSelect ''q2''] [exRows ''v'', exRows ''u''] (SliceOf (Some exStruct)) (int 1)
      = bindR (foldR (\<lambda>m p. mergeRows m (snd p)) [] (snd (?gs ! 1))) (mapR (selectModel exDb ''Bridge''))"
    by (rule GetSelectResults_group [OF _ i]) (simp_all add: exMeta_def r goodGroup_def)
  moreover have "bindR (foldR (\<lambda>m p. mergeRows m (snd p)) [] (snd (?gs ! 1))) (mapR (selectModel exDb ''Bridge'')) = Inr [exModel ''u'' ''br0'']"
    by code_simp
  ultimately show ?thesis by simp
qed

text \<open>After a reconnect with two monitors the cache has the rows of the last one only: each reply purges the cache.\<close>

lemma reconnect_with_two_monitors:
  "(case restartDb exPeer ''db'' (exConn [(''u1'', exMon), (''u2'', exMon)]) of
      (c, None) \<Rightarrow> (case Cache c of None \<Rightarrow> False | Some t \<Rightarrow> contents t (''Bridge'', ''u1'') = None \<and> contents t (''Bridge'', ''u2'') \<noteq> None)
    | _ \<Rightarrow> False)"
  by code_simp

end
