(* ===== verification/Serving.thy ===== *)
theory Serving
  imports Server
begin

text \<open>
  The server as a process (\<open>server/server.go\<close>): the methods it registers for RPC calls, starting, accepting connections and closing, and the delays that
  tests set. Connections are served by the RPC package; the loop of \<open>Serve\<close> is a function of the sequence of what \<open>Accept\<close> returns and of calls of
  \<open>Close\<close> from other goroutines between them.
\<close>

section \<open>Handlers\<close>

datatype handler = HListDatabases | HGetSchema | HTransact | HCancel | HMonitor | HMonitorCond | HMonitorCondSince | HMonitorCancel
  | HLock | HSteal | HUnlock | HEcho

definition registered :: "(string, handler) gomap" where
  "registered = [(''list_dbs'', HListDatabases), (''get_schema'', HGetSchema), (''transact'', HTransact), (''cancel'', HCancel), (''monitor'', HMonitor),
     (''monitor_cond'', HMonitorCond), (''monitor_cond_since'', HMonitorCondSince), (''monitor_cancel'', HMonitorCancel), (''steal'', HSteal),
     (''unlock'', HUnlock), (''echo'', HEcho)]"

section \<open>Starting and closing\<close>

text \<open>The listener is \<open>None\<close> before \<open>Serve\<close>; then it says whether it is open.\<close>

record serverLife =
  slReady :: bool
  slListener :: "bool option"
  slDone :: bool
  slTransactionDelay :: int
  slEchoDelay :: int
  slConns :: "nat list"

definition newServerLife :: serverLife where
  "newServerLife = \<lparr>slReady = False, slListener = None, slDone = False, slTransactionDelay = 0, slEchoDelay = 0, slConns = []\<rparr>"

definition SetTransactionDelay :: "int \<Rightarrow> serverLife \<Rightarrow> serverLife" where
  "SetTransactionDelay delay s = s\<lparr>slTransactionDelay := delay\<rparr>"

definition SetEchoDelay :: "int \<Rightarrow> serverLife \<Rightarrow> serverLife" where
  "SetEchoDelay delay s = s\<lparr>slEchoDelay := delay\<rparr>"

definition Ready :: "serverLife \<Rightarrow> bool" where
  "Ready s = slReady s"

definition CloseServer :: "serverLife \<Rightarrow> serverLife" where
  "CloseServer s =
     (let s = s\<lparr>slReady := False\<rparr>;
          s = (if slListener s \<noteq> None then s\<lparr>slListener := Some False\<rparr> else s)
      in if \<not> slDone s then s\<lparr>slDone := True\<rparr> else s)"

definition listenOn :: "err option \<Rightarrow> serverLife \<Rightarrow> serverLife \<times> err option" where
  "listenOn fault s = (case fault of
     Some e \<Rightarrow> (s\<lparr>slListener := None\<rparr>, Some e)
   | None \<Rightarrow> (s\<lparr>slListener := Some True\<rparr>, None))"

datatype serveEvent = Accepted nat | AcceptFailed err | CloseCalled

text \<open>The result is missing while the loop is waiting for the next connection.\<close>

fun serveLoop :: "serveEvent list \<Rightarrow> serverLife \<Rightarrow> serverLife \<times> err option option" where
  "serveLoop [] s = (s, None)"
| "serveLoop (Accepted c # es) s = serveLoop es (s\<lparr>slConns := slConns s @ [c]\<rparr>)"
| "serveLoop (CloseCalled # es) s = serveLoop es (CloseServer s)"
| "serveLoop (AcceptFailed e # es) s = (s, Some (if \<not> Ready s then None else Some e))"

definition Serve :: "err option \<Rightarrow> serveEvent list \<Rightarrow> serverLife \<Rightarrow> serverLife \<times> err option option" where
  "Serve fault events s = (case listenOn fault s of
     (s, Some e) \<Rightarrow> (s, Some (Some e))
   | (s, None) \<Rightarrow> serveLoop events (s\<lparr>slReady := True\<rparr>))"

section \<open>Properties\<close>

lemma CloseServer_idem: "CloseServer (CloseServer s) = CloseServer s"
  by (cases s) (auto simp: CloseServer_def Let_def)

lemma CloseServer_not_ready: "\<not> Ready (CloseServer s)" "slListener (CloseServer s) \<noteq> Some True"
  by (cases s, auto simp: CloseServer_def Ready_def Let_def)+

lemma serveLoop_waiting:
  "(\<And>e. AcceptFailed e \<notin> set es) \<Longrightarrow> \<exists>s'. (\<forall>rest. serveLoop (es @ rest) s = serveLoop rest s') \<and> (\<not> Ready s \<longrightarrow> \<not> Ready s')"
proof (induction es s rule: serveLoop.induct)
  case (2 c es s)
  then show ?case by (fastforce simp: Ready_def)
next
  case (3 es s)
  then obtain s' where "\<forall>rest. serveLoop (es @ rest) (CloseServer s) = serveLoop rest s'" "\<not> Ready s'" using CloseServer_not_ready(1) by fastforce
  then show ?case by auto
qed auto

text \<open>Once \<open>Close\<close> was called, the loop ends without an error when the closed listener fails, whatever was accepted before and after.\<close>

lemma Serve_closes:
  assumes "\<And>e. AcceptFailed e \<notin> set es" "\<And>e. AcceptFailed e \<notin> set fs"
  shows "snd (Serve None (es @ CloseCalled # fs @ [AcceptFailed e]) s) = Some None"
proof -
  let ?s = "s\<lparr>slListener := Some True, slReady := True\<rparr>"
  obtain s1 where s1: "\<forall>rest. serveLoop (es @ rest) ?s = serveLoop rest s1" using serveLoop_waiting [OF assms(1), of ?s] by blast
  obtain s2 where s2: "\<forall>rest. serveLoop (fs @ rest) (CloseServer s1) = serveLoop rest s2" "\<not> Ready s2"
    using serveLoop_waiting [OF assms(2), of "CloseServer s1"] CloseServer_not_ready(1) by blast
  have "serveLoop (es @ CloseCalled # fs @ [AcceptFailed e]) ?s = (s2, Some None)" using s1 s2 by simp
  then show ?thesis by (simp add: Serve_def listenOn_def)
qed

text \<open>Any other failure of the listener is returned.\<close>

lemma Serve_fails:
  assumes "\<And>e. AcceptFailed e \<notin> set es" "CloseCalled \<notin> set es"
  shows "snd (Serve None (es @ [AcceptFailed e]) s) = Some (Some e)"
proof -
  have "snd (serveLoop (es @ [AcceptFailed e]) s) = Some (Some e)" if "Ready s" for s
    using assms that by (induction es s rule: serveLoop.induct) (auto simp: Ready_def)
  then show ?thesis by (simp add: Serve_def listenOn_def Ready_def)
qed

text \<open>The handler of \<open>lock\<close> is the one that is not registered.\<close>

lemma lock_not_registered: "{h. h \<notin> snd ` set registered} = {HLock}" "map_of registered ''lock'' = None"
proof -
  have "h \<notin> snd ` set registered \<longleftrightarrow> h = HLock" for h by (cases h) (simp_all add: registered_def)
  then show "{h. h \<notin> snd ` set registered} = {HLock}" by blast
  show "map_of registered ''lock'' = None" by (simp add: registered_def)
qed

end
