(* ===== verification/Json.thy ===== *)
theory Json
  imports DbModel NamedUuid
begin

text \<open>
  JSON values of the OVSDB notation (\<open>ovsdb/uuid.go\<close>, \<open>set.go\<close>, \<open>map.go\<close>, \<open>notation.go\<close>): how a value is encoded, how it is decoded, and
  that a column reads the decoded value as it reads the one that was sent. A JSON text is a tree: \<open>encoding/json\<close> itself, which reads and
  writes the text, is the standard library and not modelled, apart from what it does to numbers. \<open>JInt\<close> is the text of an integer, \<open>JFloat\<close> the text
  of a float64, which it reads back exactly; decoded into \<open>any\<close> a number is a float64 in either case. The locale \<open>codec\<close> states the law of an encoder and
  its decoder, from which lists, objects and pointers inherit it; it is interpreted on every codec of the library.
\<close>

section \<open>Numbers\<close>

definition f64_of_int :: "int \<Rightarrow> f64" where
  "f64_of_int i = f64_round (i < 0) (nat \<bar>i\<bar>) 1"

lemma f64_round_small:
  assumes "0 < n" "n < 2 ^ 53"
  shows "\<exists>k q. 1 \<le> k \<and> k \<le> 53 \<and> q = n * 2 ^ (53 - k) \<and> 2 ^ 52 \<le> q \<and> q < 2 ^ 53
    \<and> f64_round s n 1 = (if s then push_bit 63 1 else 0) OR of_nat ((k + 1021) * 2 ^ 52 + q)"
proof -
  define k where "k = floorlog 2 n"
  have k: "2 ^ (k - 1) \<le> n" "n < 2 ^ k" "1 \<le> k"
    using assms(1) floorlog_bounds [of n 2] unfolding k_def by (auto simp: floorlog_def)
  have k53: "k \<le> 53"
  proof (rule ccontr)
    assume "\<not> k \<le> 53"
    then have "(2::nat) ^ 53 \<le> 2 ^ (k - 1)" by (intro power_increasing) auto
    then show False using k(1) assms(2) by simp
  qed
  define q where "q = n * 2 ^ (53 - k)"
  have lo: "2 ^ 52 \<le> q"
  proof -
    have "(2::nat) ^ 52 = 2 ^ (k - 1) * 2 ^ (53 - k)" using k(3) k53 by (simp flip: power_add)
    moreover have "2 ^ (k - 1) * 2 ^ (53 - k) \<le> q" unfolding q_def by (rule mult_right_mono) (use k(1) in auto)
    ultimately show ?thesis by simp
  qed
  have hi: "q < 2 ^ 53"
  proof -
    have "(2::nat) ^ 53 = 2 ^ k * 2 ^ (53 - k)" using k53 by (simp flip: power_add)
    moreover have "q < 2 ^ k * 2 ^ (53 - k)" unfolding q_def using k(2) by simp
    ultimately show ?thesis by simp
  qed
  have d1: "floorlog 2 (Suc 0) = 1" by (simp add: floorlog_def)
  have e0: "nat (54 - int k) = Suc (53 - k)" using k53 by simp
  have s0: "2 ^ 53 \<le> n * 2 ^ nat (54 - int k)" using lo by (simp add: e0 q_def)
  have e1: "nat (53 - int k) = 53 - k" using k53 by simp
  have m: "max (-1074) (int k - 53) = int k - 53" by simp
  have b: "nat (1021 + int k) = k + 1021" "nat (int k + 1021) = k + 1021" by simp_all
  have nb: "\<not> 2047 * 2 ^ 52 \<le> (k + 1021) * 2 ^ 52 + q"
  proof -
    have "(k + 1021) * 2 ^ 52 + q < 1074 * 2 ^ 52 + 2 ^ 53" using k53 hi by (intro add_le_less_mono mult_right_mono) auto
    then show ?thesis by simp
  qed
  have "f64_round s n 1 = (if s then push_bit 63 1 else 0) OR of_nat ((k + 1021) * 2 ^ 52 + q)"
    using assms(1) s0 nb k53
    by (cases "k = 53") (simp_all add: f64_round_def Let_def d1 m b e1 q_def add_ac flip: k_def)
  then show ?thesis using k k53 lo hi q_def by blast
qed

lemma f64_signed_fields:
  assumes "b < 2 ^ 63"
  shows "f64_neg ((if s then push_bit 63 1 else 0) OR of_nat b) = s"
    and "f64_exp ((if s then push_bit 63 1 else 0) OR of_nat b) = b div 2 ^ 52"
    and "f64_frac ((if s then push_bit 63 1 else 0) OR of_nat b) = b mod 2 ^ 52"
proof -
  let ?s = "if s then push_bit 63 1 else 0 :: f64" and ?w = "of_nat b :: f64"
  have u: "take_bit 64 b = b" "unat ?w = b" using assms by (simp_all add: take_bit_nat_eq_self unat_of_nat)
  have "\<not> bit b 63" using assms by (simp add: bit_iff_odd)
  then have "\<not> bit ?w 63" by (simp add: bit_simps)
  then show "f64_neg (?s OR ?w) = s" by (simp add: f64_neg_def bit_or_iff)
  have m: "(2047 :: f64) = mask 11" by (simp add: mask_eq_exp_minus_1)
  have "drop_bit 52 ?s AND 2047 = 0" by simp
  then have "drop_bit 52 (?s OR ?w) AND 2047 = take_bit 11 (drop_bit 52 ?w)"
    by (simp add: bit.conj_disj_distrib2 take_bit_eq_mask m)
  then have "f64_exp (?s OR ?w) = take_bit 11 (drop_bit 52 b)"
    by (simp add: f64_exp_def unsigned_take_bit_eq unsigned_drop_bit_eq u)
  also have "\<dots> = b div 2 ^ 52" using assms by (simp add: drop_bit_eq_div take_bit_eq_mod)
  finally show "f64_exp (?s OR ?w) = b div 2 ^ 52" .
  have "?s AND mask 52 = 0" by (simp add: mask_eq_exp_minus_1)
  then have "(?s OR ?w) AND mask 52 = take_bit 52 ?w" by (simp add: bit.conj_disj_distrib2 take_bit_eq_mask)
  then have "f64_frac (?s OR ?w) = take_bit 52 b"
    by (simp add: f64_frac_def unsigned_take_bit_eq u)
  then show "f64_frac (?s OR ?w) = b mod 2 ^ 52" by (simp add: take_bit_eq_mod)
qed

text \<open>Integers below \<open>2 ^ 53\<close> have an exact float64, from which the conversion to \<open>int\<close> gets them back.\<close>

theorem f64_of_int_exact:
  assumes "\<bar>i\<bar> < 2 ^ 53"
  shows "f64_to_int (f64_of_int i) = word_of_int i"
proof (cases "i = 0")
  case False
  let ?n = "nat \<bar>i\<bar>" and ?w = "f64_of_int i"
  have n: "0 < ?n" "?n < 2 ^ 53" using assms False by auto
  obtain k q where k: "1 \<le> k" "k \<le> 53" "q = ?n * 2 ^ (53 - k)" "2 ^ 52 \<le> q" "q < 2 ^ 53"
    "?w = (if i < 0 then push_bit 63 1 else 0) OR of_nat ((k + 1021) * 2 ^ 52 + q)"
    using f64_round_small [OF n, of "i < 0"] unfolding f64_of_int_def by blast
  let ?b = "(k + 1021) * 2 ^ 52 + q"
  have "(k + 1021) * 2 ^ 52 \<le> (1074 * 2 ^ 52 :: nat)" using k(2) by (intro mult_right_mono) auto
  then have b: "?b < 2 ^ 63" using k(5) by simp
  define f where "f = q - 2 ^ 52"
  have f: "q = 2 ^ 52 + f" "f < 2 ^ 52" using k(4,5) unfolding f_def by simp_all
  have bf: "?b = f + (k + 1022) * 2 ^ 52" using f(1) by simp
  have d: "?b div 2 ^ 52 = k + 1022" "?b mod 2 ^ 52 = f" unfolding bf using f(2) by (simp_all only: div_mult_self1 mod_mult_self1 mod_less div_less)
  note F = f64_signed_fields [OF b, of "i < 0", folded k(6), unfolded d]
  have "f64_mag ?w = q * 2 ^ (k + 1021)" by (simp add: f64_mag_def F f(1))
  also have "\<dots> = ?n * 2 ^ 1074"
  proof -
    have "(2::nat) ^ (53 - k) * 2 ^ (k + 1021) = 2 ^ 1074" using k(2) by (simp flip: power_add)
    then show ?thesis unfolding k(3) by (metis mult.assoc)
  qed
  finally have "f64_mag ?w div 2 ^ 1074 = ?n" by simp
  moreover have "f64_exp ?w \<noteq> 2047" using F(2) k(2) by simp
  ultimately show ?thesis using assms by (auto simp: f64_to_int_def F(1) Let_def)
qed (simp add: f64_of_int_def f64_round_def f64_to_int_def f64_mag_def f64_exp_def f64_frac_def f64_neg_def Let_def)

section \<open>Trees\<close>

datatype json =
    JNull
  | JBool bool
  | JInt int
  | JFloat f64
  | JStr string
  | JArr "json list"
  | JObj "(string \<times> json) list"

text \<open>
  A value that was decoded into \<open>any\<close>: \<open>WSlice\<close> and \<open>WObject\<close> are the arrays and objects the notation gives no meaning.
\<close>

datatype wire =
    WNil
  | WAtom atom
  | WSet "wire list"
  | WMap "(wire \<times> wire) list"
  | WSlice "json list"
  | WObject "(string \<times> json) list"

text \<open>The number that \<open>encoding/json\<close> decodes into \<open>any\<close> is a \<open>float64\<close>.\<close>

definition leaf :: "json \<Rightarrow> wire" where
  "leaf j = (case j of
     JNull \<Rightarrow> WNil
   | JBool b \<Rightarrow> WAtom (ABool b)
   | JInt i \<Rightarrow> WAtom (AReal (f64_of_int i))
   | JFloat f \<Rightarrow> WAtom (AReal f)
   | JStr s \<Rightarrow> WAtom (AStr s)
   | JArr xs \<Rightarrow> WSlice xs
   | JObj m \<Rightarrow> WObject m)"

section \<open>Encoding\<close>

definition marshalUUID :: "string \<Rightarrow> json" where
  "marshalUUID u = JArr [JStr (if isOk (ValidateUUID u) then ''uuid'' else ''named-uuid''), JStr u]"

fun marshalAtom :: "atom \<Rightarrow> json result" where
  "marshalAtom (AInt w) = Inr (JInt (sint w))"
| "marshalAtom (AReal f) = (if f64_exp f = 2047 then Inl (Errorf ''json: unsupported value'') else Inr (JFloat f))"
| "marshalAtom (ABool b) = Inr (JBool b)"
| "marshalAtom (AStr s) = Inr (JStr s)"
| "marshalAtom (AUUID u) = Inr (marshalUUID u)"

text \<open>
  \<open>json.Marshal\<close> of a value behind \<open>any\<close>, with the methods of \<open>OvsSet\<close> (a set of one element is the element) and \<open>OvsMap\<close>; native
  slices, pointers and maps are encoded by the standard library, which wants the keys of a map to be strings or integers.
\<close>

definition keyText :: "atom \<Rightarrow> string" where
  "keyText a = (case a of AStr s \<Rightarrow> s | AInt w \<Rightarrow> showInt (sint w) | _ \<Rightarrow> [])"

definition marshalSet :: "atom list \<Rightarrow> json result" where
  "marshalSet as = (case as of
     [a] \<Rightarrow> marshalAtom a
   | _ \<Rightarrow> bindR (mapR marshalAtom as) (\<lambda>js. Inr (JArr [JStr ''set'', JArr js])))"

definition marshalMap :: "(atom, atom) gomap \<Rightarrow> json result" where
  "marshalMap m =
     bindR (mapR (\<lambda>(k, v). bindR (marshalAtom k) (\<lambda>a. bindR (marshalAtom v) (\<lambda>b. Inr (JArr [a, b])))) m)
       (\<lambda>js. Inr (JArr [JStr ''map'', JArr js]))"

fun marshalAny :: "any \<Rightarrow> json result" where
  "marshalAny VNil = Inr JNull"
| "marshalAny (VAtom a) = marshalAtom a"
| "marshalAny (VPtr _ x) = (case x of None \<Rightarrow> Inr JNull | Some a \<Rightarrow> marshalAtom a)"
| "marshalAny (VSlice _ xs) = (case xs of None \<Rightarrow> Inr JNull | Some as \<Rightarrow> bindR (mapR marshalAtom as) (\<lambda>js. Inr (JArr js)))"
| "marshalAny (VMap k _ m) =
     (if k \<notin> {GString, GInt} then Inl (Errorf ''json: unsupported type'')
      else case m of
        None \<Rightarrow> Inr JNull
      | Some es \<Rightarrow> bindR (mapR (\<lambda>(k, v). bindR (marshalAtom v) (\<lambda>b. Inr (keyText k, b))) es) (\<lambda>js. Inr (JObj js)))"
| "marshalAny (VOvsSet xs) = marshalSet (elems xs)"
| "marshalAny (VOvsMap m) = marshalMap (elems m)"

section \<open>Decoding\<close>

text \<open>
  \<open>UUID.UnmarshalJSON\<close> on the elements of an array. The error of a list that is not one of strings is lost in the
  scope of the \<open>if\<close>: the result is the empty UUID and no error.
\<close>

definition stringOrNull :: "json \<Rightarrow> string option" where
  "stringOrNull j = (case j of JStr s \<Rightarrow> Some s | JNull \<Rightarrow> Some [] | _ \<Rightarrow> None)"

definition unmarshalUUID :: "json list \<Rightarrow> string result" where
  "unmarshalUUID xs =
     (if list_all (\<lambda>x. stringOrNull x \<noteq> None) xs
      then (if length xs < 2 then Inl (Panic ''index out of range'') else Inr (the (stringOrNull (xs ! 1))))
      else Inr [])"

text \<open>The second element of the array of a set or a map. A map without one is empty.\<close>

definition setItems :: "json list \<Rightarrow> json list result" where
  "setItems rest = (case rest of
     [] \<Rightarrow> Inl (Panic ''index out of range'')
   | JArr xs # _ \<Rightarrow> Inr xs
   | _ \<Rightarrow> Inl (Panic ''interface conversion''))"

definition mapItems :: "json list \<Rightarrow> json list result" where
  "mapItems rest = (case rest of
     [] \<Rightarrow> Inr []
   | JArr xs # _ \<Rightarrow> Inr xs
   | _ \<Rightarrow> Inl (Panic ''interface conversion''))"

definition checkPart :: "json \<Rightarrow> unit result" where
  "checkPart j = (case j of
     JArr xs \<Rightarrow> if length xs \<noteq> 2 \<or> xs ! 0 = JStr ''map'' then Inl (Errorf ''json: cannot unmarshal'') else Inr ()
   | _ \<Rightarrow> Inr ())"

definition hashableKey :: "wire \<Rightarrow> bool" where
  "hashableKey w = (case w of WNil \<Rightarrow> True | WAtom _ \<Rightarrow> True | _ \<Rightarrow> False)"

lemma setItems_size: "setItems rest = Inr xs \<Longrightarrow> x \<in> set xs \<Longrightarrow> size x < Suc (size_list size rest)"
  by (auto simp: setItems_def split: list.splits json.splits dest: size_list_estimation' [of _ _ _ size])

lemma mapItems_entry: "mapItems rest = Inr xs \<Longrightarrow> x \<in> set xs \<Longrightarrow> size x \<le> size_list size rest"
  by (auto simp: mapItems_def split: list.splits json.splits dest: size_list_estimation' [of _ _ _ size])

lemma mapItems_size: "mapItems rest = Inr xs \<Longrightarrow> JArr (k # f) \<in> set xs \<Longrightarrow> size k < Suc (size_list size rest)"
  "mapItems rest = Inr xs \<Longrightarrow> JArr (k # v # f) \<in> set xs \<Longrightarrow> size v < Suc (size_list size rest)"
  by (auto dest: mapItems_entry)

text \<open>One entry of a map: a pair of a key and a value, either of which may be a UUID or a set but not a map. A key that is not an atom cannot be hashed.\<close>

definition addEntry :: "(json \<Rightarrow> wire result) \<Rightarrow> (wire \<times> wire) list \<Rightarrow> json \<Rightarrow> (wire \<times> wire) list result" where
  "addEntry dec m p = (case p of
     JArr [] \<Rightarrow> Inl (Panic ''index out of range'')
   | JArr (k # f) \<Rightarrow>
       bindR (checkPart k) (\<lambda>_. bindR (dec k) (\<lambda>kw. case f of
         [] \<Rightarrow> Inl (Panic ''index out of range'')
       | v # _ \<Rightarrow> bindR (checkPart v) (\<lambda>_. bindR (dec v) (\<lambda>vw.
           if hashableKey kw then Inr (AList.update kw vw m) else Inl (Panic ''hash of unhashable type'')))))
   | _ \<Rightarrow> Inl (Panic ''interface conversion''))"

lemma addEntry_cong [fundef_cong]:
  assumes "m = m'" "p = p'" "\<And>k f. p' = JArr (k # f) \<Longrightarrow> g k = h k" "\<And>k v f. p' = JArr (k # v # f) \<Longrightarrow> g v = h v"
  shows "addEntry g m p = addEntry h m' p'"
  using assms unfolding addEntry_def by (auto split: json.splits list.splits intro!: bindR_cong)

text \<open>
  \<open>ovsSliceToGoNotation\<close> with the methods of \<open>OvsSet\<close> and \<open>OvsMap\<close> that it ends up in: an array without elements, or one that does
  not have the form its first element announces, panics.
\<close>

function ovsSliceToGoNotation :: "json \<Rightarrow> wire result" where
  "ovsSliceToGoNotation j = (case j of
     JArr [] \<Rightarrow> Inl (Panic ''index out of range'')
   | JArr (t # rest) \<Rightarrow>
       if t = JStr ''uuid'' \<or> t = JStr ''named-uuid'' then bindR (unmarshalUUID (t # rest)) (\<lambda>u. Inr (WAtom (AUUID u)))
       else if t = JStr ''set'' then
         bindR (setItems rest) (\<lambda>xs. bindR (mapR ovsSliceToGoNotation xs) (\<lambda>vs. Inr (WSet vs)))
       else if t = JStr ''map'' then
         bindR (mapItems rest) (\<lambda>ps. bindR (foldR (addEntry ovsSliceToGoNotation) [] ps) (\<lambda>m. Inr (WMap m)))
       else Inr (WSlice (t # rest))
   | _ \<Rightarrow> Inr (leaf j))"
  by pat_completeness auto
termination
  by (relation "measure size") (auto dest: setItems_size mapItems_size)

declare ovsSliceToGoNotation.simps [simp del]

text \<open>
  \<open>OvsSet.UnmarshalJSON\<close> as it is called directly: the element of a set of one may stand for the set. A UUID is recognised as such
  when the array has two elements, the second of which must be a string; any other array must be a set.
\<close>

definition unmarshalSet :: "json \<Rightarrow> wire result" where
  "unmarshalSet j = (case j of
     JArr [] \<Rightarrow> Inl (Panic ''index out of range'')
   | JArr (t # rest) \<Rightarrow>
       if length rest = 1 \<and> t \<in> {JStr ''uuid'', JStr ''named-uuid''} then
         (case rest ! 0 of JStr u \<Rightarrow> Inr (WSet [WAtom (AUUID u)]) | _ \<Rightarrow> Inl (Panic ''interface conversion''))
       else if t \<noteq> JStr ''set'' then Inl (Errorf ''json: cannot unmarshal'')
       else bindR (setItems rest) (\<lambda>xs. bindR (mapR ovsSliceToGoNotation xs) (\<lambda>vs. Inr (WSet vs)))
   | _ \<Rightarrow> Inr (WSet [leaf j]))"

section \<open>Values that survive\<close>

text \<open>
  Integers whose float64 is exact and floats that are numbers survive; a decoded integer is a float64, and a set of one element
  its element.
\<close>

definition jsonAtom :: "atom \<Rightarrow> bool" where
  "jsonAtom a = (case a of AInt w \<Rightarrow> \<bar>sint w\<bar> < 2 ^ 53 | AReal f \<Rightarrow> f64_exp f \<noteq> 2047 | _ \<Rightarrow> True)"

definition asNumber :: "atom \<Rightarrow> atom" where
  "asNumber a = (case a of AInt w \<Rightarrow> AReal (f64_of_int (sint w)) | _ \<Rightarrow> a)"

fun jsonVal :: "any \<Rightarrow> bool" where
  "jsonVal VNil = True"
| "jsonVal (VAtom a) = jsonAtom a"
| "jsonVal (VOvsSet xs) = list_all jsonAtom (elems xs)"
| "jsonVal (VOvsMap m) = (gm_ok (elems m) \<and> list_all (\<lambda>(k, v). jsonAtom k \<and> jsonAtom v) (elems m)
     \<and> (\<forall>k \<in> set (keys (elems m)). \<forall>k' \<in> set (keys (elems m)). atomType k = atomType k'))"
| "jsonVal _ = False"

definition decodedSet :: "atom list \<Rightarrow> any" where
  "decodedSet as = (case as of [a] \<Rightarrow> VAtom (asNumber a) | _ \<Rightarrow> VOvsSet (Some (map asNumber as)))"

fun decodedAny :: "any \<Rightarrow> any" where
  "decodedAny (VAtom a) = VAtom (asNumber a)"
| "decodedAny (VOvsSet xs) = decodedSet (elems xs)"
| "decodedAny (VOvsMap m) = VOvsMap (Some (map (\<lambda>(k, v). (asNumber k, asNumber v)) (elems m)))"
| "decodedAny v = v"

text \<open>The decoded value as a value of the model, where its sets and maps have atoms only.\<close>

fun toWire :: "any \<Rightarrow> wire" where
  "toWire (VAtom a) = WAtom a"
| "toWire (VOvsSet xs) = WSet (map WAtom (elems xs))"
| "toWire (VOvsMap m) = WMap (map (\<lambda>(k, v). (WAtom k, WAtom v)) (elems m))"
| "toWire _ = WNil"

lemma sint_small: "\<bar>sint (w :: 64 word)\<bar> < 2 ^ 53 \<Longrightarrow> f64_to_int (f64_of_int (sint w)) = w"
  by (simp add: f64_of_int_exact)

lemma asNumber_inj:
  assumes "jsonAtom a" "jsonAtom b" "atomType a = atomType b" "asNumber a = asNumber b"
  shows "a = b"
  using assms by (cases a; cases b) (auto simp: asNumber_def jsonAtom_def dest: arg_cong [of _ _ f64_to_int] simp: sint_small)

lemmas ovs_simps = ovsSliceToGoNotation.simps

lemma decode_atom:
  assumes "jsonAtom a"
  shows "\<exists>j. marshalAtom a = Inr j \<and> ovsSliceToGoNotation j = Inr (WAtom (asNumber a)) \<and> checkPart j = Inr ()"
  using assms
  by (cases a) (auto simp: jsonAtom_def asNumber_def ovs_simps leaf_def checkPart_def marshalUUID_def unmarshalUUID_def stringOrNull_def)

section \<open>Codecs\<close>

text \<open>An encoder and a decoder: what \<open>ok\<close> admits comes back as \<open>norm\<close> says. Lists and objects inherit the law.\<close>

locale codec =
  fixes enc :: "'a \<Rightarrow> json result" and dec :: "json \<Rightarrow> 'b result" and ok :: "'a \<Rightarrow> bool" and norm :: "'a \<Rightarrow> 'b"
  assumes roundtrip: "ok x \<Longrightarrow> \<exists>j. enc x = Inr j \<and> dec j = Inr (norm x)"
begin

lemma elements:
  assumes "list_all ok xs"
  shows "\<exists>js. mapR enc xs = Inr js \<and> mapR dec js = Inr (map norm xs)"
  using assms
proof (induction xs)
  case (Cons x xs)
  then obtain js where "mapR enc xs = Inr js" "mapR dec js = Inr (map norm xs)" by auto
  moreover obtain j where "enc x = Inr j" "dec j = Inr (norm x)" using Cons.prems roundtrip by auto
  ultimately show ?case by auto
qed simp

end

interpretation atoms: codec marshalAtom ovsSliceToGoNotation jsonAtom "\<lambda>a. WAtom (asNumber a)"
  using decode_atom by unfold_locales blast

lemma decode_set: "list_all jsonAtom as \<Longrightarrow> \<exists>j. marshalSet as = Inr j \<and> ovsSliceToGoNotation j = Inr (toWire (decodedSet as))"
proof -
  assume a: "list_all jsonAtom as"
  obtain js where js: "mapR marshalAtom as = Inr js" "mapR ovsSliceToGoNotation js = Inr (map (\<lambda>a. WAtom (asNumber a)) as)"
    using atoms.elements [OF a] by blast
  show ?thesis
  proof (cases "\<exists>a. as = [a]")
    case True
    then show ?thesis using a atoms.roundtrip by (auto simp: marshalSet_def decodedSet_def)
  next
    case False
    then have "marshalSet as = Inr (JArr [JStr ''set'', JArr js])" "toWire (decodedSet as) = WSet (map (\<lambda>a. WAtom (asNumber a)) as)"
      using js by (auto simp: marshalSet_def decodedSet_def split: list.splits)
    then show ?thesis using js(2) by (simp add: ovs_simps [of "JArr (_ # _)"] setItems_def)
  qed
qed

lemma decode_entries:
  assumes "list_all (\<lambda>(k, v). jsonAtom k \<and> jsonAtom v) m" and "distinct (map fst acc @ map (\<lambda>(k, _). WAtom (asNumber k)) m)"
  shows "\<exists>js. mapR (\<lambda>(k, v). bindR (marshalAtom k) (\<lambda>a. bindR (marshalAtom v) (\<lambda>b. Inr (JArr [a, b])))) m = Inr js
    \<and> foldR (addEntry ovsSliceToGoNotation) acc js = Inr (acc @ map (\<lambda>(k, v). (WAtom (asNumber k), WAtom (asNumber v))) m)"
  using assms
proof (induction m arbitrary: acc)
  case (Cons e m)
  obtain k v where e: "e = (k, v)" by fastforce
  let ?acc = "acc @ [(WAtom (asNumber k), WAtom (asNumber v))]"
  obtain js where js: "mapR (\<lambda>(k, v). bindR (marshalAtom k) (\<lambda>a. bindR (marshalAtom v) (\<lambda>b. Inr (JArr [a, b])))) m = Inr js"
    "foldR (addEntry ovsSliceToGoNotation) ?acc js = Inr (?acc @ map (\<lambda>(k, v). (WAtom (asNumber k), WAtom (asNumber v))) m)"
    using Cons.IH [of ?acc] Cons.prems by (auto simp: e)
  obtain a b where a: "marshalAtom k = Inr a" "ovsSliceToGoNotation a = Inr (WAtom (asNumber k))" "checkPart a = Inr ()"
    and b: "marshalAtom v = Inr b" "ovsSliceToGoNotation b = Inr (WAtom (asNumber v))" "checkPart b = Inr ()"
    using Cons.prems(1) decode_atom [of k] decode_atom [of v] by (auto simp: e)
  have "WAtom (asNumber k) \<notin> set (keys acc)" using Cons.prems(2) by (auto simp: e)
  then have "addEntry ovsSliceToGoNotation acc (JArr [a, b]) = Inr ?acc"
    using a b by (simp add: addEntry_def hashableKey_def update_append_new)
  then show ?case using js a(1) b(1) by (auto simp: e)
qed simp

lemma decode_map:
  assumes "jsonVal (VOvsMap m)"
  shows "\<exists>j. marshalMap (elems m) = Inr j \<and> ovsSliceToGoNotation j = Inr (toWire (decodedAny (VOvsMap m)))"
proof -
  have key: "jsonAtom k" if "k \<in> set (keys (elems m))" for k using assms that by (auto simp: list_all_iff)
  have "inj_on asNumber (set (keys (elems m)))"
  proof (rule inj_onI)
    fix a b assume ab: "a \<in> set (keys (elems m))" "b \<in> set (keys (elems m))" "asNumber a = asNumber b"
    have "atomType a = atomType b" using assms ab(1,2) unfolding jsonVal.simps by blast
    then show "a = b" using asNumber_inj key ab by blast
  qed
  then have "distinct (map (\<lambda>(k, _). WAtom (asNumber k)) (elems m))"
    using assms by (simp add: split_def distinct_map inj_on_def comp_inj_on)
  from decode_entries [of "elems m" "[]"] this assms obtain js where
    "mapR (\<lambda>(k, v). bindR (marshalAtom k) (\<lambda>a. bindR (marshalAtom v) (\<lambda>b. Inr (JArr [a, b])))) (elems m) = Inr js"
    "foldR (addEntry ovsSliceToGoNotation) [] js = Inr (map (\<lambda>(k, v). (WAtom (asNumber k), WAtom (asNumber v))) (elems m))" by auto
  then show ?thesis by (simp add: marshalMap_def ovs_simps [of "JArr (_ # _)"] mapItems_def split_def)
qed

lemma decode_any: "jsonVal v \<Longrightarrow> \<exists>j. marshalAny v = Inr j \<and> ovsSliceToGoNotation j = Inr (toWire (decodedAny v))"
proof (induction v rule: jsonVal.induct)
  case 1
  then show ?case by (simp add: ovs_simps leaf_def)
next
  case (2 a)
  then show ?case using decode_atom by auto
next
  case (3 xs)
  then show ?case using decode_set by auto
next
  case (4 m)
  show ?case unfolding marshalAny.simps by (rule decode_map [OF 4])
qed simp_all

interpretation anys: codec marshalAny ovsSliceToGoNotation jsonVal "\<lambda>v. toWire (decodedAny v)"
  by unfold_locales (rule decode_any)

section \<open>From a native value to the wire and back\<close>

lemma ovsToNativeAtom_asNumber:
  "jsonAtom a \<Longrightarrow> ovsToNativeAtom t a = Inr b \<Longrightarrow> ovsToNativeAtom t (asNumber a) = Inr b"
  by (cases "(t, a)" rule: ovsToNativeAtom.cases) (auto simp: asNumber_def jsonAtom_def sint_small split: if_splits atom.splits)

lemma mapR_asNumber:
  "list_all jsonAtom as \<Longrightarrow> mapR (ovsToNativeAtom t) as = Inr bs \<Longrightarrow> mapR (ovsToNativeAtom t) (map asNumber as) = Inr bs"
proof (induction as arbitrary: bs)
  case (Cons a as)
  obtain b bs' where b: "ovsToNativeAtom t a = Inr b" "mapR (ovsToNativeAtom t) as = Inr bs'" "bs = b # bs'"
    using Cons.prems by (auto simp: resR)
  then show ?case using Cons ovsToNativeAtom_asNumber [OF _ b(1)] by simp
qed simp

lemma convMap_asNumber:
  assumes "list_all (\<lambda>(k, v). jsonAtom k \<and> jsonAtom v) m" "convMap (ovsToNativeAtom kt) (ovsToNativeAtom vt) m = Inr m'"
  shows "convMap (ovsToNativeAtom kt) (ovsToNativeAtom vt) (map (\<lambda>(k, v). (asNumber k, asNumber v)) m) = Inr m'"
proof -
  let ?f = "\<lambda>acc (k, v). bindR (ovsToNativeAtom kt k) (\<lambda>k'. bindR (ovsToNativeAtom vt v) (\<lambda>v'. Inr (AList.update k' v' acc)))"
  have "foldR ?f acc m = Inr r \<Longrightarrow> foldR ?f acc (map (\<lambda>(k, v). (asNumber k, asNumber v)) m) = Inr r" for acc r
    using assms(1)
  proof (induction m arbitrary: acc)
    case (Cons p m)
    obtain k v where p: "p = (k, v)" by fastforce
    obtain k' v' where kv: "ovsToNativeAtom kt k = Inr k'" "ovsToNativeAtom vt v = Inr v'" "foldR ?f (AList.update k' v' acc) m = Inr r"
      using Cons.prems(1) p by (auto simp: resR)
    have "ovsToNativeAtom kt (asNumber k) = Inr k'" "ovsToNativeAtom vt (asNumber v) = Inr v'"
      using Cons.prems(2) p kv by (auto intro: ovsToNativeAtom_asNumber)
    then show ?case using Cons.IH [OF kv(3)] Cons.prems(2) p by simp
  qed simp
  then show ?thesis using assms(2) unfolding convMap_def by blast
qed

lemma decodedSet_Slice:
  assumes "list_all jsonAtom as" "OvsToNativeSlice t (VOvsSet (Some as)) = Inr n"
  shows "OvsToNativeSlice t (decodedSet as) = Inr n"
proof -
  obtain na bs where n: "NativeTypeFromAtomic t = Inr na" "mapR (ovsToNativeAtom t) as = Inr bs" "n = VSlice na (Some bs)"
    using assms(2) by (auto simp: resR)
  note m = mapR_asNumber [OF assms(1) n(2)]
  show ?thesis
  proof (cases "\<exists>a. as = [a]")
    case True
    then show ?thesis using m n by (auto simp: decodedSet_def resR)
  next
    case False
    then have "decodedSet as = VOvsSet (Some (map asNumber as))" by (auto simp: decodedSet_def split: list.splits)
    then show ?thesis using m n by simp
  qed
qed

lemma decodedSet_ptr:
  assumes "list_all jsonAtom as" "ovsToNativePtr kt g (VOvsSet (Some as)) = Inr n"
  shows "ovsToNativePtr kt g (decodedSet as) = Inr n"
proof (cases as)
  case (Cons a rest)
  then obtain b where "rest = []" "ovsToNativeAtom kt a = Inr b" "n = VPtr g (Some b)"
    using assms(2) by (auto simp: ovsToNativePtr_def resR split: if_splits)
  then show ?thesis using assms(1) Cons ovsToNativeAtom_asNumber [of a kt b] by (simp add: ovsToNativePtr_def decodedSet_def)
qed (use assms in \<open>simp add: ovsToNativePtr_def decodedSet_def\<close>)

text \<open>A column reads the decoded value as it reads the value that was encoded.\<close>

lemma OvsToNative_decoded:
  assumes "wfColumn c" "jsonVal e" "OvsToNative c e = Inr n"
  shows "OvsToNative c (decodedAny e) = Inr n"
proof -
  have atom: "OvsToNativeAtomic t (decodedAny e) = Inr n" if a: "OvsToNativeAtomic t e = Inr n" for t
  proof -
    obtain a b where "e = VAtom a" "n = VAtom b" "ovsToNativeAtom t a = Inr b" using OvsToNativeAtomic_type [OF a] by blast
    then show ?thesis using assms(2) by (auto simp: resR intro: ovsToNativeAtom_asNumber)
  qed
  have dec: "decodedAny e = decodedSet (elems xs)" "list_all jsonAtom (elems xs)" if "e = VOvsSet xs" for xs
    using that assms(2) by auto
  show ?thesis using assms(1)
  proof (cases rule: wfColumn_cases)
    case (Atomic g)
    then show ?thesis using assms(3) atom by (auto simp: OvsToNative_def elim!: isAtomicTypeE)
  next
    case (Enum kt g)
    then show ?thesis using assms(3) atom by (auto simp: OvsToNative_def)
  next
    case (Optional kt g)
    have o: "ovsToNativePtr kt g e = Inr n" using assms(3) Optional by (simp add: OvsToNative_def)
    have "ovsToNativePtr kt g (decodedAny e) = Inr n"
    proof (cases e)
      case (VOvsSet xs)
      have "ovsToNativePtr kt g (VOvsSet (Some (elems xs))) = Inr n" using o VOvsSet by (auto simp: ovsToNativePtr_def split: if_splits)
      then show ?thesis using decodedSet_ptr dec [OF VOvsSet] by simp
    next
      case (VAtom a)
      then obtain b where "ovsToNativeAtom kt a = Inr b" "n = VPtr g (Some b)" using o by (auto simp: ovsToNativePtr_def resR)
      then show ?thesis using VAtom assms(2) ovsToNativeAtom_asNumber [of a kt b] by (simp add: ovsToNativePtr_def)
    qed (use o assms(2) in \<open>auto simp: ovsToNativePtr_def resR dest!: OvsToNativeAtomic_type\<close>)
    then show ?thesis using Optional by (simp add: OvsToNative_def)
  next
    case (Slice kt g)
    have o: "OvsToNativeSlice kt e = Inr n" using assms(3) Slice by (simp add: OvsToNative_def)
    have "OvsToNativeSlice kt (decodedAny e) = Inr n"
    proof (cases e)
      case (VOvsSet xs)
      have "OvsToNativeSlice kt (VOvsSet (Some (elems xs))) = Inr n" using o VOvsSet by simp
      then show ?thesis using decodedSet_Slice dec [OF VOvsSet] by simp
    next
      case (VAtom a)
      then show ?thesis using o assms(2) by (auto simp: resR intro: ovsToNativeAtom_asNumber)
    qed (use o assms(2) in \<open>auto simp: resR\<close>)
    then show ?thesis using Slice by (simp add: OvsToNative_def)
  next
    case (Map kt vt g h)
    obtain m m' where m: "e = VOvsMap m" "convMap (ovsToNativeAtom kt) (ovsToNativeAtom vt) (elems m) = Inr m'" "n = VMap g h (Some m')"
      using assms(3) Map by (cases e) (auto simp: OvsToNative_def resR)
    then show ?thesis using convMap_asNumber [OF _ m(2)] assms(2) Map by (auto simp: OvsToNative_def)
  qed
qed

text \<open>The native values that survive.\<close>

fun jsonNative :: "any \<Rightarrow> bool" where
  "jsonNative (VAtom a) = jsonAtom a"
| "jsonNative (VPtr _ x) = pred_option jsonAtom x"
| "jsonNative (VSlice _ xs) = list_all jsonAtom (elems xs)"
| "jsonNative (VMap _ _ m) = list_all (\<lambda>(k, v). jsonAtom k \<and> jsonAtom v) (elems m)"
| "jsonNative _ = False"

lemma jsonAtom_toOvs [simp]: "jsonAtom a \<Longrightarrow> jsonAtom (toOvs t a)"
  by (cases a) (auto simp: toOvs_def jsonAtom_def)

lemma NativeToOvs_jsonVal:
  assumes "wfColumn c" "NativeType c = Inr t" "typeOf v = Some t" "wfVal v" "jsonNative v" "NativeToOvs c v = Inr e"
  shows "jsonVal e"
  using assms(1)
proof (cases rule: wfColumn_cases)
  case (Atomic g)
  then obtain a where "v = VAtom a" "atomType a = g" using assms(2,3) by (auto dest: typeOf_RAtomD)
  then show ?thesis using Atomic atomColumn_roundtrip [of c a] assms(5,6) by auto
next
  case (Enum kt g)
  then obtain a where a: "v = VAtom a" "atomType a = g" using assms(2,3) by (auto dest: typeOf_RAtomD)
  have "NativeToOvs c v = Inr (VAtom (toOvs kt a))" using Enum a by (auto simp: NativeToOvs_def toOvs_def)
  then show ?thesis using assms(5,6) a by auto
next
  case (Optional kt g)
  then obtain x where x: "v = VPtr g x" using assms(2,3) by (auto dest: typeOf_RPtrD)
  have "NativeToOvs c v = nativeSetToOvs kt v" using Optional x by (simp add: NativeToOvs_def)
  then show ?thesis using assms(5,6) x nativeSetToOvs_ptr [OF Optional(4)] by (auto split: option.splits)
next
  case (Slice kt g)
  then obtain x where x: "v = VSlice g x" using assms(2,3) by (auto dest: typeOf_RSliceD)
  have "NativeToOvs c v = nativeSetToOvs kt v" using Slice x by (simp add: NativeToOvs_def)
  then show ?thesis using assms(5,6) x nativeSetToOvs_slice [OF Slice(4)] by (auto simp: list_all_iff)
next
  case (Map kt vt g h)
  then obtain x where x: "v = VMap g h x" using assms(2,3) by (auto dest: typeOf_RMapD)
  obtain m' where m': "convMap (NativeToOvsAtomic kt) (NativeToOvsAtomic vt) (elems x) = Inr m'" "e = VOvsMap (Some m')"
    using assms(6) Map x by (auto simp: NativeToOvs_def resR)
  have ok: "gm_ok m'" and src: "(k, w) \<in> set m' \<Longrightarrow> \<exists>(k0, w0) \<in> set (elems x). NativeToOvsAtomic kt k0 = Inr k \<and> NativeToOvsAtomic vt w0 = Inr w" for k w
    using convMap_invariant [OF m'(1)] by blast+
  have e: "\<exists>k0. atomType k0 = g \<and> k = toOvs kt k0 \<and> jsonAtom k \<and> jsonAtom w" if kw': "(k, w) \<in> set m'" for k w
  proof -
    obtain k0 w0 where kw: "(k0, w0) \<in> set (elems x)" "NativeToOvsAtomic kt k0 = Inr k" "NativeToOvsAtomic vt w0 = Inr w" using src [OF kw'] by blast
    have "atomType k0 = g" "atomType w0 = h" "jsonAtom k0" "jsonAtom w0" using kw(1) assms(4,5) x by (auto simp: list_all_iff)
    then show ?thesis using kw(2,3) Map(6,7) NativeToOvsAtomic_toOvs(1) [of kt k0] NativeToOvsAtomic_toOvs(1) [of vt w0] by auto
  qed
  have "atomType (toOvs kt a) = atomType (toOvs kt b)" if "atomType a = atomType b" for a b
    using that by (cases a; cases b) (auto simp: toOvs_def)
  then have t: "atomType k = atomType (toOvs kt (zeroAtom g))" if "k \<in> set (keys m')" for k using e that by (cases g) fastforce+
  have j: "list_all (\<lambda>(k, w). jsonAtom k \<and> jsonAtom w) m'" using e by (auto simp: list_all_iff)
  show ?thesis unfolding m'(2) jsonVal.simps elems_simps using ok j t by metis
qed


text \<open>An integer beyond that comes back as another one.\<close>

lemma big_integer_changes:
  "marshalAny (VAtom (AInt 9007199254740993)) = Inr (JInt 9007199254740993)"
  "ovsSliceToGoNotation (JInt 9007199254740993) = Inr (WAtom (AReal (f64_of_int 9007199254740993)))"
  "ovsToNativeAtom TypeInteger (AReal (f64_of_int 9007199254740993)) = Inr (AInt 9007199254740992)"
proof -
  show "marshalAny (VAtom (AInt 9007199254740993)) = Inr (JInt 9007199254740993)" by simp
  show "ovsSliceToGoNotation (JInt 9007199254740993) = Inr (WAtom (AReal (f64_of_int 9007199254740993)))" by (simp add: ovs_simps leaf_def)
  show "ovsToNativeAtom TypeInteger (AReal (f64_of_int 9007199254740993)) = Inr (AInt 9007199254740992)"
  proof -
    have "floorlog 2 (9007199254740993 :: nat) = 54" "floorlog 2 (Suc 0) = 1" by (simp_all add: compute_floorlog)
    then have "f64_of_int 9007199254740993 = 4845873199050653696" by (simp add: f64_of_int_def f64_round_def Let_def)
    then show ?thesis by (simp add: f64_to_int_def f64_mag_def f64_exp_def f64_frac_def f64_neg_def mask_eq_exp_minus_1)
  qed
qed


end
