(* ===== verification/JsonMessages.thy ===== *)
theory JsonMessages
  imports Json Server
begin

text \<open>
  JSON messages (\<open>ovsdb/row.go\<close>, \<open>condition.go\<close>, \<open>mutation.go\<close>, \<open>updates2.go\<close>, \<open>update3.go\<close>, \<open>monitor_select.go\<close>, \<open>notation.go\<close>, \<open>rpc.go\<close> and the argument lists of
  \<open>server/server.go\<close>): rows, conditions, mutations, operations, results, updates, monitor requests, and the arguments of calls. Each has
  an encoder, a decoder and an interpretation of the locale \<open>codec\<close>. A decoded message has its values as \<open>wire\<close> trees, so that
  also those are covered which no encoder of the library writes. A struct is decoded field by field and the first fault ends it.
\<close>

section \<open>Rows\<close>

definition encObj :: "('a \<Rightarrow> json result) \<Rightarrow> (string, 'a) gomap \<Rightarrow> json result" where
  "encObj enc m = bindR (mapR (\<lambda>(k, x). bindR (enc x) (\<lambda>j. Inr (k, j))) m) (\<lambda>js. Inr (JObj js))"

definition decObj :: "(json \<Rightarrow> 'a result) \<Rightarrow> json \<Rightarrow> (string, 'a) gomap result" where
  "decObj dec j = (case j of
     JObj m \<Rightarrow> mapR (\<lambda>(k, j). bindR (dec j) (\<lambda>x. Inr (k, x))) m
   | JNull \<Rightarrow> Inr []
   | _ \<Rightarrow> Inl (Errorf ''json: cannot unmarshal''))"

definition marshalRow :: "Row \<Rightarrow> json result" where
  "marshalRow row = encObj marshalAny row"

definition unmarshalRow :: "json \<Rightarrow> (string, wire) gomap result" where
  "unmarshalRow j = decObj ovsSliceToGoNotation j"

definition onValues :: "('a \<Rightarrow> 'b) \<Rightarrow> (string, 'a) gomap \<Rightarrow> (string, 'b) gomap" where
  "onValues f m = map (\<lambda>(k, v). (k, f v)) m"

definition jsonRow :: "Row \<Rightarrow> bool" where
  "jsonRow row = list_all (\<lambda>(_, v). jsonVal v) row"

text \<open>Pointers to what is encoded as neither nil nor \<open>null\<close>.\<close>

definition encPtr :: "('a \<Rightarrow> json result) \<Rightarrow> 'a option \<Rightarrow> json result" where
  "encPtr enc x = (case x of None \<Rightarrow> Inr JNull | Some y \<Rightarrow> enc y)"

definition decPtr :: "(json \<Rightarrow> 'a result) \<Rightarrow> json \<Rightarrow> 'a option result" where
  "decPtr dec j = (case j of JNull \<Rightarrow> Inr None | _ \<Rightarrow> bindR (dec j) (\<lambda>x. Inr (Some x)))"

context codec
begin

lemma object:
  assumes "list_all (\<lambda>(_, x). ok x) m"
  shows "\<exists>j. encObj enc m = Inr j \<and> decObj dec j = Inr (onValues norm m)"
proof -
  have "\<exists>js. mapR (\<lambda>(k, x). bindR (enc x) (\<lambda>j. Inr (k, j))) m = Inr js
    \<and> mapR (\<lambda>(k, j). bindR (dec j) (\<lambda>x. Inr (k, x))) js = Inr (onValues norm m)"
    using assms
  proof (induction m)
    case (Cons p m)
    obtain k x where p: "p = (k, x)" by fastforce
    obtain j where j: "enc x = Inr j" "dec j = Inr (norm x)" using roundtrip Cons.prems p by auto
    from Cons obtain js where "mapR (\<lambda>(k, x). bindR (enc x) (\<lambda>j. Inr (k, j))) m = Inr js"
      "mapR (\<lambda>(k, j). bindR (dec j) (\<lambda>x. Inr (k, x))) js = Inr (onValues norm m)" by auto
    then show ?case using j p by (auto simp: onValues_def)
  qed (simp add: onValues_def)
  then show ?thesis by (auto simp: encObj_def decObj_def)
qed

lemma pointer:
  assumes "pred_option ok x" and "\<And>y. enc y \<noteq> Inr JNull"
  shows "\<exists>j. encPtr enc x = Inr j \<and> decPtr dec j = Inr (map_option norm x)"
proof (cases x)
  case (Some y)
  then obtain j where j: "enc y = Inr j" "dec j = Inr (norm y)" using assms(1) roundtrip by auto
  then have "j \<noteq> JNull" using assms(2) by auto
  then show ?thesis using Some j by (cases j) (auto simp: encPtr_def decPtr_def)
qed (simp add: encPtr_def decPtr_def)

end

interpretation rows: codec marshalRow unmarshalRow jsonRow "onValues (\<lambda>v. toWire (decodedAny v))"
  by unfold_locales (use anys.object in \<open>auto simp: marshalRow_def unmarshalRow_def jsonRow_def\<close>)

lemma marshalRow_object: "marshalRow row \<noteq> Inr JNull"
  by (auto simp: marshalRow_def encObj_def resR)

lemma map_of_onValues: "map_of (onValues f m) k = map_option f (map_of m k)"
  by (induction m) (auto simp: onValues_def)

lemma getRowData_decoded:
  assumes "jsonRow row" "list_all (\<lambda>(_, c). wfColumn c) cs" "foldR (getRowColumn row) z cs = Inr z'"
  shows "foldR (getRowColumn (onValues decodedAny row)) z cs = Inr z'"
  using assms(2,3)
proof (induction cs arbitrary: z)
  case (Cons p cs)
  obtain c col where p: "p = (c, col)" by fastforce
  obtain z1 where z1: "getRowColumn row z p = Inr z1" "foldR (getRowColumn row) z1 cs = Inr z'" using Cons.prems(2) by (auto simp: resR)
  have "getRowColumn (onValues decodedAny row) z p = Inr z1"
  proof (cases "hasColumn z c \<and> map_of row c \<noteq> None")
    case True
    then obtain e n where e: "map_of row c = Some e" "OvsToNative col e = Inr n" "SetField z c n = Inr z1"
      using z1(1) by (auto simp: getRowColumn_def p split: sum.splits err.splits)
    have "jsonVal e" using assms(1) map_of_SomeD [OF e(1)] by (auto simp: jsonRow_def list_all_iff)
    then have "OvsToNative col (decodedAny e) = Inr n" using OvsToNative_decoded e(2) Cons.prems(1) p by auto
    then show ?thesis using True e by (simp add: getRowColumn_def p map_of_onValues)
  next
    case False
    then show ?thesis using z1(1) by (auto simp: getRowColumn_def p map_of_onValues split: option.splits)
  qed
  then show ?case using Cons.IH [OF _ z1(2)] Cons.prems(1) by simp
qed simp


section \<open>Conditions and mutations\<close>

primrec functionName :: "ConditionFunction \<Rightarrow> string" where
  "functionName ConditionLessThan = ''<''"
| "functionName ConditionLessThanOrEqual = ''<=''"
| "functionName ConditionEqual = ''==''"
| "functionName ConditionNotEqual = ''!=''"
| "functionName ConditionGreaterThan = ''>''"
| "functionName ConditionGreaterThanOrEqual = ''>=''"
| "functionName ConditionIncludes = ''includes''"
| "functionName ConditionExcludes = ''excludes''"
| "functionName (ConditionOther s) = s"

definition validFunctions :: "ConditionFunction list" where
  "validFunctions = [ConditionEqual, ConditionNotEqual, ConditionIncludes, ConditionExcludes, ConditionGreaterThan,
     ConditionGreaterThanOrEqual, ConditionLessThan, ConditionLessThanOrEqual]"

primrec mutatorName :: "Mutator \<Rightarrow> string" where
  "mutatorName MutateOperationDelete = ''delete''"
| "mutatorName MutateOperationInsert = ''insert''"
| "mutatorName MutateOperationAdd = ''+=''"
| "mutatorName MutateOperationSubtract = ''-=''"
| "mutatorName MutateOperationMultiply = ''*=''"
| "mutatorName MutateOperationDivide = ''/=''"
| "mutatorName MutateOperationModulo = ''%=''"
| "mutatorName (MutatorOther s) = s"

definition validMutators :: "Mutator list" where
  "validMutators = [MutateOperationDelete, MutateOperationInsert, MutateOperationAdd, MutateOperationSubtract,
     MutateOperationMultiply, MutateOperationDivide, MutateOperationModulo]"

text \<open>Decoding into \<open>[]any\<close> and the check of the number of elements.\<close>

definition triple :: "json \<Rightarrow> (json \<times> json \<times> json) result" where
  "triple j = (case j of
     JArr [a, b, c] \<Rightarrow> Inr (a, b, c)
   | JArr _ \<Rightarrow> Inl (Errorf ''expected a 3 element json array'')
   | JNull \<Rightarrow> Inl (Errorf ''expected a 3 element json array'')
   | _ \<Rightarrow> Inl (Errorf ''json: cannot unmarshal''))"

definition marshalCondition :: "Condition \<Rightarrow> json result" where
  "marshalCondition c =
     bindR (marshalAny (cValue c)) (\<lambda>v. Inr (JArr [JStr (cColumn c), JStr (functionName (cFunction c)), v]))"

text \<open>A column or function that is not a string makes the decoder of conditions panic; that of mutations reports it.\<close>

definition unmarshalCondition :: "json \<Rightarrow> (string \<times> ConditionFunction \<times> wire) result" where
  "unmarshalCondition j =
     bindR (triple j) (\<lambda>(a, b, c). case (a, b) of
       (JStr col, JStr f) \<Rightarrow>
         (case find (\<lambda>g. functionName g = f) validFunctions of
            None \<Rightarrow> Inl (Errorf (f @ '' is not a valid function''))
          | Some g \<Rightarrow> bindR (ovsSliceToGoNotation c) (\<lambda>w. Inr (col, g, w)))
     | _ \<Rightarrow> Inl (Panic ''interface conversion''))"

definition marshalMutation :: "Mutation \<Rightarrow> json result" where
  "marshalMutation m =
     bindR (marshalAny (mValue m)) (\<lambda>v. Inr (JArr [JStr (mColumn m), JStr (mutatorName (mMutator m)), v]))"

definition unmarshalMutation :: "json \<Rightarrow> (string \<times> Mutator \<times> wire) result" where
  "unmarshalMutation j =
     bindR (triple j) (\<lambda>(a, b, c). case a of
       JStr col \<Rightarrow>
         (case b of
            JStr f \<Rightarrow>
              (case find (\<lambda>g. mutatorName g = f) validMutators of
                 None \<Rightarrow> Inl (Errorf (f @ '' is not a valid mutator''))
               | Some g \<Rightarrow> bindR (ovsSliceToGoNotation c) (\<lambda>w. Inr (col, g, w)))
          | _ \<Rightarrow> Inl (Errorf ''expected mutator to be a valid string''))
     | _ \<Rightarrow> Inl (Errorf ''expected column name to be a valid string''))"

lemma find_functionName: "f \<in> set validFunctions \<Longrightarrow> find (\<lambda>g. functionName g = functionName f) validFunctions = Some f"
  by (cases f) (simp_all add: validFunctions_def)

lemma find_mutatorName: "f \<in> set validMutators \<Longrightarrow> find (\<lambda>g. mutatorName g = mutatorName f) validMutators = Some f"
  by (cases f) (simp_all add: validMutators_def)

interpretation conditions: codec marshalCondition unmarshalCondition
  "\<lambda>c. cFunction c \<in> set validFunctions \<and> jsonVal (cValue c)" "\<lambda>c. (cColumn c, cFunction c, toWire (decodedAny (cValue c)))"
proof
  fix c :: Condition
  assume c: "cFunction c \<in> set validFunctions \<and> jsonVal (cValue c)"
  with anys.roundtrip obtain v where "marshalAny (cValue c) = Inr v" "ovsSliceToGoNotation v = Inr (toWire (decodedAny (cValue c)))" by blast
  then show "\<exists>j. marshalCondition c = Inr j \<and> unmarshalCondition j = Inr (cColumn c, cFunction c, toWire (decodedAny (cValue c)))"
    using c by (simp add: marshalCondition_def unmarshalCondition_def triple_def find_functionName)
qed

interpretation mutations: codec marshalMutation unmarshalMutation
  "\<lambda>m. mMutator m \<in> set validMutators \<and> jsonVal (mValue m)" "\<lambda>m. (mColumn m, mMutator m, toWire (decodedAny (mValue m)))"
proof
  fix m :: Mutation
  assume m: "mMutator m \<in> set validMutators \<and> jsonVal (mValue m)"
  with anys.roundtrip obtain v where "marshalAny (mValue m) = Inr v" "ovsSliceToGoNotation v = Inr (toWire (decodedAny (mValue m)))" by blast
  then show "\<exists>j. marshalMutation m = Inr j \<and> unmarshalMutation j = Inr (mColumn m, mMutator m, toWire (decodedAny (mValue m)))"
    using m by (simp add: marshalMutation_def unmarshalMutation_def triple_def find_mutatorName)
qed

section \<open>Structs\<close>

text \<open>
  The fields of a struct that are written, and the reading of a field: a name that is missing or \<open>null\<close> leaves the zero value.
  Names are compared exactly; the standard library would also accept them in other letter cases.
\<close>

definition omit :: "bool \<Rightarrow> string \<Rightarrow> json result \<Rightarrow> (string \<times> json result) list" where
  "omit b k r = (if b then [] else [(k, r)])"

definition marshalFields :: "(string \<times> json result) list \<Rightarrow> json result" where
  "marshalFields fs = encObj (\<lambda>r. r) fs"

definition readField :: "string \<Rightarrow> 'a \<Rightarrow> (json \<Rightarrow> 'a result) \<Rightarrow> (string, json) gomap \<Rightarrow> 'a result" where
  "readField k zero dec m = (case map_of m k of None \<Rightarrow> Inr zero | Some JNull \<Rightarrow> Inr zero | Some j \<Rightarrow> dec j)"

definition readObj :: "json \<Rightarrow> (string, json) gomap result" where
  "readObj j = (case j of JObj m \<Rightarrow> Inr m | JNull \<Rightarrow> Inr [] | _ \<Rightarrow> Inl (Errorf ''json: cannot unmarshal''))"

definition readStr :: "json \<Rightarrow> string result" where
  "readStr j = (case j of JStr s \<Rightarrow> Inr s | _ \<Rightarrow> Inl (Errorf ''json: cannot unmarshal''))"

definition readBool :: "json \<Rightarrow> bool result" where
  "readBool j = (case j of JBool b \<Rightarrow> Inr b | _ \<Rightarrow> Inl (Errorf ''json: cannot unmarshal''))"

definition readInt :: "json \<Rightarrow> int result" where
  "readInt j = (case j of
     JInt i \<Rightarrow> if - (2 ^ 63) \<le> i \<and> i < 2 ^ 63 then Inr i else Inl (Errorf ''json: cannot unmarshal'')
   | _ \<Rightarrow> Inl (Errorf ''json: cannot unmarshal''))"

definition readList :: "(json \<Rightarrow> 'a result) \<Rightarrow> json \<Rightarrow> 'a list result" where
  "readList dec j = (case j of JArr xs \<Rightarrow> mapR dec xs | _ \<Rightarrow> Inl (Errorf ''json: cannot unmarshal''))"

definition writeList :: "('a \<Rightarrow> json result) \<Rightarrow> 'a list \<Rightarrow> json result" where
  "writeList enc xs = bindR (mapR enc xs) (\<lambda>js. Inr (JArr js))"

lemmas read_defs = readStr_def readBool_def readInt_def

context codec
begin

lemma list: "list_all ok xs \<Longrightarrow> \<exists>j. writeList enc xs = Inr j \<and> readList dec j = Inr (map norm xs) \<and> j \<noteq> JNull"
  using elements [of xs] by (auto simp: writeList_def readList_def)

end

lemma map_of_marshalFields:
  assumes "marshalFields fs = Inr (JObj m)"
  shows "map_of m k = Option.bind (map_of fs k) (\<lambda>r. case r of Inl _ \<Rightarrow> None | Inr j \<Rightarrow> Some j)"
proof -
  have "mapR (\<lambda>(k, x). bindR x (\<lambda>j. Inr (k, j))) fs = Inr m" using assms by (auto simp: marshalFields_def encObj_def resR)
  then show ?thesis
  proof (induction fs arbitrary: m)
    case (Cons f fs)
    obtain k' r where f: "f = (k', r)" by fastforce
    from Cons.prems obtain j m' where "r = Inr j" "mapR (\<lambda>(k, x). bindR x (\<lambda>j. Inr (k, j))) fs = Inr m'" "m = (k', j) # m'"
      by (auto simp: f resR)
    then show ?case using Cons.IH by (simp add: f)
  qed simp
qed

lemma marshalFields_ok:
  assumes "list_all (\<lambda>(_, r). isOk r) fs"
  shows "\<exists>m. marshalFields fs = Inr (JObj m)"
proof -
  have "\<exists>m. mapR (\<lambda>(k, x). bindR x (\<lambda>j. Inr (k, j))) fs = Inr m"
    by (rule mapR_total) (use assms in \<open>auto simp: resR list_all_iff\<close>)
  then show ?thesis by (auto simp: marshalFields_def encObj_def)
qed

section \<open>Updates and monitors\<close>

record wRowUpdate2 =
  wInitial :: "(string, wire) gomap option"
  wInsert :: "(string, wire) gomap option"
  wModify :: "(string, wire) gomap option"
  wDelete :: "(string, wire) gomap option"

definition optRow :: "string \<Rightarrow> Row option \<Rightarrow> (string \<times> json result) list" where
  "optRow k x = (case x of None \<Rightarrow> [] | Some row \<Rightarrow> [(k, marshalRow row)])"

text \<open>The fields \<open>Old\<close> and \<open>New\<close> of an update are not encoded.\<close>

definition marshalRowUpdate2 :: "RowUpdate2 \<Rightarrow> json result" where
  "marshalRowUpdate2 ru = marshalFields (optRow ''initial'' (Initial ru) @ optRow ''insert'' (Insert ru)
     @ optRow ''modify'' (Modify ru) @ optRow ''delete'' (Delete ru))"

definition readRow :: "string \<Rightarrow> (string, json) gomap \<Rightarrow> (string, wire) gomap option result" where
  "readRow k m = readField k None (\<lambda>j. bindR (unmarshalRow j) (\<lambda>r. Inr (Some r))) m"

definition unmarshalRowUpdate2 :: "json \<Rightarrow> wRowUpdate2 result" where
  "unmarshalRowUpdate2 j =
     bindR (readObj j) (\<lambda>m. bindR (readRow ''initial'' m) (\<lambda>a. bindR (readRow ''insert'' m) (\<lambda>b.
     bindR (readRow ''modify'' m) (\<lambda>c. bindR (readRow ''delete'' m) (\<lambda>d.
       Inr \<lparr>wInitial = a, wInsert = b, wModify = c, wDelete = d\<rparr>)))))"

definition jsonRU2 :: "RowUpdate2 \<Rightarrow> bool" where
  "jsonRU2 ru = (pred_option jsonRow (Initial ru) \<and> pred_option jsonRow (Insert ru) \<and> pred_option jsonRow (Modify ru) \<and> pred_option jsonRow (Delete ru))"

definition wireRow :: "Row \<Rightarrow> (string, wire) gomap" where
  "wireRow row = onValues (\<lambda>v. toWire (decodedAny v)) row"

definition wireRU2 :: "RowUpdate2 \<Rightarrow> wRowUpdate2" where
  "wireRU2 ru = \<lparr>wInitial = map_option wireRow (Initial ru), wInsert = map_option wireRow (Insert ru),
     wModify = map_option wireRow (Modify ru), wDelete = map_option wireRow (Delete ru)\<rparr>"

lemma marshalRow_ok: "jsonRow row \<Longrightarrow> \<exists>m. marshalRow row = Inr (JObj m) \<and> unmarshalRow (JObj m) = Inr (wireRow row)"
  using rows.roundtrip [of row] by (auto simp: marshalRow_def encObj_def resR wireRow_def)

lemma readRow_optRow:
  assumes "marshalFields fs = Inr (JObj m)" "map_of fs k = map_of (optRow k x) k" "pred_option jsonRow x"
  shows "readRow k m = Inr (map_option wireRow x)"
proof (cases x)
  case None
  then show ?thesis using map_of_marshalFields [OF assms(1), of k] assms(2) by (simp add: optRow_def readRow_def readField_def)
next
  case (Some row)
  then obtain n where "marshalRow row = Inr (JObj n)" "unmarshalRow (JObj n) = Inr (wireRow row)" using assms(3) marshalRow_ok by auto
  then show ?thesis using Some map_of_marshalFields [OF assms(1), of k] assms(2) by (simp add: optRow_def readRow_def readField_def)
qed

interpretation updates2: codec marshalRowUpdate2 unmarshalRowUpdate2 jsonRU2 wireRU2
proof
  fix ru assume r: "jsonRU2 ru"
  let ?fs = "optRow ''initial'' (Initial ru) @ optRow ''insert'' (Insert ru) @ optRow ''modify'' (Modify ru) @ optRow ''delete'' (Delete ru)"
  have "list_all (\<lambda>(_, r). isOk r) (optRow n x)" if "pred_option jsonRow x" for n x
    using that marshalRow_ok by (cases x) (fastforce simp: optRow_def)+
  then obtain m where m: "marshalFields ?fs = Inr (JObj m)"
    using marshalFields_ok [of ?fs] r unfolding jsonRU2_def by (auto simp del: append_assoc)
  have k: "map_of (optRow n x) k = None" if "n \<noteq> k" for n k x using that by (cases x) (simp_all add: optRow_def)
  have "readRow ''initial'' m = Inr (map_option wireRow (Initial ru))" "readRow ''insert'' m = Inr (map_option wireRow (Insert ru))"
    "readRow ''modify'' m = Inr (map_option wireRow (Modify ru))" "readRow ''delete'' m = Inr (map_option wireRow (Delete ru))"
    using r unfolding jsonRU2_def by (auto intro!: readRow_optRow [OF m] simp: map_add_def k split: option.split)
  then show "\<exists>j. marshalRowUpdate2 ru = Inr j \<and> unmarshalRowUpdate2 j = Inr (wireRU2 ru)"
    using m by (simp add: marshalRowUpdate2_def unmarshalRowUpdate2_def readObj_def wireRU2_def)
qed

definition marshalUpdates2 :: "TableUpdates2 \<Rightarrow> json result" where
  "marshalUpdates2 tus = encObj (encObj (encPtr marshalRowUpdate2)) tus"

definition unmarshalUpdates2 :: "json \<Rightarrow> (string, (string, wRowUpdate2 option) gomap) gomap result" where
  "unmarshalUpdates2 j = decObj (decObj (decPtr unmarshalRowUpdate2)) j"

definition jsonUpdates2 :: "TableUpdates2 \<Rightarrow> bool" where
  "jsonUpdates2 tus = list_all (\<lambda>(_, tu). list_all (\<lambda>(_, ru). pred_option jsonRU2 ru) tu) tus"

definition wireUpdates2 :: "TableUpdates2 \<Rightarrow> (string, (string, wRowUpdate2 option) gomap) gomap" where
  "wireUpdates2 tus = onValues (onValues (map_option wireRU2)) tus"

interpretation pointers2: codec "encPtr marshalRowUpdate2" "decPtr unmarshalRowUpdate2" "pred_option jsonRU2" "map_option wireRU2"
  by unfold_locales (rule updates2.pointer, simp, auto simp: marshalRowUpdate2_def marshalFields_def encObj_def resR)

interpretation tables2: codec "encObj (encPtr marshalRowUpdate2)" "decObj (decPtr unmarshalRowUpdate2)"
  "list_all (\<lambda>(_, ru). pred_option jsonRU2 ru)" "onValues (map_option wireRU2)"
  by unfold_locales (rule pointers2.object)

interpretation databases2: codec marshalUpdates2 unmarshalUpdates2 jsonUpdates2 wireUpdates2
  unfolding marshalUpdates2_def [abs_def] unmarshalUpdates2_def [abs_def] jsonUpdates2_def [abs_def] wireUpdates2_def [abs_def]
  by unfold_locales (rule tables2.object)

text \<open>\<open>MonitorCondSinceReply\<close>.\<close>

definition marshalReply :: "bool \<times> string \<times> TableUpdates2 \<Rightarrow> json result" where
  "marshalReply = (\<lambda>(found, txn, u). bindR (marshalUpdates2 u) (\<lambda>j. Inr (JArr [JBool found, JStr txn, j])))"

definition nullOr :: "'a \<Rightarrow> (json \<Rightarrow> 'a result) \<Rightarrow> json \<Rightarrow> 'a result" where
  "nullOr zero dec j = (if j = JNull then Inr zero else dec j)"

definition unmarshalReply :: "json \<Rightarrow> (bool \<times> string \<times> (string, (string, wRowUpdate2 option) gomap) gomap) result" where
  "unmarshalReply j =
     bindR (triple j) (\<lambda>(a, b, c). bindR (nullOr False readBool a) (\<lambda>found. bindR (nullOr [] readStr b) (\<lambda>txn.
     bindR (unmarshalUpdates2 c) (\<lambda>u. Inr (found, txn, u)))))"

interpretation replies: codec marshalReply unmarshalReply "\<lambda>(_, _, u). jsonUpdates2 u" "\<lambda>(found, txn, u). (found, txn, wireUpdates2 u)"
proof
  fix x :: "bool \<times> string \<times> TableUpdates2"
  assume x: "case x of (_, _, u) \<Rightarrow> jsonUpdates2 u"
  obtain f t u where u: "x = (f, t, u)" by (cases x) auto
  obtain j where "marshalUpdates2 u = Inr j" "unmarshalUpdates2 j = Inr (wireUpdates2 u)" using x u databases2.roundtrip by auto
  then show "\<exists>j. marshalReply x = Inr j \<and> unmarshalReply j = Inr (case x of (found, txn, u) \<Rightarrow> (found, txn, wireUpdates2 u))"
    using u by (simp add: marshalReply_def unmarshalReply_def triple_def nullOr_def read_defs)
qed

section \<open>The selection of a monitor\<close>

definition optBool :: "string \<Rightarrow> bool option \<Rightarrow> (string \<times> json result) list" where
  "optBool k x = (case x of None \<Rightarrow> [] | Some b \<Rightarrow> [(k, Inr (JBool b))])"

definition marshalSelect :: "MonitorSelect \<Rightarrow> json result" where
  "marshalSelect s = marshalFields (optBool ''initial'' (msInitial s) @ optBool ''insert'' (msInsert s)
     @ optBool ''delete'' (msDelete s) @ optBool ''modify'' (msModify s))"

definition unmarshalSelect :: "json \<Rightarrow> MonitorSelect result" where
  "unmarshalSelect j =
     bindR (readObj j) (\<lambda>m. let get = (\<lambda>k. readField k None (\<lambda>j. bindR (readBool j) (\<lambda>b. Inr (Some b))) m) in
     bindR (get ''initial'') (\<lambda>a. bindR (get ''insert'') (\<lambda>b. bindR (get ''delete'') (\<lambda>c. bindR (get ''modify'') (\<lambda>d.
       Inr \<lparr>msInitial = a, msInsert = b, msDelete = c, msModify = d\<rparr>)))))"

interpretation selects: codec marshalSelect unmarshalSelect "\<lambda>_. True" "\<lambda>s. s"
proof
  fix s :: MonitorSelect
  show "\<exists>j. marshalSelect s = Inr j \<and> unmarshalSelect j = Inr s"
    by (cases s; cases "msInitial s"; cases "msInsert s"; cases "msDelete s"; cases "msModify s")
      (simp_all add: marshalSelect_def optBool_def marshalFields_def encObj_def unmarshalSelect_def readObj_def readField_def readBool_def)
qed

section \<open>Operations\<close>

primrec opName :: "OpKind \<Rightarrow> string" where
  "opName OperationInsert = ''insert''"
| "opName OperationSelect = ''select''"
| "opName OperationUpdate = ''update''"
| "opName OperationMutate = ''mutate''"
| "opName OperationDelete = ''delete''"
| "opName OperationWait = ''wait''"
| "opName OperationCommit = ''commit''"
| "opName OperationAbort = ''abort''"
| "opName OperationComment = ''comment''"
| "opName OperationAssert = ''assert''"
| "opName (OperationOther s) = s"

definition knownOps :: "OpKind list" where
  "knownOps = [OperationInsert, OperationSelect, OperationUpdate, OperationMutate, OperationDelete, OperationWait,
     OperationCommit, OperationAbort, OperationComment, OperationAssert]"

definition opKind :: "string \<Rightarrow> OpKind" where
  "opKind s = (case find (\<lambda>k. opName k = s) knownOps of None \<Rightarrow> OperationOther s | Some k \<Rightarrow> k)"

text \<open>A select is written with its conditions even when there are none, so that it selects all rows.\<close>

definition operationFields :: "Operation \<Rightarrow> (string \<times> json result) list" where
  "operationFields o' =
     [(''op'', Inr (JStr (opName (Op o'))))]
     @ omit (opTable o' = []) ''table'' (Inr (JStr (opTable o')))
     @ omit (opRow o' = []) ''row'' (marshalRow (opRow o'))
     @ omit (opRows o' = []) ''rows'' (writeList marshalRow (opRows o'))
     @ omit (opColumns o' = []) ''columns'' (writeList (\<lambda>s. Inr (JStr s)) (opColumns o'))
     @ omit (Mutations o' = []) ''mutations'' (writeList marshalMutation (Mutations o'))
     @ omit (Timeout o' = None) ''timeout'' (Inr (JInt (the (Timeout o'))))
     @ omit (Op o' \<noteq> OperationSelect \<and> Where o' = []) ''where'' (writeList marshalCondition (Where o'))
     @ omit (Until o' = []) ''until'' (Inr (JStr (Until o')))
     @ omit (Durable o' = None) ''durable'' (Inr (JBool (the (Durable o'))))
     @ omit (Comment o' = None) ''comment'' (Inr (JStr (the (Comment o'))))
     @ omit (Lock o' = None) ''lock'' (Inr (JStr (the (Lock o'))))
     @ omit (opUUID o' = []) ''uuid'' (Inr (JStr (opUUID o')))
     @ omit (UUIDName o' = []) ''uuid-name'' (Inr (JStr (UUIDName o')))"

definition marshalOperation :: "Operation \<Rightarrow> json result" where
  "marshalOperation o' = marshalFields (operationFields o')"

record wOperation =
  wOp :: OpKind
  wTable :: string
  wRow :: "(string, wire) gomap"
  wRows :: "(string, wire) gomap list"
  wColumns :: "string list"
  wMutations :: "(string \<times> Mutator \<times> wire) list"
  wTimeout :: "int option"
  wWhere :: "(string \<times> ConditionFunction \<times> wire) list"
  wUntil :: string
  wDurable :: "bool option"
  wComment :: "string option"
  wLock :: "string option"
  wUUID :: string
  wUUIDName :: string

definition someOf :: "(json \<Rightarrow> 'a result) \<Rightarrow> json \<Rightarrow> 'a option result" where
  "someOf dec j = bindR (dec j) (\<lambda>x. Inr (Some x))"

definition unmarshalOperation :: "json \<Rightarrow> wOperation result" where
  "unmarshalOperation j =
     bindR (readObj j) (\<lambda>m.
     bindR (readField ''op'' [] readStr m) (\<lambda>op.
     bindR (readField ''table'' [] readStr m) (\<lambda>table.
     bindR (readField ''row'' [] unmarshalRow m) (\<lambda>row.
     bindR (readField ''rows'' [] (readList unmarshalRow) m) (\<lambda>rows.
     bindR (readField ''columns'' [] (readList readStr) m) (\<lambda>columns.
     bindR (readField ''mutations'' [] (readList unmarshalMutation) m) (\<lambda>mutations.
     bindR (readField ''timeout'' None (someOf readInt) m) (\<lambda>timeout.
     bindR (readField ''where'' [] (readList unmarshalCondition) m) (\<lambda>wh.
     bindR (readField ''until'' [] readStr m) (\<lambda>until.
     bindR (readField ''durable'' None (someOf readBool) m) (\<lambda>durable.
     bindR (readField ''comment'' None (someOf readStr) m) (\<lambda>comment.
     bindR (readField ''lock'' None (someOf readStr) m) (\<lambda>lock.
     bindR (readField ''uuid'' [] readStr m) (\<lambda>uuid.
     bindR (readField ''uuid-name'' [] readStr m) (\<lambda>uuidName.
       Inr \<lparr>wOp = opKind op, wTable = table, wRow = row, wRows = rows, wColumns = columns, wMutations = mutations,
            wTimeout = timeout, wWhere = wh, wUntil = until, wDurable = durable, wComment = comment, wLock = lock,
            wUUID = uuid, wUUIDName = uuidName\<rparr>)))))))))))))))"

definition jsonOperation :: "Operation \<Rightarrow> bool" where
  "jsonOperation o' = (Op o' \<in> set knownOps \<and> jsonRow (opRow o') \<and> list_all jsonRow (opRows o')
     \<and> list_all (\<lambda>m. mMutator m \<in> set validMutators \<and> jsonVal (mValue m)) (Mutations o')
     \<and> list_all (\<lambda>c. cFunction c \<in> set validFunctions \<and> jsonVal (cValue c)) (Where o')
     \<and> pred_option (\<lambda>t. - (2 ^ 63) \<le> t \<and> t < 2 ^ 63) (Timeout o'))"

definition wireOperation :: "Operation \<Rightarrow> wOperation" where
  "wireOperation o' = \<lparr>wOp = Op o', wTable = opTable o', wRow = wireRow (opRow o'), wRows = map wireRow (opRows o'),
     wColumns = opColumns o', wMutations = map (\<lambda>m. (mColumn m, mMutator m, toWire (decodedAny (mValue m)))) (Mutations o'),
     wTimeout = Timeout o', wWhere = map (\<lambda>c. (cColumn c, cFunction c, toWire (decodedAny (cValue c)))) (Where o'),
     wUntil = Until o', wDurable = Durable o', wComment = Comment o', wLock = Lock o', wUUID = opUUID o', wUUIDName = UUIDName o'\<rparr>"

lemma map_of_omit: "map_of (omit b k r) k' = (if k = k' \<and> \<not> b then Some r else None)"
  by (simp add: omit_def)

lemma opKind_opName: "k \<in> set knownOps \<Longrightarrow> opKind (opName k) = k"
  by (cases k) (simp_all add: knownOps_def opKind_def)

lemma readField_omit:
  assumes "marshalFields fs = Inr (JObj m)" "map_of fs k = (if b then None else Some r)" "b \<Longrightarrow> x = zero"
    and "\<not> b \<Longrightarrow> \<exists>j. r = Inr j \<and> j \<noteq> JNull \<and> dec j = Inr x"
  shows "readField k zero dec m = Inr x"
proof (cases b)
  case False
  then obtain j where j: "r = Inr j" "j \<noteq> JNull" "dec j = Inr x" using assms(4) by blast
  then have "map_of m k = Some j" using map_of_marshalFields [OF assms(1), of k] assms(2) False by simp
  then show ?thesis using j by (cases j) (simp_all add: readField_def)
qed (use map_of_marshalFields [OF assms(1), of k] assms(2,3) in \<open>simp add: readField_def\<close>)

interpretation strings: codec "\<lambda>s. Inr (JStr s)" readStr "\<lambda>_. True" "\<lambda>s. s"
  by unfold_locales (simp add: readStr_def)

lemma row_field: "jsonRow row \<Longrightarrow> \<exists>j. marshalRow row = Inr j \<and> j \<noteq> JNull \<and> unmarshalRow j = Inr (wireRow row)"
  using marshalRow_ok by blast

lemma operationFields_ok:
  assumes "jsonOperation o'"
  shows "list_all (\<lambda>(_, r). isOk r) (operationFields o')"
proof -
  note j = assms [unfolded jsonOperation_def]
  have "isOk (marshalRow (opRow o'))" using row_field j unfolding isOk_iff by blast
  moreover have "isOk (writeList marshalRow (opRows o'))" using rows.list j unfolding isOk_iff by blast
  moreover have "isOk (writeList (\<lambda>s. Inr (JStr s)) (opColumns o'))" using strings.list [of "opColumns o'"] by (auto simp: isOk_iff list_all_iff)
  moreover have "isOk (writeList marshalMutation (Mutations o'))" using mutations.list j unfolding isOk_iff by blast
  moreover have "isOk (writeList marshalCondition (Where o'))" using conditions.list j unfolding isOk_iff by blast
  ultimately show ?thesis by (simp add: operationFields_def omit_def)
qed

text \<open>
  An operation of a known kind whose values survive is decoded with the same table, columns, conditions,
  mutations and options; a select without conditions keeps its empty list.
\<close>

lemma operation_roundtrip:
  assumes "jsonOperation o'"
  shows "\<exists>j. marshalOperation o' = Inr j \<and> unmarshalOperation j = Inr (wireOperation o')"
proof -
  let ?fs = "operationFields o'"
  obtain m where m: "marshalFields ?fs = Inr (JObj m)" using marshalFields_ok [OF operationFields_ok [OF assms]] by blast
  note F = readField_omit [OF m]
  note fs = operationFields_def map_add_def map_of_omit
  have "readField ''op'' [] readStr m = Inr (opName (Op o'))"
    by (rule F [of _ False "Inr (JStr (opName (Op o')))"]) (simp_all add: fs readStr_def)
  moreover have "readField ''table'' [] readStr m = Inr (opTable o')"
    by (rule F [of _ "opTable o' = []" "Inr (JStr (opTable o'))"], simp add: fs) (auto simp: someOf_def read_defs)
  moreover have "readField ''row'' [] unmarshalRow m = Inr (wireRow (opRow o'))"
    by (rule F [of _ "opRow o' = []" "marshalRow (opRow o')"], simp add: fs) (use row_field assms in \<open>auto simp: jsonOperation_def wireRow_def onValues_def\<close>)
  moreover have "readField ''rows'' [] (readList unmarshalRow) m = Inr (map wireRow (opRows o'))"
    by (rule F [of _ "opRows o' = []" "writeList marshalRow (opRows o')"], simp add: fs) (use rows.list assms in \<open>auto simp: jsonOperation_def wireOperation_def wireRow_def [abs_def]\<close>)
  moreover have "readField ''columns'' [] (readList readStr) m = Inr (opColumns o')"
    by (rule F [of _ "opColumns o' = []" "writeList (\<lambda>s. Inr (JStr s)) (opColumns o')"], simp add: fs) (use strings.list [of "opColumns o'"] in \<open>auto simp: list_all_iff\<close>)
  moreover have "readField ''mutations'' [] (readList unmarshalMutation) m = Inr (wMutations (wireOperation o'))"
    by (rule F [of _ "Mutations o' = []" "writeList marshalMutation (Mutations o')"], simp add: fs) (use mutations.list assms in \<open>auto simp: jsonOperation_def wireOperation_def wireRow_def [abs_def]\<close>)
  moreover have "readField ''timeout'' None (someOf readInt) m = Inr (Timeout o')"
    by (rule F [of _ "Timeout o' = None" "Inr (JInt (the (Timeout o')))"], simp add: fs) (use assms in \<open>auto simp: jsonOperation_def someOf_def readInt_def\<close>)
  moreover have "readField ''where'' [] (readList unmarshalCondition) m = Inr (wWhere (wireOperation o'))"
    by (rule F [of _ "Op o' \<noteq> OperationSelect \<and> Where o' = []" "writeList marshalCondition (Where o')"], simp add: fs) (use conditions.list assms in \<open>auto simp: jsonOperation_def wireOperation_def wireRow_def [abs_def]\<close>)
  moreover have "readField ''until'' [] readStr m = Inr (Until o')"
    by (rule F [of _ "Until o' = []" "Inr (JStr (Until o'))"], simp add: fs) (auto simp: someOf_def read_defs)
  moreover have "readField ''durable'' None (someOf readBool) m = Inr (Durable o')"
    by (rule F [of _ "Durable o' = None" "Inr (JBool (the (Durable o')))"], simp add: fs) (auto simp: someOf_def read_defs)
  moreover have "readField ''comment'' None (someOf readStr) m = Inr (Comment o')"
    by (rule F [of _ "Comment o' = None" "Inr (JStr (the (Comment o')))"], simp add: fs) (auto simp: someOf_def read_defs)
  moreover have "readField ''lock'' None (someOf readStr) m = Inr (Lock o')"
    by (rule F [of _ "Lock o' = None" "Inr (JStr (the (Lock o')))"], simp add: fs) (auto simp: someOf_def read_defs)
  moreover have "readField ''uuid'' [] readStr m = Inr (opUUID o')"
    by (rule F [of _ "opUUID o' = []" "Inr (JStr (opUUID o'))"], simp add: fs) (auto simp: someOf_def read_defs)
  moreover have "readField ''uuid-name'' [] readStr m = Inr (UUIDName o')"
    by (rule F [of _ "UUIDName o' = []" "Inr (JStr (UUIDName o'))"], simp add: fs) (auto simp: someOf_def read_defs)
  moreover have "opKind (opName (Op o')) = Op o'" using assms opKind_opName by (simp add: jsonOperation_def)
  ultimately show ?thesis using m by (simp add: marshalOperation_def unmarshalOperation_def readObj_def wireOperation_def)
qed

section \<open>Results\<close>

text \<open>A \<open>UUID\<close> of its own: what is not an array of strings is read as the empty UUID, \<open>null\<close> and a short array panic.\<close>

definition readUUID :: "json \<Rightarrow> string result" where
  "readUUID j = (case j of JArr xs \<Rightarrow> unmarshalUUID xs | JNull \<Rightarrow> Inl (Panic ''index out of range'') | _ \<Rightarrow> Inr [])"

text \<open>The UUID is a struct, which \<open>omitempty\<close> never omits.\<close>

definition resultFields :: "OperationResult \<Rightarrow> (string \<times> json result) list" where
  "resultFields r =
     omit (rCount r = 0) ''count'' (Inr (JInt (int (rCount r))))
     @ omit (rError r = []) ''error'' (Inr (JStr (rError r)))
     @ omit (rDetails r = []) ''details'' (Inr (JStr (rDetails r)))
     @ [(''uuid'', Inr (marshalUUID (rUUID r)))]
     @ omit (rRows r = []) ''rows'' (writeList marshalRow (rRows r))"

definition marshalResult :: "OperationResult \<Rightarrow> json result" where
  "marshalResult r = marshalFields (resultFields r)"

record wOperationResult =
  wCount :: int
  wError :: string
  wDetails :: string
  wResultUUID :: string
  wResultRows :: "(string, wire) gomap list"

definition unmarshalResult :: "json \<Rightarrow> wOperationResult result" where
  "unmarshalResult j =
     bindR (readObj j) (\<lambda>m.
     bindR (readField ''count'' 0 readInt m) (\<lambda>count.
     bindR (readField ''error'' [] readStr m) (\<lambda>error.
     bindR (readField ''details'' [] readStr m) (\<lambda>details.
     bindR (case map_of m ''uuid'' of None \<Rightarrow> Inr [] | Some u \<Rightarrow> readUUID u) (\<lambda>uuid.
     bindR (readField ''rows'' [] (readList unmarshalRow) m) (\<lambda>rows.
       Inr \<lparr>wCount = count, wError = error, wDetails = details, wResultUUID = uuid, wResultRows = rows\<rparr>))))))"

definition jsonResult :: "OperationResult \<Rightarrow> bool" where
  "jsonResult r = (rCount r < 2 ^ 63 \<and> list_all jsonRow (rRows r))"

definition wireResult :: "OperationResult \<Rightarrow> wOperationResult" where
  "wireResult r = \<lparr>wCount = int (rCount r), wError = rError r, wDetails = rDetails r, wResultUUID = rUUID r, wResultRows = map wireRow (rRows r)\<rparr>"

interpretation results: codec marshalResult unmarshalResult jsonResult wireResult
proof
  fix r assume j: "jsonResult r"
  have rows: "\<exists>j. writeList marshalRow (rRows r) = Inr j \<and> readList unmarshalRow j = Inr (map wireRow (rRows r)) \<and> j \<noteq> JNull"
    using rows.list j unfolding jsonResult_def wireRow_def [abs_def] by blast
  then have "list_all (\<lambda>(_, x). isOk x) (resultFields r)" by (auto simp: resultFields_def omit_def)
  then obtain m where m: "marshalFields (resultFields r) = Inr (JObj m)"
    using marshalFields_ok by blast
  note F = readField_omit [OF m]
  note fs = resultFields_def map_add_def map_of_omit
  have "readField ''count'' 0 readInt m = Inr (int (rCount r))"
    by (rule F [of _ "rCount r = 0" "Inr (JInt (int (rCount r)))"], simp add: fs) (use j in \<open>auto simp: readInt_def jsonResult_def\<close>)
  moreover have "readField ''error'' [] readStr m = Inr (rError r)"
    by (rule F [of _ "rError r = []" "Inr (JStr (rError r))"], simp add: fs) (auto simp: readStr_def)
  moreover have "readField ''details'' [] readStr m = Inr (rDetails r)"
    by (rule F [of _ "rDetails r = []" "Inr (JStr (rDetails r))"], simp add: fs) (auto simp: readStr_def)
  moreover have "map_of m ''uuid'' = Some (marshalUUID (rUUID r))"
    using map_of_marshalFields [OF m, of "''uuid''"] by (simp add: fs)
  moreover have "readUUID (marshalUUID (rUUID r)) = Inr (rUUID r)" by (simp add: readUUID_def marshalUUID_def unmarshalUUID_def stringOrNull_def)
  moreover have "readField ''rows'' [] (readList unmarshalRow) m = Inr (map wireRow (rRows r))"
    by (rule F [of _ "rRows r = []" "writeList marshalRow (rRows r)"], simp add: fs) (use rows in auto)
  ultimately show "\<exists>j. marshalResult r = Inr j \<and> unmarshalResult j = Inr (wireResult r)"
    using m by (simp add: marshalResult_def unmarshalResult_def readObj_def wireResult_def)
qed

section \<open>Monitor requests\<close>

definition requestFields :: "MonitorRequest \<Rightarrow> (string \<times> json result) list" where
  "requestFields r =
     omit (mrColumns r = []) ''columns'' (writeList (\<lambda>s. Inr (JStr s)) (mrColumns r))
     @ omit (mrWhere r = []) ''where'' (writeList marshalCondition (mrWhere r))
     @ omit (mrSelect r = None) ''select'' (marshalSelect (the (mrSelect r)))"

definition marshalRequest :: "MonitorRequest \<Rightarrow> json result" where
  "marshalRequest r = marshalFields (requestFields r)"

record wMonitorRequest =
  wrColumns :: "string list"
  wrWhere :: "(string \<times> ConditionFunction \<times> wire) list"
  wrSelect :: "MonitorSelect option"

definition unmarshalRequest :: "json \<Rightarrow> wMonitorRequest result" where
  "unmarshalRequest j =
     bindR (readObj j) (\<lambda>m.
     bindR (readField ''columns'' [] (readList readStr) m) (\<lambda>columns.
     bindR (readField ''where'' [] (readList unmarshalCondition) m) (\<lambda>wh.
     bindR (readField ''select'' None (someOf unmarshalSelect) m) (\<lambda>select.
       Inr \<lparr>wrColumns = columns, wrWhere = wh, wrSelect = select\<rparr>))))"

definition jsonRequest :: "MonitorRequest \<Rightarrow> bool" where
  "jsonRequest r = list_all (\<lambda>c. cFunction c \<in> set validFunctions \<and> jsonVal (cValue c)) (mrWhere r)"

definition wireRequest :: "MonitorRequest \<Rightarrow> wMonitorRequest" where
  "wireRequest r = \<lparr>wrColumns = mrColumns r,
     wrWhere = map (\<lambda>c. (cColumn c, cFunction c, toWire (decodedAny (cValue c)))) (mrWhere r), wrSelect = mrSelect r\<rparr>"

interpretation monitorRequests: codec marshalRequest unmarshalRequest jsonRequest wireRequest
proof
  fix r assume j: "jsonRequest r"
  have cols: "\<exists>j. writeList (\<lambda>s. Inr (JStr s)) (mrColumns r) = Inr j \<and> readList readStr j = Inr (mrColumns r) \<and> j \<noteq> JNull"
    using strings.list [of "mrColumns r"] by (auto simp: list_all_iff)
  have conds: "\<exists>j. writeList marshalCondition (mrWhere r) = Inr j \<and> readList unmarshalCondition j = Inr (wrWhere (wireRequest r)) \<and> j \<noteq> JNull"
    using conditions.list j by (auto simp: jsonRequest_def wireRequest_def)
  have sel: "\<exists>j. marshalSelect s = Inr j \<and> unmarshalSelect j = Inr s \<and> j \<noteq> JNull" for s
    using selects.roundtrip [of s] by (auto simp: marshalSelect_def marshalFields_def encObj_def resR)
  have sel': "\<exists>j. marshalSelect s = Inr j \<and> j \<noteq> JNull \<and> someOf unmarshalSelect j = Inr (Some s)" for s
    using sel [of s] by (auto simp: someOf_def)
  have "list_all (\<lambda>(_, x). isOk x) (requestFields r)" using cols conds sel by (auto simp: requestFields_def omit_def isOk_iff)
  then obtain m where m: "marshalFields (requestFields r) = Inr (JObj m)"
    using marshalFields_ok by blast
  note F = readField_omit [OF m]
  note fs = requestFields_def map_add_def map_of_omit
  have "readField ''columns'' [] (readList readStr) m = Inr (mrColumns r)"
    by (rule F [of _ "mrColumns r = []" "writeList (\<lambda>s. Inr (JStr s)) (mrColumns r)"], simp add: fs) (use cols in auto)
  moreover have "readField ''where'' [] (readList unmarshalCondition) m = Inr (wrWhere (wireRequest r))"
    by (rule F [of _ "mrWhere r = []" "writeList marshalCondition (mrWhere r)"], simp add: fs) (use conds in \<open>auto simp: wireRequest_def\<close>)
  moreover have "readField ''select'' None (someOf unmarshalSelect) m = Inr (mrSelect r)"
    by (rule F [of _ "mrSelect r = None" "marshalSelect (the (mrSelect r))"], simp add: fs) (use sel' in auto)
  ultimately show "\<exists>j. marshalRequest r = Inr j \<and> unmarshalRequest j = Inr (wireRequest r)"
    using m by (simp add: marshalRequest_def unmarshalRequest_def readObj_def wireRequest_def)
qed

section \<open>Arguments of calls\<close>

definition NewEchoArgs :: "json list" where
  "NewEchoArgs = [JStr ''libovsdb echo'']"

definition NewGetSchemaArgs :: "string \<Rightarrow> json list" where
  "NewGetSchemaArgs schema = [JStr schema]"

definition NewTransactArgs :: "string \<Rightarrow> Operation list \<Rightarrow> json list result" where
  "NewTransactArgs dbn operations = bindR (mapR marshalOperation operations) (\<lambda>ops. Inr (JStr dbn # ops))"

definition NewMonitorArgs :: "string \<Rightarrow> json \<Rightarrow> (string, MonitorRequest) gomap \<Rightarrow> json list result" where
  "NewMonitorArgs dbn cookie requests = bindR (encObj marshalRequest requests) (\<lambda>rs. Inr [JStr dbn, cookie, rs])"

definition NewMonitorCondSinceArgs :: "string \<Rightarrow> json \<Rightarrow> (string, MonitorRequest) gomap \<Rightarrow> string \<Rightarrow> json list result" where
  "NewMonitorCondSinceArgs dbn cookie requests lastTransactionID =
     bindR (encObj marshalRequest requests) (\<lambda>rs. Inr [JStr dbn, cookie, rs, JStr lastTransactionID])"

definition NewCancelArgs :: "json \<Rightarrow> json list" where "NewCancelArgs i = [i]"
definition NewMonitorCancelArgs :: "json \<Rightarrow> json list" where "NewMonitorCancelArgs cookie = [cookie]"
definition NewLockArgs :: "json \<Rightarrow> json list" where "NewLockArgs i = [i]"

text \<open>How the handlers of the server read the arguments of a transaction and of a monitor.\<close>

definition readTransactArgs :: "json list \<Rightarrow> (string \<times> wOperation list) result" where
  "readTransactArgs args = (case args of
     a # b # rest \<Rightarrow>
       (case nullOr [] readStr a of
          Inl _ \<Rightarrow> Inl (Errorf ''database is not a string'')
        | Inr dbn \<Rightarrow> bindR (mapR unmarshalOperation (b # rest)) (\<lambda>ops. Inr (dbn, ops)))
   | _ \<Rightarrow> Inl (Errorf ''not enough args''))"

definition readMonitorArgs :: "json list \<Rightarrow> (string \<times> json \<times> (string, wMonitorRequest option) gomap) result" where
  "readMonitorArgs args = (case args of
     [] \<Rightarrow> Inl (Panic ''index out of range'')
   | a # rest \<Rightarrow>
       (case nullOr [] readStr a of
          Inl _ \<Rightarrow> Inl (Errorf ''database is not a string'')
        | Inr dbn \<Rightarrow> (case rest of
            v # r # _ \<Rightarrow> bindR (decObj (decPtr unmarshalRequest) r) (\<lambda>rs. Inr (dbn, v, rs))
          | _ \<Rightarrow> Inl (Panic ''index out of range''))))"

interpretation requestPointers: codec "encPtr marshalRequest" "decPtr unmarshalRequest" "pred_option jsonRequest" "map_option wireRequest"
  by unfold_locales (rule monitorRequests.pointer, simp, auto simp: marshalRequest_def marshalFields_def encObj_def resR)

interpretation operations: codec marshalOperation unmarshalOperation jsonOperation wireOperation
  by unfold_locales (rule operation_roundtrip)


text \<open>A monitor call over the wire: the server reads the database, the cookie and for each table the request that was sent.\<close>

theorem monitor_over_wire:
  assumes "list_all (\<lambda>(_, r). jsonRequest r) requests"
  shows "\<exists>args. NewMonitorArgs dbn cookie requests = Inr args
    \<and> readMonitorArgs args = Inr (dbn, cookie, onValues (\<lambda>r. Some (wireRequest r)) requests)"
proof -
  have "list_all (\<lambda>(_, r). pred_option jsonRequest r) (onValues Some requests)" using assms by (auto simp: onValues_def list_all_iff)
  from requestPointers.object [OF this] obtain j where j: "encObj (encPtr marshalRequest) (onValues Some requests) = Inr j"
    "decObj (decPtr unmarshalRequest) j = Inr (onValues (map_option wireRequest) (onValues Some requests))" by blast
  moreover have "encObj (encPtr marshalRequest) (onValues Some requests) = encObj marshalRequest requests"
  proof -
    have "mapR (\<lambda>(k, x). bindR (encPtr marshalRequest x) (\<lambda>j. Inr (k, j))) (onValues Some requests)
      = mapR (\<lambda>(k, x). bindR (marshalRequest x) (\<lambda>j. Inr (k, j))) requests"
      by (induction requests) (auto simp: onValues_def encPtr_def)
    then show ?thesis by (simp add: encObj_def)
  qed
  moreover have "onValues (map_option wireRequest) (onValues Some requests) = onValues (\<lambda>r. Some (wireRequest r)) requests"
    by (auto simp: onValues_def)
  ultimately show ?thesis by (simp add: NewMonitorArgs_def readMonitorArgs_def nullOr_def readStr_def)
qed

section \<open>Divergences\<close>

text \<open>A value that is an empty array, a set without elements and a key that is a set make the decoder panic.\<close>

lemma decoder_panics:
  "ovsSliceToGoNotation (JArr []) = Inl (Panic ''index out of range'')"
  "ovsSliceToGoNotation (JArr [JStr ''set'']) = Inl (Panic ''index out of range'')"
  "ovsSliceToGoNotation (JArr [JStr ''map'', JArr [JArr [JArr [JStr ''set'', JArr []], JNull]]]) = Inl (Panic ''hash of unhashable type'')"
  by (simp_all add: ovs_simps [of "JArr _"] ovs_simps [of JNull] setItems_def mapItems_def addEntry_def checkPart_def hashableKey_def leaf_def)

text \<open>A malformed UUID is read as the empty one, and a malformed map as the empty map.\<close>

lemma malformed_uuid_accepted:
  "ovsSliceToGoNotation (JArr [JStr ''uuid'', JInt 5]) = Inr (WAtom (AUUID []))"
  "ovsSliceToGoNotation (JArr [JStr ''map'']) = Inr (WMap [])"
  by (simp_all add: ovs_simps unmarshalUUID_def stringOrNull_def mapItems_def)

text \<open>Every result carries a UUID, also that of an operation which is no insert.\<close>

lemma result_uuid_written: "marshalResult emptyResult = Inr (JObj [(''uuid'', JArr [JStr ''named-uuid'', JStr []])])"
  by (simp add: marshalResult_def resultFields_def omit_def emptyResult_def marshalFields_def encObj_def marshalUUID_def ValidateUUID_def)

text \<open>A condition whose column is no string makes the server panic; the same fault in a mutation is an error.\<close>

lemma condition_column_panics:
  "unmarshalCondition (JArr [JInt 1, JStr ''=='', JInt 1]) = Inl (Panic ''interface conversion'')"
  "unmarshalMutation (JArr [JInt 1, JStr ''insert'', JInt 1]) = Inl (Errorf ''expected column name to be a valid string'')"
  by (simp_all add: unmarshalCondition_def unmarshalMutation_def triple_def)

section \<open>Witnesses\<close>


definition exSelectOp :: Operation where
  "exSelectOp = emptyOp\<lparr>Op := OperationSelect, opTable := ''Bridge''\<rparr>"


theorem monitor_over_wire_witness:
  "\<exists>args. NewMonitorArgs ''db'' JNull [(''Bridge'', \<lparr>mrColumns = [''name''], mrWhere = [], mrSelect = None\<rparr>)] = Inr args
     \<and> readMonitorArgs args = Inr (''db'', JNull, onValues (\<lambda>r. Some (wireRequest r)) [(''Bridge'', \<lparr>mrColumns = [''name''], mrWhere = [], mrSelect = None\<rparr>)])"
  using monitor_over_wire [of "[(''Bridge'', \<lparr>mrColumns = [''name''], mrWhere = [], mrSelect = None\<rparr>)]" "''db''" JNull]
  by (simp add: jsonRequest_def)

end
