(* ===== verification/SchemaJson.thy ===== *)
theory SchemaJson
  imports JsonMessages
begin

text \<open>
  The JSON form of a database schema and the printed form of a column (\<open>ovsdb/schema.go\<close>). The names of types and reference types are strings in
  the code; \<open>typeOfName\<close> and \<open>refTypeOfName\<close> read them into the constructors of theory \<open>Schema\<close>. Base types, column types, columns and tables
  are interpretations of the locale \<open>codec\<close>, each used by the next, up to the round trip of a whole schema.
\<close>

section \<open>Names of types\<close>

primrec typeName :: "ExtendedType \<Rightarrow> string" where
  "typeName TypeInteger = ''integer''"
| "typeName TypeReal = ''real''"
| "typeName TypeBoolean = ''boolean''"
| "typeName TypeString = ''string''"
| "typeName TypeUUID = ''uuid''"
| "typeName TypeEnum = ''enum''"
| "typeName TypeMap = ''map''"
| "typeName TypeSet = ''set''"
| "typeName (TypeOther s) = s"

definition knownTypes :: "ExtendedType list" where
  "knownTypes = [TypeInteger, TypeReal, TypeBoolean, TypeString, TypeUUID, TypeEnum, TypeMap, TypeSet]"

definition typeOfName :: "string \<Rightarrow> ExtendedType" where
  "typeOfName s = (case find (\<lambda>t. typeName t = s) knownTypes of None \<Rightarrow> TypeOther s | Some t \<Rightarrow> t)"

primrec refTypeName :: "RefType \<Rightarrow> string" where
  "refTypeName Strong = ''strong''"
| "refTypeName Weak = ''weak''"
| "refTypeName (RefOther s) = s"

definition refTypeOfName :: "string \<Rightarrow> RefType" where
  "refTypeOfName s = (if s = ''strong'' then Strong else if s = ''weak'' then Weak else RefOther s)"

section \<open>Base types\<close>

definition optField :: "string \<Rightarrow> ('a \<Rightarrow> json result) \<Rightarrow> 'a option \<Rightarrow> (string \<times> json result) list" where
  "optField k enc x = (case x of None \<Rightarrow> [] | Some y \<Rightarrow> [(k, enc y)])"

definition writeReal :: "f64 \<Rightarrow> json result" where
  "writeReal f = marshalAtom (AReal f)"

definition writeWord :: "64 word \<Rightarrow> json result" where
  "writeWord w = Inr (JInt (sint w))"

definition writeStr :: "string \<Rightarrow> json result" where
  "writeStr s = Inr (JStr s)"

definition writeBool :: "bool \<Rightarrow> json result" where
  "writeBool b = Inr (JBool b)"

definition writeInt :: "int \<Rightarrow> json result" where
  "writeInt i = Inr (JInt i)"

definition readReal :: "json \<Rightarrow> f64 result" where
  "readReal j = (case j of JInt i \<Rightarrow> Inr (f64_of_int i) | JFloat f \<Rightarrow> Inr f | _ \<Rightarrow> Inl (Errorf ''json: cannot unmarshal''))"

definition readWord :: "json \<Rightarrow> 64 word result" where
  "readWord j = bindR (readInt j) (\<lambda>i. Inr (word_of_int i))"

text \<open>\<open>MarshalJSON\<close> writes the maximal length as the minimal length too.\<close>

definition baseFields :: "BaseType \<Rightarrow> (string \<times> json result) list" where
  "baseFields b =
     omit (typeName (bType b) = []) ''type'' (Inr (JStr (typeName (bType b))))
     @ omit (elems (bEnum b) = []) ''enum'' (marshalSet (elems (bEnum b)))
     @ optField ''minReal'' writeReal (minReal b)
     @ optField ''maxReal'' writeReal (maxReal b)
     @ optField ''minInteger'' writeWord (minInteger b)
     @ optField ''maxInteger'' writeWord (maxInteger b)
     @ optField ''minLength'' writeWord (maxLength b)
     @ optField ''maxLength'' writeWord (maxLength b)
     @ optField ''refTable'' writeStr (refTableP b)
     @ optField ''refType'' (\<lambda>t. writeStr (refTypeName t)) (refTypeP b)"

definition marshalBase :: "BaseType \<Rightarrow> json result" where
  "marshalBase b = marshalFields (baseFields b)"

text \<open>
  The elements of an enumeration: a number of an integer type becomes an \<open>int\<close>. Elements that are arrays, objects or \<open>null\<close> are kept
  as they are by the code and have no counterpart in the model, which stops at them.
\<close>

definition enumAtom :: "bool \<Rightarrow> json \<Rightarrow> atom result" where
  "enumAtom integer j = (case leaf j of
     WAtom (AReal f) \<Rightarrow> Inr (if integer then AInt (f64_to_int f) else AReal f)
   | WAtom a \<Rightarrow> Inr a
   | _ \<Rightarrow> Inl (Errorf ''element of the enumeration is not an atom''))"

text \<open>An enumeration is the second element of an array, whatever the first one is, or a single element.\<close>

definition readEnum :: "bool \<Rightarrow> json \<Rightarrow> atom list option result" where
  "readEnum integer j = (case j of
     JArr xs \<Rightarrow> bindR (setItems (tl xs)) (\<lambda>ys. bindR (mapR (enumAtom integer) ys) (\<lambda>as. Inr (Some as)))
   | _ \<Rightarrow> bindR (enumAtom integer j) (\<lambda>a. Inr (Some [a])))"

definition emptyBase :: "ExtendedType \<Rightarrow> BaseType" where
  "emptyBase t = \<lparr>bType = t, bEnum = None, minReal = None, maxReal = None, minInteger = None, maxInteger = None,
     minLength = None, maxLength = None, refTableP = None, refTypeP = None\<rparr>"

text \<open>\<open>UnmarshalJSON\<close> stores the maximal length as the minimal length, and never reads the one that was sent.\<close>

definition unmarshalBase :: "json \<Rightarrow> BaseType result" where
  "unmarshalBase j = (case j of
     JStr s \<Rightarrow> if isAtomicType (typeOfName s) then Inr (emptyBase (typeOfName s)) else Inl (Errorf ''non atomic type in <base-type>'')
   | JNull \<Rightarrow> Inl (Errorf ''non atomic type in <base-type>'')
   | _ \<Rightarrow>
       bindR (readObj j) (\<lambda>m.
       bindR (readField ''type'' [] readStr m) (\<lambda>ty.
       bindR (readField ''minReal'' None (someOf readReal) m) (\<lambda>minr.
       bindR (readField ''maxReal'' None (someOf readReal) m) (\<lambda>maxr.
       bindR (readField ''minInteger'' None (someOf readWord) m) (\<lambda>mini.
       bindR (readField ''maxInteger'' None (someOf readWord) m) (\<lambda>maxi.
       bindR (readField ''minLength'' None (someOf readWord) m) (\<lambda>minl.
       bindR (readField ''maxLength'' None (someOf readWord) m) (\<lambda>maxl.
       bindR (readField ''refTable'' None (someOf readStr) m) (\<lambda>reft.
       bindR (readField ''refType'' None (someOf readStr) m) (\<lambda>refty.
       bindR (readField ''enum'' None (readEnum (ty = ''integer'')) m) (\<lambda>enum.
         Inr \<lparr>bType = typeOfName ty, bEnum = enum, minReal = minr, maxReal = maxr, minInteger = mini, maxInteger = maxi,
              minLength = maxl, maxLength = maxl, refTableP = reft, refTypeP = map_option refTypeOfName refty\<rparr>))))))))))))"

section \<open>Column types\<close>

definition typeFields :: "ColumnType \<Rightarrow> (string \<times> json result) list" where
  "typeFields c =
     [(''key'', encPtr marshalBase (Key c))]
     @ optField ''value'' marshalBase (Value c)
     @ optField ''min'' writeInt (minP c)
     @ (if Max c = Unlimited then [(''max'', Inr (JStr ''unlimited''))] else optField ''max'' writeInt (maxP c))"

definition marshalType :: "ColumnType \<Rightarrow> json result" where
  "marshalType c =
     (if Value c = None \<and> maxP c = None \<and> minP c = None
      then (case Key c of
              None \<Rightarrow> Inl (Panic ''nil pointer dereference'')
            | Some b \<Rightarrow> if simpleAtomic b then Inr (JStr (typeName (bType b))) else marshalFields (typeFields c))
      else marshalFields (typeFields c))"

definition readMax :: "json \<Rightarrow> int option result" where
  "readMax j = (case j of
     JStr s \<Rightarrow> if s = ''unlimited'' then Inr (Some Unlimited) else Inl (Errorf ''unexpected string value in max field'')
   | JInt i \<Rightarrow> Inr (Some (sint (f64_to_int (f64_of_int i))))
   | JFloat f \<Rightarrow> Inr (Some (sint (f64_to_int f)))
   | _ \<Rightarrow> Inr None)"

definition unmarshalType :: "json \<Rightarrow> ColumnType result" where
  "unmarshalType j = (case j of
     JStr s \<Rightarrow> if isAtomicType (typeOfName s)
       then Inr \<lparr>Key = Some (emptyBase (typeOfName s)), Value = None, minP = None, maxP = None\<rparr>
       else Inl (Errorf ''non atomic type in <type>'')
   | JNull \<Rightarrow> Inl (Errorf ''non atomic type in <type>'')
   | _ \<Rightarrow>
       bindR (readObj j) (\<lambda>m.
       bindR (readField ''key'' None (someOf unmarshalBase) m) (\<lambda>key.
       bindR (readField ''value'' None (someOf unmarshalBase) m) (\<lambda>val.
       bindR (readField ''min'' None (someOf readInt) m) (\<lambda>mn.
       bindR (readField ''max'' None readMax m) (\<lambda>mx.
         Inr \<lparr>Key = key, Value = val, minP = mn, maxP = mx\<rparr>))))))"

section \<open>Columns, tables and databases\<close>

definition marshalColumn :: "ColumnSchema \<Rightarrow> json result" where
  "marshalColumn c = marshalFields ([(''type'', encPtr marshalType (TypeObj c))]
     @ optField ''ephemeral'' writeBool (ephemeral c) @ optField ''mutable'' writeBool (mutable c))"

text \<open>A column without a type makes the decoder panic; any other fault of its object is reported with one message.\<close>

definition unmarshalColumn :: "json \<Rightarrow> ColumnSchema result" where
  "unmarshalColumn j =
     (case bindR (readObj j) (\<lambda>m.
           bindR (readField ''type'' None (someOf unmarshalType) m) (\<lambda>ty.
           bindR (readField ''ephemeral'' None (someOf readBool) m) (\<lambda>eph.
           bindR (readField ''mutable'' None (someOf readBool) m) (\<lambda>mut. Inr (ty, eph, mut))))) of
        Inl (Panic s) \<Rightarrow> Inl (Panic s)
      | Inl _ \<Rightarrow> Inl (Errorf ''cannot parse column object'')
      | Inr (None, _, _) \<Rightarrow> Inl (Panic ''nil pointer dereference'')
      | Inr (Some ty, eph, mut) \<Rightarrow> newColumn ty eph mut)"

definition marshalTable :: "TableSchema \<Rightarrow> json result" where
  "marshalTable t = marshalFields ([(''columns'', encObj marshalColumn (Columns t))]
     @ omit (Indexes t = []) ''indexes'' (writeList (writeList writeStr) (Indexes t))
     @ omit (\<not> IsRootF t) ''isRoot'' (writeBool (IsRootF t)))"

text \<open>
  The columns of a table are pointers in the code, which keeps a nil pointer for a \<open>null\<close> column and dereferences it when the column is used.
  The model of a table has no such columns, and stops at one here.
\<close>

definition unmarshalTable :: "json \<Rightarrow> TableSchema result" where
  "unmarshalTable j =
     bindR (readObj j) (\<lambda>m.
     bindR (readField ''columns'' [] (decObj unmarshalColumn) m) (\<lambda>cols.
     bindR (readField ''indexes'' [] (readList (nullOr [] (readList readStr))) m) (\<lambda>idx.
     bindR (readField ''isRoot'' False readBool m) (\<lambda>root.
       Inr \<lparr>Columns = cols, Indexes = idx, IsRootF = root\<rparr>))))"

definition marshalSchema :: "DatabaseSchema \<Rightarrow> json result" where
  "marshalSchema s = marshalFields [(''name'', writeStr (Name s)), (''version'', writeStr (Version s)), (''tables'', encObj marshalTable (Tables s))]"

definition unmarshalSchema :: "json \<Rightarrow> DatabaseSchema result" where
  "unmarshalSchema j =
     bindR (readObj j) (\<lambda>m.
     bindR (readField ''name'' [] readStr m) (\<lambda>name.
     bindR (readField ''version'' [] readStr m) (\<lambda>version.
     bindR (readField ''tables'' [] (decObj unmarshalTable) m) (\<lambda>tables.
       Inr \<lparr>Name = name, Version = version, Tables = tables, allTablesRoot = None\<rparr>))))"

section \<open>Schemas that survive\<close>

definition enumOk :: "bool \<Rightarrow> atom \<Rightarrow> bool" where
  "enumOk integer a = (case a of
     AInt w \<Rightarrow> integer \<and> \<bar>sint w\<bar> < 2 ^ 53
   | AReal f \<Rightarrow> \<not> integer \<and> f64_exp f \<noteq> 2047
   | AUUID _ \<Rightarrow> False
   | _ \<Rightarrow> True)"

definition finiteReal :: "f64 \<Rightarrow> bool" where "finiteReal f = (f64_exp f \<noteq> 2047)"

text \<open>The one condition on lengths is the fault of the codec: only equal lengths come back.\<close>

definition jsonBase :: "BaseType \<Rightarrow> bool" where
  "jsonBase b = (typeOfName (typeName (bType b)) = bType b \<and> bEnum b \<noteq> Some [] \<and> list_all (enumOk (bType b = TypeInteger)) (elems (bEnum b))
     \<and> pred_option finiteReal (minReal b) \<and> pred_option finiteReal (maxReal b) \<and> minLength b = maxLength b
     \<and> pred_option (\<lambda>t. refTypeOfName (refTypeName t) = t) (refTypeP b))"

definition jsonType :: "ColumnType \<Rightarrow> bool" where
  "jsonType c = (Key c \<noteq> None \<and> pred_option jsonBase (Key c) \<and> pred_option jsonBase (Value c)
     \<and> pred_option (\<lambda>i. - (2 ^ 63) \<le> i \<and> i < 2 ^ 63) (minP c) \<and> pred_option (\<lambda>i. \<bar>i\<bar> < 2 ^ 53) (maxP c))"

definition jsonColumn :: "ColumnSchema \<Rightarrow> bool" where
  "jsonColumn c = (case TypeObj c of None \<Rightarrow> False | Some t \<Rightarrow> jsonType t \<and> inferType t = Inr (cType c))"

definition jsonTable :: "TableSchema \<Rightarrow> bool" where
  "jsonTable t = list_all (\<lambda>(_, c). jsonColumn c) (Columns t)"

definition jsonSchema :: "DatabaseSchema \<Rightarrow> bool" where
  "jsonSchema s = list_all (\<lambda>(_, t). jsonTable t) (Tables s)"

section \<open>Round trips\<close>

lemma optField_omit: "optField k enc x = omit (x = None) k (enc (the x))"
  by (cases x) (simp_all add: optField_def omit_def)

lemma list_all_omit: "list_all (\<lambda>(_, r). isOk r) (omit b k r) = (b \<or> isOk r)"
  by (simp add: omit_def)

lemma enum_atom: "enumOk i a \<Longrightarrow> \<exists>j. marshalAtom a = Inr j \<and> enumAtom i j = Inr a \<and> j \<noteq> JNull \<and> (\<forall>xs. j \<noteq> JArr xs)"
  by (cases a) (auto simp: enumOk_def enumAtom_def leaf_def sint_small)

interpretation enums: codec marshalAtom "enumAtom i" "enumOk i" "\<lambda>a. a" for i
  by unfold_locales (use enum_atom in blast)

lemma enum_set:
  assumes "list_all (enumOk i) as" "as \<noteq> []"
  shows "\<exists>j. marshalSet as = Inr j \<and> readEnum i j = Inr (Some as) \<and> j \<noteq> JNull"
proof -
  obtain js where js: "mapR marshalAtom as = Inr js" "mapR (enumAtom i) js = Inr as" using enums.elements [OF assms(1)] by auto
  show ?thesis
  proof (cases "\<exists>a. as = [a]")
    case True
    then obtain a where a: "as = [a]" by blast
    then obtain j where "marshalAtom a = Inr j" "enumAtom i j = Inr a" "j \<noteq> JNull" "\<forall>xs. j \<noteq> JArr xs" using enum_atom assms(1) by fastforce
    then show ?thesis using a by (cases j) (auto simp: marshalSet_def readEnum_def)
  next
    case False
    then have "marshalSet as = Inr (JArr [JStr ''set'', JArr js])" using js(1) assms(2) by (auto simp: marshalSet_def split: list.splits)
    then show ?thesis using js(2) by (simp add: readEnum_def setItems_def)
  qed
qed

lemma word_field: "\<exists>j. writeWord w = Inr j \<and> j \<noteq> JNull \<and> someOf readWord j = Inr (Some w)"
  using sint_range_size [of w] by (simp add: writeWord_def someOf_def readWord_def readInt_def word_size)

lemma real_field: "finiteReal f \<Longrightarrow> \<exists>j. writeReal f = Inr j \<and> j \<noteq> JNull \<and> someOf readReal j = Inr (Some f)"
  by (simp add: finiteReal_def writeReal_def someOf_def readReal_def)

lemma base_roundtrip:
  assumes "jsonBase b"
  shows "\<exists>m. marshalBase b = Inr (JObj m) \<and> unmarshalBase (JObj m) = Inr b"
proof -
  note j = assms [unfolded jsonBase_def]
  have e: "\<exists>j. marshalSet (elems (bEnum b)) = Inr j \<and> j \<noteq> JNull \<and> readEnum (bType b = TypeInteger) j = Inr (bEnum b)" if "elems (bEnum b) \<noteq> []"
    using enum_set [of "bType b = TypeInteger" "elems (bEnum b)"] j that by (cases "bEnum b") auto
  have r: "isOk (writeReal f)" if "finiteReal f" for f using real_field [OF that] by auto
  have e': "elems (bEnum b) = [] \<or> isOk (marshalSet (elems (bEnum b)))" using e by (cases "elems (bEnum b) = []") auto
  have "list_all (\<lambda>(_, r). isOk r) (baseFields b)"
    using e' r j by (cases "minReal b"; cases "maxReal b") (auto simp: baseFields_def optField_omit list_all_omit writeWord_def writeStr_def)
  then obtain m where m: "marshalFields (baseFields b) = Inr (JObj m)" using marshalFields_ok by blast
  note F = readField_omit [OF m]
  note fs = baseFields_def map_add_def map_of_omit optField_omit
  have ty: "readField ''type'' [] readStr m = Inr (typeName (bType b))"
    by (rule F [of _ "typeName (bType b) = []" "Inr (JStr (typeName (bType b)))"], simp add: fs) (auto simp: readStr_def)
  have int: "(typeName (bType b) = ''integer'') = (bType b = TypeInteger)"
    using j by (cases "bType b") (auto simp: typeOfName_def knownTypes_def)
  have "readField ''enum'' None (readEnum (bType b = TypeInteger)) m = Inr (bEnum b)"
    by (rule F [of _ "elems (bEnum b) = []" "marshalSet (elems (bEnum b))"], simp add: fs) (use e j in \<open>auto simp: elems_def split: option.splits\<close>)
  moreover have "readField ''minReal'' None (someOf readReal) m = Inr (minReal b)"
    by (rule F [of _ "minReal b = None" "writeReal (the (minReal b))"], simp add: fs) (use real_field j in auto)
  moreover have "readField ''maxReal'' None (someOf readReal) m = Inr (maxReal b)"
    by (rule F [of _ "maxReal b = None" "writeReal (the (maxReal b))"], simp add: fs) (use real_field j in auto)
  moreover have "readField ''minInteger'' None (someOf readWord) m = Inr (minInteger b)"
    by (rule F [of _ "minInteger b = None" "writeWord (the (minInteger b))"], simp add: fs) (use word_field in auto)
  moreover have "readField ''maxInteger'' None (someOf readWord) m = Inr (maxInteger b)"
    by (rule F [of _ "maxInteger b = None" "writeWord (the (maxInteger b))"], simp add: fs) (use word_field in auto)
  moreover have "readField ''minLength'' None (someOf readWord) m = Inr (maxLength b)"
    by (rule F [of _ "maxLength b = None" "writeWord (the (maxLength b))"], simp add: fs) (use word_field in auto)
  moreover have "readField ''maxLength'' None (someOf readWord) m = Inr (maxLength b)"
    by (rule F [of _ "maxLength b = None" "writeWord (the (maxLength b))"], simp add: fs) (use word_field in auto)
  moreover have "readField ''refTable'' None (someOf readStr) m = Inr (refTableP b)"
    by (rule F [of _ "refTableP b = None" "writeStr (the (refTableP b))"], simp add: fs) (auto simp: writeStr_def someOf_def readStr_def)
  moreover have "readField ''refType'' None (someOf readStr) m = Inr (map_option refTypeName (refTypeP b))"
    by (rule F [of _ "refTypeP b = None" "writeStr (refTypeName (the (refTypeP b)))"], simp add: fs) (auto simp: writeStr_def someOf_def readStr_def)
  moreover have "map_option refTypeOfName (map_option refTypeName (refTypeP b)) = refTypeP b" using j by (cases "refTypeP b") auto
  ultimately have "unmarshalBase (JObj m) = Inr b" using j ty unfolding unmarshalBase_def by (simp add: readObj_def int)
  then show ?thesis using m by (simp add: marshalBase_def)
qed

interpretation bases: codec marshalBase unmarshalBase jsonBase "\<lambda>b. b"
  by unfold_locales (use base_roundtrip in blast)

lemma base_field: "jsonBase b \<Longrightarrow> \<exists>j. marshalBase b = Inr j \<and> j \<noteq> JNull \<and> someOf unmarshalBase j = Inr (Some b)"
  using base_roundtrip [of b] by (auto simp: someOf_def)


lemma int_field: "- (2 ^ 63) \<le> i \<Longrightarrow> i < 2 ^ 63 \<Longrightarrow> \<exists>j. writeInt i = Inr j \<and> j \<noteq> JNull \<and> someOf readInt j = Inr (Some i)"
  by (simp add: writeInt_def someOf_def readInt_def)

lemma bool_field: "\<exists>j. writeBool b = Inr j \<and> j \<noteq> JNull \<and> someOf readBool j = Inr (Some b)"
  by (simp add: writeBool_def someOf_def readBool_def)

lemma small_int: "\<bar>i\<bar> < 2 ^ 53 \<Longrightarrow> sint (word_of_int i :: 64 word) = i"
  unfolding sint_sbintrunc' by (rule signed_take_bit_int_eq_self) auto

lemma max_field:
  assumes "pred_option (\<lambda>i. \<bar>i\<bar> < 2 ^ 53) (maxP c)" "maxP c \<noteq> None"
  shows "\<exists>j. (if Max c = Unlimited then Inr (JStr ''unlimited'') else writeInt (the (maxP c))) = Inr j \<and> j \<noteq> JNull \<and> readMax j = Inr (maxP c)"
  using assms by (auto simp: Max_def writeInt_def readMax_def f64_of_int_exact small_int)

lemma type_roundtrip:
  assumes "jsonType c"
  shows "\<exists>j. marshalType c = Inr j \<and> j \<noteq> JNull \<and> unmarshalType j = Inr c"
proof -
  note t = assms [unfolded jsonType_def]
  obtain k where k: "Key c = Some k" "jsonBase k" using t by (cases "Key c") auto
  show ?thesis
  proof (cases "Value c = None \<and> maxP c = None \<and> minP c = None \<and> simpleAtomic k")
    case True
    then show ?thesis using k
      by (cases c, cases k) (auto simp: marshalType_def unmarshalType_def simpleAtomic_def emptyBase_def jsonBase_def)
  next
    case False
    then have enc: "marshalType c = marshalFields (typeFields c)" using k by (auto simp: marshalType_def)
    let ?mx = "if Max c = Unlimited then Inr (JStr ''unlimited'') else writeInt (the (maxP c))"
    have mx: "(if Max c = Unlimited then [(''max'', Inr (JStr ''unlimited''))] else optField ''max'' writeInt (maxP c))
        = omit (maxP c = None) ''max'' ?mx"
      by (auto simp: optField_omit omit_def Max_def Unlimited_def)
    have kv: "isOk (marshalBase b)" if "jsonBase b" for b using base_field [OF that] by auto
    have "list_all (\<lambda>(_, r). isOk r) (typeFields c)" unfolding typeFields_def mx
      using k kv t by (cases "Value c") (auto simp: optField_omit list_all_omit encPtr_def writeInt_def)
    then obtain m where m: "marshalFields (typeFields c) = Inr (JObj m)" using marshalFields_ok by blast
    note F = readField_omit [OF m]
    note fs = typeFields_def map_add_def map_of_omit optField_omit mx
    have "readField ''key'' None (someOf unmarshalBase) m = Inr (Key c)"
      by (rule F [of _ False "marshalBase k"], simp add: fs k encPtr_def) (use base_field k in auto)
    moreover have "readField ''value'' None (someOf unmarshalBase) m = Inr (Value c)"
      by (rule F [of _ "Value c = None" "marshalBase (the (Value c))"], simp add: fs) (use base_field t in auto)
    moreover have "readField ''min'' None (someOf readInt) m = Inr (minP c)"
      by (rule F [of _ "minP c = None" "writeInt (the (minP c))"], simp add: fs) (use int_field t in auto)
    moreover have "readField ''max'' None readMax m = Inr (maxP c)"
      by (rule F [of _ "maxP c = None" ?mx], simp add: fs, simp) (use max_field t in blast)
    ultimately show ?thesis using m enc unfolding unmarshalType_def by (simp add: readObj_def)
  qed
qed

lemma column_roundtrip:
  assumes "jsonColumn c"
  shows "\<exists>j. marshalColumn c = Inr j \<and> unmarshalColumn j = Inr c"
proof -
  obtain t where t: "TypeObj c = Some t" "jsonType t" "inferType t = Inr (cType c)" using assms by (auto simp: jsonColumn_def split: option.splits)
  let ?fs = "[(''type'', encPtr marshalType (TypeObj c))]
     @ optField ''ephemeral'' writeBool (ephemeral c) @ optField ''mutable'' writeBool (mutable c)"
  have ty: "\<exists>j. marshalType t = Inr j \<and> j \<noteq> JNull \<and> someOf unmarshalType j = Inr (TypeObj c)"
    using type_roundtrip [OF t(2)] t(1) by (auto simp: someOf_def)
  then have "list_all (\<lambda>(_, r). isOk r) ?fs" using t(1) by (auto simp: optField_omit list_all_omit encPtr_def writeBool_def)
  then obtain m where m: "marshalFields ?fs = Inr (JObj m)" using marshalFields_ok by blast
  note F = readField_omit [OF m]
  note fs = map_add_def map_of_omit optField_omit
  have "readField ''type'' None (someOf unmarshalType) m = Inr (TypeObj c)"
    by (rule F [of _ False "marshalType t"], simp add: fs t encPtr_def, simp) (use ty in simp)
  moreover have "readField ''ephemeral'' None (someOf readBool) m = Inr (ephemeral c)"
    by (rule F [of _ "ephemeral c = None" "writeBool (the (ephemeral c))"], simp add: fs) (use bool_field in auto)
  moreover have "readField ''mutable'' None (someOf readBool) m = Inr (mutable c)"
    by (rule F [of _ "mutable c = None" "writeBool (the (mutable c))"], simp add: fs) (use bool_field in auto)
  ultimately have "unmarshalColumn (JObj m) = Inr c" unfolding unmarshalColumn_def by (simp add: readObj_def t newColumn_def)
  then show ?thesis using m by (simp add: marshalColumn_def)
qed

interpretation columns: codec marshalColumn unmarshalColumn jsonColumn "\<lambda>c. c"
  by unfold_locales (rule column_roundtrip)

interpretation indexes: codec "writeList writeStr" "nullOr [] (readList readStr)" "\<lambda>_. True" "\<lambda>xs. xs"
proof
  fix xs :: "string list"
  have "\<exists>j. writeList writeStr xs = Inr j \<and> readList readStr j = Inr xs \<and> j \<noteq> JNull"
    using strings.list [of xs] by (simp add: writeStr_def [abs_def] list_all_iff)
  then show "\<exists>j. writeList writeStr xs = Inr j \<and> nullOr [] (readList readStr) j = Inr xs" by (auto simp: nullOr_def split: json.splits)
qed

lemma table_roundtrip:
  assumes "jsonTable t"
  shows "\<exists>j. marshalTable t = Inr j \<and> unmarshalTable j = Inr t"
proof -
  let ?fs = "[(''columns'', encObj marshalColumn (Columns t))]
     @ omit (Indexes t = []) ''indexes'' (writeList (writeList writeStr) (Indexes t))
     @ omit (\<not> IsRootF t) ''isRoot'' (writeBool (IsRootF t))"
  have cols: "\<exists>j. encObj marshalColumn (Columns t) = Inr j \<and> j \<noteq> JNull \<and> decObj unmarshalColumn j = Inr (Columns t)"
    using columns.object [of "Columns t"] assms by (auto simp: jsonTable_def onValues_def encObj_def resR)
  have idx: "\<exists>j. writeList (writeList writeStr) (Indexes t) = Inr j \<and> j \<noteq> JNull
      \<and> readList (nullOr [] (readList readStr)) j = Inr (Indexes t)"
    using indexes.list [of "Indexes t"] by (auto simp: list_all_iff)
  have "list_all (\<lambda>(_, r). isOk r) ?fs" using cols idx by (auto simp: list_all_omit writeBool_def)
  then obtain m where m: "marshalFields ?fs = Inr (JObj m)" using marshalFields_ok by blast
  note F = readField_omit [OF m]
  note fs = map_add_def map_of_omit
  have "readField ''columns'' [] (decObj unmarshalColumn) m = Inr (Columns t)"
    by (rule F [of _ False "encObj marshalColumn (Columns t)"], simp add: fs, simp) (use cols in simp)
  moreover have "readField ''indexes'' [] (readList (nullOr [] (readList readStr))) m = Inr (Indexes t)"
    by (rule F [of _ "Indexes t = []" "writeList (writeList writeStr) (Indexes t)"], simp add: fs, simp) (use idx in simp)
  moreover have "readField ''isRoot'' False readBool m = Inr (IsRootF t)"
    by (rule F [of _ "\<not> IsRootF t" "writeBool (IsRootF t)"], simp add: fs, simp) (simp add: writeBool_def readBool_def)
  ultimately have "unmarshalTable (JObj m) = Inr t" unfolding unmarshalTable_def by (simp add: readObj_def)
  then show ?thesis using m by (simp add: marshalTable_def)
qed

interpretation tables: codec marshalTable unmarshalTable jsonTable "\<lambda>t. t"
  by unfold_locales (rule table_roundtrip)



section \<open>Lengths and the printed form of a column\<close>

text \<open>
  The minimal length of a base type is lost: a type with a minimal length and no maximal one comes back without either, and one with a
  maximal length comes back with a minimal length that nobody gave.
\<close>

lemma minLength_lost:
  "bindR (marshalBase ((emptyBase TypeString)\<lparr>minLength := Some 3\<rparr>)) unmarshalBase = Inr (emptyBase TypeString)"
  "bindR (marshalBase ((emptyBase TypeString)\<lparr>maxLength := Some 3\<rparr>)) unmarshalBase
     = Inr ((emptyBase TypeString)\<lparr>minLength := Some 3, maxLength := Some 3\<rparr>)"
  by code_simp+

text \<open>
  \<open>String\<close> of a column. The text of a real number in an enumeration is a parameter. The error test of the reference type of a \<open>uuid\<close> column is
  inverted, so its text is empty there; that of a set is not.
\<close>

primrec showAtom :: "(f64 \<Rightarrow> string) \<Rightarrow> atom \<Rightarrow> string" where
  "showAtom showReal (AInt w) = showInt (sint w)"
| "showAtom showReal (AReal f) = showReal f"
| "showAtom showReal (ABool b) = (if b then ''true'' else ''false'')"
| "showAtom showReal (AStr s) = s"
| "showAtom showReal (AUUID u) = ''{'' @ u @ ''}''"

definition orEmpty :: "string result \<Rightarrow> string" where
  "orEmpty r = (case r of Inl _ \<Rightarrow> [] | Inr s \<Rightarrow> s)"

definition columnFlags :: "ColumnSchema \<Rightarrow> string" where
  "columnFlags c =
     (let flags = (if Ephemeral c then [''E''] else []) @ (if Mutable c then [''M''] else [])
      in if flags \<noteq> [] then ''['' @ join '','' flags @ '']'' else [])"

definition keyOf :: "ColumnSchema \<Rightarrow> BaseType result" where
  "keyOf c = (case TypeObj c of
     None \<Rightarrow> Inl (Panic ''nil pointer dereference'')
   | Some t \<Rightarrow> (case Key t of None \<Rightarrow> Inl (Panic ''nil pointer dereference'') | Some k \<Rightarrow> Inr k))"

definition columnTypeString :: "(f64 \<Rightarrow> string) \<Rightarrow> ColumnSchema \<Rightarrow> string result" where
  "columnTypeString showReal c = (case cType c of
     TypeUUID \<Rightarrow> (case keyOf c of
         Inr k \<Rightarrow> Inr (''uuid ['' @ orEmpty (RefTable k) @ '' ('' @ (case BaseRefType k of Inl _ \<Rightarrow> [] | Inr _ \<Rightarrow> []) @ '')]'')
       | Inl _ \<Rightarrow> Inr ''uuid'')
   | TypeEnum \<Rightarrow> bindR (keyOf c) (\<lambda>k.
       Inr (''enum (type: '' @ typeName (bType k) @ ''): ['' @ join '' '' (map (showAtom showReal) (elems (bEnum k))) @ '']''))
   | TypeMap \<Rightarrow> bindR (keyOf c) (\<lambda>k. case Value (the (TypeObj c)) of
         None \<Rightarrow> Inl (Panic ''nil pointer dereference'')
       | Some v \<Rightarrow> Inr (''['' @ typeName (bType k) @ '']'' @ typeName (bType v)))
   | TypeSet \<Rightarrow> bindR (keyOf c) (\<lambda>k.
       let keyStr = (if bType k = TypeUUID
             then '' ['' @ orEmpty (RefTable k) @ '' ('' @ (case BaseRefType k of Inl _ \<Rightarrow> [] | Inr t \<Rightarrow> refTypeName t) @ '')]''
             else typeName (bType k))
       in Inr (''[]'' @ keyStr @ '' (min: '' @ showInt (Min (the (TypeObj c))) @ '', max: '' @ showInt (Max (the (TypeObj c))) @ '')''))
   | TypeOther _ \<Rightarrow> Inl (Panic ''Unsupported type'')
   | _ \<Rightarrow> Inr (typeName (cType c)))"

definition columnString :: "(f64 \<Rightarrow> string) \<Rightarrow> ColumnSchema \<Rightarrow> string result" where
  "columnString showReal c = bindR (columnTypeString showReal c) (\<lambda>typeStr. Inr (join '' '' [typeStr, columnFlags c]))"

text \<open>Two columns that refer to a table, one strongly and one weakly, print the same.\<close>

definition exRefColumn :: "RefType \<Rightarrow> ColumnSchema" where
  "exRefColumn t = \<lparr>cType = TypeUUID, TypeObj = Some \<lparr>Key = Some ((emptyBase TypeUUID)\<lparr>refTableP := Some ''Port'', refTypeP := Some t\<rparr>),
     Value = None, minP = None, maxP = None\<rparr>, ephemeral = None, mutable = None\<rparr>"

lemma reference_type_not_printed:
  "columnString showReal (exRefColumn Strong) = Inr ''uuid [Port ()] [M]''"
  "columnString showReal (exRefColumn Weak) = Inr ''uuid [Port ()] [M]''"
  by (simp_all add: columnString_def columnTypeString_def exRefColumn_def keyOf_def RefTable_def BaseRefType_def emptyBase_def orEmpty_def
      columnFlags_def Ephemeral_def Mutable_def join_def)

text \<open>The columns of a well-formed schema print without a panic.\<close>

lemma columnString_total:
  assumes "wfColumn c"
  shows "isOk (columnString showReal c)"
proof (cases "c = UUIDColumn")
  case True
  then show ?thesis by (simp add: UUIDColumn_def columnString_def columnTypeString_def keyOf_def)
next
  case False
  then obtain t k where "TypeObj c = Some t" "Key t = Some k" "isAtomicType (bType k)" "inferType t = Inr (cType c)"
    using assms by (auto simp: wfColumn_def wfBase_def)
  then show ?thesis
    by (cases "cType c") (auto simp: columnString_def columnTypeString_def keyOf_def Let_def inferType_def isAtomicType_def resR split: if_splits option.splits)
qed

end
