(* ===== verification/ModelGen.thy ===== *)
theory ModelGen
  imports SchemaJson
begin

text \<open>
  The model generator (\<open>modelgen/table.go\<close>, \<open>modelgen/dbmodel.go\<close>, \<open>modelgen/generator.go\<close>, \<open>modelgen/options.go\<close> and the command
  \<open>cmd/modelgen\<close>): the names, types, tags and values that are written into Go sources, the data given to the templates, the files that are
  written, and the struct types and methods that the generated sources declare. The title caser of \<open>golang.org/x/text\<close>, the template engine, the
  formatter of Go sources and the texts of reals are parameters. The last sections tie the generator to the library: the client
  model of a generated package passes \<open>NewClientDBModel\<close> and \<open>NewDatabaseModel\<close> for the schema it was generated from.
\<close>

section \<open>Names\<close>

text \<open>
  Letters and the changes of case are those of ASCII, to which the names of a schema are restricted. \<open>title\<close> stands for the title caser of
  \<open>golang.org/x/text/cases\<close>, with the option that leaves the other letters as they are.
\<close>

definition upperC :: "char \<Rightarrow> bool" where "upperC c = (CHR ''A'' \<le> c \<and> c \<le> CHR ''Z'')"
definition lowerC :: "char \<Rightarrow> bool" where "lowerC c = (CHR ''a'' \<le> c \<and> c \<le> CHR ''z'')"

definition toLower :: "string \<Rightarrow> string" where
  "toLower = map (\<lambda>c. if upperC c then char_of (of_char c + 32 :: nat) else c)"

definition toUpperC :: "char \<Rightarrow> char" where
  "toUpperC c = (if lowerC c then char_of (of_char c - 32 :: nat) else c)"

definition toUpper :: "string \<Rightarrow> string" where "toUpper = map toUpperC"

definition trimUnderscore :: "string \<Rightarrow> string" where
  "trimUnderscore s = rev (dropWhile (\<lambda>c. c = CHR ''_'') (rev (dropWhile (\<lambda>c. c = CHR ''_'') s)))"

function (sequential) fieldsFunc :: "(char \<Rightarrow> bool) \<Rightarrow> string \<Rightarrow> string list" where
  "fieldsFunc sep [] = []"
| "fieldsFunc sep (c # cs) =
     (if sep c then fieldsFunc sep cs
      else (c # takeWhile (\<lambda>c. \<not> sep c) cs) # fieldsFunc sep (dropWhile (\<lambda>c. \<not> sep c) cs))"
  by pat_completeness auto
termination by (relation "measure (length \<circ> snd)") (auto simp: le_imp_less_Suc length_dropWhile_le)

definition initialisms :: "string list" where
  "initialisms = [''ACL'', ''BFD'', ''CFM'', ''CT'', ''CVLAN'', ''DNS'', ''DSCP'', ''ID'', ''IP'', ''IPFIX'', ''LACP'', ''LLDP'', ''MAC'', ''MTU'', ''OVS'',
     ''QOS'', ''RSTP'', ''SSL'', ''STP'', ''TCP'', ''SCTP'', ''UDP'', ''UUID'', ''VLAN'', ''STT'', ''DNAT'', ''SNAT'', ''ICMP'', ''SLB'']"

definition expandInitilaisms :: "string \<Rightarrow> string" where
  "expandInitilaisms s =
     (if toUpper s \<in> set initialisms then toUpper s
      else if s \<noteq> [] \<and> last s = CHR ''s'' \<and> toUpper (butlast s) \<in> set initialisms then toUpper (butlast s) @ ''s''
      else s)"

definition camelCase :: "(string \<Rightarrow> string) \<Rightarrow> string \<Rightarrow> string" where
  "camelCase title field =
     (let s = toLower field; parts = fieldsFunc (\<lambda>r. r = CHR ''_'' \<or> r = CHR ''-'') s
      in if length parts > 1 then concat (map (\<lambda>p. title (expandInitilaisms p)) parts)
         else title (expandInitilaisms s))"

definition FieldName :: "(string \<Rightarrow> string) \<Rightarrow> string \<Rightarrow> string" where
  "FieldName title column = camelCase title (trimUnderscore column)"

definition StructName :: "(string \<Rightarrow> string) \<Rightarrow> string \<Rightarrow> string" where
  "StructName title tableName = title (filter (\<lambda>c. c \<noteq> CHR ''_'') tableName)"

definition enumName :: "(string \<Rightarrow> string) \<Rightarrow> string \<Rightarrow> string \<Rightarrow> string" where
  "enumName title tableName colName = title (StructName title tableName) @ camelCase title colName"

definition FileName :: "string \<Rightarrow> string" where
  "FileName table = toLower table @ ''.go''"

section \<open>Types\<close>

primrec AtomicType :: "ExtendedType \<Rightarrow> string" where
  "AtomicType TypeInteger = ''int''"
| "AtomicType TypeReal = ''float64''"
| "AtomicType TypeBoolean = ''bool''"
| "AtomicType TypeString = ''string''"
| "AtomicType TypeUUID = ''string''"
| "AtomicType TypeEnum = []"
| "AtomicType TypeMap = []"
| "AtomicType TypeSet = []"
| "AtomicType (TypeOther s) = []"

record Enum =
  eType :: ExtendedType
  Alias :: string
  Sets :: "atom list"

definition FieldEnum :: "(string \<Rightarrow> string) \<Rightarrow> string \<Rightarrow> string \<Rightarrow> ColumnSchema \<Rightarrow> Enum option result" where
  "FieldEnum title tableName colName column =
     (if TypeObj column = None then Inr None
      else bindR (keyOf column) (\<lambda>k. Inr (case bEnum k of
             None \<Rightarrow> None
           | Some sets \<Rightarrow> Some \<lparr>eType = bType k, Alias = enumName title tableName colName, Sets = sets\<rparr>)))"

text \<open>The name of the alias of an enumerated element, or else that of its atomic type.\<close>

definition elementType :: "(string \<Rightarrow> string) \<Rightarrow> string \<Rightarrow> string \<Rightarrow> ColumnSchema \<Rightarrow> bool \<Rightarrow> string result" where
  "elementType title tableName colName column enumTypes =
     bindR (if enumTypes then FieldEnum title tableName colName column else Inr None) (\<lambda>enum.
       if enum \<noteq> None then Inr (enumName title tableName colName)
       else bindR (keyType column) (\<lambda>kt. Inr (AtomicType kt)))"

definition genFieldType :: "(string \<Rightarrow> string) \<Rightarrow> string \<Rightarrow> string \<Rightarrow> ColumnSchema \<Rightarrow> bool \<Rightarrow> string result" where
  "genFieldType title tableName colName column enumTypes = (case cType column of
     TypeEnum \<Rightarrow> if enumTypes then Inr (enumName title tableName colName)
                 else bindR (keyType column) (\<lambda>kt. Inr (AtomicType kt))
   | TypeMap \<Rightarrow> bindR (keyType column) (\<lambda>kt. bindR (valueType column) (\<lambda>vt.
       Inr (''map['' @ AtomicType kt @ '']'' @ AtomicType vt)))
   | TypeSet \<Rightarrow> bindR (typeObj column) (\<lambda>t. bindR (elementType title tableName colName column enumTypes) (\<lambda>e.
       if Min t = 0 \<and> Max t = 1 then Inr (''*'' @ e)
       else if Min t = 1 \<and> Max t = 1 then Inr e
       else Inr (''[]'' @ e)))
   | t \<Rightarrow> Inr (AtomicType t))"

definition FieldType :: "(string \<Rightarrow> string) \<Rightarrow> string \<Rightarrow> string \<Rightarrow> ColumnSchema \<Rightarrow> string result" where
  "FieldType title tableName colName column = genFieldType title tableName colName column False"

definition FieldTypeWithEnums :: "(string \<Rightarrow> string) \<Rightarrow> string \<Rightarrow> string \<Rightarrow> ColumnSchema \<Rightarrow> string result" where
  "FieldTypeWithEnums title tableName colName column = genFieldType title tableName colName column True"

section \<open>Texts of values\<close>

text \<open>
  The verbs \<open>%d\<close>, \<open>%g\<close>, \<open>%t\<close> and \<open>%s\<close> of \<open>fmt.Sprintf\<close>: a value of another type is reported inside the text. \<open>showReal\<close> is the text of a real.
\<close>

primrec goTypeName :: "gotype \<Rightarrow> string" where
  "goTypeName GInt = ''int''"
| "goTypeName GFloat64 = ''float64''"
| "goTypeName GBool = ''bool''"
| "goTypeName GString = ''string''"
| "goTypeName GUUID = ''ovsdb.UUID''"

definition verbOf :: "gotype \<Rightarrow> string" where
  "verbOf t = (case t of GInt \<Rightarrow> ''d'' | GFloat64 \<Rightarrow> ''g'' | GBool \<Rightarrow> ''t'' | _ \<Rightarrow> ''s'')"

definition fmtAtom :: "(f64 \<Rightarrow> string) \<Rightarrow> string \<Rightarrow> atom \<Rightarrow> string" where
  "fmtAtom showReal verb a =
     (if verb = verbOf (atomType a) then showAtom showReal a
      else ''%!'' @ verb @ ''('' @ goTypeName (atomType a) @ ''='' @ showAtom showReal a @ '')'')"

definition fmtVerb :: "(f64 \<Rightarrow> string) \<Rightarrow> string \<Rightarrow> atom \<Rightarrow> string" where
  "fmtVerb showReal verb a = (case a of
     AUUID u \<Rightarrow> ''{'' @ fmtAtom showReal verb (AStr u) @ ''}''
   | _ \<Rightarrow> fmtAtom showReal verb a)"

definition quoteC :: string where "quoteC = [CHR 0x22]"

definition printVal :: "(f64 \<Rightarrow> string) \<Rightarrow> atom \<Rightarrow> ExtendedType \<Rightarrow> string" where
  "printVal showReal v t = (case t of
     TypeInteger \<Rightarrow> fmtVerb showReal ''d'' v
   | TypeReal \<Rightarrow> fmtVerb showReal ''g'' v
   | TypeBoolean \<Rightarrow> fmtVerb showReal ''t'' v
   | TypeString \<Rightarrow> quoteC @ fmtVerb showReal ''s'' v @ quoteC
   | TypeUUID \<Rightarrow> quoteC @ fmtVerb showReal ''s'' v @ quoteC
   | _ \<Rightarrow> [])"

primrec replaceFirst :: "char \<Rightarrow> char \<Rightarrow> string \<Rightarrow> string" where
  "replaceFirst a b [] = []"
| "replaceFirst a b (c # cs) = (if c = a then b # cs else c # replaceFirst a b cs)"

definition enumAliasSuffix :: "(string \<Rightarrow> string) \<Rightarrow> (f64 \<Rightarrow> string) \<Rightarrow> atom \<Rightarrow> ExtendedType \<Rightarrow> string" where
  "enumAliasSuffix title showReal v t = (case t of
     TypeInteger \<Rightarrow> fmtVerb showReal ''d'' v
   | TypeReal \<Rightarrow> replaceFirst (CHR ''.'') (CHR ''_'') (fmtVerb showReal ''g'' v)
   | TypeBoolean \<Rightarrow> fmtVerb showReal ''t'' v
   | TypeString \<Rightarrow> FieldName title (fmtVerb showReal ''s'' v)
   | TypeUUID \<Rightarrow> map (\<lambda>c. if c = CHR ''-'' then CHR ''_'' else c) (fmtVerb showReal ''s'' v)
   | _ \<Rightarrow> [])"

section \<open>Validation tags\<close>

definition floatEqual :: "f64 \<Rightarrow> f64 \<Rightarrow> bool" where
  "floatEqual a b = f64_lt (f64_sub a b AND mask 63) 0x3E112E0BE826D695"

definition boundRule :: "'a result \<Rightarrow> ('a \<Rightarrow> bool) \<Rightarrow> ('a \<Rightarrow> string) \<Rightarrow> string list" where
  "boundRule bound unbounded rule = (case bound of Inl _ \<Rightarrow> [] | Inr x \<Rightarrow> if unbounded x then [] else [rule x])"

definition getIntegerValidations :: "(f64 \<Rightarrow> string) \<Rightarrow> BaseType \<Rightarrow> string list" where
  "getIntegerValidations showReal b =
     boundRule (MinInteger b) (\<lambda>x. x = 0x8000000000000000) (\<lambda>x. ''min='' @ showInt (sint x))
     @ boundRule (MaxInteger b) (\<lambda>x. x = 0x7FFFFFFFFFFFFFFF) (\<lambda>x. ''max='' @ showInt (sint x))
     @ (if elems (bEnum b) \<noteq> [] then [''oneof='' @ join '' '' (map (showAtom showReal) (elems (bEnum b)))] else [])"

definition getRealValidations :: "(f64 \<Rightarrow> string) \<Rightarrow> BaseType \<Rightarrow> string list" where
  "getRealValidations showReal b =
     boundRule (MinReal b) (\<lambda>x. floatEqual x 1) (\<lambda>x. ''min='' @ showReal x)
     @ boundRule (MaxReal b) (\<lambda>x. floatEqual x 0x7FEFFFFFFFFFFFFF) (\<lambda>x. ''max='' @ showReal x)
     @ (if elems (bEnum b) \<noteq> [] then [join ''|'' (map (\<lambda>v. ''eq='' @ fmtVerb showReal ''g'' v) (elems (bEnum b)))] else [])"

definition quotedEnum :: "(f64 \<Rightarrow> string) \<Rightarrow> BaseType \<Rightarrow> string list" where
  "quotedEnum showReal b =
     (if elems (bEnum b) \<noteq> [] then [''oneof='' @ join '' '' (map (\<lambda>v. [CHR 0x27] @ fmtVerb showReal ''s'' v @ [CHR 0x27]) (elems (bEnum b)))] else [])"

definition getStringValidations :: "(f64 \<Rightarrow> string) \<Rightarrow> BaseType \<Rightarrow> string list" where
  "getStringValidations showReal b =
     boundRule (MaxLength b) (\<lambda>x. x = 0x7FFFFFFF \<or> x = 0x7FFFFFFFFFFFFFFF) (\<lambda>x. ''max='' @ showInt (sint x)) @ quotedEnum showReal b"

definition getUUIDValidations :: "(f64 \<Rightarrow> string) \<Rightarrow> BaseType \<Rightarrow> string list" where
  "getUUIDValidations showReal b = quotedEnum showReal b"

definition getBooleanValidations :: "BaseType \<Rightarrow> string list" where
  "getBooleanValidations b =
     (let includeTrue = list_ex (\<lambda>v. v = ABool True) (elems (bEnum b)); includeFalse = list_ex (\<lambda>v. v \<noteq> ABool True) (elems (bEnum b))
      in if includeTrue \<and> includeFalse then []
         else (if includeTrue then [''eq=true''] else []) @ (if includeFalse then [''eq=false''] else []))"

definition getAtomicValidations :: "(f64 \<Rightarrow> string) \<Rightarrow> BaseType option \<Rightarrow> string list" where
  "getAtomicValidations showReal bo = (case bo of None \<Rightarrow> [] | Some b \<Rightarrow> (case bType b of
     TypeInteger \<Rightarrow> getIntegerValidations showReal b
   | TypeReal \<Rightarrow> getRealValidations showReal b
   | TypeString \<Rightarrow> getStringValidations showReal b
   | TypeUUID \<Rightarrow> getUUIDValidations showReal b
   | TypeBoolean \<Rightarrow> getBooleanValidations b
   | _ \<Rightarrow> []))"

definition getCollectionSizeValidations :: "ColumnType \<Rightarrow> string list" where
  "getCollectionSizeValidations t =
     (if Min t > 0 then [''min='' @ showInt (Min t)] else []) @ (if Max t \<noteq> Unlimited then [''max='' @ showInt (Max t)] else [])"

definition getSetValidations :: "(f64 \<Rightarrow> string) \<Rightarrow> ColumnType \<Rightarrow> string list" where
  "getSetValidations showReal t =
     (let el = getAtomicValidations showReal (Key t)
      in getCollectionSizeValidations t @ (if el \<noteq> [] then ''dive'' # el else []))"

definition getMapValidations :: "(f64 \<Rightarrow> string) \<Rightarrow> ColumnType \<Rightarrow> string list" where
  "getMapValidations showReal t =
     (let kv = getAtomicValidations showReal (Key t); vv = getAtomicValidations showReal (Value t)
      in getCollectionSizeValidations t @
         (if kv = [] \<and> vv = [] then []
          else ''dive'' # (if kv \<noteq> [] then ''keys'' # kv else []) @ (if kv \<noteq> [] \<and> vv \<noteq> [] then [''endkeys''] else []) @ vv))"

definition getAtomicTypeValidations :: "(f64 \<Rightarrow> string) \<Rightarrow> ColumnSchema \<Rightarrow> string list" where
  "getAtomicTypeValidations showReal c = (case TypeObj c of
     None \<Rightarrow> getAtomicValidations showReal (Some (emptyBase (cType c)))
   | Some t \<Rightarrow> getAtomicValidations showReal (Key t))"

definition columnValidations :: "(f64 \<Rightarrow> string) \<Rightarrow> ColumnSchema \<Rightarrow> string list" where
  "columnValidations showReal c = (case TypeObj c of
     None \<Rightarrow> getAtomicTypeValidations showReal c
   | Some t \<Rightarrow> (case cType c of
       TypeSet \<Rightarrow>
         if Min t = 0 \<and> Max t = 1 then
           (let el = getAtomicValidations showReal (Key t) in if el \<noteq> [] then ''omitempty'' # el else [])
         else if Min t = 1 \<and> Max t = 1 then getAtomicValidations showReal (Key t)
         else getSetValidations showReal t
     | TypeMap \<Rightarrow> getMapValidations showReal t
     | _ \<Rightarrow> getAtomicTypeValidations showReal c))"

definition ValidationTag :: "(f64 \<Rightarrow> string) \<Rightarrow> ColumnSchema \<Rightarrow> string" where
  "ValidationTag showReal c =
     (let vs = filter (\<lambda>v. v \<noteq> []) (columnValidations showReal c)
      in if vs = [] then [] else '' validate:'' @ quoteC @ join '','' vs @ quoteC)"

definition Tag :: "string \<Rightarrow> string" where
  "Tag column = ''ovsdb:'' @ quoteC @ column @ quoteC"

section \<open>Data of the templates\<close>

record TableTemplateData =
  tdTableName :: string
  tdPackageName :: string
  tdStructName :: string
  tdFields :: "(string \<times> ColumnSchema) list"
  tdEnums :: "Enum list"
  tdWithEnumTypes :: bool
  tdWithExtendedGen :: bool

definition WithEnumTypes :: "bool \<Rightarrow> TableTemplateData \<Rightarrow> TableTemplateData" where
  "WithEnumTypes val t = t\<lparr>tdWithEnumTypes := val\<rparr>"

definition WithExtendedGen :: "bool \<Rightarrow> TableTemplateData \<Rightarrow> TableTemplateData" where
  "WithExtendedGen val t = t\<lparr>tdWithExtendedGen := val\<rparr>"

definition addField :: "(string \<Rightarrow> string) \<Rightarrow> string \<Rightarrow> TableSchema
  \<Rightarrow> (string \<times> ColumnSchema) list \<times> Enum list \<Rightarrow> string \<Rightarrow> ((string \<times> ColumnSchema) list \<times> Enum list) result" where
  "addField title name table = (\<lambda>(fs, enums) colName. case Column table colName of
     None \<Rightarrow> Inl (Panic ''nil pointer dereference'')
   | Some c \<Rightarrow> bindR (FieldEnum title name colName c) (\<lambda>enum.
       Inr (fs @ [(colName, c)], case enum of None \<Rightarrow> enums | Some e \<Rightarrow> enums @ [e])))"

definition GetTableTemplateData :: "(string \<Rightarrow> string) \<Rightarrow> string \<Rightarrow> string \<Rightarrow> TableSchema \<Rightarrow> TableTemplateData result" where
  "GetTableTemplateData title pkg name table =
     bindR (foldR (addField title name table) ([], []) (''_uuid'' # sort (keys (Columns table)))) (\<lambda>(fs, enums).
       Inr \<lparr>tdTableName = name, tdPackageName = pkg, tdStructName = StructName title name, tdFields = fs, tdEnums = enums,
            tdWithEnumTypes = True, tdWithExtendedGen = False\<rparr>)"

record DBTemplateData =
  ddDatabaseName :: string
  ddPackageName :: string
  ddSchema :: "json result"
  ddTables :: "(string \<times> string) list"

definition GetDBTemplateData :: "(string \<Rightarrow> string) \<Rightarrow> string \<Rightarrow> DatabaseSchema \<Rightarrow> DBTemplateData" where
  "GetDBTemplateData title pkg schema = \<lparr>ddDatabaseName = Name schema, ddPackageName = pkg, ddSchema = marshalSchema schema,
     ddTables = map (\<lambda>t. (t, StructName title t)) (sort (keys (Tables schema)))\<rparr>"

section \<open>The generator\<close>

text \<open>
  The engine of the templates and the formatter of Go sources are the parameters \<open>exec\<close> and \<open>fmt\<close>; \<open>fault\<close> says which files cannot be
  written. The state is the content of the files and what was logged.
\<close>

datatype TemplateArgs = TableArgs TableTemplateData | DBArgs DBTemplateData

type_synonym genState = "(string \<rightharpoonup> string) \<times> string list"

definition newOptions :: "(bool \<Rightarrow> bool result) list \<Rightarrow> bool result" where
  "newOptions opts = foldR (\<lambda>dryRun opt. opt dryRun) False opts"

definition WithDryRun :: "bool \<Rightarrow> bool result" where
  "WithDryRun o' = Inr True"

definition NewGenerator :: "(bool \<Rightarrow> bool result) list \<Rightarrow> bool result" where
  "NewGenerator opts = bindR (newOptions opts) (\<lambda>dryRun. Inr dryRun)"

definition Format :: "(TemplateArgs \<Rightarrow> string result) \<Rightarrow> (string \<Rightarrow> string result) \<Rightarrow> TemplateArgs \<Rightarrow> string result" where
  "Format exec fmt args = bindR (exec args) fmt"

definition GenerateFile :: "(TemplateArgs \<Rightarrow> string result) \<Rightarrow> (string \<Rightarrow> string result) \<Rightarrow> (string \<Rightarrow> err option)
  \<Rightarrow> bool \<Rightarrow> string \<Rightarrow> TemplateArgs \<Rightarrow> genState \<Rightarrow> genState result" where
  "GenerateFile exec fmt fault dryRun filename args = (\<lambda>(files, out).
     bindR (Format exec fmt args) (\<lambda>src.
       if dryRun then Inr (files, out @ [''---- Content of file '' @ filename, src])
       else if files filename = Some src then Inr (files, out)
       else (case fault filename of Some e \<Rightarrow> Inl e | None \<Rightarrow> Inr (files(filename \<mapsto> src), out))))"

text \<open>The command: one file for each table, in the order of the map, and then \<open>model.go\<close>.\<close>

definition modelgenTable :: "(string \<Rightarrow> string) \<Rightarrow> (TemplateArgs \<Rightarrow> string result) \<Rightarrow> (string \<Rightarrow> string result) \<Rightarrow> (string \<Rightarrow> err option)
  \<Rightarrow> bool \<Rightarrow> string \<Rightarrow> string \<Rightarrow> bool \<Rightarrow> genState \<Rightarrow> string \<times> TableSchema \<Rightarrow> genState result" where
  "modelgenTable title exec fmt fault dryRun outDir pkg extended st = (\<lambda>(name, table).
     bindR (GetTableTemplateData title pkg name table) (\<lambda>args.
       GenerateFile exec fmt fault dryRun (outDir @ ''/'' @ FileName name) (TableArgs (WithExtendedGen extended args)) st))"

definition modelgenMain :: "(string \<Rightarrow> string) \<Rightarrow> (TemplateArgs \<Rightarrow> string result) \<Rightarrow> (string \<Rightarrow> string result) \<Rightarrow> (string \<Rightarrow> err option)
  \<Rightarrow> bool \<Rightarrow> string \<Rightarrow> string \<Rightarrow> bool \<Rightarrow> json \<Rightarrow> genState \<Rightarrow> genState result" where
  "modelgenMain title exec fmt fault dry outDir pkg extended schemaJson st =
     bindR (unmarshalSchema schemaJson) (\<lambda>schema.
     bindR (NewGenerator (if dry then [WithDryRun] else [])) (\<lambda>dryRun.
     bindR (foldR (modelgenTable title exec fmt fault dryRun outDir pkg extended) st (Tables schema)) (\<lambda>st.
       GenerateFile exec fmt fault dryRun (outDir @ ''/model.go'') (DBArgs (GetDBTemplateData title pkg schema)) st)))"

section \<open>The generated package\<close>

text \<open>
  What the Go compiler makes of the generated declarations: \<open>goType\<close> reads the text of a type, with the aliases of the enumerations of
  the package, \<open>tagGet\<close> the value that a struct tag gives a key (\<open>reflect.StructTag.Get\<close>, for values without escapes).
\<close>

definition goBase :: "string \<Rightarrow> gotype option" where
  "goBase s = (if s = ''int'' then Some GInt else if s = ''float64'' then Some GFloat64 else if s = ''bool'' then Some GBool
     else if s = ''string'' then Some GString else None)"

definition goAtom :: "(string \<times> string) list \<Rightarrow> string \<Rightarrow> gotype option" where
  "goAtom aliases s = (case goBase s of Some t \<Rightarrow> Some t | None \<Rightarrow> Option.bind (map_of aliases s) goBase)"

definition goType :: "(string \<times> string) list \<Rightarrow> string \<Rightarrow> rtype option" where
  "goType aliases s =
     (if take 1 s = ''*'' then map_option RPtr (goAtom aliases (drop 1 s))
      else if take 2 s = ''[]'' then map_option RSlice (goAtom aliases (drop 2 s))
      else if take 4 s = ''map['' then
        (let k = takeWhile (\<lambda>c. c \<noteq> CHR '']'') (drop 4 s); v = drop 1 (dropWhile (\<lambda>c. c \<noteq> CHR '']'') (drop 4 s))
         in case (goAtom aliases k, goAtom aliases v) of (Some kt, Some vt) \<Rightarrow> Some (RMap kt vt) | _ \<Rightarrow> None)
      else map_option RAtom (goAtom aliases s))"

definition tagGet :: "string \<Rightarrow> string \<Rightarrow> string" where
  "tagGet key tag = (let p = key @ '':'' @ quoteC
     in if take (length p) tag = p then takeWhile (\<lambda>c. c \<noteq> CHR 0x22) (drop (length p) tag) else [])"

definition identC :: "char \<Rightarrow> bool" where
  "identC c = (upperC c \<or> lowerC c \<or> (CHR ''0'' \<le> c \<and> c \<le> CHR ''9'') \<or> c = CHR ''_'')"

definition exported :: "string \<Rightarrow> bool" where
  "exported s = (case s of [] \<Rightarrow> False | c # cs \<Rightarrow> upperC c \<and> list_all identC cs)"

text \<open>A field of the struct: its name, its type and its tag are the three texts that the template writes on a line.\<close>

definition genField :: "(string \<Rightarrow> string) \<Rightarrow> (f64 \<Rightarrow> string) \<Rightarrow> (string \<times> string) list \<Rightarrow> TableTemplateData
  \<Rightarrow> string \<times> ColumnSchema \<Rightarrow> StructField option" where
  "genField title showReal aliases data = (\<lambda>(colName, c).
     case (if tdWithEnumTypes data then FieldTypeWithEnums title (tdTableName data) colName c else FieldType title (tdTableName data) colName c) of
       Inl _ \<Rightarrow> None
     | Inr txt \<Rightarrow>
         if exported (FieldName title colName)
         then map_option (\<lambda>t. \<lparr>fName = FieldName title colName, fTag = tagGet ''ovsdb'' (Tag colName @ ValidationTag showReal c), fType = t\<rparr>)
                (goType aliases txt)
         else None)"

definition genStruct :: "(string \<Rightarrow> string) \<Rightarrow> (f64 \<Rightarrow> string) \<Rightarrow> (string \<times> string) list \<Rightarrow> TableTemplateData \<Rightarrow> StructType option" where
  "genStruct title showReal aliases data =
     (let fs = map (genField title showReal aliases data) (tdFields data)
      in if None \<notin> set fs \<and> distinct (map (\<lambda>(c, _). FieldName title c) (tdFields data))
         then Some \<lparr>sName = tdStructName data, sFields = map the fs\<rparr> else None)"

definition genAliases :: "TableTemplateData \<Rightarrow> (string \<times> string) list" where
  "genAliases data = (if tdWithEnumTypes data then map (\<lambda>e. (Alias e, AtomicType (eType e))) (tdEnums data) else [])"

text \<open>The constants of a table: the one with its name, and one for each value of an enumeration.\<close>

definition genConstants :: "(string \<Rightarrow> string) \<Rightarrow> (f64 \<Rightarrow> string) \<Rightarrow> TableTemplateData \<Rightarrow> string list" where
  "genConstants title showReal data = (tdStructName data @ ''Table'') #
     (if tdWithEnumTypes data
      then concat (map (\<lambda>e. map (\<lambda>v. Alias e @ enumAliasSuffix title showReal v (eType e)) (Sets e)) (tdEnums data)) else [])"

definition genNames :: "(string \<Rightarrow> string) \<Rightarrow> (f64 \<Rightarrow> string) \<Rightarrow> TableTemplateData list \<Rightarrow> string list" where
  "genNames title showReal datas =
     map tdStructName datas @ map fst (concat (map genAliases datas)) @ concat (map (genConstants title showReal) datas)"

text \<open>
  The package of a database: what it declares has distinct names that are identifiers, and \<open>FullDatabaseModel\<close> registers each struct under its
  table.
\<close>

definition genPackage :: "(string \<Rightarrow> string) \<Rightarrow> (f64 \<Rightarrow> string) \<Rightarrow> TableTemplateData list \<Rightarrow> StructType list option" where
  "genPackage title showReal datas =
     (let aliases = concat (map genAliases datas); sts = map (genStruct title showReal aliases) datas
      in if distinct (genNames title showReal datas) \<and> list_all exported (genNames title showReal datas) \<and> None \<notin> set sts
         then Some (map the sts) else None)"

definition FullDatabaseModel :: "(string \<Rightarrow> string) \<Rightarrow> (f64 \<Rightarrow> string) \<Rightarrow> bool \<Rightarrow> string \<Rightarrow> DatabaseSchema \<Rightarrow> ClientDBModel result option" where
  "FullDatabaseModel title showReal enumTypes pkg schema =
     (case mapR (\<lambda>t. bindR (GetTableTemplateData title pkg t (the (Table schema t))) (\<lambda>d. Inr (WithEnumTypes enumTypes d)))
             (sort (keys (Tables schema))) of
        Inl _ \<Rightarrow> None
      | Inr datas \<Rightarrow> map_option (\<lambda>sts. NewClientDBModel (Name schema) (zip (map tdTableName datas) sts)) (genPackage title showReal datas))"

section \<open>The generated methods\<close>

text \<open>Copying and comparing a field, by the beginning of the text of its type.\<close>

primrec equalLoop :: "atom list \<Rightarrow> atom list \<Rightarrow> bool" where
  "equalLoop [] bs = True"
| "equalLoop (a # as) bs = (case bs of [] \<Rightarrow> False | b # bs' \<Rightarrow> if b \<noteq> a then False else equalLoop as bs')"

fun genEqualField :: "any \<Rightarrow> any \<Rightarrow> bool" where
  "genEqualField (VPtr _ a) (VPtr _ b) =
     (if (a = None) \<noteq> (b = None) then False else if a = None then True else the a = the b)"
| "genEqualField (VSlice _ a) (VSlice _ b) =
     (if (a = None) \<noteq> (b = None) then False else if length (elems a) \<noteq> length (elems b) then False else equalLoop (elems a) (elems b))"
| "genEqualField (VMap _ _ a) (VMap _ _ b) =
     (if (a = None) \<noteq> (b = None) then False else if length (elems a) \<noteq> length (elems b) then False
      else list_all (\<lambda>(k, v). map_of (elems b) k = Some v) (elems a))"
| "genEqualField (VAtom a) (VAtom b) = (a = b)"
| "genEqualField _ _ = False"

fun genCopyField :: "any \<Rightarrow> any" where
  "genCopyField (VPtr t (Some x)) = VPtr t (Some x)"
| "genCopyField (VSlice t (Some xs)) = VSlice t (Some (map (\<lambda>x. x) xs))"
| "genCopyField (VMap k v (Some m)) = VMap k v (Some (fold (\<lambda>(x, y) b. AList.update x y b) m []))"
| "genCopyField v = v"

definition genEquals :: "Model \<Rightarrow> Model \<Rightarrow> bool" where
  "genEquals a b = list_all (\<lambda>f. case (map_of (mObj a) (fName f), map_of (mObj b) (fName f)) of
     (Some x, Some y) \<Rightarrow> genEqualField x y | _ \<Rightarrow> False) (sFields (mType a))"

definition genDeepCopyInto :: "Model \<Rightarrow> Model \<Rightarrow> Model" where
  "genDeepCopyInto a b = b\<lparr>mObj := map (\<lambda>(f, v). (f, genCopyField v)) (mObj a)\<rparr>"

definition genDeepCopy :: "Model \<Rightarrow> Model" where
  "genDeepCopy a = genDeepCopyInto a (zeroModel (mType a))"

text \<open>\<open>EqualsModel\<close> and \<open>CloneModelInto\<close> assert the type of their argument and panic on another one.\<close>

definition genEqualsModel :: "Model \<Rightarrow> Model \<Rightarrow> bool result" where
  "genEqualsModel a b = (if mType b = mType a then Inr (genEquals a b) else Inl (Panic ''interface conversion''))"

definition genCloneModelInto :: "Model \<Rightarrow> Model \<Rightarrow> Model result" where
  "genCloneModelInto a b = (if mType b = mType a then Inr (genDeepCopyInto a b) else Inl (Panic ''interface conversion''))"

section \<open>Generated names\<close>

text \<open>What the title caser does to identifiers: it changes the case of letters only, and a first letter becomes upper case.\<close>

definition letterC :: "char \<Rightarrow> bool" where "letterC c = (upperC c \<or> lowerC c)"

definition titleLaw :: "(string \<Rightarrow> string) \<Rightarrow> bool" where
  "titleLaw title \<longleftrightarrow> (\<forall>s. list_all identC s \<longrightarrow> list_all identC (title s)) \<and> (\<forall>c s. letterC c \<longrightarrow> (\<exists>t. title (c # s) = toUpperC c # t))"

definition columnId :: "string \<Rightarrow> bool" where
  "columnId s = (list_all identC s \<and> (case trimUnderscore s of [] \<Rightarrow> False | c # _ \<Rightarrow> letterC c))"

definition tableId :: "string \<Rightarrow> bool" where
  "tableId s = (case filter (\<lambda>c. c \<noteq> CHR ''_'') s of [] \<Rightarrow> False | c # _ \<Rightarrow> letterC c)"

lemmas charC = upperC_def lowerC_def less_eq_char_def

lemma toUpperC_letter: "letterC c \<Longrightarrow> upperC (toUpperC c)"
  by (auto simp: letterC_def toUpperC_def charC)

lemma letterC_identC: "letterC c \<Longrightarrow> identC c"
  by (auto simp: letterC_def identC_def)

lemma identC_toUpperC: "identC c \<Longrightarrow> identC (toUpperC c)"
  using toUpperC_letter [of c] by (auto simp: identC_def letterC_def toUpperC_def)

lemma toLower_letter: "upperC c \<Longrightarrow> lowerC (char_of (of_char c + 32 :: nat))"
  by (auto simp: charC)

lemma identC_toLower: "list_all identC s \<Longrightarrow> list_all identC (toLower s)"
  using toLower_letter by (auto simp: toLower_def list_all_iff identC_def)

lemma toLower_Cons: "letterC c \<Longrightarrow> \<exists>d. toLower (c # cs) = d # toLower cs \<and> lowerC d"
  using toLower_letter by (auto simp: toLower_def letterC_def)

lemma identC_toUpper: "list_all identC s \<Longrightarrow> list_all identC (toUpper s)"
  using identC_toUpperC by (auto simp: toUpper_def list_all_iff)

lemma identC_expand:
  assumes "list_all identC s"
  shows "list_all identC (expandInitilaisms s)"
proof -
  have "list_all identC (butlast s)" using assms by (auto simp: list_all_iff dest: in_set_butlastD)
  moreover have "identC (CHR ''s'')" by (simp add: identC_def charC)
  ultimately show ?thesis using assms identC_toUpper by (simp add: expandInitilaisms_def)
qed

lemma toUpperC_idem: "letterC c \<Longrightarrow> letterC (toUpperC c)"
  using toUpperC_letter by (simp add: letterC_def)

lemma expand_Cons:
  assumes "letterC c"
  shows "\<exists>d ds. expandInitilaisms (c # cs) = d # ds \<and> letterC d"
proof -
  have "[] \<notin> set initialisms" by (simp add: initialisms_def)
  then show ?thesis using assms toUpperC_idem [OF assms] by (cases cs) (auto simp: expandInitilaisms_def toUpper_def)
qed

lemma fieldsFunc_ident: "list_all P s \<Longrightarrow> p \<in> set (fieldsFunc sep s) \<Longrightarrow> list_all P p"
proof (induction sep s rule: fieldsFunc.induct)
  case (2 sep c cs)
  have "list_all P (takeWhile (\<lambda>c. \<not> sep c) cs)" "list_all P (dropWhile (\<lambda>c. \<not> sep c) cs)"
    using 2(3) by (auto simp: list_all_iff dest: set_takeWhileD set_dropWhileD)
  then show ?case using 2 by (auto split: if_splits)
qed simp

lemma camelCase_exported:
  assumes "titleLaw title" "letterC c" "list_all identC cs"
  shows "exported (camelCase title (c # cs))"
proof -
  let ?sep = "\<lambda>r. r = CHR ''_'' \<or> r = CHR ''-''"
  let ?t = "\<lambda>p. title (expandInitilaisms p)"
  obtain d where d: "toLower (c # cs) = d # toLower cs" "lowerC d" using toLower_Cons [OF assms(2)] by blast
  have ids: "list_all identC (d # toLower cs)" using identC_toLower [OF assms(3)] d(2) by (simp add: identC_def)
  have sep: "\<not> ?sep d" using d(2) by (auto simp: charC)
  have t: "\<exists>e es. ?t (d # s) = e # es \<and> upperC e" for s
  proof -
    have "letterC d" using d(2) by (simp add: letterC_def)
    then obtain f fs where "expandInitilaisms (d # s) = f # fs" "letterC f" using expand_Cons by blast
    then show ?thesis using assms(1) toUpperC_letter by (fastforce simp: titleLaw_def)
  qed
  have ok: "list_all identC (?t p)" if "list_all identC p" for p using identC_expand [OF that] assms(1) by (simp add: titleLaw_def)
  have all: "list_all identC (camelCase title (c # cs))"
  proof -
    have "list_all identC (concat (map ?t ps))" if "\<forall>p \<in> set ps. list_all identC p" for ps using that ok by (induction ps) simp_all
    then show ?thesis using ok [OF ids] fieldsFunc_ident [OF ids] unfolding camelCase_def Let_def d(1) by (auto simp del: fieldsFunc.simps)
  qed
  have "\<exists>e es. camelCase title (c # cs) = e # es \<and> upperC e"
  proof (cases "length (fieldsFunc ?sep (d # toLower cs)) > 1")
    case True
    obtain s ps where s: "fieldsFunc ?sep (d # toLower cs) = (d # s) # ps" using sep by auto
    obtain e es where "?t (d # s) = e # es" "upperC e" using t by blast
    then have "concat (map ?t (fieldsFunc ?sep (d # toLower cs))) = e # es @ concat (map ?t ps)" by (simp only: s list.map concat.simps append_Cons)
    then show ?thesis using True \<open>upperC e\<close> unfolding camelCase_def Let_def d(1) by (simp only: if_True) blast
  next
    case False
    then show ?thesis using t [of "toLower cs"] unfolding camelCase_def Let_def d(1) by (simp only: if_False)
  qed
  then show ?thesis using all by (auto simp: exported_def)
qed

lemma FieldName_exported: "titleLaw title \<Longrightarrow> columnId s \<Longrightarrow> exported (FieldName title s)"
proof -
  assume t: "titleLaw title" and c: "columnId s"
  have "set (trimUnderscore s) \<subseteq> set s" unfolding trimUnderscore_def by (auto dest!: set_dropWhileD)
  then have "list_all identC (trimUnderscore s)" using c by (auto simp: columnId_def list_all_iff)
  then show ?thesis using camelCase_exported [OF t] c by (cases "trimUnderscore s") (auto simp: FieldName_def columnId_def)
qed

lemma enumName_Cons: "titleLaw title \<Longrightarrow> tableId table \<Longrightarrow> \<exists>c cs. enumName title table col = c # cs \<and> upperC c"
proof -
  assume t: "titleLaw title" and i: "tableId table"
  obtain c cs where c: "filter (\<lambda>c. c \<noteq> CHR ''_'') table = c # cs" "letterC c" using i by (auto simp: tableId_def split: list.splits)
  have first: "\<exists>t. title (d # s) = toUpperC d # t" if "letterC d" for d s using t that by (simp add: titleLaw_def)
  obtain s where "StructName title table = toUpperC c # s" using first [OF c(2), of cs] c(1) by (auto simp: StructName_def)
  moreover obtain u where "title (toUpperC c # s) = toUpperC (toUpperC c) # u" using first [OF toUpperC_idem [OF c(2)]] by blast
  ultimately show ?thesis using toUpperC_letter [OF toUpperC_idem [OF c(2)]] by (simp add: enumName_def)
qed

section \<open>Generated types\<close>

lemma goBase_AtomicType: "isAtomicType t \<Longrightarrow> \<exists>g. NativeTypeFromAtomic t = Inr g \<and> goBase (AtomicType t) = Some g"
  by (cases t) (auto simp: isAtomicType_def goBase_def)

lemma AtomicType_chars: "c \<in> set (AtomicType t) \<Longrightarrow> c \<noteq> CHR '']''"
  by (cases t) auto

lemma goBase_upper:
  assumes "upperC c"
  shows "goBase (c # cs) = None"
proof -
  have "c \<notin> {CHR ''i'', CHR ''f'', CHR ''b'', CHR ''s''}" using assms by (auto simp: charC)
  then show ?thesis by (simp add: goBase_def)
qed

text \<open>A name for the element type of a column: an atomic type, or an alias of it.\<close>

definition names :: "(string \<times> string) list \<Rightarrow> string \<Rightarrow> gotype \<Rightarrow> bool" where
  "names aliases s g \<longleftrightarrow> goAtom aliases s = Some g \<and> goType aliases s = Some (RAtom g)"

lemma names_base: "isAtomicType t \<Longrightarrow> NativeTypeFromAtomic t = Inr g \<Longrightarrow> names aliases (AtomicType t) g"
  by (cases t) (auto simp: isAtomicType_def names_def goAtom_def goBase_def goType_def)

lemma names_alias:
  assumes "isAtomicType t" "NativeTypeFromAtomic t = Inr g" "map_of aliases (c # cs) = Some (AtomicType t)" "upperC c"
  shows "names aliases (c # cs) g"
proof -
  have "goAtom aliases (c # cs) = Some g" using assms goBase_AtomicType [OF assms(1)] by (simp add: goAtom_def goBase_upper)
  moreover have "c \<noteq> CHR ''m''" "c \<noteq> CHR ''*''" "c \<noteq> CHR ''[''" using assms(4) by (auto simp: charC)
  ultimately show ?thesis by (simp add: names_def goType_def)
qed

lemma names_types:
  assumes "names aliases s g"
  shows "goType aliases (CHR ''*'' # s) = Some (RPtr g)" "goType aliases (CHR ''['' # CHR '']'' # s) = Some (RSlice g)" "goType aliases s = Some (RAtom g)"
  using assms by (simp_all add: goType_def names_def)

lemma map_type:
  assumes "isAtomicType k" "isAtomicType v" "NativeTypeFromAtomic k = Inr gk" "NativeTypeFromAtomic v = Inr gv"
  shows "goType aliases (''map['' @ AtomicType k @ '']'' @ AtomicType v) = Some (RMap gk gv)"
proof -
  have t: "takeWhile (\<lambda>c. c \<noteq> CHR '']'') (AtomicType k @ '']'' @ AtomicType v) = AtomicType k"
      "dropWhile (\<lambda>c. c \<noteq> CHR '']'') (AtomicType k @ '']'' @ AtomicType v) = '']'' @ AtomicType v"
    using AtomicType_chars by (simp_all add: takeWhile_append dropWhile_append)
  have "goAtom aliases (AtomicType k) = Some gk" "goAtom aliases (AtomicType v) = Some gv"
    using names_base assms by (auto simp: names_def)
  then show ?thesis using t by (simp add: goType_def Let_def)
qed

text \<open>The text that the template writes for a column is read as the native type of the column.\<close>

lemma genFieldType_native:
  assumes wf: "wfColumn c" and tl: "titleLaw title" "tableId table"
    and al: "\<And>e. enums \<Longrightarrow> FieldEnum title table col c = Inr (Some e) \<Longrightarrow> map_of aliases (Alias e) = Some (AtomicType (eType e))"
  shows "\<exists>txt t. genFieldType title table col c enums = Inr txt \<and> NativeType c = Inr t \<and> goType aliases txt = Some t"
proof (cases "c = UUIDColumn")
  case True
  then show ?thesis by (simp add: UUIDColumn_def genFieldType_def NativeType_def goType_def goAtom_def goBase_def)
next
  case False
  then obtain t k where t: "TypeObj c = Some t" "Key t = Some k" "isAtomicType (bType k)" "pred_option wfBase (Value t)" "inferType t = Inr (cType c)"
    using wf by (auto simp: wfColumn_def wfBase_def)
  obtain g where g: "NativeTypeFromAtomic (bType k) = Inr g" using goBase_AtomicType [OF t(3)] by blast
  have kt: "keyType c = Inr (bType k)" "typeObj c = Inr t" "keyOf c = Inr k" using t by (simp_all add: keyType_def typeObj_def keyOf_def)
  obtain u us where u: "enumName title table col = u # us" "upperC u" using enumName_Cons [OF tl] by blast
  have enum: "names aliases (enumName title table col) g" if "enums" "bEnum k \<noteq> None"
    using al [OF that(1)] that(2) t(1,3) kt(3) g u names_alias by (auto simp: FieldEnum_def)
  have el: "\<exists>e. elementType title table col c enums = Inr e \<and> names aliases e g"
    using enum names_base [OF t(3) g] t(1) kt by (cases "enums \<and> bEnum k \<noteq> None") (auto simp: elementType_def FieldEnum_def)
  consider (map) v where "Value t = Some v" "cType c = TypeMap" | (set) "cType c = TypeSet" "Value t = None"
    | (enum) "cType c = TypeEnum" "bEnum k \<noteq> None" | (atom) "cType c = bType k"
    using t(2,5) by (cases "Value t"; cases "bEnum k") (auto simp: inferType_def split: if_splits)
  then show ?thesis
  proof cases
    case (map v)
    then obtain gv where "NativeTypeFromAtomic (bType v) = Inr gv" "isAtomicType (bType v)" using t(4) goBase_AtomicType by (auto simp: wfBase_def)
    then show ?thesis using map kt g t map_type [OF t(3)] by (simp add: genFieldType_def NativeType_def valueType_def)
  next
    case set
    then show ?thesis using el kt g by (auto simp: genFieldType_def NativeType_def names_types)
  next
    case enum
    then show ?thesis using kt g names_base [OF t(3) g] \<open>\<lbrakk>enums; bEnum k \<noteq> None\<rbrakk> \<Longrightarrow> names aliases (enumName title table col) g\<close>
      by (auto simp: genFieldType_def NativeType_def names_types)
  next
    case atom
    then show ?thesis using t(3) g names_types(3) [OF names_base [OF t(3) g]]
      by (cases "bType k") (auto simp: genFieldType_def NativeType_def isAtomicType_def)
  qed
qed

section \<open>Generated structs\<close>

definition enumsOf :: "(string \<Rightarrow> string) \<Rightarrow> string \<Rightarrow> TableSchema \<Rightarrow> string list \<Rightarrow> Enum list" where
  "enumsOf title name table cols = List.map_filter (\<lambda>c. case FieldEnum title name c (the (Column table c)) of Inl _ \<Rightarrow> None | Inr e \<Rightarrow> e) cols"

lemma FieldEnum_ok: "wfColumn c \<Longrightarrow> \<exists>e. FieldEnum title name col c = Inr e"
  by (auto simp: FieldEnum_def wfColumn_def UUIDColumn_def keyOf_def)

lemma addField_loop:
  assumes "list_all (\<lambda>c. \<exists>col. Column table c = Some col \<and> wfColumn col) cols"
  shows "foldR (addField title name table) (fs, es) cols
    = Inr (fs @ map (\<lambda>c. (c, the (Column table c))) cols, es @ enumsOf title name table cols)"
  using assms
proof (induction cols arbitrary: fs es)
  case (Cons c cols)
  then obtain col where col: "Column table c = Some col" "wfColumn col" by auto
  then obtain e where "FieldEnum title name c col = Inr e" using FieldEnum_ok by blast
  then show ?case using Cons col by (cases e) (auto simp: addField_def enumsOf_def List.map_filter_def)
qed (simp add: enumsOf_def List.map_filter_def)

definition colNames :: "TableSchema \<Rightarrow> string list" where
  "colNames table = ''_uuid'' # sort (keys (Columns table))"

lemma colNames_wf:
  assumes "wfTable table" "c \<in> set (colNames table)"
  shows "\<exists>col. Column table c = Some col \<and> wfColumn col"
proof -
  have "c = ''_uuid'' \<or> map_of (Columns table) c \<noteq> None" using assms(2) by (auto simp: colNames_def map_of_eq_None_iff)
  then have "Column table c \<noteq> None" by (auto simp: Column_def)
  then show ?thesis using wfColumn_Column [OF assms(1)] by blast
qed

lemma GetTableTemplateData_wf:
  assumes "wfTable table"
  shows "GetTableTemplateData title pkg name table = Inr \<lparr>tdTableName = name, tdPackageName = pkg, tdStructName = StructName title name,
    tdFields = map (\<lambda>c. (c, the (Column table c))) (colNames table), tdEnums = enumsOf title name table (colNames table),
    tdWithEnumTypes = True, tdWithExtendedGen = False\<rparr>"
proof -
  have "list_all (\<lambda>c. \<exists>col. Column table c = Some col \<and> wfColumn col) (colNames table)"
    using colNames_wf [OF assms] by (simp add: list_all_iff)
  from addField_loop [OF this, of title name "[]" "[]"] show ?thesis by (simp add: GetTableTemplateData_def colNames_def)
qed

text \<open>The names of the columns contain no quote, so a tag gives back the column.\<close>

lemma tagGet_Tag:
  assumes "list_all identC col"
  shows "tagGet ''ovsdb'' (Tag col @ rest) = col"
proof -
  have "c \<noteq> CHR 0x22" if "c \<in> set col" for c using that assms by (auto simp: list_all_iff identC_def charC)
  then have "takeWhile (\<lambda>c. c \<noteq> CHR 0x22) (col @ CHR 0x22 # rest) = col" by (simp add: takeWhile_append)
  then show ?thesis by (simp add: tagGet_def Tag_def quoteC_def Let_def)
qed

definition tableData :: "(string \<Rightarrow> string) \<Rightarrow> string \<Rightarrow> bool \<Rightarrow> DatabaseSchema \<Rightarrow> string \<Rightarrow> TableTemplateData" where
  "tableData title pkg enumTypes schema t = \<lparr>tdTableName = t, tdPackageName = pkg, tdStructName = StructName title t,
    tdFields = map (\<lambda>c. (c, the (Column (the (Table schema t)) c))) (colNames (the (Table schema t))),
    tdEnums = enumsOf title t (the (Table schema t)) (colNames (the (Table schema t))),
    tdWithEnumTypes = enumTypes, tdWithExtendedGen = False\<rparr>"

text \<open>
  Names of a schema that make a package: tables and columns are identifiers with a letter, no column is called \<open>_uuid\<close>, and the names derived
  from them are distinct.
\<close>

definition packageNames :: "(string \<Rightarrow> string) \<Rightarrow> (f64 \<Rightarrow> string) \<Rightarrow> bool \<Rightarrow> DatabaseSchema \<Rightarrow> bool" where
  "packageNames title showReal enumTypes schema =
     (list_all (\<lambda>(t, table). tableId t \<and> list_all columnId (keys (Columns table)) \<and> ''_uuid'' \<notin> set (keys (Columns table))
          \<and> distinct (map (FieldName title) (colNames table))) (Tables schema)
      \<and> (let names = genNames title showReal (map (tableData title [] enumTypes schema) (sort (keys (Tables schema))))
         in distinct names \<and> list_all exported names))"

lemma genField_ok:
  assumes wf: "wfTable table" "c \<in> set (colNames table)" and names: "titleLaw title" "tableId (tdTableName data)" "columnId c"
    and al: "distinct (map fst aliases)" "set (genAliases data) \<subseteq> set aliases"
    and data: "tdEnums data = enumsOf title (tdTableName data) table (colNames table)"
  shows "\<exists>t. NativeType (the (Column table c)) = Inr t
    \<and> genField title showReal aliases data (c, the (Column table c)) = Some \<lparr>fName = FieldName title c, fTag = c, fType = t\<rparr>"
proof -
  obtain col where col: "Column table c = Some col" "wfColumn col" using colNames_wf [OF wf] by blast
  have "map_of aliases (Alias e) = Some (AtomicType (eType e))"
    if "tdWithEnumTypes data" "FieldEnum title (tdTableName data) c col = Inr (Some e)" for e
  proof -
    have "e \<in> set (tdEnums data)" using data that(2) wf(2) col(1) by (force simp: enumsOf_def List.map_filter_def)
    then have "(Alias e, AtomicType (eType e)) \<in> set aliases" using al(2) that(1) by (auto simp: genAliases_def)
    then show ?thesis using al(1) by simp
  qed
  from genFieldType_native [where enums = "tdWithEnumTypes data", OF col(2) names(1,2) this]
  obtain ty t where "genFieldType title (tdTableName data) c col (tdWithEnumTypes data) = Inr ty" "NativeType col = Inr t" "goType aliases ty = Some t" by blast
  moreover have "list_all identC c" using names(3) by (simp add: columnId_def)
  ultimately show ?thesis using col FieldName_exported [OF names(1,3)]
    by (cases "tdWithEnumTypes data") (simp_all add: genField_def FieldTypeWithEnums_def FieldType_def tagGet_Tag)
qed

lemma columnId_uuid: "columnId ''_uuid''"
  by (simp add: columnId_def trimUnderscore_def identC_def letterC_def charC)

text \<open>The struct of a table and what \<open>NewInfo\<close> and \<open>NewClientDBModel\<close> say of it.\<close>

lemma genStruct_ok:
  assumes wf: "wfTable table" and t: "titleLaw title" "tableId (tdTableName data)" "list_all columnId (keys (Columns table))"
    and d: "distinct (map (FieldName title) (colNames table))"
    and al: "distinct (map fst aliases)" "set (genAliases data) \<subseteq> set aliases"
    and data: "tdEnums data = enumsOf title (tdTableName data) table (colNames table)" "tdFields data = map (\<lambda>c. (c, the (Column table c))) (colNames table)"
  shows "\<exists>st. genStruct title showReal aliases data = Some st \<and> sName st = tdStructName data \<and> hasUUIDField st
    \<and> isOk (NewInfo name table (zeroModel st)) \<and> distinct (map fName (sFields st))"
proof -
  let ?f = "\<lambda>c. genField title showReal aliases data (c, the (Column table c))"
  have id: "columnId c" if "c \<in> set (colNames table)" for c using that t(3) columnId_uuid by (auto simp: colNames_def list_all_iff)
  have f: "\<exists>t. NativeType (the (Column table c)) = Inr t \<and> ?f c = Some \<lparr>fName = FieldName title c, fTag = c, fType = t\<rparr>"
    if "c \<in> set (colNames table)" for c
    using genField_ok [OF wf that t(1,2) id [OF that] al data(1)] .
  define st where "st = \<lparr>sName = tdStructName data, sFields = map (\<lambda>c. the (?f c)) (colNames table)\<rparr>"
  have "genStruct title showReal aliases data = Some st"
    using f d by (force simp: genStruct_def st_def data(2) Let_def comp_def)
  moreover have "isOk (NewInfo name table (zeroModel st))"
    unfolding NewInfo_ok_iff list_all_iff
  proof
    fix x assume "x \<in> set (sFields (mType (zeroModel st)))"
    then obtain c where c: "c \<in> set (colNames table)" "x = the (?f c)" by (auto simp: st_def zeroModel_def)
    then show "fTag x = [] \<or> (case Column table (fTag x) of None \<Rightarrow> False | Some col \<Rightarrow> NativeType col = Inr (fType x))"
      using f [OF c(1)] colNames_wf [OF wf c(1)] by auto
  qed
  moreover have "hasUUIDField st"
  proof -
    have u: "''_uuid'' \<in> set (colNames table)" by (simp add: colNames_def)
    have "NativeType (the (Column table ''_uuid'')) = Inr (RAtom GString)" by (simp add: Column_def UUIDColumn_def NativeType_def)
    then show ?thesis using f [OF u] u by (force simp: hasUUIDField_def st_def list_ex_iff)
  qed
  moreover have "map fName (sFields st) = map (FieldName title) (colNames table)" using f by (force simp: st_def)
  moreover have "sName st = tdStructName data" by (simp add: st_def)
  ultimately show ?thesis using d by metis
qed

section \<open>The generated package is accepted\<close>

lemma NewDatabaseModel_complete:
  assumes "cdbName client = Name schema" "cdbIndexes client = []" "gm_ok (cdbTypes client)"
    and ok: "\<And>t st. (t, st) \<in> set (cdbTypes client) \<Longrightarrow> \<exists>ts. Table schema t = Some ts \<and> isOk (NewInfo t ts (zeroModel st))"
  shows "\<exists>db. NewDatabaseModel schema client = Inr (Inr db)"
proof -
  have v: "\<exists>p. foldR (validateTable client schema) ([], infos) ts = Inr p \<and> fst p = []" if "set ts \<subseteq> set (keys (cdbTypes client))" for ts infos
    using that
  proof (induction ts arbitrary: infos)
    case (Cons t ts)
    obtain st where st: "map_of (cdbTypes client) t = Some st" using Cons.prems by (cases "map_of (cdbTypes client) t") (auto simp: map_of_eq_None_iff)
    then obtain s i where "Table schema t = Some s" "NewInfo t s (zeroModel st) = Inr i" using ok [OF map_of_SomeD [OF st]] by (auto simp: isOk_iff)
    then show ?case using Cons st by (simp add: validateTable_def clientNewModel_def)
  qed simp
  have g: "\<exists>p. foldR (modelInfoStep schema) ([], meta) ts = Inr p \<and> fst p = []" if "set ts \<subseteq> set (cdbTypes client)" for ts meta
    using that
  proof (induction ts arbitrary: meta)
    case (Cons p ts)
    obtain t st where p: "p = (t, st)" by fastforce
    obtain s i where "Table schema t = Some s" "NewInfo t s (zeroModel st) = Inr i" using ok [of t st] Cons.prems p by (auto simp: isOk_iff)
    then show ?case using Cons p by (simp add: modelInfoStep_def)
  qed simp
  show ?thesis using v [of "keys (cdbTypes client)" "[]"] g [of "cdbTypes client" "[]"] assms(1,2)
    by (auto simp: NewDatabaseModel_def validate_def generateModelInfo_def)
qed

lemma NewClientDBModel_ok:
  assumes "distinct (map fst models)" "\<And>t st. (t, st) \<in> set models \<Longrightarrow> hasUUIDField st"
  shows "NewClientDBModel name models = Inr \<lparr>cdbName = name, cdbTypes = models, cdbIndexes = []\<rparr>"
proof -
  have "foldR (\<lambda>types (table, st). if hasUUIDField st then Inr (AList.update table st types)
         else Inl (Errorf ''model is expected to have a string field called uuid'')) acc ms = Inr (acc @ ms)"
    if "distinct (map fst (acc @ ms))" "\<And>t st. (t, st) \<in> set ms \<Longrightarrow> hasUUIDField st" for acc ms
    using that
  proof (induction ms arbitrary: acc)
    case (Cons p ms)
    obtain t st where p: "p = (t, st)" by fastforce
    have "AList.update t st acc = acc @ [(t, st)]" using Cons.prems(1) p by (induction acc) auto
    then show ?case using Cons.IH [of "acc @ [(t, st)]"] Cons.prems p by auto
  qed simp
  from this [of "[]" models] show ?thesis using assms by (simp add: NewClientDBModel_def)
qed

lemma genNames_pkg: "genNames title showReal (map (tableData title pkg enumTypes schema) ts) = genNames title showReal (map (tableData title [] enumTypes schema) ts)"
proof -
  have "genAliases (tableData title pkg enumTypes schema t) = genAliases (tableData title [] enumTypes schema t)"
      "genConstants title showReal (tableData title pkg enumTypes schema t) = genConstants title showReal (tableData title [] enumTypes schema t)"
      "tdStructName (tableData title pkg enumTypes schema t) = tdStructName (tableData title [] enumTypes schema t)" for t
    by (simp_all add: genAliases_def genConstants_def tableData_def)
  then show ?thesis by (simp add: genNames_def comp_def)
qed

definition tableOk :: "(string \<Rightarrow> string) \<Rightarrow> DatabaseSchema \<Rightarrow> string \<Rightarrow> TableSchema \<Rightarrow> bool" where
  "tableOk title schema t ts = (Table schema t = Some ts \<and> wfTable ts \<and> tableId t \<and> list_all columnId (keys (Columns ts))
     \<and> distinct (map (FieldName title) (colNames ts)))"

lemma package_table:
  assumes "wfSchema schema" "packageNames title showReal enumTypes schema" "t \<in> set (keys (Tables schema))"
  obtains ts where "tableOk title schema t ts"
proof -
  obtain ts where ts: "map_of (Tables schema) t = Some ts" using assms(3) by (cases "map_of (Tables schema) t") (auto simp: map_of_eq_None_iff)
  then have "(t, ts) \<in> set (Tables schema)" by (rule map_of_SomeD)
  then show thesis using ts assms(1,2) that [of ts] by (fastforce simp: tableOk_def Table_def list_all_iff wfSchema_def packageNames_def)
qed

lemma package_data:
  assumes "wfSchema schema" "packageNames title showReal enumTypes schema"
  shows "mapR (\<lambda>t. bindR (GetTableTemplateData title pkg t (the (Table schema t))) (\<lambda>d. Inr (WithEnumTypes enumTypes d))) (sort (keys (Tables schema)))
    = Inr (map (tableData title pkg enumTypes schema) (sort (keys (Tables schema))))"
proof (rule mapR_Inr_map)
  fix t assume "t \<in> set (sort (keys (Tables schema)))"
  then obtain ts where "tableOk title schema t ts" using package_table [OF assms] by (metis set_sort)
  then show "bindR (GetTableTemplateData title pkg t (the (Table schema t))) (\<lambda>d. Inr (WithEnumTypes enumTypes d)) = Inr (tableData title pkg enumTypes schema t)"
    by (simp add: tableOk_def GetTableTemplateData_wf WithEnumTypes_def tableData_def)
qed

text \<open>The struct of a table in its package, and what it has to be for the library.\<close>

definition structOk :: "(string \<Rightarrow> string) \<Rightarrow> DatabaseSchema \<Rightarrow> string \<Rightarrow> StructType \<Rightarrow> bool" where
  "structOk title schema t st = (sName st = StructName title t \<and> hasUUIDField st \<and> distinct (map fName (sFields st))
     \<and> (case Table schema t of None \<Rightarrow> False | Some ts \<Rightarrow> isOk (NewInfo t ts (zeroModel st))))"

lemma package_struct:
  assumes "titleLaw title" "wfSchema schema" "packageNames title showReal enumTypes schema" "t \<in> set (keys (Tables schema))"
    and "distinct (map fst aliases)" "set (genAliases (tableData title pkg enumTypes schema t)) \<subseteq> set aliases"
  obtains st where "genStruct title showReal aliases (tableData title pkg enumTypes schema t) = Some st" "structOk title schema t st"
proof -
  let ?d = "tableData title pkg enumTypes schema t"
  obtain ts where ts: "tableOk title schema t ts" using package_table [OF assms(2-4)] by blast
  have "tdTableName ?d = t" "tdStructName ?d = StructName title t" "tdEnums ?d = enumsOf title t ts (colNames ts)"
      "tdFields ?d = map (\<lambda>c. (c, the (Column ts c))) (colNames ts)"
    using ts by (simp_all add: tableData_def tableOk_def)
  then show thesis using genStruct_ok [of ts title ?d aliases showReal t] ts assms(1,5,6) that by (auto simp: tableOk_def structOk_def)
qed

lemma package_structs:
  assumes "titleLaw title" "wfSchema schema" "packageNames title showReal enumTypes schema"
  shows "\<exists>f. genPackage title showReal (map (tableData title pkg enumTypes schema) (sort (keys (Tables schema)))) = Some (map f (sort (keys (Tables schema))))
    \<and> (\<forall>t \<in> set (keys (Tables schema)). structOk title schema t (f t)) \<and> distinct (map (StructName title) (sort (keys (Tables schema))))"
proof -
  let ?ts = "sort (keys (Tables schema))" and ?d = "tableData title pkg enumTypes schema"
  define aliases where "aliases = concat (map genAliases (map ?d ?ts))"
  have names: "distinct (genNames title showReal (map ?d ?ts))" "list_all exported (genNames title showReal (map ?d ?ts))"
    using assms(3) unfolding packageNames_def genNames_pkg [of title showReal pkg] Let_def by simp_all
  then have al: "distinct (map tdStructName (map ?d ?ts))" "distinct (map fst aliases)" unfolding genNames_def aliases_def distinct_append by blast+
  define f where "f t = the (genStruct title showReal aliases (?d t))" for t
  have st: "genStruct title showReal aliases (?d t) = Some (f t) \<and> structOk title schema t (f t)" if t: "t \<in> set (keys (Tables schema))" for t
  proof -
    have "set (genAliases (?d t)) \<subseteq> set aliases" using t by (auto simp: aliases_def)
    from package_struct [OF assms t al(2) this] show ?thesis by (metis f_def option.sel)
  qed
  then have g: "map (genStruct title showReal aliases) (map ?d ?ts) = map (\<lambda>t. Some (f t)) ?ts" by auto
  have "genPackage title showReal (map ?d ?ts) = Some (map f ?ts)"
    unfolding genPackage_def Let_def aliases_def [symmetric] g using names by (auto simp: comp_def)
  moreover have "distinct (map (StructName title) ?ts)" using al(1) by (simp add: comp_def tableData_def)
  ultimately show ?thesis using st by blast
qed

text \<open>
  Claim C22. The generator and the library agree: the package generated from a schema whose names make a package declares client models that the
  library accepts for that schema, with or without types for the enumerations.
\<close>

theorem generated_model_accepted:
  assumes "titleLaw title" "wfSchema schema" "schema \<noteq> emptySchema" "packageNames title showReal enumTypes schema"
  shows "\<exists>client db. FullDatabaseModel title showReal enumTypes pkg schema = Some (Inr client)
    \<and> NewDatabaseModel schema client = Inr (Inr db) \<and> wfDb db \<and> keys (cdbTypes client) = sort (keys (Tables schema))"
proof -
  let ?ts = "sort (keys (Tables schema))" and ?datas = "map (tableData title pkg enumTypes schema) (sort (keys (Tables schema)))"
  obtain f where f: "genPackage title showReal ?datas = Some (map f ?ts)" "\<forall>t \<in> set (keys (Tables schema)). structOk title schema t (f t)"
      "distinct (map (StructName title) ?ts)" using package_structs [OF assms(1,2,4)] by blast
  define types where "types = map (\<lambda>t. (t, f t)) ?ts"
  define client where "client = \<lparr>cdbName = Name schema, cdbTypes = types, cdbIndexes = []\<rparr>"
  have ok: "structOk title schema t st" if "(t, st) \<in> set types" for t st using that f(2) by (auto simp: types_def)
  have d: "distinct (map fst types)" using assms(2) by (simp add: types_def comp_def wfSchema_def)
  have "zip (map tdTableName ?datas) (map f ?ts) = types" by (simp add: types_def tableData_def comp_def zip_map2 zip_same_conv_map)
  then have c: "FullDatabaseModel title showReal enumTypes pkg schema = Some (Inr client)"
    using NewClientDBModel_ok [OF d] ok by (simp add: FullDatabaseModel_def package_data [OF assms(2,4)] f(1) client_def structOk_def)
  obtain db where db: "NewDatabaseModel schema client = Inr (Inr db)"
    using NewDatabaseModel_complete [of client schema] ok d by (fastforce simp: client_def structOk_def split: option.splits)
  have "map sName (map snd types) = map (StructName title) ?ts" using f(2) by (simp add: types_def structOk_def)
  then have "distinct (map snd types)" using f(3) by (metis distinct_map)
  moreover have "list_all (\<lambda>(table, st). distinct (map fName (sFields st))) types" using ok by (auto simp: list_all_iff structOk_def)
  ultimately have "wfDb db" using NewDatabaseModel_sound [OF db assms(2,3)] d by (simp add: client_def)
  then show ?thesis using c db by (auto simp: client_def types_def comp_def)
qed

section \<open>The generated methods\<close>

lemma equalLoop_iff: "length as = length bs \<Longrightarrow> equalLoop as bs \<longleftrightarrow> as = bs"
  by (induction as bs rule: list_induct2) auto

lemma genEqualField_deep:
  assumes "typeOf a = typeOf b" "typeOf a \<in> Some ` (range RAtom \<union> range RPtr \<union> range RSlice \<union> range (\<lambda>(k, v). RMap k v))" "wfVal a" "wfVal b"
  shows "genEqualField a b \<longleftrightarrow> deepEqual a b"
  using assms
proof (cases "(a, b)" rule: genEqualField.cases)
  case (3 k v m k' v' n)
  have "gm_eq m' n' \<longleftrightarrow> length m' = length n' \<and> list_all (\<lambda>(x, y). map_of n' x = Some y) m'" for m' n' :: "(atom, atom) gomap"
    by (simp add: gm_eq_def)
  then show ?thesis using 3 assms by (cases m; cases n) auto
qed (auto simp: equalLoop_iff split: option.splits)


definition nativeStruct :: "StructType \<Rightarrow> bool" where
  "nativeStruct st = list_all (\<lambda>f. case fType f of ROvsSet \<Rightarrow> False | ROvsMap \<Rightarrow> False | _ \<Rightarrow> True) (sFields st)"

text \<open>
  Claim C33. The generated comparison is the one that the library uses for models without one, so that generating it changes no result.
\<close>

theorem generated_equality:
  assumes "wfModel a" "wfModel b" "mType a = mType b" "nativeStruct (mType a)"
  shows "genEqualsModel a b = Inr (modelEqual a b)"
proof -
  have "genEqualField x y \<longleftrightarrow> deepEqual x y"
    if f: "f \<in> set (sFields (mType a))" "map_of (mObj a) (fName f) = Some x" "map_of (mObj b) (fName f) = Some y" for f x y
  proof (rule genEqualField_deep)
    have x: "typeOf x = Some (fType f)" "wfVal x" and y: "typeOf y = Some (fType f)" "wfVal y"
      using assms(1,2,3) f by (force simp: wfModel_def list_all_iff)+
    then show "typeOf x = typeOf y" "wfVal x" "wfVal y" by simp_all
    show "typeOf x \<in> Some ` (range RAtom \<union> range RPtr \<union> range RSlice \<union> range (\<lambda>(k, v). RMap k v))"
      using assms(4) f(1) x(1) by (cases "fType f") (force simp: nativeStruct_def list_all_iff)+
  qed
  moreover have "\<exists>x y. map_of (mObj a) (fName f) = Some x \<and> map_of (mObj b) (fName f) = Some y" if "f \<in> set (sFields (mType a))" for f
    using assms(1,2,3) that by (force simp: wfModel_def list_all_iff split: option.splits)
  ultimately have "genEquals a b = modelEqual a b"
    unfolding genEquals_def modelEqual_def list_all_iff using assms(3) by (fastforce split: option.splits)
  then show ?thesis using assms(3) by (simp add: genEqualsModel_def)
qed

lemma fold_update_id: "gm_ok (acc @ m) \<Longrightarrow> fold (\<lambda>(x, y) b. AList.update x y b) m acc = acc @ m"
proof (induction m arbitrary: acc)
  case (Cons p m)
  obtain k v where p: "p = (k, v)" by fastforce
  have "AList.update k v acc = acc @ [(k, v)]" using Cons.prems p by (induction acc) auto
  then show ?case using Cons.IH [of "acc @ [(k, v)]"] Cons.prems p by simp
qed simp

lemma genCopyField_id: "wfVal v \<Longrightarrow> genCopyField v = v"
  by (induction v rule: genCopyField.induct) (auto simp: fold_update_id [of "[]", simplified])

text \<open>A generated copy has the values of the original.\<close>

lemma generated_copy:
  assumes "list_all (\<lambda>(_, v). wfVal v) (mObj a)"
  shows "genDeepCopy a = Clone a"
proof -
  have "map (\<lambda>(f, v). (f, genCopyField v)) (mObj a) = mObj a"
    by (rule map_idI) (use assms in \<open>auto simp: list_all_iff genCopyField_id\<close>)
  then show ?thesis by (simp add: genDeepCopy_def genDeepCopyInto_def zeroModel_def Clone_def)
qed

section \<open>Files\<close>

lemma GenerateFile_idempotent:
  assumes "GenerateFile exec fmt fault False filename args st = Inr st'"
  shows "GenerateFile exec fmt fault False filename args st' = Inr st'"
  using assms by (cases st) (auto simp: GenerateFile_def resR split: if_splits option.splits)

text \<open>
  The file of a table and the file of the database model share a directory: the file of a table called \<open>Model\<close> is overwritten.
\<close>

lemma model_file_last:
  assumes "modelgenMain title exec fmt fault False outDir pkg extended j st = Inr (files, out)" "unmarshalSchema j = Inr schema"
  shows "\<exists>src. Format exec fmt (DBArgs (GetDBTemplateData title pkg schema)) = Inr src \<and> files (outDir @ ''/model.go'') = Some src"
proof -
  obtain st' where "GenerateFile exec fmt fault False (outDir @ ''/model.go'') (DBArgs (GetDBTemplateData title pkg schema)) st' = Inr (files, out)"
    using assms by (auto simp: modelgenMain_def NewGenerator_def newOptions_def resR)
  then show ?thesis by (cases st') (auto simp: GenerateFile_def resR split: if_splits option.splits, metis fun_upd_same)
qed

lemma model_table_overwritten: "outDir @ ''/'' @ FileName ''Model'' = outDir @ ''/model.go''"
proof -
  have "FileName ''Model'' = ''model.go''" by code_simp
  then show ?thesis by simp
qed

section \<open>Names that clash and rules that are missing\<close>

lemma field_names_clash: "FieldName title ''a_b'' = FieldName title ''a__b''" "FieldName title ''a_b'' = FieldName title ''A_b''"
proof -
  have l: "toLower (trimUnderscore ''a_b'') = ''a_b''" "toLower (trimUnderscore ''A_b'') = ''a_b''" "toLower (trimUnderscore ''a__b'') = ''a__b''"
    by code_simp+
  show "FieldName title ''a_b'' = FieldName title ''a__b''" "FieldName title ''a_b'' = FieldName title ''A_b''"
    by (simp_all add: FieldName_def camelCase_def l)
qed

lemma enum_constant_invalid: "\<not> list_all identC (enumAliasSuffix title showReal (AInt (- 1)) TypeInteger)"
  by (simp add: enumAliasSuffix_def fmtVerb_def fmtAtom_def verbOf_def showInt_def identC_def charC)

lemma min_zero_not_validated: "getRealValidations showReal (b\<lparr>minReal := Some 0\<rparr>) = getRealValidations showReal (b\<lparr>minReal := None\<rparr>)"
proof -
  have l: "floorlog 2 (2 ^ 1074 :: nat) = 1075" "floorlog 2 (Suc 0) = 1" using floorlog_power [of 1 2 1074] by (simp_all add: floorlog_def)
  have r: "f64_round True 1 (2 ^ 1074) = 0x8000000000000001" "f64_round False 0 (2 ^ 1074) = 0"
    unfolding f64_round_def One_nat_def l Let_def by simp_all
  have n: "f64_num 0 = 0" "f64_num 1 = 1" "f64_num (f64_negate 1) = - 1" "\<not> f64_nan 0" "\<not> f64_inf 0" "\<not> f64_nan 1" "\<not> f64_inf 1"
      "\<not> f64_nan (f64_negate 1)" "\<not> f64_inf (f64_negate 1)" "\<not> f64_neg 1" by code_simp+
  have "f64_sub 0 1 = 0x8000000000000001" "f64_sub 1 1 = 0" using n r unfolding f64_sub_def f64_add_def by simp_all
  moreover have "f64_exp 0x3E112E0BE826D695 = 993" "\<not> f64_neg 0x3E112E0BE826D695" "(0x8000000000000001 :: f64) AND mask 63 = 1" by code_simp+
  ultimately have "floatEqual 0 1" "floatEqual 1 1" using n by (simp_all add: floatEqual_def f64_lt_def f64_nan_def f64_num_def f64_mag_def)
  then show ?thesis by (simp add: getRealValidations_def boundRule_def MinReal_def MaxReal_def)
qed

lemma min_length_not_validated: "getStringValidations showReal (b\<lparr>minLength := x\<rparr>) = getStringValidations showReal b"
  by (simp add: getStringValidations_def MaxLength_def quotedEnum_def)

section \<open>Examples\<close>

definition asciiTitle :: "string \<Rightarrow> string" where
  "asciiTitle s = (case s of [] \<Rightarrow> [] | c # cs \<Rightarrow> toUpperC c # cs)"

lemma titleLaw_asciiTitle: "titleLaw asciiTitle"
  using identC_toUpperC by (auto simp: titleLaw_def asciiTitle_def split: list.splits)

lemma field_names_ex: "map (FieldName asciiTitle) [''_uuid'', ''external_ids'', ''mac'', ''other_config''] = [''UUID'', ''ExternalIDs'', ''MAC'', ''OtherConfig'']"
  by code_simp

text \<open>A table with a plain column and an enumeration, alone and as an optional one.\<close>

definition exGenColumn :: "atom list option \<Rightarrow> int option \<Rightarrow> ColumnSchema" where
  "exGenColumn enum mn = \<lparr>cType = (if mn \<noteq> None then TypeSet else if enum \<noteq> None then TypeEnum else TypeString),
     TypeObj = Some \<lparr>Key = Some ((emptyBase TypeString)\<lparr>bEnum := enum\<rparr>), Value = None, minP = mn, maxP = None\<rparr>, ephemeral = None, mutable = None\<rparr>"

definition exGenSchema :: DatabaseSchema where
  "exGenSchema = \<lparr>Name = ''db'', Version = ''1.0'', Tables = [(''Port'', \<lparr>Columns =
     [(''name'', exGenColumn None None), (''bond_mode'', exGenColumn (Some [AStr ''active-backup'', AStr ''balance-slb'']) None),
      (''vlan_mode'', exGenColumn (Some [AStr ''access'', AStr ''trunk'']) (Some 0))], Indexes = [], IsRootF = True\<rparr>)], allTablesRoot = None\<rparr>"

theorem generated_model_accepted_witness:
  "\<exists>client db. FullDatabaseModel asciiTitle (\<lambda>_. []) True ''vswitchd'' exGenSchema = Some (Inr client)
    \<and> NewDatabaseModel exGenSchema client = Inr (Inr db) \<and> wfDb db \<and> keys (cdbTypes client) = [''Port'']"
proof -
  have "wfSchema exGenSchema" "exGenSchema \<noteq> emptySchema"
    by (simp_all add: wfSchema_def wfTable_def wfColumn_def wfBase_def isAtomicType_def exGenSchema_def exGenColumn_def emptyBase_def emptySchema_def
        inferType_def Min_def Max_def elems_def)
  moreover have "packageNames asciiTitle (\<lambda>_. []) True exGenSchema" by code_simp
  ultimately show ?thesis
    using generated_model_accepted [OF titleLaw_asciiTitle, of exGenSchema "\<lambda>_. []" True "''vswitchd''"] by (simp add: exGenSchema_def)
qed

lemma generated_types_ex:
  "FieldTypeWithEnums asciiTitle ''Port'' ''vlan_mode'' (exGenColumn (Some [AStr ''access'']) (Some 0)) = Inr ''*PortVLANMode''"
  "FieldType asciiTitle ''Port'' ''vlan_mode'' (exGenColumn (Some [AStr ''access'']) (Some 0)) = Inr ''*string''"
  by code_simp+

theorem generated_equality_witness:
  "genEqualsModel (exModel ''u1'' ''br0'') (exModel ''u1'' ''br0'') = Inr True \<and> genEqualsModel (exModel ''u1'' ''br0'') (exModel ''u1'' ''br1'') = Inr False"
proof -
  have n: "nativeStruct (mType (exModel u n))" for u n by (simp add: nativeStruct_def exModel_def exStruct_def)
  have "modelEqual (exModel ''u1'' ''br0'') (exModel ''u1'' ''br0'')" "\<not> modelEqual (exModel ''u1'' ''br0'') (exModel ''u1'' ''br1'')"
    by (simp_all add: modelEqual_def exModel_def exStruct_def)
  then show ?thesis
    using generated_equality [of "exModel ''u1'' ''br0''" "exModel ''u1'' ''br0''", OF wfModel_exModel wfModel_exModel _ n]
      generated_equality [of "exModel ''u1'' ''br0''" "exModel ''u1'' ''br1''", OF wfModel_exModel wfModel_exModel _ n]
    by (simp add: exModel_def)
qed

end
