(* ===== verification/ServerDb.thy ===== *)
theory ServerDb
  imports ModelGen
begin

text \<open>
  The package \<open>ovsdb/serverdb\<close>, with which the client follows the database \<open>_Server\<close>: its schema, its struct and its methods. The package was written
  by the generator and is checked in; it is compared with what the model of the generator in theory \<open>ModelGen\<close> makes of the schema.
\<close>

section \<open>The schema\<close>

definition optionalOf :: "string \<Rightarrow> json" where
  "optionalOf t = JObj [(''type'', JObj [(''key'', JObj [(''type'', JStr t)]), (''min'', JInt 0), (''max'', JInt 1)])]"

definition plainOf :: "string \<Rightarrow> json" where
  "plainOf t = JObj [(''type'', JStr t)]"

definition serverSchemaJson :: json where
  "serverSchemaJson = JObj [(''name'', JStr ''_Server''), (''version'', JStr ''1.2.0''), (''tables'', JObj [(''Database'', JObj [(''columns'', JObj
     [(''cid'', optionalOf ''uuid''),
      (''connected'', plainOf ''boolean''),
      (''index'', optionalOf ''integer''),
      (''leader'', plainOf ''boolean''),
      (''model'', JObj [(''type'', JObj [(''key'', JObj [(''type'', JStr ''string''),
          (''enum'', JArr [JStr ''set'', JArr [JStr ''standalone'', JStr ''clustered'', JStr ''relay'']])])])]),
      (''name'', plainOf ''string''),
      (''schema'', optionalOf ''string''),
      (''sid'', optionalOf ''uuid'')]),
     (''isRoot'', JBool True)])])]"

definition serverSchema :: "DatabaseSchema result" where
  "serverSchema = (case unmarshalSchema serverSchemaJson of Inl _ \<Rightarrow> Inl (Panic ''cannot unmarshal'') | Inr s \<Rightarrow> Inr s)"

section \<open>The struct and its methods\<close>

definition serverStruct :: StructType where
  "serverStruct = \<lparr>sName = ''Database'', sFields =
     [\<lparr>fName = ''UUID'', fTag = ''_uuid'', fType = RAtom GString\<rparr>,
      \<lparr>fName = ''Cid'', fTag = ''cid'', fType = RPtr GString\<rparr>,
      \<lparr>fName = ''Connected'', fTag = ''connected'', fType = RAtom GBool\<rparr>,
      \<lparr>fName = ''Index'', fTag = ''index'', fType = RPtr GInt\<rparr>,
      \<lparr>fName = ''Leader'', fTag = ''leader'', fType = RAtom GBool\<rparr>,
      \<lparr>fName = ''Model'', fTag = ''model'', fType = RAtom GString\<rparr>,
      \<lparr>fName = ''Name'', fTag = ''name'', fType = RAtom GString\<rparr>,
      \<lparr>fName = ''Schema'', fTag = ''schema'', fType = RPtr GString\<rparr>,
      \<lparr>fName = ''Sid'', fTag = ''sid'', fType = RPtr GString\<rparr>]\<rparr>"

definition serverFullDatabaseModel :: "ClientDBModel result" where
  "serverFullDatabaseModel = NewClientDBModel ''_Server'' [(''Database'', serverStruct)]"

record ServerDatabase =
  sdUUID :: string
  sdCid :: "string option"
  sdConnected :: bool
  sdIndex :: "64 word option"
  sdLeader :: bool
  sdModel :: string
  sdName :: string
  sdSchema :: "string option"
  sdSid :: "string option"

text \<open>The functions \<open>copyDatabaseCid\<close>, \<open>equalDatabaseCid\<close> and so on differ in the type of their argument only.\<close>

definition copyPtr :: "'a option \<Rightarrow> 'a option" where
  "copyPtr a = (case a of None \<Rightarrow> None | Some x \<Rightarrow> Some x)"

definition equalPtr :: "'a option \<Rightarrow> 'a option \<Rightarrow> bool" where
  "equalPtr a b = (if (a = None) \<noteq> (b = None) then False else if a = None \<and> b = None then True else the a = the b)"

definition serverDeepCopy :: "ServerDatabase \<Rightarrow> ServerDatabase" where
  "serverDeepCopy a = a\<lparr>sdCid := copyPtr (sdCid a), sdIndex := copyPtr (sdIndex a), sdSchema := copyPtr (sdSchema a), sdSid := copyPtr (sdSid a)\<rparr>"

definition serverEquals :: "ServerDatabase \<Rightarrow> ServerDatabase \<Rightarrow> bool" where
  "serverEquals a b = (sdUUID a = sdUUID b \<and> equalPtr (sdCid a) (sdCid b) \<and> sdConnected a = sdConnected b \<and> equalPtr (sdIndex a) (sdIndex b)
     \<and> sdLeader a = sdLeader b \<and> sdModel a = sdModel b \<and> sdName a = sdName b \<and> equalPtr (sdSchema a) (sdSchema b) \<and> equalPtr (sdSid a) (sdSid b))"

text \<open>The same object as a value of the struct type.\<close>

definition serverModel :: "ServerDatabase \<Rightarrow> Model" where
  "serverModel d = \<lparr>mType = serverStruct, mObj =
     [(''UUID'', VAtom (AStr (sdUUID d))), (''Cid'', VPtr GString (map_option AStr (sdCid d))), (''Connected'', VAtom (ABool (sdConnected d))),
      (''Index'', VPtr GInt (map_option AInt (sdIndex d))), (''Leader'', VAtom (ABool (sdLeader d))), (''Model'', VAtom (AStr (sdModel d))),
      (''Name'', VAtom (AStr (sdName d))), (''Schema'', VPtr GString (map_option AStr (sdSchema d))), (''Sid'', VPtr GString (map_option AStr (sdSid d)))]\<rparr>"

section \<open>The package is what the generator makes of the schema\<close>

definition serverColumn :: "ExtendedType \<Rightarrow> atom list option \<Rightarrow> (int \<times> int) option \<Rightarrow> ExtendedType \<Rightarrow> ColumnSchema" where
  "serverColumn t enum bnds ty = \<lparr>cType = ty, TypeObj = Some \<lparr>Key = Some ((emptyBase t)\<lparr>bEnum := enum\<rparr>), Value = None,
     minP = map_option fst bnds, maxP = map_option snd bnds\<rparr>, ephemeral = None, mutable = None\<rparr>"

definition serverTable :: TableSchema where
  "serverTable = \<lparr>Columns =
     [(''cid'', serverColumn TypeUUID None (Some (0, 1)) TypeSet), (''connected'', serverColumn TypeBoolean None None TypeBoolean),
      (''index'', serverColumn TypeInteger None (Some (0, 1)) TypeSet), (''leader'', serverColumn TypeBoolean None None TypeBoolean),
      (''model'', serverColumn TypeString (Some [AStr ''standalone'', AStr ''clustered'', AStr ''relay'']) None TypeEnum),
      (''name'', serverColumn TypeString None None TypeString), (''schema'', serverColumn TypeString None (Some (0, 1)) TypeSet),
      (''sid'', serverColumn TypeUUID None (Some (0, 1)) TypeSet)], Indexes = [], IsRootF = True\<rparr>"

lemmas decode = unmarshalColumn_def readObj_def readField_def someOf_def unmarshalType_def unmarshalBase_def typeOfName_def knownTypes_def
  isAtomicType_def readStr_def readInt_def newColumn_def inferType_def Min_def Max_def emptyBase_def elems_def serverColumn_def

lemma readMax_one: "readMax (JInt 1) = Inr (Some 1)"
  by (simp add: readMax_def f64_of_int_exact)

lemma decode_optional:
  "unmarshalColumn (optionalOf ''uuid'') = Inr (serverColumn TypeUUID None (Some (0, 1)) TypeSet)"
  "unmarshalColumn (optionalOf ''integer'') = Inr (serverColumn TypeInteger None (Some (0, 1)) TypeSet)"
  "unmarshalColumn (optionalOf ''string'') = Inr (serverColumn TypeString None (Some (0, 1)) TypeSet)"
  by (simp_all add: optionalOf_def decode readMax_one)

lemma decode_plain:
  "unmarshalColumn (plainOf ''boolean'') = Inr (serverColumn TypeBoolean None None TypeBoolean)"
  "unmarshalColumn (plainOf ''string'') = Inr (serverColumn TypeString None None TypeString)"
  by (simp_all add: plainOf_def decode)

lemma serverSchema_ok: "serverSchema = Inr \<lparr>Name = ''_Server'', Version = ''1.2.0'', Tables = [(''Database'', serverTable)], allTablesRoot = None\<rparr>"
proof -
  have "unmarshalColumn (JObj [(''type'', JObj [(''key'', JObj [(''type'', JStr ''string''),
        (''enum'', JArr [JStr ''set'', JArr [JStr ''standalone'', JStr ''clustered'', JStr ''relay'']])])])])
      = Inr (serverColumn TypeString (Some [AStr ''standalone'', AStr ''clustered'', AStr ''relay'']) None TypeEnum)"
    by (simp add: decode readEnum_def setItems_def enumAtom_def leaf_def)
  then show ?thesis
    by (simp add: serverSchema_def serverSchemaJson_def unmarshalSchema_def unmarshalTable_def decObj_def readObj_def readField_def readStr_def readBool_def
        decode_optional decode_plain serverTable_def)
qed


lemma serverModel_tag:
  "map_option (ValidationTag (\<lambda>_. [])) (Column serverTable ''model'')
     = Some ('' validate:'' @ quoteC @ ''oneof='' @ [CHR 0x27] @ ''standalone'' @ [CHR 0x27] @ '' '' @ [CHR 0x27] @ ''clustered'' @ [CHR 0x27] @ '' '' @ [CHR 0x27] @ ''relay'' @ [CHR 0x27] @ quoteC)"
  by code_simp

lemma equalPtr_field: "genEqualField (VPtr t (map_option f x)) (VPtr t' (map_option f y)) \<longleftrightarrow> equalPtr x y" if "inj f"
  using injD [OF that] by (cases x; cases y) (auto simp: equalPtr_def)

text \<open>Its checked-in methods are the generated ones.\<close>

theorem server_methods:
  "genEqualsModel (serverModel a) (serverModel b) = Inr (serverEquals a b) \<and> genDeepCopy (serverModel a) = serverModel (serverDeepCopy a)"
proof
  have "inj AStr" "inj AInt" by (auto intro: injI)
  then show "genEqualsModel (serverModel a) (serverModel b) = Inr (serverEquals a b)"
    by (simp add: genEqualsModel_def genEquals_def serverModel_def serverStruct_def serverEquals_def equalPtr_field del: genEqualField.simps(1))
  have "genCopyField (VPtr t x) = VPtr t x" for t x by (cases x) auto
  then show "genDeepCopy (serverModel a) = serverModel (serverDeepCopy a)"
    by (simp add: genDeepCopy_def genDeepCopyInto_def zeroModel_def serverModel_def serverDeepCopy_def copyPtr_def split: option.splits)
qed

end
