(* ===== verification/Spec2Isabelle.thy ===== *)
theory Spec2Isabelle
  imports ClientProps Conditions Serving ServerDb
begin

text \<open>
  A verification library for libovsdb, an OVSDB client and server library in Go (RFC 7047).

  \<^bold>\<open>The program.\<close> A schema (\<open>ovsdb/schema.go\<close>) describes tables of typed columns. The rows of a table are Go structs
  whose fields are mapped to columns by tags (\<open>mapper\<close>, \<open>model\<close>). Operations on rows become row
  updates with the difference of the old and the new value of every column (\<open>updates\<close>). A server (\<open>server\<close>) runs the operations of a transaction
  (\<open>database/transaction\<close>) against an in-memory database (\<open>database/inmemory\<close>), keeps referential integrity
  (\<open>updates/references.go\<close>, \<open>database/references.go\<close>), checks the indexes, commits the update and sends it to the monitors of its
  clients. A client (\<open>client\<close>) connects to one of its endpoints, fetches the schema, starts monitors and applies the notifications to its cache
  (\<open>cache\<close>), which is also the store of the in-memory database, and dispatches events to handlers; its API reads the cache and turns models into operations.
  Both sides speak JSON-RPC (\<open>ovsdb\<close>). The structs of the models are usually written by a generator (\<open>modelgen\<close>), which also wrote the package
  \<open>ovsdb/serverdb\<close>, by which the client follows the leadership of its server.

  \<^bold>\<open>The theories\<close>, in the order of their imports, with the code they model:

  \<^item> \<open>Prelude\<close>: fallible results and loops (\<open>bindR\<close>, \<open>foldR\<close>, \<open>foldS\<close>, \<open>mapR\<close>), Go maps as association lists.
  \<^item> \<open>Values\<close>: the values behind \<open>any\<close>, with 64-bit integers and IEEE floats, and the errors.
  \<^item> \<open>Schema\<close>: \<open>ovsdb/schema.go\<close>, \<open>notation.go\<close> and the records of the protocol.
  \<^item> \<open>Bindings\<close>: \<open>ovsdb/bindings.go\<close>; round trip of the conversion between native and wire values, typing.
  \<^item> \<open>Conditions\<close>: \<open>ovsdb/condition.go\<close>; validated conditions evaluate.
  \<^item> \<open>OpErrors\<close>: \<open>ovsdb/error.go\<close>; errors through results and back, the check of the results.
  \<^item> \<open>NamedUuid\<close>: \<open>ovsdb/uuid.go\<close>, \<open>named_uuid.go\<close>; what the expansion of names guarantees.
  \<^item> \<open>Difference\<close>: \<open>updates/difference.go\<close>; the locale \<open>delta\<close> states the laws of differences, interpreted on the code's three operations.
  \<^item> \<open>Mutate\<close>: \<open>updates/mutate.go\<close>; values and deltas of mutations, wrap-around of integers.
  \<^item> \<open>Mapper\<close>: \<open>mapper\<close>; the locale \<open>fields\<close>, round trip of a model through a row.
  \<^item> \<open>DbModel\<close>: \<open>model\<close>; what a validated database model guarantees.
  \<^item> \<open>Updates\<close>: \<open>updates/updates.go\<close>, \<open>merge.go\<close>; the delta of an update takes the old model to the new one, merging is local.
  \<^item> \<open>UuidSet\<close>, \<open>RowCache\<close>: \<open>cache/uuidset.go\<close> and the row cache of \<open>cache/cache.go\<close>; the locales \<open>uuid_sets\<close> and
    \<open>index_store\<close>, the invariant that the indexes describe the rows exactly, soundness of searches.
  \<^item> \<open>TableCache\<close>: the table cache and the event processor; the locale \<open>row_store\<close>, updates refine a pointwise update,
    events are complete and delivered, notifications replicate.
  \<^item> \<open>References\<close>, \<open>RefTracker\<close>: \<open>database/references.go\<close>, \<open>updates/references.go\<close>; the locales \<open>reference_store\<close> and
    \<open>reference_provider\<close>, strong integrity after the loop, only garbage is collected.
  \<^item> \<open>Database\<close>: \<open>database/inmemory/inmemory.go\<close>; it interprets \<open>reference_provider\<close>, a commit refines a pointwise update.
  \<^item> \<open>Transaction\<close>: \<open>database/transaction\<close>; what operations read, which results there are, that waits end, what the index check finds.
  \<^item> \<open>Server\<close>: \<open>server/server.go\<close>, \<open>monitor.go\<close>, \<open>ovsdb/monitor_select.go\<close>; transactions are atomic, what monitors send, and the way of an update from
    the server to a client's cache.
  \<^item> \<open>Serving\<close>: the rest of \<open>server/server.go\<close>; registered calls, accepting connections, closing without an error.

  \<^item> \<open>ClientApi\<close>: \<open>client/condition.go\<close>, \<open>api.go\<close>, \<open>validation.go\<close>; the locale \<open>conditional\<close>, which rows a conditional matches and which ones its
    generated conditions select, what created models and updates become.
  \<^item> \<open>Client\<close>, \<open>ClientProps\<close>: \<open>client/client.go\<close>, \<open>monitor.go\<close>, \<open>options.go\<close>; a step relation with one rule for each call and event and the invariant of
    its reachable states, the order of replies and notifications, the fallback between the monitor calls, endpoints, results of queries.
  \<^item> \<open>Json\<close>, \<open>JsonMessages\<close>, \<open>SchemaJson\<close>: the JSON forms of values, rows, operations, results, updates, requests and schemas (\<open>ovsdb/uuid.go\<close>,
    \<open>set.go\<close>, \<open>map.go\<close>, \<open>row.go\<close>, \<open>condition.go\<close>, \<open>mutation.go\<close>, \<open>notation.go\<close>, \<open>updates2.go\<close>, \<open>update3.go\<close>, \<open>monitor_select.go\<close>, \<open>rpc.go\<close>,
    \<open>schema.go\<close>) and the argument lists that the server reads; the locale \<open>codec\<close>, interpreted on each of them, and round trips over the wire.
  \<^item> \<open>ModelGen\<close>, \<open>ServerDb\<close>: \<open>modelgen\<close>, \<open>cmd/modelgen\<close> and \<open>ovsdb/serverdb\<close>; the generated package is accepted by the library for its schema, the generated
    comparison and copies agree with the library's own, the checked-in package is what the generator makes.

  \<^bold>\<open>How the code is represented.\<close> A struct is a record, a Go map an association list with distinct keys, whose order stands for
  the iteration order that the language leaves open; a nil pointer, slice or map is \<open>None\<close>. A function that returns an error or may panic returns a
  sum, the error on the left, with \<open>Panic\<close> for run-time panics; where the state changed before an error matters, the state is returned
  together with an optional error. Loops that may not end are \<open>partial_function (option)\<close>: \<open>None\<close> is a loop that does not return (the loop of the
  reference tracker, the wait operation). The one bound by fuel is the event loop, whose fuel is the number of rounds before it is stopped;
  as many rounds as there are events are enough.

  \<^bold>\<open>Parameters.\<close> The UUIDs that the uuid package generates, the clock and the callbacks of event handlers are arguments of the
  definitions that use them. So are the struct validator of the client, the server at the other end of a connection and the network it is dialled through,
  none of which is assumed to behave; the title caser of \<open>golang.org/x/text\<close>, of which \<open>titleLaw\<close> states the documented effect on identifiers, the
  template engine, the Go formatter and the texts of reals. The reference tracker takes its database as a \<open>ReferenceProvider\<close>, which \<open>Database\<close> provides.

  \<^bold>\<open>Simplifications.\<close> Equality of floats is equality of their bits. \<open>model.Clone\<close> is the identity, because models are values. A
  multi-column index value is the list of the encoded values instead of a hash of them. Texts of errors made with \<open>fmt.Errorf\<close> are the fixed parts of
  the messages. Locks make the operations atomic; what runs between them is a sequence of such steps. Slices of references are
  values, the sharing of their memory between the tracker and the database is not followed. A JSON text is its tree; fields of objects
  are matched by their exact names, the first fault of an object ends its decoding, and a decoded schema stops at \<open>null\<close> columns and at enumerated
  values that are no atoms, for which the code keeps pointers and values that fail later. In the theories below \<open>Json\<close> values on the wire are the decoded
  ones. Names of tables and columns are ASCII in the generator.

  \<^bold>\<open>Findings.\<close> The theorems \<open>duplicate_index_accepted\<close>, \<open>renamed_row_fails_second_operation\<close>, \<open>replaced_row_rejected_after_select\<close> (\<open>Transaction\<close>),
  \<open>weak_removal_lost_across_rounds\<close>, \<open>weak_set_removal_lost\<close>, \<open>optional_reference_change_stale\<close>, \<open>map_key_reference_dropped\<close> (\<open>RefTracker\<close>),
  \<open>map_key_name_not_expanded\<close> (\<open>NamedUuid\<close>), \<open>mutate_nil_map_loses_second_insert\<close> (\<open>Updates\<close>), \<open>mutate_set_arith_delta\<close> (\<open>Mutate\<close>) and \<open>Evaluate_excludes_partial_overlap\<close>
  (\<open>Conditions\<close>), \<open>Update_uuid_field_panics\<close>, \<open>CloneInto_keeps_entries\<close> (\<open>ClientApi\<close>), \<open>monitor_leaks_read_lock\<close>, \<open>update3_cancelled_monitor_panics\<close>,
  \<open>update_short_params_panic\<close>, \<open>failed_replay_keeps_buffer\<close>, \<open>connected_after_server_close\<close>, \<open>SetOption_endpoint_ignored\<close>, \<open>MonitorCancel_other_database\<close>,
  \<open>validation_failure_is_permanent\<close>, \<open>reconnect_with_two_monitors\<close> (\<open>ClientProps\<close>), \<open>big_integer_changes\<close> (\<open>Json\<close>), \<open>decoder_panics\<close>, \<open>malformed_uuid_accepted\<close>,
  \<open>result_uuid_written\<close>, \<open>condition_column_panics\<close> (\<open>JsonMessages\<close>), \<open>minLength_lost\<close>, \<open>reference_type_not_printed\<close> (\<open>SchemaJson\<close>), \<open>field_names_clash\<close>,
  \<open>enum_constant_invalid\<close>, \<open>min_zero_not_validated\<close>, \<open>min_length_not_validated\<close>, \<open>model_table_overwritten\<close> (\<open>ModelGen\<close>) and \<open>lock_not_registered\<close> (\<open>Serving\<close>) evaluate the
  model where the code does not do what it means to.

  \<^bold>\<open>Not modelled.\<close> Sockets and the JSON-RPC transport, TLS, loggers, timers and the goroutines that wait on channels (their handlers are modelled as steps);
  the methods of the client that only pass their arguments on to the API of the primary database; the text of the templates beyond the declarations
  it makes; telemetry (\<open>cache/metrics.go\<close>, \<open>client/metrics.go\<close>); the other commands, examples and tests. None of these has logic of its own.
\<close>

end
